(* ===== verification/PS_Prelude.thy ===== *)
theory PS_Prelude
  imports Main "HOL-Library.Word"
begin

text \<open>
  Shared vocabulary of the print-server development.

  The firmware is compiled for a 32-bit ARM: \<open>uint8\<close>/\<open>BYTE\<close> are 8-bit words, \<open>uint16\<close>/\<open>WORD\<close>
  16-bit words, \<open>uint32\<close>/\<open>DWORD\<close>/\<open>unsigned long\<close> 32-bit words. A C \<open>int\<close> is an Isabelle \<^typ>\<open>int\<close>
  where its value cannot leave the 32-bit range and is converted explicitly where C converts.

  The theory holds the type names, the linked-list abstraction that the index-linked queues of
  the spooler share (\<open>chain\<close> and its functional counterpart \<open>walk\<close>), and the generic lemmas on
  bytes and lists that the components use.
\<close>

unbundle bit_operations_syntax

type_synonym u8 = "8 word"
type_synonym u16 = "16 word"
type_synonym u32 = "32 word"

text \<open>The longest name of the box, \<open>src/apps/ps/common/incl/eeprom.h\<close>.\<close>

definition LENGTH_OF_BOX_NAME :: nat where "LENGTH_OF_BOX_NAME = 18"

named_theorems ps_defs \<open>definitions a proof about one operation unfolds\<close>
named_theorems ps_inv \<open>preservation of component invariants\<close>

section \<open>Index-linked lists\<close>

text \<open>
  The queues of the spooler are linked by 8-bit indices into a buffer array, with \<open>0xFF\<close> as the
  null index. \<open>chain nx x is\<close>: starting at index \<open>x\<close> and following the links \<open>nx\<close>, the indices
  met are exactly \<open>is\<close>, and the last link is null.
\<close>

definition NULL_BYTE :: u8 where
  "NULL_BYTE = 0xFF"

primrec chain :: "u8 list \<Rightarrow> u8 \<Rightarrow> nat list \<Rightarrow> bool" where
  "chain nx x [] \<longleftrightarrow> x = NULL_BYTE"
| "chain nx x (i # is) \<longleftrightarrow> x = of_nat i \<and> i < 255 \<and> i < length nx \<and> chain nx (nx ! i) is"

text \<open>The indices met when at most \<open>k\<close> links are followed.\<close>

fun walk :: "nat \<Rightarrow> u8 list \<Rightarrow> u8 \<Rightarrow> nat list" where
  "walk 0 nx x = []"
| "walk (Suc k) nx x =
     (if x = NULL_BYTE \<or> length nx \<le> unat x then [] else unat x # walk k nx (nx ! unat x))"

section \<open>Generic lemmas\<close>

lemma unat_of_nat_u8 [simp]: "i < 256 \<Longrightarrow> unat (of_nat i :: u8) = i"
  by (simp add: unat_of_nat)

lemma of_nat_u8_eq_iff: "i < 256 \<Longrightarrow> j < 256 \<Longrightarrow> (of_nat i :: u8) = of_nat j \<longleftrightarrow> i = j"
  by (metis unat_of_nat_u8)

lemma of_nat_u8_not_null [simp]: "i < 255 \<Longrightarrow> (of_nat i :: u8) \<noteq> NULL_BYTE"
  using of_nat_u8_eq_iff [of i 255] by (simp add: NULL_BYTE_def)

lemma distinct_subset_length_le: "distinct xs \<Longrightarrow> set xs \<subseteq> {..<n} \<Longrightarrow> length xs \<le> n"
  by (metis card_lessThan card_mono distinct_card finite_lessThan)

lemma chain_in_range: "chain nx x is \<Longrightarrow> set is \<subseteq> {..<length nx}"
  by (induction "is" arbitrary: x) auto

lemma chain_small: "chain nx x is \<Longrightarrow> i \<in> set is \<Longrightarrow> i < 255"
  by (induction "is" arbitrary: x) auto

lemma chain_update_other [simp]:
  "i \<notin> set is \<Longrightarrow> chain (nx[i := v]) x is = chain nx x is"
  by (induction "is" arbitrary: x) auto

lemma chain_null_iff: "chain nx x is \<Longrightarrow> x = NULL_BYTE \<longleftrightarrow> is = []"
  by (cases "is") auto

lemma chain_walk: "chain nx x is \<Longrightarrow> length is \<le> k \<Longrightarrow> walk k nx x = is"
proof (induction "is" arbitrary: x k)
  case Nil
  then show ?case by (cases k) auto
next
  case (Cons i "is")
  then obtain k' where "k = Suc k'" by (cases k) auto
  with Cons show ?case by auto
qed

text \<open>Appending \<open>b\<close> behind the last element \<open>t\<close>: the link of \<open>t\<close> is set to \<open>b\<close>, that of \<open>b\<close> to null.\<close>

lemma chain_snoc:
  assumes "chain nx x (is @ [t])" "distinct (is @ [t])" "b \<notin> set (is @ [t])"
    and "b < length nx" "b < 255" "nx ! b = NULL_BYTE"
  shows "chain (nx[t := of_nat b]) x (is @ [t, b])"
  using assms
proof (induction "is" arbitrary: x)
  case Nil
  then show ?case by auto
next
  case (Cons i "is")
  then show ?case by auto
qed

lemma map_nth_update:
  "i < length xs \<Longrightarrow> map f (xs[i := y]) = (map f xs)[i := f y]"
  by (simp add: map_update)

lemma div_mod_unique:
  fixes n :: nat
  assumes "i * n + j = i' * n + j'" "j < n" "j' < n"
  shows "i = i' \<and> j = j'"
proof -
  have "(i * n + j) div n = i" "(i * n + j) mod n = j" "(i' * n + j') div n = i'" "(i' * n + j') mod n = j'"
    using assms(2,3) by simp_all
  with assms(1) show ?thesis by metis
qed

lemma map_eq_nth: "map f xs = map f ys \<Longrightarrow> i < length ys \<Longrightarrow> f (xs ! i) = f (ys ! i)"
  by (metis length_map nth_map)

lemma nth_update_same_field:
  "f y = f (xs ! i) \<Longrightarrow> map f (xs[i := y]) = map f xs"
  by (metis list_update_id map_update)


text \<open>Splitting a string at a separator.\<close>

lemma split_at_sep:
  assumes "x \<notin> set a"
  shows "takeWhile (\<lambda>c. c \<noteq> x) (a @ x # r) = a" "dropWhile (\<lambda>c. c \<noteq> x) (a @ x # r) = x # r"
    "takeWhile (\<lambda>c. c \<noteq> x) a = a" "dropWhile (\<lambda>c. c \<noteq> x) a = []"
  using assms by (induction a) auto

end
