(* ===== verification/Cstring.thy ===== *)
theory Cstring
  imports PS_Prelude
begin

text \<open>
  The string helpers of the print server, \<open>src/apps/ps/common/src/psmain.c\<close>.

  A C string is the \<^typ>\<open>u8 list\<close> of its bytes before the terminating NUL; \<open>cchar\<close> reads the
  byte at the current position, which is the NUL at the end. \<open>memicmp\<close> works on two memory
  blocks, lists of at least \<open>count\<close> bytes.
\<close>

definition cchar :: "u8 list \<Rightarrow> u8" where
  "cchar s = (case s of [] \<Rightarrow> 0 | c # _ \<Rightarrow> c)"

text \<open>Strings free of NUL bytes: the values a C string variable can hold.\<close>

definition c_str :: "u8 list \<Rightarrow> bool" where
  "c_str s \<longleftrightarrow> 0 \<notin> set s"

definition cstr :: "string \<Rightarrow> u8 list" where
  "cstr s = map of_char s"

text \<open>\<open>tolower\<close> and \<open>toupper\<close> of the C library in the C locale.\<close>

definition tolower :: "u8 \<Rightarrow> u8" where
  "tolower c = (if 65 \<le> c \<and> c \<le> 90 then c + 32 else c)"

definition toupper :: "u8 \<Rightarrow> u8" where
  "toupper c = (if 97 \<le> c \<and> c \<le> 122 then c - 32 else c)"

text \<open>
  \<open>memicmp\<close>: the loop keeps the last folded pair in \<open>f\<close> and \<open>l\<close>; the result is their difference
  when the loop ends.
\<close>

fun memicmp_loop :: "u8 list \<Rightarrow> u8 list \<Rightarrow> nat \<Rightarrow> int \<Rightarrow> int \<Rightarrow> int" where
  "memicmp_loop first second 0 f l = f - l"
| "memicmp_loop first second (Suc count) f l =
     (if cchar first = cchar second then memicmp_loop (tl first) (tl second) count f l
      else if tolower (cchar first) = tolower (cchar second)
        then memicmp_loop (tl first) (tl second) count
               (uint (tolower (cchar first))) (uint (tolower (cchar second)))
      else uint (tolower (cchar first)) - uint (tolower (cchar second)))"

definition memicmp :: "u8 list \<Rightarrow> u8 list \<Rightarrow> nat \<Rightarrow> int" where
  "memicmp first second count = memicmp_loop first second count 0 0"

text \<open>
  \<open>strnicmp\<close> compares plain \<open>char\<close>s; the ARM ABI makes \<open>char\<close> unsigned. The loop ends with 0
  as soon as either string ends or \<open>n\<close> bytes were compared.
\<close>

fun strnicmp :: "u8 list \<Rightarrow> u8 list \<Rightarrow> nat \<Rightarrow> int" where
  "strnicmp a b 0 = 0"
| "strnicmp a b (Suc n) =
     (if cchar a = 0 \<or> cchar b = 0 then 0
      else if cchar a = cchar b then strnicmp (tl a) (tl b) n
      else if tolower (cchar a) = tolower (cchar b) then strnicmp (tl a) (tl b) n
      else if tolower (cchar a) > tolower (cchar b) then 1
      else -1)"

function stricmp :: "u8 list \<Rightarrow> u8 list \<Rightarrow> int" where
  "stricmp a b =
     (if tolower (cchar a) > tolower (cchar b) then 1
      else if tolower (cchar a) < tolower (cchar b) then -1
      else if tolower (cchar a) \<noteq> 0 \<and> tolower (cchar a) = tolower (cchar b)
        then stricmp (tl a) (tl b) else 0)"
  by pat_completeness auto
termination
  by (relation "measure (\<lambda>(a, b). length a)")
    (auto simp: cchar_def tolower_def split: list.splits if_splits)

declare stricmp.simps [simp del]

fun strupr :: "u8 list \<Rightarrow> u8 list" where
  "strupr [] = []"
| "strupr (c # cs) = (if 97 \<le> c \<and> c \<le> 122 then c + (65 - 97) else c) # strupr cs"

section \<open>Lemmas\<close>

lemma cchar_simps [simp]: "cchar [] = 0" "cchar (c # cs) = c"
  by (simp_all add: cchar_def)

lemma c_str_simps [simp]: "c_str []" "c_str (c # cs) \<longleftrightarrow> c \<noteq> 0 \<and> c_str cs"
  by (auto simp: c_str_def)

lemma c_str_append [simp]: "c_str (a @ b) \<longleftrightarrow> c_str a \<and> c_str b"
  by (auto simp: c_str_def)

lemma c_str_drop: "c_str s \<Longrightarrow> c_str (drop n s)"
  by (auto simp: c_str_def dest: in_set_dropD)

lemma tolower_eq_0 [simp]: "tolower c = 0 \<longleftrightarrow> c = 0"
proof
  assume "tolower c = 0"
  then show "c = 0"
    by (auto simp: tolower_def word_le_nat_alt unat_eq_0 [symmetric] unat_word_ariths split: if_splits)
qed (simp add: tolower_def)

lemma tolower_0 [simp]: "tolower 0 = 0"
  by simp

lemma strupr_map: "strupr s = map toupper s"
  by (induction s) (auto simp: toupper_def)

lemma toupper_idem [simp]: "toupper (toupper c) = toupper c"
proof (cases "97 \<le> c \<and> c \<le> 122")
  case True
  then have "97 \<le> unat c" "unat c \<le> 122" by (auto simp: word_le_nat_alt)
  then have "unat (c - 32) = unat c - 32"
    by (subst unat_sub) (auto simp: word_le_nat_alt)
  with \<open>unat c \<le> 122\<close> have "\<not> 97 \<le> c - 32" by (simp add: word_le_nat_alt)
  with True show ?thesis by (simp add: toupper_def)
qed (simp add: toupper_def)

lemma stricmp_Nil [simp]: "stricmp [] [] = 0"
  by (subst stricmp.simps) simp

lemma stricmp_end_left [simp]: "c \<noteq> 0 \<Longrightarrow> stricmp [] (c # cs) \<noteq> 0"
  by (subst stricmp.simps) (auto simp: word_gt_0)

lemma stricmp_end_right [simp]: "c \<noteq> 0 \<Longrightarrow> stricmp (c # cs) [] \<noteq> 0"
  by (subst stricmp.simps) (auto simp: word_gt_0)

lemma stricmp_Cons:
  "c \<noteq> 0 \<Longrightarrow> stricmp (c # cs) (d # ds) = 0 \<longleftrightarrow> tolower c = tolower d \<and> stricmp cs ds = 0"
  by (subst stricmp.simps) auto

lemma stricmp_zero_iff:
  "c_str a \<Longrightarrow> c_str b \<Longrightarrow> stricmp a b = 0 \<longleftrightarrow> map tolower a = map tolower b"
proof (induction a arbitrary: b)
  case Nil
  then show ?case by (cases b) auto
next
  case (Cons c cs)
  then show ?case by (cases b) (auto simp: stricmp_Cons)
qed

lemma memicmp_loop_zero_iff:
  "count \<le> length a \<Longrightarrow> count \<le> length b \<Longrightarrow> f = l \<Longrightarrow>
   memicmp_loop a b count f l = 0 \<longleftrightarrow> map tolower (take count a) = map tolower (take count b)"
proof (induction a b count f l rule: memicmp_loop.induct)
  case (2 first second count f l)
  then obtain x xs y ys where "first = x # xs" "second = y # ys"
    by (metis Suc_le_length_iff)
  with 2 show ?case by (auto simp: word_uint_eq_iff [symmetric])
qed simp

lemma memicmp_zero_iff:
  "count \<le> length a \<Longrightarrow> count \<le> length b \<Longrightarrow>
   memicmp a b count = 0 \<longleftrightarrow> map tolower (take count a) = map tolower (take count b)"
  by (simp add: memicmp_def memicmp_loop_zero_iff)

text \<open>\<open>strnicmp\<close> stops at the end of the shorter string, so a string equals each of its prefixes.\<close>

lemma strnicmp_zero_iff:
  "c_str a \<Longrightarrow> c_str b \<Longrightarrow> strnicmp a b n = 0 \<longleftrightarrow>
   (let k = min n (min (length a) (length b))
    in map tolower (take k a) = map tolower (take k b))"
proof (induction a b n rule: strnicmp.induct)
  case (2 a b n)
  then show ?case by (cases a; cases b) (auto simp: Let_def)
qed (simp add: Let_def)

end
