(* ===== verification/Spool_State.thy ===== *)
theory Spool_State
  imports Cstring
begin

text \<open>
  The state of the print spooler: the data of \<open>src/apps/spooler/incl/prnqueue.h\<close> and
  \<open>src/apps/spooler/incl/prnport.h\<close>, and the file-level variables of \<open>prnqueue.c\<close> and
  \<open>prnport.c\<close>.

  A \<open>PrnBuf *\<close> always points into the array \<open>PrinterList[port].buf\<close>, so it is modelled by its
  index there and the null pointer by \<^const>\<open>None\<close>. The memory the \<open>data\<close> pointers address is the
  store \<open>qmem\<close>. The counting semaphore \<open>SP_SIGNAL_PORT_1\<close> is its count, the USB printer's side of
  \<open>usblp_write\<close> is the byte sequence \<open>usb_out\<close> handed to it.

  Configuration: \<open>NUM_OF_PRN_PORT\<close> = 1, \<open>NUM_OF_1284_PORT\<close> = 0, \<open>PRNQUEUELEN\<close> = 10 and
  \<open>BLOCKSIZE\<close> = 1460*7 (\<open>pstarget.h\<close>, \<open>psglobal.h\<close>; \<open>USB_ZERO_CPY\<close>, \<open>SUPPORT_PRN_COUNT\<close> and
  \<open>PRNTEST\<close> are not defined).
\<close>

definition NUM_OF_PRN_PORT :: nat where "NUM_OF_PRN_PORT = 1"
definition NUM_OF_1284_PORT :: nat where "NUM_OF_1284_PORT = 0"
definition PRNQUEUELEN :: nat where "PRNQUEUELEN = 10"
definition BLOCKSIZE :: nat where "BLOCKSIZE = 1460 * 7"
definition PRINT_QUEUE_ADDRESS :: nat where "PRINT_QUEUE_ADDRESS = 0x530000"
definition TICKS_PER_SECOND :: u32 where "TICKS_PER_SECOND = 100"

text \<open>Queue buffer flags.\<close>

definition PRN_Q_NORMAL :: u8 where "PRN_Q_NORMAL = 0"
definition PRN_Q_EOF :: u8 where "PRN_Q_EOF = 1"
definition PRN_Q_ABORT :: u8 where "PRN_Q_ABORT = 2"

text \<open>Owners of a printer port (\<open>InUse\<close>).\<close>

definition PrnNoUsed :: u8 where "PrnNoUsed = 0"
definition PrnAbortUsed :: u8 where "PrnAbortUsed = 1"
definition NTUsed :: u8 where "NTUsed = 2"
definition NetwareUsed :: u8 where "NetwareUsed = 3"
definition UnixUsed :: u8 where "UnixUsed = 4"
definition RawTcpUsed :: u8 where "RawTcpUsed = 8"
definition DeviceIDUsed :: u8 where "DeviceIDUsed = 0x10"
definition NoJobHolded :: u8 where "NoJobHolded = 0"

text \<open>Port status codes and status register bits.\<close>

definition PORT_READY :: u8 where "PORT_READY = 0"
definition PORT_PAPER_OUT :: u8 where "PORT_PAPER_OUT = 1"
definition PORT_OFF_LINE :: u8 where "PORT_OFF_LINE = 2"
definition PORT_PRINTING :: u8 where "PORT_PRINTING = 3"
definition PARPORT_STATUS_ERROR :: u8 where "PARPORT_STATUS_ERROR = 0x08"
definition PARPORT_STATUS_SELECT :: u8 where "PARPORT_STATUS_SELECT = 0x10"
definition PARPORT_STATUS_PAPEROUT :: u8 where "PARPORT_STATUS_PAPEROUT = 0x20"
definition PARPORT_STATUS_ACK :: u8 where "PARPORT_STATUS_ACK = 0x40"
definition PARPORT_STATUS_BUSY :: u8 where "PARPORT_STATUS_BUSY = 0x80"
definition PARPORT_CONTROL_SELECT :: u8 where "PARPORT_CONTROL_SELECT = 0x08"
definition PRN_NO_PRINTER :: u8 where "PRN_NO_PRINTER = 0"
definition PRN_USB_PRINTER :: u8 where "PRN_USB_PRINTER = 3"
definition P1284_PJL :: u8 where "P1284_PJL = 0x01"
definition P1284_PCL :: u8 where "P1284_PCL = 0x02"
definition P1284_POSTSCRIPT :: u8 where "P1284_POSTSCRIPT = 0x04"

lemmas port_consts =
  PORT_READY_def PORT_PAPER_OUT_def PORT_OFF_LINE_def PORT_PRINTING_def

lemmas status_bits =
  PARPORT_STATUS_ERROR_def PARPORT_STATUS_SELECT_def PARPORT_STATUS_PAPEROUT_def
  PARPORT_STATUS_ACK_def PARPORT_STATUS_BUSY_def PARPORT_CONTROL_SELECT_def

text \<open>\<open>struct prnbuf\<close>.\<close>

record prnbuf =
  b_size :: int
  b_data :: nat
  b_flags :: u8
  Nextbuf :: u8

text \<open>\<open>struct printstatus\<close>.\<close>

record printstatus =
  PrinterName :: "u8 list"
  buf :: "prnbuf list"
  reverse :: prnbuf
  InUse :: u8
  HoldMode :: u8
  OutQueueHead :: u8
  OutQueueTail :: u8
  InQueue :: u8
  AvailQueueNO :: u8
  IsPrinting :: u8
  IsPrintStartTime :: u32

text \<open>\<open>struct parport\<close>; the four device strings are null until a device id was parsed.\<close>

record parport =
  p_base :: nat
  p_ctr :: u8
  PrnMode :: u8
  PrnReadBackMode :: u8
  HasGetDeviceID :: u8
  SupportLang :: u8
  Manufacture :: "u8 list option"
  Model :: "u8 list option"
  CommandSet :: "u8 list option"
  Description :: "u8 list option"
  PortStatus :: u8
  BlockCount :: u32
  PortTimeout :: int
  TotalSize :: int
  DataSize :: int
  DataPtr :: nat

record spool =
  PrinterList :: "printstatus list"
  pNoUseBuf :: "nat option list"
  PortIO :: "parport list"
  G_PortReady :: u8
  SP_SIGNAL_PORT_1 :: nat
  qmem :: "nat \<Rightarrow> u8"
  usblp_table :: "nat \<Rightarrow> bool"
  usb_out :: "u8 list"

text \<open>
  The spooler's static data before initialisation: zeroed arrays of \<open>NUM_OF_PRN_PORT\<close> ports with
  \<open>PRNQUEUELEN\<close> buffers each.
\<close>

definition zero_buf :: prnbuf where
  "zero_buf = \<lparr>b_size = 0, b_data = 0, b_flags = 0, Nextbuf = 0\<rparr>"

definition zero_ps :: printstatus where
  "zero_ps = \<lparr>PrinterName = [], buf = replicate PRNQUEUELEN zero_buf, reverse = zero_buf, InUse = 0,
     HoldMode = 0, OutQueueHead = 0, OutQueueTail = 0, InQueue = 0, AvailQueueNO = 0, IsPrinting = 0,
     IsPrintStartTime = 0\<rparr>"

definition zero_parport :: parport where
  "zero_parport = \<lparr>p_base = 0, p_ctr = 0, PrnMode = 0, PrnReadBackMode = 0, HasGetDeviceID = 0,
     SupportLang = 0, Manufacture = None, Model = None, CommandSet = None, Description = None,
     PortStatus = 0, BlockCount = 0, PortTimeout = 0, TotalSize = 0, DataSize = 0, DataPtr = 0\<rparr>"

definition spool_static :: spool where
  "spool_static = \<lparr>PrinterList = replicate NUM_OF_PRN_PORT zero_ps,
     pNoUseBuf = replicate NUM_OF_PRN_PORT None, PortIO = replicate NUM_OF_PRN_PORT zero_parport,
     G_PortReady = 0, SP_SIGNAL_PORT_1 = 0, qmem = (\<lambda>_. 0), usblp_table = (\<lambda>_. False), usb_out = []\<rparr>"

text \<open>Write-back of one array element; \<open>set_bufs\<close> replaces buffer \<open>i\<close> of a port.\<close>

definition set_ps :: "nat \<Rightarrow> printstatus \<Rightarrow> spool \<Rightarrow> spool" where
  "set_ps p ps s = s\<lparr>PrinterList := (PrinterList s)[p := ps]\<rparr>"

definition set_buf :: "nat \<Rightarrow> prnbuf \<Rightarrow> printstatus \<Rightarrow> printstatus" where
  "set_buf i b ps = ps\<lparr>buf := (buf ps)[i := b]\<rparr>"

definition set_pio :: "nat \<Rightarrow> parport \<Rightarrow> spool \<Rightarrow> spool" where
  "set_pio p io s = s\<lparr>PortIO := (PortIO s)[p := io]\<rparr>"

text \<open>The bytes a buffer holds, and writing bytes to the store.\<close>

definition mem_read :: "(nat \<Rightarrow> u8) \<Rightarrow> nat \<Rightarrow> nat \<Rightarrow> u8 list" where
  "mem_read m a n = map m [a ..< a + n]"

definition mem_write :: "(nat \<Rightarrow> u8) \<Rightarrow> nat \<Rightarrow> u8 list \<Rightarrow> (nat \<Rightarrow> u8)" where
  "mem_write m a bs = (\<lambda>x. if a \<le> x \<and> x < a + length bs then bs ! (x - a) else m x)"

definition buf_bytes :: "nat \<Rightarrow> nat \<Rightarrow> spool \<Rightarrow> u8 list" where
  "buf_bytes p i s =
     (let b = buf (PrinterList s ! p) ! i in mem_read (qmem s) (b_data b) (nat (b_size b)))"

section \<open>Lemmas\<close>

lemma mem_read_length [simp]: "length (mem_read m a n) = n"
  by (simp add: mem_read_def)

lemma mem_read_write_same: "mem_read (mem_write m a bs) a (length bs) = bs"
  by (rule nth_equalityI) (auto simp: mem_read_def mem_write_def)

lemma mem_read_write_other:
  "a + length bs \<le> c \<or> c + n \<le> a \<Longrightarrow> mem_read (mem_write m a bs) c n = mem_read m c n"
  by (auto simp: mem_read_def mem_write_def)

lemma mem_read_append: "mem_read m a (k + n) = mem_read m a k @ mem_read m (a + k) n"
proof -
  have "[a ..< a + (k + n)] = [a ..< a + k] @ [a + k ..< a + k + n]"
    by (metis add.assoc le_add1 upt_add_eq_append)
  then show ?thesis by (simp add: mem_read_def)
qed

lemma set_ps_simps [simp]:
  "PrinterList (set_ps p ps s) = (PrinterList s)[p := ps]"
  "pNoUseBuf (set_ps p ps s) = pNoUseBuf s"
  "PortIO (set_ps p ps s) = PortIO s"
  "G_PortReady (set_ps p ps s) = G_PortReady s"
  "SP_SIGNAL_PORT_1 (set_ps p ps s) = SP_SIGNAL_PORT_1 s"
  "qmem (set_ps p ps s) = qmem s"
  "usblp_table (set_ps p ps s) = usblp_table s"
  "usb_out (set_ps p ps s) = usb_out s"
  by (simp_all add: set_ps_def)

lemma set_pio_simps [simp]:
  "PortIO (set_pio p io s) = (PortIO s)[p := io]"
  "PrinterList (set_pio p io s) = PrinterList s"
  "pNoUseBuf (set_pio p io s) = pNoUseBuf s"
  "G_PortReady (set_pio p io s) = G_PortReady s"
  "SP_SIGNAL_PORT_1 (set_pio p io s) = SP_SIGNAL_PORT_1 s"
  "qmem (set_pio p io s) = qmem s"
  "usblp_table (set_pio p io s) = usblp_table s"
  "usb_out (set_pio p io s) = usb_out s"
  by (simp_all add: set_pio_def)

lemma set_buf_simps [simp]:
  "buf (set_buf i b ps) = (buf ps)[i := b]"
  "InUse (set_buf i b ps) = InUse ps"
  "HoldMode (set_buf i b ps) = HoldMode ps"
  "OutQueueHead (set_buf i b ps) = OutQueueHead ps"
  "OutQueueTail (set_buf i b ps) = OutQueueTail ps"
  "InQueue (set_buf i b ps) = InQueue ps"
  "AvailQueueNO (set_buf i b ps) = AvailQueueNO ps"
  by (simp_all add: set_buf_def)

end
