(* ===== verification/Buffer_Pool.thy ===== *)
theory Buffer_Pool
  imports PS_Prelude
begin

text \<open>
  The interface between the print queue and its clients (the network daemons that produce print
  data, and the spooler thread that consumes it): a pool of \<open>cap\<close> numbered buffers, each either
  on the free list, in the output queue, or held by exactly one client.

  The locale fixes the four operations of the queue and the two lists they implement; its
  assumptions are the queue's contract. Proved from the contract alone: if every client only
  submits or releases buffers it holds, the three classes stay a partition of the pool, and the
  buffers leave the output queue in the order they entered it.
\<close>

locale buffer_pool =
  fixes get_in :: "'s \<Rightarrow> nat option \<times> 's"
    and put_out :: "nat \<Rightarrow> u8 \<Rightarrow> 's \<Rightarrow> 's"
    and get_out :: "'s \<Rightarrow> nat option \<times> 's"
    and put_in :: "nat \<Rightarrow> 's \<Rightarrow> 's"
    and frees :: "'s \<Rightarrow> nat list"
    and outs :: "'s \<Rightarrow> nat list"
    and invar :: "'s \<Rightarrow> bool"
    and cap :: nat
  assumes pool_distinct: "invar s \<Longrightarrow> distinct (frees s @ outs s)"
    and pool_range: "invar s \<Longrightarrow> set (frees s @ outs s) \<subseteq> {..<cap}"
    and get_in_empty: "invar s \<Longrightarrow> frees s = [] \<Longrightarrow> get_in s = (None, s)"
    and get_in_some: "invar s \<Longrightarrow> frees s = b # fr \<Longrightarrow>
      \<exists>s'. get_in s = (Some b, s') \<and> invar s' \<and> frees s' = fr \<and> outs s' = outs s"
    and put_out_spec: "invar s \<Longrightarrow> b < cap \<Longrightarrow> b \<notin> set (frees s @ outs s) \<Longrightarrow>
      invar (put_out b f s) \<and> frees (put_out b f s) = frees s \<and> outs (put_out b f s) = outs s @ [b]"
    and get_out_empty: "invar s \<Longrightarrow> outs s = [] \<Longrightarrow> get_out s = (None, s)"
    and get_out_some: "invar s \<Longrightarrow> outs s = b # ou \<Longrightarrow>
      \<exists>s'. get_out s = (Some b, s') \<and> invar s' \<and> frees s' = frees s \<and> outs s' = ou"
    and put_in_spec: "invar s \<Longrightarrow> b < cap \<Longrightarrow> b \<notin> set (frees s @ outs s) \<Longrightarrow>
      invar (put_in b s) \<and> frees (put_in b s) = b # frees s \<and> outs (put_in b s) = outs s"
begin

lemma get_in_SomeE:
  assumes "invar s" "get_in s = (Some b, s')"
  obtains fr where "frees s = b # fr" "invar s'" "frees s' = fr" "outs s' = outs s"
proof (cases "frees s")
  case Nil
  with assms show ?thesis using get_in_empty by fastforce
next
  case (Cons c fr)
  then obtain t where "get_in s = (Some c, t)" "invar t" "frees t = fr" "outs t = outs s"
    using get_in_some assms(1) by blast
  with assms(2) Cons show ?thesis using that by auto
qed

lemma get_out_SomeE:
  assumes "invar s" "get_out s = (Some b, s')"
  obtains ou where "outs s = b # ou" "invar s'" "outs s' = ou" "frees s' = frees s"
proof (cases "outs s")
  case Nil
  with assms show ?thesis using get_out_empty by fastforce
next
  case (Cons c ou)
  then obtain t where "get_out s = (Some c, t)" "invar t" "outs t = ou" "frees t = frees s"
    using get_out_some assms(1) by blast
  with assms(2) Cons show ?thesis using that by auto
qed

text \<open>
  The bookkeeping of a run: \<open>H\<close> the buffers held by clients, \<open>sub\<close> all buffers submitted so far,
  \<open>fet\<close> all buffers fetched so far, oldest first.
\<close>

definition account :: "'s \<Rightarrow> nat set \<Rightarrow> nat list \<Rightarrow> nat list \<Rightarrow> bool" where
  "account s H sub fet \<longleftrightarrow> invar s \<and> H \<inter> set (frees s @ outs s) = {} \<and>
     H \<union> set (frees s @ outs s) = {..<cap} \<and> sub = fet @ outs s"

lemma account_take:
  assumes "account s H sub fet" "get_in s = (Some b, s')"
  shows "account s' (insert b H) sub fet"
proof -
  from assms have "invar s" by (simp add: account_def)
  then obtain fr where fr: "frees s = b # fr" "invar s'" "frees s' = fr" "outs s' = outs s"
    using assms(2) by (rule get_in_SomeE)
  with assms pool_distinct [OF \<open>invar s\<close>] show ?thesis by (auto simp: account_def)
qed

lemma account_fetch:
  assumes "account s H sub fet" "get_out s = (Some b, s')"
  shows "account s' (insert b H) sub (fet @ [b])"
proof -
  from assms have "invar s" by (simp add: account_def)
  then obtain ou where "outs s = b # ou" "invar s'" "outs s' = ou" "frees s' = frees s"
    using assms(2) by (rule get_out_SomeE)
  with assms pool_distinct [OF \<open>invar s\<close>] show ?thesis by (auto simp: account_def)
qed

lemma account_submit:
  assumes "account s H sub fet" "b \<in> H"
  shows "account (put_out b f s) (H - {b}) (sub @ [b]) fet"
proof -
  from assms have "invar s" "b < cap" "b \<notin> set (frees s @ outs s)"
    by (auto simp: account_def)
  with put_out_spec [OF this] assms show ?thesis by (auto simp: account_def)
qed

lemma account_release:
  assumes "account s H sub fet" "b \<in> H"
  shows "account (put_in b s) (H - {b}) sub fet"
proof -
  from assms have "invar s" "b < cap" "b \<notin> set (frees s @ outs s)"
    by (auto simp: account_def)
  with put_in_spec [OF this] assms show ?thesis by (auto simp: account_def)
qed

lemma account_card:
  assumes "account s H sub fet"
  shows "card H + length (frees s) + length (outs s) = cap"
proof -
  from assms have s: "invar s" "H \<inter> set (frees s @ outs s) = {}"
    "H \<union> set (frees s @ outs s) = {..<cap}" by (auto simp: account_def)
  then have "finite H" by (metis finite_Un finite_lessThan)
  with s have "card H + card (set (frees s @ outs s)) = cap"
    by (metis List.finite_set card_Un_disjoint card_lessThan)
  then show ?thesis using pool_distinct [OF s(1)] by (metis distinct_card length_append add.assoc)
qed

text \<open>Submitting a held buffer and fetching until it comes out needs \<open>length (outs s) + 1\<close> fetches.\<close>

fun fetch_n :: "nat \<Rightarrow> 's \<Rightarrow> nat list \<times> 's" where
  "fetch_n 0 s = ([], s)"
| "fetch_n (Suc n) s =
     (case get_out s of (None, s') \<Rightarrow> ([], s')
      | (Some b, s') \<Rightarrow> (let (bs, t) = fetch_n n s' in (b # bs, t)))"

lemma fetch_all:
  "invar s \<Longrightarrow> n = length (outs s) \<Longrightarrow> \<exists>t. fetch_n n s = (outs s, t) \<and> invar t \<and> outs t = [] \<and> frees t = frees s"
proof (induction n arbitrary: s)
  case (Suc n)
  then obtain b ou where ou: "outs s = b # ou" by (metis length_Suc_conv)
  with Suc.prems obtain s' where "get_out s = (Some b, s')" "invar s'" "outs s' = ou" "frees s' = frees s"
    using get_out_some by metis
  with Suc.IH [of s'] Suc.prems ou show ?case by auto
qed auto

end

end
