(* ===== verification/Prnqueue.thy ===== *)
theory Prnqueue
  imports Spool_State Buffer_Pool
begin

text \<open>
  The print queue, \<open>src/apps/spooler/src/prnqueue.c\<close>, with \<open>StartDMAIO\<close> of \<open>prnport.c\<close>, which it
  calls. Each port has \<open>PRNQUEUELEN\<close> buffers linked by index into a free list (\<open>InQueue\<close>) and an
  output queue (\<open>OutQueueHead\<close>, \<open>OutQueueTail\<close>). A producer takes a free buffer
  (\<open>PrnGetInQueueBuf\<close>), fills it and appends it to the output queue (\<open>PrnPutOutQueueBuf\<close>); the
  spooler thread takes the oldest one (\<open>PrnGetOutQueueBuf\<close>), hands it to the port writer and
  releases it when the next one is due (\<open>DMAPrinting\<close>, \<open>PrnPutInQueueBuf\<close>).

  Every operation runs with interrupts disabled (\<open>dirps\<close>/\<open>restore\<close>), so each is one atomic
  function on the state. A busy-wait on an empty free list is the value \<^const>\<open>None\<close>: the retried
  call leaves the state as it is, so the operation takes effect only in a state where a buffer is
  free.
\<close>

unbundle bit_operations_syntax

section \<open>Initialisation\<close>

fun queue_init_bufs :: "nat \<Rightarrow> prnbuf list \<Rightarrow> prnbuf list \<times> nat" where
  "queue_init_bufs a [] = ([], a)"
| "queue_init_bufs a (b # bs) =
     (let (bs', a') = queue_init_bufs (a + (BLOCKSIZE + 20)) bs in (b\<lparr>b_data := a\<rparr> # bs', a'))"

fun queue_init_ports :: "nat \<Rightarrow> printstatus list \<Rightarrow> printstatus list" where
  "queue_init_ports a [] = []"
| "queue_init_ports a (ps # pss) =
     (let (bs, a') = queue_init_bufs a (buf ps) in ps\<lparr>buf := bs\<rparr> # queue_init_ports a' pss)"

definition PrnQueueInit :: "spool \<Rightarrow> spool" where
  "PrnQueueInit s = s\<lparr>PrinterList := queue_init_ports PRINT_QUEUE_ADDRESS (PrinterList s)\<rparr>"

text \<open>\<open>G_PRN_PORT_NAME\<close> is \<open>lpx\<close>; its last letter is replaced by the port's digit.\<close>

definition printer_name :: "nat \<Rightarrow> u8 list" where
  "printer_name p = (cstr ''lpx'')[2 := of_nat p + of_char (CHR ''1'')]"

definition link_bufs :: "prnbuf list \<Rightarrow> prnbuf list" where
  "link_bufs bs =
     map (\<lambda>i. (bs ! i)\<lparr>Nextbuf := (if i < PRNQUEUELEN - 1 then of_nat (i + 1) else NULL_BYTE)\<rparr>)
       [0..<length bs]"

definition init_port :: "nat \<Rightarrow> printstatus \<Rightarrow> printstatus" where
  "init_port p ps = ps\<lparr>PrinterName := printer_name p,
     OutQueueHead := NULL_BYTE, OutQueueTail := NULL_BYTE,
     InUse := PrnNoUsed, HoldMode := NoJobHolded,
     AvailQueueNO := of_nat PRNQUEUELEN, InQueue := 0,
     buf := link_bufs (buf ps)\<rparr>"

definition PrnPrinterInit :: "spool \<Rightarrow> spool" where
  "PrnPrinterInit s = s\<lparr>
     PrinterList := map (\<lambda>p. init_port p (PrinterList s ! p)) [0..<length (PrinterList s)],
     pNoUseBuf := map (\<lambda>p. None) [0..<length (PrinterList s)]\<rparr>"

text \<open>With a single port every name is accepted; a name that ends in \<open>_txt\<close> selects text mode.\<close>

definition IPP_TXT_PRINTER_EXT_FORMAT :: "u8 list" where
  "IPP_TXT_PRINTER_EXT_FORMAT = cstr ''_txt''"

definition PrnCheckPrinter :: "u8 list \<Rightarrow> int" where
  "PrnCheckPrinter name =
     (let i = length name; n = length IPP_TXT_PRINTER_EXT_FORMAT
      in if i \<ge> n \<and> stricmp (drop (i - n) name) IPP_TXT_PRINTER_EXT_FORMAT = 0 then 0x10 else 0)"

section \<open>Port attributes\<close>

definition PrnGetPrinterName :: "nat \<Rightarrow> spool \<Rightarrow> u8 list" where
  "PrnGetPrinterName p s = PrinterName (PrinterList s ! p)"

definition PrnGetJobHoldStatus :: "nat \<Rightarrow> spool \<Rightarrow> u8" where
  "PrnGetJobHoldStatus p s = HoldMode (PrinterList s ! p)"

definition PrnGetPrinterStatus :: "nat \<Rightarrow> spool \<Rightarrow> u8" where
  "PrnGetPrinterStatus p s = InUse (PrinterList s ! p)"

definition PrnGetAvailQueueNO :: "nat \<Rightarrow> spool \<Rightarrow> u8" where
  "PrnGetAvailQueueNO p s = AvailQueueNO (PrinterList s ! p)"

definition PrnOutQueueIsEmpty :: "nat \<Rightarrow> spool \<Rightarrow> bool" where
  "PrnOutQueueIsEmpty p s \<longleftrightarrow>
     PrnGetPrinterStatus p s = PrnNoUsed \<and> PrnGetAvailQueueNO p s = of_nat PRNQUEUELEN"

definition PrnSetJobUnHold :: "nat \<Rightarrow> u8 \<Rightarrow> spool \<Rightarrow> spool" where
  "PrnSetJobUnHold p v s =
     (let ps = PrinterList s ! p in set_ps p (ps\<lparr>HoldMode := HoldMode ps AND NOT v\<rparr>) s)"

definition PrnSetJobHold :: "nat \<Rightarrow> u8 \<Rightarrow> spool \<Rightarrow> spool" where
  "PrnSetJobHold p v s =
     (let ps = PrinterList s ! p in set_ps p (ps\<lparr>HoldMode := HoldMode ps OR v\<rparr>) s)"

definition PrnSetQueueInUse :: "nat \<Rightarrow> u8 \<Rightarrow> spool \<Rightarrow> spool" where
  "PrnSetQueueInUse p v s = (let ps = PrinterList s ! p in set_ps p (ps\<lparr>InUse := v\<rparr>) s)"

section \<open>The four queue operations\<close>

definition PrnGetInQueueBuf :: "nat \<Rightarrow> spool \<Rightarrow> nat option \<times> spool" where
  "PrnGetInQueueBuf p s =
     (let ps = PrinterList s ! p
      in if InQueue ps = NULL_BYTE then (None, s)
         else let n = unat (InQueue ps)
              in (Some n, set_ps p (ps\<lparr>AvailQueueNO := AvailQueueNO ps - 1,
                                       InQueue := Nextbuf (buf ps ! n)\<rparr>) s))"

definition PrnPutOutQueueBuf :: "nat \<Rightarrow> nat \<Rightarrow> u8 \<Rightarrow> spool \<Rightarrow> spool" where
  "PrnPutOutQueueBuf p i flags s =
     (let ps = PrinterList s ! p;
          tail = OutQueueTail ps;
          ps1 = set_buf i ((buf ps ! i)\<lparr>Nextbuf := NULL_BYTE, b_flags := flags\<rparr>) ps;
          ps2 = ps1\<lparr>OutQueueTail := of_nat i\<rparr>;
          ps3 = (if tail = NULL_BYTE then ps2\<lparr>OutQueueHead := of_nat i\<rparr>
                 else set_buf (unat tail) ((buf ps2 ! unat tail)\<lparr>Nextbuf := of_nat i\<rparr>) ps2)
      in set_ps p ps3 s)"

definition PrnGetOutQueueBuf :: "nat \<Rightarrow> spool \<Rightarrow> nat option \<times> spool" where
  "PrnGetOutQueueBuf p s =
     (let ps = PrinterList s ! p
      in if OutQueueHead ps = NULL_BYTE then (None, s)
         else let n = unat (OutQueueHead ps);
                  ps1 = ps\<lparr>OutQueueHead := Nextbuf (buf ps ! n)\<rparr>;
                  ps2 = (if OutQueueHead ps1 = NULL_BYTE then ps1\<lparr>OutQueueTail := NULL_BYTE\<rparr> else ps1)
              in (Some n, set_ps p ps2 s))"

definition PrnPutInQueueBuf :: "nat \<Rightarrow> nat \<Rightarrow> spool \<Rightarrow> spool" where
  "PrnPutInQueueBuf p i s =
     (let ps = PrinterList s ! p;
          q = InQueue ps;
          ps1 = ps\<lparr>InQueue := of_nat i\<rparr>;
          ps2 = set_buf i ((buf ps1 ! i)\<lparr>Nextbuf := q\<rparr>) ps1
      in set_ps p (ps2\<lparr>AvailQueueNO := AvailQueueNO ps2 + 1\<rparr>) s)"

text \<open>Setting the \<open>size\<close> field of a buffer, as its holder does.\<close>

definition set_b_size :: "nat \<Rightarrow> nat \<Rightarrow> int \<Rightarrow> spool \<Rightarrow> spool" where
  "set_b_size p i n s =
     (let ps = PrinterList s ! p in set_ps p (set_buf i ((buf ps ! i)\<lparr>b_size := n\<rparr>) ps) s)"

definition PrnAbortSpooler :: "nat \<Rightarrow> nat option \<Rightarrow> spool \<Rightarrow> spool option" where
  "PrnAbortSpooler p pbuf s =
     (if PrnGetPrinterStatus p s = PrnNoUsed then Some s
      else case (case pbuf of None \<Rightarrow> PrnGetInQueueBuf p s | Some b \<Rightarrow> (Some b, s)) of
             (None, _) \<Rightarrow> None
           | (Some b, s1) \<Rightarrow> Some (PrnPutOutQueueBuf p b PRN_Q_ABORT (set_b_size p b 0 s1)))"

section \<open>The spooler thread\<close>

definition port_mask :: "nat \<Rightarrow> u8" where
  "port_mask p = push_bit p 1"

definition StartDMAIO :: "nat \<Rightarrow> int \<Rightarrow> nat \<Rightarrow> spool \<Rightarrow> u8 \<times> spool" where
  "StartDMAIO SrcBuf n p s =
     (let s1 = set_pio p ((PortIO s ! p)\<lparr>DataSize := uint (word_of_int n :: u16), DataPtr := SrcBuf\<rparr>) s;
          s2 = (if G_PortReady s1 AND port_mask p \<noteq> 0
                then s1\<lparr>SP_SIGNAL_PORT_1 := Suc (SP_SIGNAL_PORT_1 s1)\<rparr> else s1)
      in (1, s2))"

definition set_pNoUseBuf :: "nat \<Rightarrow> nat option \<Rightarrow> spool \<Rightarrow> spool" where
  "set_pNoUseBuf p b s = s\<lparr>pNoUseBuf := (pNoUseBuf s)[p := b]\<rparr>"

definition DMAPrinting :: "nat \<Rightarrow> spool \<Rightarrow> u8 \<times> spool" where
  "DMAPrinting p s =
     (let s1 = (case pNoUseBuf s ! p of None \<Rightarrow> s | Some b \<Rightarrow> PrnPutInQueueBuf p b s)
      in case PrnGetOutQueueBuf p s1 of
           (None, s2) \<Rightarrow> (0, set_pNoUseBuf p None s2)
         | (Some b, s2) \<Rightarrow>
             (let pb = buf (PrinterList s2 ! p) ! b
              in if b_size pb = 0
                 then (0, set_pNoUseBuf p None (PrnPutInQueueBuf p b s2))
                 else StartDMAIO (b_data pb) (b_size pb) p (set_pNoUseBuf p (Some b) s2)))"

text \<open>One pass of the endless loop of \<open>PrnStartSpooler\<close> over the ports.\<close>

definition spooler_port :: "nat \<Rightarrow> spool \<Rightarrow> spool" where
  "spooler_port p s =
     (if G_PortReady s AND port_mask p \<noteq> 0
      then (case DMAPrinting p s of
              (r, s1) \<Rightarrow> if r \<noteq> 0 then s1\<lparr>G_PortReady := G_PortReady s1 AND NOT (port_mask p)\<rparr> else s1)
      else s)"

definition PrnStartSpooler :: "spool \<Rightarrow> spool" where
  "PrnStartSpooler s = fold spooler_port [0..<NUM_OF_PRN_PORT] s"

definition PrnPrintPattern :: "nat \<Rightarrow> u8 list \<Rightarrow> u16 \<Rightarrow> spool \<Rightarrow> (u8 \<times> spool) option" where
  "PrnPrintPattern p Data wSize s =
     (if G_PortReady s AND port_mask p = 0 then Some (0xFF, s)
      else if PrnGetPrinterStatus p s \<noteq> PrnNoUsed \<or> PrnGetAvailQueueNO p s < 1 then Some (0xFF, s)
      else case PrnGetInQueueBuf p s of
             (None, _) \<Rightarrow> None
           | (Some b, s1) \<Rightarrow>
               (let a = b_data (buf (PrinterList s1 ! p) ! b);
                    s2 = s1\<lparr>qmem := mem_write (qmem s1) a (take (unat wSize) Data)\<rparr>;
                    s3 = set_b_size p b (uint wSize) s2;
                    s4 = s3\<lparr>G_PortReady := G_PortReady s3 AND NOT (port_mask p)\<rparr>;
                    s5 = snd (StartDMAIO a (uint wSize) p s4)
                in Some (0, PrnPutInQueueBuf p b s5)))"

text \<open>\<open>PrnSetPrinting\<close> at clock reading \<open>now\<close>, and \<open>PrnIsPrinting\<close>.\<close>

definition PrnSetPrinting :: "u32 \<Rightarrow> spool \<Rightarrow> spool" where
  "PrnSetPrinting now s = s\<lparr>PrinterList :=
     map (\<lambda>ps. if now - IsPrintStartTime ps > TICKS_PER_SECOND then ps\<lparr>IsPrinting := 0\<rparr> else ps)
       (PrinterList s)\<rparr>"

definition PrnIsPrinting :: "nat \<Rightarrow> spool \<Rightarrow> u8" where
  "PrnIsPrinting p s = IsPrinting (PrinterList s ! p)"

section \<open>Abstraction: free list and output queue\<close>

definition nexts :: "printstatus \<Rightarrow> u8 list" where
  "nexts ps = map Nextbuf (buf ps)"

definition free_q :: "printstatus \<Rightarrow> nat list" where
  "free_q ps = walk (length (buf ps)) (nexts ps) (InQueue ps)"

definition out_q :: "printstatus \<Rightarrow> nat list" where
  "out_q ps = walk (length (buf ps)) (nexts ps) (OutQueueHead ps)"

text \<open>\<open>pq_rep ps fr ou\<close>: the port record represents free list \<open>fr\<close> and output queue \<open>ou\<close>.\<close>

definition pq_rep :: "printstatus \<Rightarrow> nat list \<Rightarrow> nat list \<Rightarrow> bool" where
  "pq_rep ps fr ou \<longleftrightarrow> length (buf ps) = PRNQUEUELEN \<and>
     chain (nexts ps) (InQueue ps) fr \<and> chain (nexts ps) (OutQueueHead ps) ou \<and>
     distinct (fr @ ou) \<and> AvailQueueNO ps = of_nat (length fr) \<and>
     OutQueueTail ps = (if ou = [] then NULL_BYTE else of_nat (last ou))"

definition pq_inv :: "printstatus \<Rightarrow> bool" where
  "pq_inv ps \<longleftrightarrow> pq_rep ps (free_q ps) (out_q ps)"

definition port_inv :: "nat \<Rightarrow> spool \<Rightarrow> bool" where
  "port_inv p s \<longleftrightarrow> p < length (PrinterList s) \<and> pq_inv (PrinterList s ! p)"

abbreviation frees_of :: "nat \<Rightarrow> spool \<Rightarrow> nat list" where
  "frees_of p s \<equiv> free_q (PrinterList s ! p)"

abbreviation outs_of :: "nat \<Rightarrow> spool \<Rightarrow> nat list" where
  "outs_of p s \<equiv> out_q (PrinterList s ! p)"

lemma nexts_length [simp]: "length (nexts ps) = length (buf ps)"
  by (simp add: nexts_def)

lemma nexts_nth: "i < length (buf ps) \<Longrightarrow> nexts ps ! i = Nextbuf (buf ps ! i)"
  by (simp add: nexts_def)

lemma pq_rep_range: "pq_rep ps fr ou \<Longrightarrow> set (fr @ ou) \<subseteq> {..<PRNQUEUELEN}"
  by (auto simp: pq_rep_def dest!: chain_in_range)

lemma pq_rep_unique:
  assumes "pq_rep ps fr ou"
  shows "free_q ps = fr" "out_q ps = ou"
proof -
  have "set (fr @ ou) \<subseteq> {..<PRNQUEUELEN}" using assms by (rule pq_rep_range)
  moreover have "distinct (fr @ ou)" using assms by (simp add: pq_rep_def)
  ultimately have "length fr \<le> PRNQUEUELEN" "length ou \<le> PRNQUEUELEN"
    using distinct_subset_length_le [of "fr @ ou" PRNQUEUELEN] by auto
  with assms show "free_q ps = fr" "out_q ps = ou"
    by (simp_all add: free_q_def out_q_def pq_rep_def chain_walk)
qed

lemma pq_repI: "pq_rep ps fr ou \<Longrightarrow> pq_inv ps \<and> free_q ps = fr \<and> out_q ps = ou"
  by (simp add: pq_inv_def pq_rep_unique)

lemma pq_invD: "pq_inv ps \<Longrightarrow> pq_rep ps (free_q ps) (out_q ps)"
  by (simp add: pq_inv_def)

text \<open>Fields outside the queue links do not matter.\<close>

lemma pq_rep_cong:
  assumes "nexts ps' = nexts ps" "InQueue ps' = InQueue ps" "OutQueueHead ps' = OutQueueHead ps"
    and "OutQueueTail ps' = OutQueueTail ps" "AvailQueueNO ps' = AvailQueueNO ps"
  shows "pq_rep ps' fr ou = pq_rep ps fr ou"
proof -
  have "length (buf ps') = length (buf ps)" using assms(1) by (metis nexts_length)
  with assms show ?thesis by (simp add: pq_rep_def)
qed

section \<open>The operations on the abstraction\<close>

lemma rep_get_in_empty: "pq_rep ps [] ou \<Longrightarrow> InQueue ps = NULL_BYTE"
  by (simp add: pq_rep_def)

lemma rep_get_in:
  assumes "pq_rep ps (b # fr) ou"
  shows "InQueue ps = of_nat b" "InQueue ps \<noteq> NULL_BYTE" "unat (InQueue ps) = b"
    and "pq_rep (ps\<lparr>AvailQueueNO := AvailQueueNO ps - 1, InQueue := Nextbuf (buf ps ! b)\<rparr>) fr ou"
proof -
  from assms have c: "InQueue ps = of_nat b" "b < 255" "b < length (buf ps)"
    "chain (nexts ps) (nexts ps ! b) fr" by (auto simp: pq_rep_def)
  then show "InQueue ps = of_nat b" "InQueue ps \<noteq> NULL_BYTE" "unat (InQueue ps) = b" by auto
  have "nexts ps ! b = Nextbuf (buf ps ! b)" using c by (simp add: nexts_nth)
  with assms c show "pq_rep (ps\<lparr>AvailQueueNO := AvailQueueNO ps - 1,
      InQueue := Nextbuf (buf ps ! b)\<rparr>) fr ou"
    by (auto simp: pq_rep_def nexts_def)
qed

lemma rep_get_out:
  assumes "pq_rep ps fr (b # ou)"
  shows "OutQueueHead ps \<noteq> NULL_BYTE" "unat (OutQueueHead ps) = b"
    and "Nextbuf (buf ps ! b) = NULL_BYTE \<longleftrightarrow> ou = []"
    and "pq_rep (ps\<lparr>OutQueueHead := Nextbuf (buf ps ! b),
           OutQueueTail := (if ou = [] then NULL_BYTE else OutQueueTail ps)\<rparr>) fr ou"
proof -
  from assms have c: "OutQueueHead ps = of_nat b" "b < 255" "b < length (buf ps)"
    "chain (nexts ps) (nexts ps ! b) ou" by (auto simp: pq_rep_def)
  have n: "nexts ps ! b = Nextbuf (buf ps ! b)" using c by (simp add: nexts_nth)
  from c show "OutQueueHead ps \<noteq> NULL_BYTE" "unat (OutQueueHead ps) = b" by auto
  from c n show "Nextbuf (buf ps ! b) = NULL_BYTE \<longleftrightarrow> ou = []" using chain_null_iff by metis
  from assms c n show "pq_rep (ps\<lparr>OutQueueHead := Nextbuf (buf ps ! b),
      OutQueueTail := (if ou = [] then NULL_BYTE else OutQueueTail ps)\<rparr>) fr ou"
    by (auto simp: pq_rep_def nexts_def)
qed

lemma rep_put_in:
  assumes "pq_rep ps fr ou" "b < PRNQUEUELEN" "b \<notin> set (fr @ ou)"
  shows "pq_rep (set_buf b ((buf ps ! b)\<lparr>Nextbuf := InQueue ps\<rparr>) (ps\<lparr>InQueue := of_nat b\<rparr>)
           \<lparr>AvailQueueNO := AvailQueueNO ps + 1\<rparr>) (b # fr) ou"
  using assms by (auto simp: pq_rep_def nexts_def map_update PRNQUEUELEN_def)

lemma rep_put_out:
  assumes r: "pq_rep ps fr ou" and b: "b < PRNQUEUELEN" "b \<notin> set (fr @ ou)"
    and ps2_def: "ps2 = set_buf b ((buf ps ! b)\<lparr>Nextbuf := NULL_BYTE, b_flags := f\<rparr>) ps\<lparr>OutQueueTail := of_nat b\<rparr>"
  shows "ou = [] \<Longrightarrow> pq_rep (ps2\<lparr>OutQueueHead := of_nat b\<rparr>) fr [b]"
    and "ou \<noteq> [] \<Longrightarrow> pq_rep (set_buf (last ou) ((buf ps2 ! last ou)\<lparr>Nextbuf := of_nat b\<rparr>) ps2) fr (ou @ [b])"
proof -
  have len: "b < length (buf ps)" "b < 255" using r b by (auto simp: pq_rep_def PRNQUEUELEN_def)
  have n2: "nexts ps2 = (nexts ps)[b := NULL_BYTE]"
    by (simp add: ps2_def nexts_def map_update)
  show "pq_rep (ps2\<lparr>OutQueueHead := of_nat b\<rparr>) fr [b]" if "ou = []"
    using that r b len n2 by (auto simp: pq_rep_def nexts_def ps2_def map_update)
  assume "ou \<noteq> []"
  then obtain os t where ou: "ou = os @ [t]" by (metis append_butlast_last_id)
  have t: "t < length (buf ps)" using r ou by (auto simp: pq_rep_def dest!: chain_in_range)
  let ?n = "((nexts ps)[b := NULL_BYTE])[t := of_nat b]"
  have "chain ((nexts ps)[b := NULL_BYTE]) (OutQueueHead ps) (os @ [t])"
    using r b ou by (simp add: pq_rep_def)
  then have "chain ?n (OutQueueHead ps) (os @ [t, b])"
    using r b ou len by (intro chain_snoc) (auto simp: pq_rep_def)
  moreover have "chain ?n (InQueue ps) fr"
    using r b ou by (auto simp: pq_rep_def)
  moreover have "nexts (set_buf t ((buf ps2 ! t)\<lparr>Nextbuf := of_nat b\<rparr>) ps2) = ?n"
    by (simp add: nexts_def ps2_def map_update)
  ultimately show "pq_rep (set_buf (last ou) ((buf ps2 ! last ou)\<lparr>Nextbuf := of_nat b\<rparr>) ps2) fr (ou @ [b])"
    using r b ou by (auto simp: pq_rep_def ps2_def)
qed

section \<open>The queue satisfies the pool's contract\<close>

lemma port_invD: "port_inv p s \<Longrightarrow> pq_rep (PrinterList s ! p) (frees_of p s) (outs_of p s)"
  by (simp add: port_inv_def pq_invD)

lemma set_ps_rep:
  "port_inv p s \<Longrightarrow> pq_rep ps fr ou \<Longrightarrow>
   port_inv p (set_ps p ps s) \<and> frees_of p (set_ps p ps s) = fr \<and> outs_of p (set_ps p ps s) = ou"
  using pq_repI by (simp add: port_inv_def)

lemma PrnGetInQueueBuf_empty: "port_inv p s \<Longrightarrow> frees_of p s = [] \<Longrightarrow> PrnGetInQueueBuf p s = (None, s)"
  using port_invD [of p s] rep_get_in_empty [of "PrinterList s ! p"]
  by (simp add: PrnGetInQueueBuf_def)

lemma PrnGetInQueueBuf_Some:
  assumes "port_inv p s" "frees_of p s = b # fr"
  shows "\<exists>s'. PrnGetInQueueBuf p s = (Some b, s') \<and> port_inv p s' \<and> frees_of p s' = fr \<and> outs_of p s' = outs_of p s"
proof -
  note r = rep_get_in [OF port_invD [OF assms(1), unfolded assms(2)]]
  have "PrnGetInQueueBuf p s = (Some b, set_ps p ((PrinterList s ! p)\<lparr>
      AvailQueueNO := AvailQueueNO (PrinterList s ! p) - 1,
      InQueue := Nextbuf (buf (PrinterList s ! p) ! b)\<rparr>) s)"
    unfolding PrnGetInQueueBuf_def Let_def using r(2,3) by simp
  with set_ps_rep [OF assms(1) r(4)] show ?thesis by blast
qed

lemma PrnGetOutQueueBuf_empty: "port_inv p s \<Longrightarrow> outs_of p s = [] \<Longrightarrow> PrnGetOutQueueBuf p s = (None, s)"
  using port_invD [of p s] by (simp add: PrnGetOutQueueBuf_def pq_rep_def)

lemma PrnGetOutQueueBuf_Some:
  assumes "port_inv p s" "outs_of p s = b # ou"
  shows "\<exists>s'. PrnGetOutQueueBuf p s = (Some b, s') \<and> port_inv p s' \<and> frees_of p s' = frees_of p s \<and> outs_of p s' = ou"
proof -
  note r = rep_get_out [OF port_invD [OF assms(1), unfolded assms(2)]]
  have "PrnGetOutQueueBuf p s = (Some b, set_ps p ((PrinterList s ! p)\<lparr>
      OutQueueHead := Nextbuf (buf (PrinterList s ! p) ! b),
      OutQueueTail := (if ou = [] then NULL_BYTE else OutQueueTail (PrinterList s ! p))\<rparr>) s)"
    unfolding PrnGetOutQueueBuf_def Let_def using r(1,2,3) by simp
  with set_ps_rep [OF assms(1) r(4)] show ?thesis by blast
qed

lemma PrnPutOutQueueBuf_spec:
  assumes i: "port_inv p s" and b: "b < PRNQUEUELEN" "b \<notin> set (frees_of p s @ outs_of p s)"
  shows "port_inv p (PrnPutOutQueueBuf p b f s) \<and> frees_of p (PrnPutOutQueueBuf p b f s) = frees_of p s \<and>
      outs_of p (PrnPutOutQueueBuf p b f s) = outs_of p s @ [b]"
proof (cases "outs_of p s = []")
  case True
  have "OutQueueTail (PrinterList s ! p) = NULL_BYTE"
    using port_invD [OF i] True by (simp add: pq_rep_def)
  then show ?thesis
    unfolding PrnPutOutQueueBuf_def Let_def
    using set_ps_rep [OF i rep_put_out(1) [OF port_invD [OF i] b refl True, of f]] True by simp
next
  case False
  have "last (outs_of p s) < 255"
    using False port_invD [OF i] chain_small last_in_set unfolding pq_rep_def by blast
  moreover have "OutQueueTail (PrinterList s ! p) = of_nat (last (outs_of p s))"
    using port_invD [OF i] False by (simp add: pq_rep_def)
  ultimately have "OutQueueTail (PrinterList s ! p) \<noteq> NULL_BYTE"
    "unat (OutQueueTail (PrinterList s ! p)) = last (outs_of p s)" by simp_all
  then show ?thesis
    unfolding PrnPutOutQueueBuf_def Let_def
    using set_ps_rep [OF i rep_put_out(2) [OF port_invD [OF i] b refl False, of f]]
    by (simp only: if_False simp_thms)
qed

lemma PrnPutInQueueBuf_spec:
  assumes i: "port_inv p s" and b: "b < PRNQUEUELEN" "b \<notin> set (frees_of p s @ outs_of p s)"
  shows "port_inv p (PrnPutInQueueBuf p b s) \<and> frees_of p (PrnPutInQueueBuf p b s) = b # frees_of p s \<and>
      outs_of p (PrnPutInQueueBuf p b s) = outs_of p s"
  unfolding PrnPutInQueueBuf_def Let_def
  using set_ps_rep [OF i rep_put_in [OF port_invD [OF i] b]] by simp

interpretation pq: buffer_pool "PrnGetInQueueBuf p" "PrnPutOutQueueBuf p" "PrnGetOutQueueBuf p"
  "PrnPutInQueueBuf p" "frees_of p" "outs_of p" "port_inv p" PRNQUEUELEN for p
proof
  fix s
  assume "port_inv p s"
  then have "pq_rep (PrinterList s ! p) (frees_of p s) (outs_of p s)" by (rule port_invD)
  then show "distinct (frees_of p s @ outs_of p s)" "set (frees_of p s @ outs_of p s) \<subseteq> {..<PRNQUEUELEN}"
    by (simp add: pq_rep_def, rule pq_rep_range)
qed (fact PrnGetInQueueBuf_empty PrnGetInQueueBuf_Some PrnPutOutQueueBuf_spec
      PrnGetOutQueueBuf_empty PrnGetOutQueueBuf_Some PrnPutInQueueBuf_spec)+

end
