(* ===== verification/Prnqueue_Props.thy ===== *)
theory Prnqueue_Props
  imports Prnqueue
begin

text \<open>
  Properties of the print queue: initialisation establishes the queue invariant and disjoint
  buffer memories, every operation keeps the invariant, the buffers are partitioned over free
  list, output queue and holders in every reachable state and leave the output queue in order,
  and what \<open>DMAPrinting\<close>, \<open>PrnAbortSpooler\<close> and \<open>PrnPrintPattern\<close> do on each branch.
\<close>

unbundle bit_operations_syntax

section \<open>Initialisation\<close>

lemma link_bufs_length [simp]: "length (link_bufs bs) = length bs"
  by (simp add: link_bufs_def)

lemma nexts_init_port:
  "length (buf ps) = PRNQUEUELEN \<Longrightarrow> nexts (init_port p ps) = [1, 2, 3, 4, 5, 6, 7, 8, 9, NULL_BYTE]"
  by (simp add: nexts_def init_port_def link_bufs_def PRNQUEUELEN_def upt_rec)

lemma init_port_simps [simp]:
  "InQueue (init_port p ps) = 0" "OutQueueHead (init_port p ps) = NULL_BYTE"
  "OutQueueTail (init_port p ps) = NULL_BYTE" "AvailQueueNO (init_port p ps) = of_nat PRNQUEUELEN"
  "length (buf (init_port p ps)) = length (buf ps)"
  by (simp_all add: init_port_def)

lemma queue_indices: "[0..<PRNQUEUELEN] = [0, 1, 2, 3, 4, 5, 6, 7, 8, 9]"
  by (simp add: PRNQUEUELEN_def upt_rec)

lemma rep_init_port:
  assumes "length (buf ps) = PRNQUEUELEN"
  shows "pq_rep (init_port p ps) [0..<PRNQUEUELEN] []"
  using assms unfolding pq_rep_def nexts_init_port [OF assms] queue_indices
  by (simp add: PRNQUEUELEN_def)

lemma PrnPrinterInit_port:
  assumes "p < length (PrinterList s)" "length (buf (PrinterList s ! p)) = PRNQUEUELEN"
  shows "port_inv p (PrnPrinterInit s)" "frees_of p (PrnPrinterInit s) = [0..<PRNQUEUELEN]"
    "outs_of p (PrnPrinterInit s) = []" "pNoUseBuf (PrnPrinterInit s) ! p = None"
  using assms pq_repI [OF rep_init_port [OF assms(2), of p]]
  by (auto simp: PrnPrinterInit_def port_inv_def)

text \<open>The address of buffer \<open>j\<close> of port \<open>i\<close> after \<open>PrnQueueInit\<close>.\<close>

definition buf_addr :: "nat \<Rightarrow> nat \<Rightarrow> nat" where
  "buf_addr i j = PRINT_QUEUE_ADDRESS + (i * PRNQUEUELEN + j) * (BLOCKSIZE + 20)"

lemma queue_init_bufs_spec:
  "queue_init_bufs a bs = (bs', a') \<Longrightarrow>
     length bs' = length bs \<and> a' = a + length bs * (BLOCKSIZE + 20) \<and>
     (\<forall>j < length bs. bs' ! j = (bs ! j)\<lparr>b_data := a + j * (BLOCKSIZE + 20)\<rparr>)"
proof (induction bs arbitrary: a bs' a')
  case (Cons b bs)
  then obtain cs where cs: "queue_init_bufs (a + (BLOCKSIZE + 20)) bs = (cs, a')" "bs' = b\<lparr>b_data := a\<rparr> # cs"
    by (auto split: prod.splits)
  from Cons.IH [OF cs(1)] cs(2) show ?case by (auto simp: nth_Cons' algebra_simps less_Suc_eq_0_disj)
qed simp

lemma queue_init_ports_spec:
  assumes "\<forall>ps \<in> set pss. length (buf ps) = PRNQUEUELEN" "i < length pss" "j < PRNQUEUELEN"
  shows "buf (queue_init_ports a pss ! i) ! j =
     (buf (pss ! i) ! j)\<lparr>b_data := a + (i * PRNQUEUELEN + j) * (BLOCKSIZE + 20)\<rparr>"
  using assms
proof (induction pss arbitrary: a i)
  case (Cons ps pss)
  obtain bs a' where bs: "queue_init_bufs a (buf ps) = (bs, a')" by (cases "queue_init_bufs a (buf ps)")
  from queue_init_bufs_spec [OF this] Cons.prems
  have "length bs = PRNQUEUELEN" "a' = a + PRNQUEUELEN * (BLOCKSIZE + 20)"
    "\<forall>j < PRNQUEUELEN. bs ! j = (buf ps ! j)\<lparr>b_data := a + j * (BLOCKSIZE + 20)\<rparr>" by auto
  with Cons bs show ?case by (cases i) (auto simp: algebra_simps)
qed simp

lemma buf_addr_disjoint:
  assumes "j < PRNQUEUELEN" "j' < PRNQUEUELEN" "(i, j) \<noteq> (i', j')"
  shows "buf_addr i j + (BLOCKSIZE + 20) \<le> buf_addr i' j' \<or> buf_addr i' j' + (BLOCKSIZE + 20) \<le> buf_addr i j"
proof -
  have "i * PRNQUEUELEN + j \<noteq> i' * PRNQUEUELEN + j'"
    using assms div_mod_unique by blast
  then consider "i * PRNQUEUELEN + j + 1 \<le> i' * PRNQUEUELEN + j'" | "i' * PRNQUEUELEN + j' + 1 \<le> i * PRNQUEUELEN + j"
    by linarith
  then show ?thesis
  proof cases
    case 1
    then have "(i * PRNQUEUELEN + j + 1) * (BLOCKSIZE + 20) \<le> (i' * PRNQUEUELEN + j') * (BLOCKSIZE + 20)"
      by (rule mult_le_mono1)
    then show ?thesis by (simp add: buf_addr_def algebra_simps)
  next
    case 2
    then have "(i' * PRNQUEUELEN + j' + 1) * (BLOCKSIZE + 20) \<le> (i * PRNQUEUELEN + j) * (BLOCKSIZE + 20)"
      by (rule mult_le_mono1)
    then show ?thesis by (simp add: buf_addr_def algebra_simps)
  qed
qed

lemma PrnQueueInit_addr:
  assumes "\<forall>ps \<in> set (PrinterList s). length (buf ps) = PRNQUEUELEN"
    and "i < length (PrinterList s)" "j < PRNQUEUELEN"
  shows "b_data (buf (PrinterList (PrnQueueInit s) ! i) ! j) = buf_addr i j"
  using queue_init_ports_spec [OF assms] by (simp add: PrnQueueInit_def buf_addr_def)

section \<open>Frame: the queue operations move buffers without touching their contents\<close>

definition same_payload :: "nat \<Rightarrow> spool \<Rightarrow> spool \<Rightarrow> bool" where
  "same_payload p s t \<longleftrightarrow> qmem t = qmem s \<and> usb_out t = usb_out s \<and> usblp_table t = usblp_table s \<and>
     pNoUseBuf t = pNoUseBuf s \<and> PortIO t = PortIO s \<and> G_PortReady t = G_PortReady s \<and>
     SP_SIGNAL_PORT_1 t = SP_SIGNAL_PORT_1 s \<and> length (PrinterList t) = length (PrinterList s) \<and>
     map b_size (buf (PrinterList t ! p)) = map b_size (buf (PrinterList s ! p)) \<and>
     map b_data (buf (PrinterList t ! p)) = map b_data (buf (PrinterList s ! p)) \<and>
     InUse (PrinterList t ! p) = InUse (PrinterList s ! p)"

lemma same_payload_refl [simp]: "same_payload p s s"
  by (simp add: same_payload_def)

lemma same_payload_trans: "same_payload p s t \<Longrightarrow> same_payload p t u \<Longrightarrow> same_payload p s u"
  by (simp add: same_payload_def)

lemma same_payload_field:
  assumes "same_payload p s t" "i < length (buf (PrinterList s ! p))"
  shows "b_size (buf (PrinterList t ! p) ! i) = b_size (buf (PrinterList s ! p) ! i)"
    "b_data (buf (PrinterList t ! p) ! i) = b_data (buf (PrinterList s ! p) ! i)"
  using assms unfolding same_payload_def by (blast intro: map_eq_nth)+

lemma same_payload_bytes:
  "same_payload p s t \<Longrightarrow> i < length (buf (PrinterList s ! p)) \<Longrightarrow> buf_bytes p i t = buf_bytes p i s"
  using same_payload_field [of p s t i] by (simp add: buf_bytes_def same_payload_def Let_def)

lemma set_ps_payload:
  assumes "p < length (PrinterList s)"
    and "map b_size (buf ps) = map b_size (buf (PrinterList s ! p))"
    and "map b_data (buf ps) = map b_data (buf (PrinterList s ! p))"
    and "InUse ps = InUse (PrinterList s ! p)"
  shows "same_payload p s (set_ps p ps s)"
  using assms by (simp add: same_payload_def)

lemma map_field_update:
  "f y = f (xs ! i) \<Longrightarrow> map f (xs[i := y]) = map f xs"
  by (rule nth_update_same_field)

lemma payload_get_in: "p < length (PrinterList s) \<Longrightarrow> same_payload p s (snd (PrnGetInQueueBuf p s))"
  by (simp add: PrnGetInQueueBuf_def Let_def set_ps_payload)

lemma payload_get_out: "p < length (PrinterList s) \<Longrightarrow> same_payload p s (snd (PrnGetOutQueueBuf p s))"
  by (simp add: PrnGetOutQueueBuf_def Let_def set_ps_payload)

lemma payload_put_in: "p < length (PrinterList s) \<Longrightarrow> same_payload p s (PrnPutInQueueBuf p b s)"
  by (simp add: PrnPutInQueueBuf_def Let_def set_ps_payload map_field_update)

lemma payload_put_out: "p < length (PrinterList s) \<Longrightarrow> same_payload p s (PrnPutOutQueueBuf p b f s)"
  unfolding PrnPutOutQueueBuf_def Let_def
  by (rule set_ps_payload) (simp_all add: map_field_update)

lemmas payload_ops = payload_get_in payload_get_out payload_put_in payload_put_out

section \<open>The protocol of the queue's clients\<close>

text \<open>
  A run of the queue on port \<open>p\<close>, from initialisation on: clients take free buffers, set the size
  of a buffer they hold, submit or release a held one; the consumer fetches. \<open>H\<close> is the set of held
  buffers, \<open>sub\<close> and \<open>fet\<close> the buffers submitted and fetched so far. Claiming the port
  (\<open>PrnSetQueueInUse\<close>) and the hold bits may change at any time.
\<close>

inductive pq_reach :: "nat \<Rightarrow> spool \<Rightarrow> nat set \<Rightarrow> nat list \<Rightarrow> nat list \<Rightarrow> bool" for p where
  init: "p < length (PrinterList s) \<Longrightarrow> length (buf (PrinterList s ! p)) = PRNQUEUELEN \<Longrightarrow>
    pq_reach p (PrnPrinterInit s) {} [] []"
| take: "pq_reach p s H sub fet \<Longrightarrow> PrnGetInQueueBuf p s = (Some b, s') \<Longrightarrow>
    pq_reach p s' (insert b H) sub fet"
| fill: "pq_reach p s H sub fet \<Longrightarrow> b \<in> H \<Longrightarrow> pq_reach p (set_b_size p b n s) H sub fet"
| submit: "pq_reach p s H sub fet \<Longrightarrow> b \<in> H \<Longrightarrow>
    pq_reach p (PrnPutOutQueueBuf p b f s) (H - {b}) (sub @ [b]) fet"
| fetch: "pq_reach p s H sub fet \<Longrightarrow> PrnGetOutQueueBuf p s = (Some b, s') \<Longrightarrow>
    pq_reach p s' (insert b H) sub (fet @ [b])"
| release: "pq_reach p s H sub fet \<Longrightarrow> b \<in> H \<Longrightarrow>
    pq_reach p (PrnPutInQueueBuf p b s) (H - {b}) sub fet"
| inuse: "pq_reach p s H sub fet \<Longrightarrow> pq_reach p (PrnSetQueueInUse p v s) H sub fet"
| hold: "pq_reach p s H sub fet \<Longrightarrow> pq_reach p (PrnSetJobHold p v s) H sub fet"
| unhold: "pq_reach p s H sub fet \<Longrightarrow> pq_reach p (PrnSetJobUnHold p v s) H sub fet"

text \<open>Writes to fields outside the queue keep the represented lists.\<close>

lemma set_ps_other:
  assumes "port_inv p s"
    and "nexts ps = nexts (PrinterList s ! p)" "InQueue ps = InQueue (PrinterList s ! p)"
    and "OutQueueHead ps = OutQueueHead (PrinterList s ! p)"
    and "OutQueueTail ps = OutQueueTail (PrinterList s ! p)"
    and "AvailQueueNO ps = AvailQueueNO (PrinterList s ! p)"
  shows "port_inv p (set_ps p ps s) \<and> frees_of p (set_ps p ps s) = frees_of p s \<and>
    outs_of p (set_ps p ps s) = outs_of p s"
  using port_invD [OF assms(1)] by (intro set_ps_rep assms) (simp add: pq_rep_cong [OF assms(2-6)])

lemma nexts_set_field:
  "Nextbuf b = Nextbuf (buf ps ! i) \<Longrightarrow> nexts (set_buf i b ps) = nexts ps"
  by (simp add: nexts_def map_field_update)

lemma set_b_size_inv:
  "port_inv p s \<Longrightarrow> port_inv p (set_b_size p b n s) \<and> frees_of p (set_b_size p b n s) = frees_of p s \<and>
    outs_of p (set_b_size p b n s) = outs_of p s"
  unfolding set_b_size_def Let_def by (rule set_ps_other) (simp_all add: nexts_set_field)

lemma set_in_use_inv:
  "port_inv p s \<Longrightarrow> port_inv p (PrnSetQueueInUse p v s) \<and> frees_of p (PrnSetQueueInUse p v s) = frees_of p s \<and>
    outs_of p (PrnSetQueueInUse p v s) = outs_of p s"
  unfolding PrnSetQueueInUse_def Let_def by (rule set_ps_other) (simp_all add: nexts_def)

lemma set_hold_inv:
  "port_inv p s \<Longrightarrow> port_inv p (PrnSetJobHold p v s) \<and> frees_of p (PrnSetJobHold p v s) = frees_of p s \<and>
    outs_of p (PrnSetJobHold p v s) = outs_of p s"
  unfolding PrnSetJobHold_def Let_def by (rule set_ps_other) (simp_all add: nexts_def)

lemma set_unhold_inv:
  "port_inv p s \<Longrightarrow> port_inv p (PrnSetJobUnHold p v s) \<and> frees_of p (PrnSetJobUnHold p v s) = frees_of p s \<and>
    outs_of p (PrnSetJobUnHold p v s) = outs_of p s"
  unfolding PrnSetJobUnHold_def Let_def by (rule set_ps_other) (simp_all add: nexts_def)

lemma pq_reach_account: "pq_reach p s H sub fet \<Longrightarrow> pq.account p s H sub fet"
proof (induction rule: pq_reach.induct)
  case (init s)
  then show ?case by (auto simp: pq.account_def PrnPrinterInit_port)
next
  case (fill s H sub fet b n)
  then show ?case using set_b_size_inv [of p s b n] by (auto simp: pq.account_def)
next
  case (inuse s H sub fet v)
  then show ?case using set_in_use_inv [of p s v] by (auto simp: pq.account_def)
next
  case (hold s H sub fet v)
  then show ?case using set_hold_inv [of p s v] by (auto simp: pq.account_def)
next
  case (unhold s H sub fet v)
  then show ?case using set_unhold_inv [of p s v] by (auto simp: pq.account_def)
qed (blast intro: pq.account_take pq.account_submit pq.account_fetch pq.account_release)+

section \<open>The spooler thread's invariant\<close>

text \<open>
  The buffer being printed (\<open>pNoUseBuf\<close>) is held by the spooler: it is on neither list.
  \<open>released\<close> is what the next call of \<open>DMAPrinting\<close> gives back.
\<close>

definition spool_inv :: "nat \<Rightarrow> spool \<Rightarrow> bool" where
  "spool_inv p s \<longleftrightarrow> port_inv p s \<and> p < length (pNoUseBuf s) \<and> p < length (PortIO s) \<and>
     (case pNoUseBuf s ! p of None \<Rightarrow> True
      | Some b \<Rightarrow> b < PRNQUEUELEN \<and> b \<notin> set (frees_of p s @ outs_of p s))"

definition released :: "nat \<Rightarrow> spool \<Rightarrow> nat list" where
  "released p s = (case pNoUseBuf s ! p of None \<Rightarrow> [] | Some b \<Rightarrow> [b])"

definition release_old :: "nat \<Rightarrow> spool \<Rightarrow> spool" where
  "release_old p s = (case pNoUseBuf s ! p of None \<Rightarrow> s | Some b \<Rightarrow> PrnPutInQueueBuf p b s)"

lemma set_pNoUseBuf_simps [simp]:
  "PrinterList (set_pNoUseBuf p b s) = PrinterList s" "PortIO (set_pNoUseBuf p b s) = PortIO s"
  "pNoUseBuf (set_pNoUseBuf p b s) = (pNoUseBuf s)[p := b]" "qmem (set_pNoUseBuf p b s) = qmem s"
  "G_PortReady (set_pNoUseBuf p b s) = G_PortReady s" "usb_out (set_pNoUseBuf p b s) = usb_out s"
  "SP_SIGNAL_PORT_1 (set_pNoUseBuf p b s) = SP_SIGNAL_PORT_1 s"
  "usblp_table (set_pNoUseBuf p b s) = usblp_table s"
  by (simp_all add: set_pNoUseBuf_def)

lemma port_inv_cong: "PrinterList t = PrinterList s \<Longrightarrow> port_inv p t = port_inv p s"
  by (simp add: port_inv_def)

lemma StartDMAIO_simps [simp]:
  "fst (StartDMAIO a n p s) = 1"
  "PrinterList (snd (StartDMAIO a n p s)) = PrinterList s"
  "pNoUseBuf (snd (StartDMAIO a n p s)) = pNoUseBuf s"
  "qmem (snd (StartDMAIO a n p s)) = qmem s"
  "G_PortReady (snd (StartDMAIO a n p s)) = G_PortReady s"
  "usb_out (snd (StartDMAIO a n p s)) = usb_out s"
  "usblp_table (snd (StartDMAIO a n p s)) = usblp_table s"
  "PortIO (snd (StartDMAIO a n p s)) =
     (PortIO s)[p := (PortIO s ! p)\<lparr>DataSize := uint (word_of_int n :: u16), DataPtr := a\<rparr>]"
  "SP_SIGNAL_PORT_1 (snd (StartDMAIO a n p s)) =
     SP_SIGNAL_PORT_1 s + (if G_PortReady s AND port_mask p \<noteq> 0 then 1 else 0)"
  by (simp_all add: StartDMAIO_def Let_def)

lemma StartDMAIO_pair: "StartDMAIO a n p s = (1, snd (StartDMAIO a n p s))"
  by (simp add: StartDMAIO_def Let_def)

lemma release_old_spec:
  assumes "spool_inv p s"
  shows "port_inv p (release_old p s)" "frees_of p (release_old p s) = released p s @ frees_of p s"
    "outs_of p (release_old p s) = outs_of p s" "same_payload p s (release_old p s)"
proof -
  have "p < length (PrinterList s)" using assms by (simp add: spool_inv_def port_inv_def)
  then show "same_payload p s (release_old p s)"
    by (simp add: release_old_def payload_put_in split: option.split)
  show "port_inv p (release_old p s)" "frees_of p (release_old p s) = released p s @ frees_of p s"
    "outs_of p (release_old p s) = outs_of p s"
    using assms pq.put_in_spec [of p s]
    by (auto simp: spool_inv_def release_old_def released_def split: option.splits)
qed

lemma DMAPrinting_alt:
  "DMAPrinting p s = (case PrnGetOutQueueBuf p (release_old p s) of
       (None, s2) \<Rightarrow> (0, set_pNoUseBuf p None s2)
     | (Some b, s2) \<Rightarrow> (let pb = buf (PrinterList s2 ! p) ! b
         in if b_size pb = 0 then (0, set_pNoUseBuf p None (PrnPutInQueueBuf p b s2))
            else StartDMAIO (b_data pb) (b_size pb) p (set_pNoUseBuf p (Some b) s2)))"
  by (simp add: DMAPrinting_def release_old_def Let_def)

lemma spool_inv_len: "spool_inv p s \<Longrightarrow> length (buf (PrinterList s ! p)) = PRNQUEUELEN"
  by (simp add: spool_inv_def port_inv_def pq_inv_def pq_rep_def)

lemma spool_inv_outs: "spool_inv p s \<Longrightarrow> b \<in> set (outs_of p s) \<Longrightarrow> b < PRNQUEUELEN"
  using pq.pool_range [of p s] by (auto simp: spool_inv_def)

lemma DMAPrinting_idle:
  assumes "spool_inv p s" "outs_of p s = []"
  shows "\<exists>t. DMAPrinting p s = (0, t) \<and> spool_inv p t \<and> frees_of p t = released p s @ frees_of p s \<and>
    outs_of p t = [] \<and> pNoUseBuf t = (pNoUseBuf s)[p := None] \<and> PortIO t = PortIO s \<and>
    SP_SIGNAL_PORT_1 t = SP_SIGNAL_PORT_1 s \<and> G_PortReady t = G_PortReady s"
proof -
  note r = release_old_spec [OF assms(1)]
  have "PrnGetOutQueueBuf p (release_old p s) = (None, release_old p s)"
    using r(1,3) assms(2) by (simp add: pq.get_out_empty)
  then have "DMAPrinting p s = (0, set_pNoUseBuf p None (release_old p s))"
    by (simp add: DMAPrinting_alt)
  with r assms show ?thesis
    by (auto simp: spool_inv_def same_payload_def port_inv_cong [of "set_pNoUseBuf p None _"])
qed

lemma DMAPrinting_fetch:
  assumes "spool_inv p s" "outs_of p s = b # os"
  obtains u where "PrnGetOutQueueBuf p (release_old p s) = (Some b, u)" "port_inv p u"
    "frees_of p u = released p s @ frees_of p s" "outs_of p u = os" "same_payload p s u"
    "b_size (buf (PrinterList u ! p) ! b) = b_size (buf (PrinterList s ! p) ! b)"
    "b_data (buf (PrinterList u ! p) ! b) = b_data (buf (PrinterList s ! p) ! b)"
    "b < PRNQUEUELEN" "b \<notin> set (frees_of p u @ outs_of p u)"
proof -
  note r = release_old_spec [OF assms(1)]
  obtain u where u: "PrnGetOutQueueBuf p (release_old p s) = (Some b, u)" "port_inv p u"
    "frees_of p u = released p s @ frees_of p s" "outs_of p u = os"
    using pq.get_out_some [OF r(1), of b os] r(2,3) assms(2) by auto
  have "p < length (PrinterList (release_old p s))" using r(1) by (simp add: port_inv_def)
  then have pay: "same_payload p s u"
    using same_payload_trans [OF r(4)] payload_get_out [of p "release_old p s"] u(1) by simp
  have b: "b < PRNQUEUELEN" using assms by (simp add: spool_inv_outs)
  have "distinct (frees_of p (release_old p s) @ outs_of p (release_old p s))"
    using r(1) by (rule pq.pool_distinct)
  then have "b \<notin> set (frees_of p u @ outs_of p u)" using r(2,3) u(3,4) assms(2) by auto
  with u pay b same_payload_field [OF pay, of b] spool_inv_len [OF assms(1)] show ?thesis
    using that by metis
qed

lemma DMAPrinting_eof:
  assumes "spool_inv p s" "outs_of p s = b # os" "b_size (buf (PrinterList s ! p) ! b) = 0"
  shows "\<exists>t. DMAPrinting p s = (0, t) \<and> spool_inv p t \<and> frees_of p t = b # released p s @ frees_of p s \<and>
    outs_of p t = os \<and> pNoUseBuf t = (pNoUseBuf s)[p := None] \<and> PortIO t = PortIO s \<and>
    SP_SIGNAL_PORT_1 t = SP_SIGNAL_PORT_1 s \<and> G_PortReady t = G_PortReady s"
proof -
  obtain u where u: "PrnGetOutQueueBuf p (release_old p s) = (Some b, u)" "port_inv p u"
    "frees_of p u = released p s @ frees_of p s" "outs_of p u = os" "same_payload p s u"
    "b_size (buf (PrinterList u ! p) ! b) = b_size (buf (PrinterList s ! p) ! b)"
    "b < PRNQUEUELEN" "b \<notin> set (frees_of p u @ outs_of p u)"
    using DMAPrinting_fetch [OF assms(1,2)] by metis
  let ?v = "PrnPutInQueueBuf p b u"
  have v: "port_inv p ?v" "frees_of p ?v = b # frees_of p u" "outs_of p ?v = outs_of p u"
    using pq.put_in_spec [OF u(2,7,8)] by auto
  have "same_payload p u ?v" using u(2) by (intro payload_put_in) (simp add: port_inv_def)
  with u(5) have pay: "same_payload p s ?v" by (rule same_payload_trans)
  have "DMAPrinting p s = (0, set_pNoUseBuf p None ?v)"
    using u(1,6) assms(3) by (simp add: DMAPrinting_alt Let_def)
  with v u(3,4) pay assms(1) show ?thesis
    by (auto simp: spool_inv_def same_payload_def port_inv_cong [of "set_pNoUseBuf p None _"])
qed

lemma DMAPrinting_data:
  assumes "spool_inv p s" "outs_of p s = b # os" "b_size (buf (PrinterList s ! p) ! b) \<noteq> 0"
  shows "\<exists>t. DMAPrinting p s = (1, t) \<and> spool_inv p t \<and> frees_of p t = released p s @ frees_of p s \<and>
    outs_of p t = os \<and> pNoUseBuf t = (pNoUseBuf s)[p := Some b] \<and>
    PortIO t = (PortIO s)[p := (PortIO s ! p)\<lparr>
      DataSize := uint (word_of_int (b_size (buf (PrinterList s ! p) ! b)) :: u16),
      DataPtr := b_data (buf (PrinterList s ! p) ! b)\<rparr>] \<and>
    SP_SIGNAL_PORT_1 t = SP_SIGNAL_PORT_1 s + (if G_PortReady s AND port_mask p \<noteq> 0 then 1 else 0) \<and>
    G_PortReady t = G_PortReady s"
proof -
  obtain u where u: "PrnGetOutQueueBuf p (release_old p s) = (Some b, u)" "port_inv p u"
    "frees_of p u = released p s @ frees_of p s" "outs_of p u = os" "same_payload p s u"
    "b_size (buf (PrinterList u ! p) ! b) = b_size (buf (PrinterList s ! p) ! b)"
    "b_data (buf (PrinterList u ! p) ! b) = b_data (buf (PrinterList s ! p) ! b)"
    "b < PRNQUEUELEN" "b \<notin> set (frees_of p u @ outs_of p u)"
    using DMAPrinting_fetch [OF assms(1,2)] by metis
  let ?t = "snd (StartDMAIO (b_data (buf (PrinterList s ! p) ! b)) (b_size (buf (PrinterList s ! p) ! b)) p
    (set_pNoUseBuf p (Some b) u))"
  have "DMAPrinting p s = StartDMAIO (b_data (buf (PrinterList s ! p) ! b))
      (b_size (buf (PrinterList s ! p) ! b)) p (set_pNoUseBuf p (Some b) u)"
    using u(1,6,7) assms(3) by (simp add: DMAPrinting_alt Let_def)
  then have "DMAPrinting p s = (1, ?t)" by (metis StartDMAIO_pair)
  with u assms(1) show ?thesis
    by (auto simp: spool_inv_def same_payload_def port_inv_cong [of ?t u])
qed

section \<open>Properties\<close>

text \<open>C2: In every state the queue's clients can reach from initialisation by taking, filling,
  submitting, fetching and releasing buffers they hold, each of the buffers of the port is in
  exactly one place (free list, output queue, or one holder), \<open>AvailQueueNO\<close> counts the free ones,
  and the buffers come out of the output queue in the order they were put in.\<close>

theorem queue_partition_fifo:
  assumes "pq_reach p s H sub fet"
  shows "port_inv p s \<and> H \<inter> set (frees_of p s @ outs_of p s) = {} \<and>
    H \<union> set (frees_of p s @ outs_of p s) = {..<PRNQUEUELEN} \<and>
    PrnGetAvailQueueNO p s = of_nat (length (frees_of p s)) \<and> sub = fet @ outs_of p s"
proof -
  have a: "pq.account p s H sub fet" using assms by (rule pq_reach_account)
  then have "port_inv p s" by (simp add: pq.account_def)
  from port_invD [OF this] a show ?thesis
    by (simp add: pq.account_def PrnGetAvailQueueNO_def pq_rep_def)
qed

lemma spool_static_port: "0 < length (PrinterList spool_static)"
  "length (buf (PrinterList spool_static ! 0)) = PRNQUEUELEN"
  by (simp_all add: spool_static_def NUM_OF_PRN_PORT_def zero_ps_def)

lemma pq_reach_init: "pq_reach 0 (PrnPrinterInit spool_static) {} [] []"
  by (rule pq_reach.init) (rule spool_static_port)+

lemma take_from_init:
  obtains s' where "PrnGetInQueueBuf 0 (PrnPrinterInit spool_static) = (Some 0, s')"
    "pq_reach 0 s' {0} [] []"
proof -
  note i = PrnPrinterInit_port [OF spool_static_port]
  have "frees_of 0 (PrnPrinterInit spool_static) = 0 # [1..<PRNQUEUELEN]"
    using i(2) by (simp add: PRNQUEUELEN_def upt_rec)
  then obtain s' where "PrnGetInQueueBuf 0 (PrnPrinterInit spool_static) = (Some 0, s')"
    using pq.get_in_some [OF i(1)] by blast
  with pq_reach.take [OF pq_reach_init this] that show ?thesis by simp
qed

theorem queue_partition_fifo_witness:
  "\<exists>s'. PrnGetInQueueBuf 0 (PrnPrinterInit spool_static) = (Some 0, s') \<and>
    pq_reach 0 (PrnPutOutQueueBuf 0 0 PRN_Q_EOF s') {} [0] [] \<and>
    outs_of 0 (PrnPutOutQueueBuf 0 0 PRN_Q_EOF s') = [0] \<and>
    set (frees_of 0 (PrnPutOutQueueBuf 0 0 PRN_Q_EOF s') @ [0]) = {..<PRNQUEUELEN}"
proof -
  obtain s' where s': "PrnGetInQueueBuf 0 (PrnPrinterInit spool_static) = (Some 0, s')"
    "pq_reach 0 s' {0} [] []" by (rule take_from_init)
  have r: "pq_reach 0 (PrnPutOutQueueBuf 0 0 PRN_Q_EOF s') {} [0] []"
    using pq_reach.submit [OF s'(2), of 0 PRN_Q_EOF] by simp
  with queue_partition_fifo [OF r] s' show ?thesis by auto
qed

text \<open>C5: A request for a free buffer fails exactly when every buffer of the port is queued for
  output or held by a client: the free list never loses a buffer.\<close>

theorem get_in_fails_iff_exhausted:
  assumes "pq_reach p s H sub fet"
  shows "fst (PrnGetInQueueBuf p s) = None \<longleftrightarrow> card H + length (outs_of p s) = PRNQUEUELEN"
proof -
  have a: "pq.account p s H sub fet" using assms by (rule pq_reach_account)
  then have i: "port_inv p s" by (simp add: pq.account_def)
  have c: "card H + length (frees_of p s) + length (outs_of p s) = PRNQUEUELEN"
    using a by (rule pq.account_card)
  show ?thesis
  proof (cases "frees_of p s")
    case Nil
    with c pq.get_in_empty [OF i] show ?thesis by simp
  next
    case (Cons b fr)
    then obtain s' where "PrnGetInQueueBuf p s = (Some b, s')" using pq.get_in_some [OF i] by blast
    with c Cons show ?thesis by simp
  qed
qed

theorem get_in_fails_iff_exhausted_witness:
  "fst (PrnGetInQueueBuf 0 (PrnPrinterInit spool_static)) \<noteq> None"
  using get_in_fails_iff_exhausted [OF pq_reach_init] PrnPrinterInit_port(3) [OF spool_static_port]
  by (simp add: PRNQUEUELEN_def)

text \<open>C6: \<open>PrnQueueInit\<close> gives every buffer of every port its own \<open>BLOCKSIZE + 20\<close> bytes of memory:
  writing that many bytes through one buffer's \<open>data\<close> pointer leaves the bytes of every other
  buffer as they were.\<close>

theorem PrnQueueInit_disjoint:
  assumes "\<forall>ps \<in> set (PrinterList s). length (buf ps) = PRNQUEUELEN"
    and "i < length (PrinterList s)" "j < PRNQUEUELEN"
    and "i' < length (PrinterList s)" "j' < PRNQUEUELEN" "(i, j) \<noteq> (i', j')"
    and "length bs \<le> BLOCKSIZE + 20" "n \<le> BLOCKSIZE + 20"
  shows "mem_read (mem_write m (b_data (buf (PrinterList (PrnQueueInit s) ! i) ! j)) bs)
      (b_data (buf (PrinterList (PrnQueueInit s) ! i') ! j')) n =
    mem_read m (b_data (buf (PrinterList (PrnQueueInit s) ! i') ! j')) n"
  using buf_addr_disjoint [OF assms(3,5,6)] assms(7,8)
  by (auto simp: PrnQueueInit_addr [OF assms(1-3)] PrnQueueInit_addr [OF assms(1,4,5)]
      intro!: mem_read_write_other)

theorem PrnQueueInit_disjoint_witness:
  "mem_read (mem_write (\<lambda>_. 0) (b_data (buf (PrinterList (PrnQueueInit spool_static) ! 0) ! 3)) [1, 2])
      (b_data (buf (PrinterList (PrnQueueInit spool_static) ! 0) ! 4)) 2 = [0, 0]"
proof -
  have "\<forall>ps \<in> set (PrinterList spool_static). length (buf ps) = PRNQUEUELEN"
    by (simp add: spool_static_def zero_ps_def)
  from PrnQueueInit_disjoint [OF this spool_static_port(1) _ spool_static_port(1), of 3 4 "[1, 2]" 2 "\<lambda>_. 0"]
  show ?thesis by (simp add: PRNQUEUELEN_def mem_read_def)
qed

text \<open>C7: \<open>DMAPrinting\<close> first returns the buffer whose printing has ended to the free list. With an
  empty output queue it then reports nothing to print; a buffer of size 0 (an end-of-job or abort
  mark) is consumed and released without printing; any other buffer is handed to the port writer
  with its address and length and stays held. In each case the queue invariant is kept and no
  other buffer moves.\<close>

theorem DMAPrinting_refines:
  assumes "spool_inv p s"
  shows "\<exists>r t. DMAPrinting p s = (r, t) \<and> spool_inv p t \<and>
    (case outs_of p s of
       [] \<Rightarrow> r = 0 \<and> frees_of p t = released p s @ frees_of p s \<and> outs_of p t = [] \<and>
             pNoUseBuf t ! p = None \<and> PortIO t = PortIO s
     | b # os \<Rightarrow> outs_of p t = os \<and>
         (if b_size (buf (PrinterList s ! p) ! b) = 0
          then r = 0 \<and> frees_of p t = b # released p s @ frees_of p s \<and> pNoUseBuf t ! p = None \<and>
               PortIO t = PortIO s
          else r = 1 \<and> frees_of p t = released p s @ frees_of p s \<and> pNoUseBuf t ! p = Some b \<and>
               DataPtr (PortIO t ! p) = b_data (buf (PrinterList s ! p) ! b) \<and>
               DataSize (PortIO t ! p) = uint (word_of_int (b_size (buf (PrinterList s ! p) ! b)) :: u16)))"
proof (cases "outs_of p s")
  case Nil
  with DMAPrinting_idle [OF assms Nil] assms show ?thesis by (auto simp: spool_inv_def)
next
  case (Cons b os)
  show ?thesis
  proof (cases "b_size (buf (PrinterList s ! p) ! b) = 0")
    case True
    with DMAPrinting_eof [OF assms Cons True] Cons assms show ?thesis by (auto simp: spool_inv_def)
  next
    case False
    with DMAPrinting_data [OF assms Cons False] Cons assms show ?thesis by (auto simp: spool_inv_def)
  qed
qed

lemma spool_inv_init: "spool_inv 0 (PrnPrinterInit spool_static)"
  using PrnPrinterInit_port [OF spool_static_port] spool_static_port(1)
  by (auto simp: spool_inv_def PrnPrinterInit_def spool_static_def NUM_OF_PRN_PORT_def)

theorem DMAPrinting_refines_witness:
  "\<exists>t. DMAPrinting 0 (PrnPrinterInit spool_static) = (0, t) \<and> frees_of 0 t = [0..<PRNQUEUELEN]"
  using DMAPrinting_refines [OF spool_inv_init] PrnPrinterInit_port [OF spool_static_port]
  by (auto simp: released_def)

end
