(* ===== verification/Prnport.thy ===== *)
theory Prnport
  imports Prnqueue_Props
begin

text \<open>
  The print port driver, \<open>src/apps/spooler/src/prnport.c\<close>, with the USB side it calls in
  \<open>src/apps/usb_host/src/printer.c\<close>: the device-id strings, the port status, the port writer
  thread (\<open>PortNWrite\<close>) and the thread that watches for a printer that stops taking data
  (\<open>PrnStateSpooler\<close>).

  \<open>psys\<close> is the spooler state with the variables of those threads; \<open>lost\<close> is no variable of the code
  but a record of the blocks that never reached the printer, kept by the steps of \<open>Print_System\<close>. The
  bytes handed to the printer are appended to \<open>usb_out\<close>; \<open>usblp_open\<close>, \<open>usblp_write\<close> and \<open>usblp_release\<close> themselves belong to
  the USB class driver.
\<close>

unbundle bit_operations_syntax

record psys =
  sp :: spool
  PortType :: "u8 list"
  adjPortType :: "u8 list"
  Printing_StartNum :: "u32 list"
  Printing_MarkNum :: "u32 list"
  PNW_Statu :: "int list"
  st_time :: u32
  IS_SHARP_AR_M207 :: bool
  lost :: "(nat \<times> u8 list) list"

definition ALERT_RECOVERY :: u8 where "ALERT_RECOVERY = 1"
definition ALERT_ERROR :: u8 where "ALERT_ERROR = 2"

section \<open>USB printer access\<close>

definition usb_present :: "nat \<Rightarrow> spool \<Rightarrow> bool" where
  "usb_present p s \<longleftrightarrow> p_base (PortIO s ! p) \<noteq> 0 \<and> usblp_table s (p_base (PortIO s ! p) - 1)"

definition usbprn_read_status :: "nat \<Rightarrow> spool \<Rightarrow> u8" where
  "usbprn_read_status p s = (if usb_present p s then 0xD9 else 0x7F)"

definition usbprn_write :: "nat \<Rightarrow> nat \<Rightarrow> int \<Rightarrow> spool \<Rightarrow> int \<times> spool" where
  "usbprn_write p a n s =
     (n, if usb_present p s then s\<lparr>usb_out := usb_out s @ mem_read (qmem s) a (nat n)\<rparr> else s)"

section \<open>Device identification\<close>

definition SNMP_MAX_STRING :: nat where "SNMP_MAX_STRING = 512"

text \<open>\<open>PrnDeviceInfo\<close> writes into \<open>Buf\<close>, whose old contents are the first argument.\<close>

definition PrnDeviceInfo :: "u8 list \<Rightarrow> parport \<Rightarrow> u8 list" where
  "PrnDeviceInfo Buf io =
     (case (Manufacture io, Model io) of
        (Some mf, Some md) \<Rightarrow>
          (let b1 = cstr ''MANUFACTURER:'' @ mf @ cstr '';MODEL:'' @ md @ cstr '';CLASS:PRINTER'';
               b2 = (case CommandSet io of None \<Rightarrow> b1
                     | Some c \<Rightarrow> if length b1 + length c + 20 < SNMP_MAX_STRING
                                 then b1 @ cstr '';COMMAND SET:'' @ c else b1)
           in (case Description io of None \<Rightarrow> b2
               | Some d \<Rightarrow> if length b2 + length d + 20 < SNMP_MAX_STRING
                           then b2 @ cstr '';DESCRIPTION:'' @ d else b2))
      | _ \<Rightarrow> Buf)"

definition PrnFreeDeviceInfo :: "parport \<Rightarrow> parport" where
  "PrnFreeDeviceInfo io =
     io\<lparr>Manufacture := None, Model := None, CommandSet := None, Description := None\<rparr>"

fun strstr :: "u8 list \<Rightarrow> u8 list \<Rightarrow> bool" where
  "strstr [] t = (t = [])"
| "strstr (c # cs) t = (take (length t) (c # cs) = t \<or> strstr cs t)"

definition char_semicolon :: u8 where "char_semicolon = of_char (CHR '';'')"
definition char_colon :: u8 where "char_colon = of_char (CHR '':'')"

text \<open>
  One \<open>key:value\<close> section of a device id. \<open>malloc_ok n\<close> tells whether \<open>malloc(n)\<close> succeeds;
  \<open>mallocw\<close> waits for memory and fails on size 0 only.
\<close>

definition lang_bits :: "u8 list \<Rightarrow> u8" where
  "lang_bits v =
     (if strstr v (cstr ''PJL'') then P1284_PJL else 0) OR
     (if strstr v (cstr ''PCL'') then P1284_PCL else 0) OR
     (if strstr v (cstr ''POSTSCRIPT'') then P1284_POSTSCRIPT else 0)"

definition dup :: "(nat \<Rightarrow> bool) \<Rightarrow> u8 list \<Rightarrow> u8 list option" where
  "dup malloc_ok v = (if malloc_ok (length v + 1) then Some v else None)"

definition parse_section :: "(nat \<Rightarrow> bool) \<Rightarrow> u8 list \<Rightarrow> parport \<Rightarrow> parport" where
  "parse_section malloc_ok p io =
     (case dropWhile (\<lambda>c. c \<noteq> char_colon) p of
        [] \<Rightarrow> io
      | _ # sep \<Rightarrow>
          (let key = map toupper (takeWhile (\<lambda>c. c \<noteq> char_colon) p)
           in if strstr key (cstr ''MFG'') \<or> strstr key (cstr ''MANUFACTURER'')
              then io\<lparr>Manufacture := dup malloc_ok sep\<rparr>
              else if key = cstr ''MDL'' \<or> key = cstr ''MODEL''
              then io\<lparr>Model := dup malloc_ok sep\<rparr>
              else if strstr key (cstr ''CMD'') \<or> strstr key (cstr ''COMMAND SET'')
              then io\<lparr>CommandSet := dup malloc_ok sep, SupportLang := lang_bits (map toupper sep)\<rparr>
              else if strstr key (cstr ''DESCRIPTION'')
              then io\<lparr>Description := (if length sep = 0 then None else Some sep)\<rparr>
              else io))"

function parse_device_id :: "(nat \<Rightarrow> bool) \<Rightarrow> u8 list \<Rightarrow> parport \<Rightarrow> parport" where
  "parse_device_id malloc_ok p io =
     (let io' = parse_section malloc_ok (takeWhile (\<lambda>c. c \<noteq> char_semicolon) p) io
      in case dropWhile (\<lambda>c. c \<noteq> char_semicolon) p of
           [] \<Rightarrow> io'
         | _ # q \<Rightarrow> parse_device_id malloc_ok q io')"
  by pat_completeness auto
termination
proof (relation "measure (\<lambda>(m, p, io). length p)")
  fix malloc_ok p io x c q
  assume "dropWhile (\<lambda>c. c \<noteq> char_semicolon) p = c # q"
  then have "length (c # q) \<le> length p" by (metis length_dropWhile_le)
  then show "((malloc_ok :: nat \<Rightarrow> bool, q, x :: parport), malloc_ok, p, io :: parport)
      \<in> measure (\<lambda>(m, p, io). length p)" by simp
qed simp

declare parse_device_id.simps [simp del]

definition PrnLangSupport :: "nat \<Rightarrow> u8 \<Rightarrow> spool \<Rightarrow> u8" where
  "PrnLangSupport p Lang s = SupportLang (PortIO s ! p) AND Lang"

definition RealPortStatus :: "nat \<Rightarrow> spool \<Rightarrow> u8" where
  "RealPortStatus p s = usbprn_read_status p s"

section \<open>Port status\<close>

definition port_idle :: "nat \<Rightarrow> spool \<Rightarrow> bool" where
  "port_idle p s \<longleftrightarrow> G_PortReady s AND port_mask p \<noteq> 0 \<and> PrnOutQueueIsEmpty p s"

text \<open>The code derived from a status byte of a connected printer (the \<open>CONNECTED\<close> branch).\<close>

definition connected_rc :: "u8 \<Rightarrow> bool \<Rightarrow> u8" where
  "connected_rc status idle =
     (if status AND PARPORT_STATUS_PAPEROUT \<noteq> 0 then PORT_PAPER_OUT
      else if status AND PARPORT_STATUS_ERROR \<noteq> 0
      then (if status AND PARPORT_STATUS_BUSY \<noteq> 0
            then (if status AND PARPORT_CONTROL_SELECT \<noteq> 0 \<and> status AND PARPORT_STATUS_ACK \<noteq> 0 \<and> idle
                  then PORT_READY else PORT_PRINTING)
            else PORT_PRINTING)
      else PORT_OFF_LINE)"

definition PrnReadPortStatus :: "nat \<Rightarrow> spool \<Rightarrow> u8 \<times> spool" where
  "PrnReadPortStatus p s =
     (let status = usbprn_read_status p s;
          (rc, s1) =
            (if status = 0x7F
             then (PORT_OFF_LINE,
                   if PrnGetPrinterStatus p s = PrnNoUsed \<and> PrnMode (PortIO s ! p) \<noteq> PRN_NO_PRINTER
                      \<and> port_idle p s \<and> p < NUM_OF_1284_PORT
                   then set_pio p (PrnFreeDeviceInfo ((PortIO s ! p)\<lparr>PrnMode := PRN_NO_PRINTER,
                          HasGetDeviceID := 0, SupportLang := 0\<rparr>)) s
                   else s)
             else (connected_rc status (port_idle p s), s))
      in (if rc = PORT_PRINTING \<and> port_idle p s1 then PORT_READY else rc, s1))"

definition ReadPortStatus :: "nat \<Rightarrow> spool \<Rightarrow> u8 \<times> spool" where
  "ReadPortStatus p s =
     (if HasGetDeviceID (PortIO s ! p) \<noteq> 0 then PrnReadPortStatus p s else (PORT_OFF_LINE, s))"

definition GetDeviceID :: "nat \<Rightarrow> spool \<Rightarrow> int \<times> spool" where
  "GetDeviceID p s =
     (let (status, s1) = PrnReadPortStatus p s
      in if status = PORT_READY \<and> PrnGetPrinterStatus p s1 = PrnNoUsed
         then (1, PrnSetQueueInUse p PrnNoUsed (PrnSetQueueInUse p DeviceIDUsed s1))
         else (0, s1))"

text \<open>Two status bits per port.\<close>

definition ReadPrintStatus :: "spool \<Rightarrow> u8 \<times> spool" where
  "ReadPrintStatus s =
     fold (\<lambda>i (rc, s). (case ReadPortStatus i s of (st, s1) \<Rightarrow> (rc OR push_bit (2 * i) st, s1)))
       [0..<NUM_OF_PRN_PORT] (0, s)"

section \<open>Initialisation\<close>

definition PrnPortInit :: "spool \<Rightarrow> spool" where
  "PrnPortInit s = s\<lparr>PortIO := replicate (length (PortIO s)) zero_parport,
     G_PortReady := NOT (push_bit NUM_OF_PRN_PORT 0xFF)\<rparr>"

text \<open>\<open>Spooler_init\<close> up to the creation of the three threads.\<close>

definition Spooler_init :: "spool \<Rightarrow> spool" where
  "Spooler_init s = (PrnPrinterInit (PrnQueueInit (PrnPortInit s)))\<lparr>SP_SIGNAL_PORT_1 := 0\<rparr>"

section \<open>The watching thread\<close>

text \<open>One pass of \<open>PrnStateSpooler\<close> over a port; \<open>st_time\<close> is its local variable \<open>time\<close>.\<close>

definition state_spooler_port :: "nat \<Rightarrow> psys \<Rightarrow> psys" where
  "state_spooler_port p y =
     (if PrnGetPrinterStatus p (sp y) = PrnNoUsed then y
      else let (status, s1) = PrnReadPortStatus p (sp y); y1 = y\<lparr>sp := s1\<rparr>
           in if status = PORT_PAPER_OUT \<or> status = PORT_OFF_LINE
              then y1\<lparr>adjPortType := (adjPortType y1)[p := status],
                      PortType := (PortType y1)[p := ALERT_ERROR]\<rparr>
              else let y2 = (if Printing_StartNum y1 ! p > 0 \<and> Printing_MarkNum y1 ! p = Printing_StartNum y1 ! p
                             then y1\<lparr>st_time := (if st_time y1 \<ge> 45 then 45 else st_time y1 + 1)\<rparr>
                             else y1\<lparr>adjPortType := (adjPortType y1)[p := PORT_READY],
                                     PortType := (PortType y1)[p := ALERT_RECOVERY], st_time := 0\<rparr>);
                       y3 = y2\<lparr>Printing_MarkNum := (Printing_MarkNum y2)[p :=
                                  (if Printing_StartNum y2 ! p > 0 then Printing_StartNum y2 ! p else 0)]\<rparr>
                   in if st_time y3 = 45
                      then y3\<lparr>adjPortType := (adjPortType y3)[p := PORT_PAPER_OUT],
                              PortType := (PortType y3)[p := ALERT_ERROR]\<rparr>
                      else y3)"

definition PrnStateSpooler :: "psys \<Rightarrow> psys" where
  "PrnStateSpooler y = fold state_spooler_port [0..<NUM_OF_PRN_PORT] y"

section \<open>The port writer thread\<close>

text \<open>The \<open>do ... while (written < TotalSize)\<close> loop.\<close>

partial_function (option) write_loop :: "nat \<Rightarrow> spool \<Rightarrow> spool option" where
  "write_loop p s =
     (case usbprn_write p (DataPtr (PortIO s ! p)) (DataSize (PortIO s ! p)) s of
        (written, s1) \<Rightarrow>
          (let io = PortIO s1 ! p;
               io1 = io\<lparr>DataSize := TotalSize io - written\<rparr>;
               io2 = io1\<lparr>PortTimeout := (if DataSize io1 \<noteq> 0 then PortTimeout io1 + 1 else 0)\<rparr>;
               s2 = set_pio p io2 s1
           in if written < TotalSize io2 then write_loop p s2 else Some s2))"

definition set_start_num :: "nat \<Rightarrow> u32 \<Rightarrow> psys \<Rightarrow> psys" where
  "set_start_num p v y = y\<lparr>Printing_StartNum := (Printing_StartNum y)[p := v]\<rparr>"

definition PRN_EXIT_PRINT_MODE_TIME :: u32 where "PRN_EXIT_PRINT_MODE_TIME = 7000"

text \<open>
  One pass of the writer's inner loop: write the pending block if there is one, then ask
  \<open>DMAPrinting\<close> for the next. \<open>tw\<close> and \<open>ts\<close> are the clock readings before and after the write;
  \<open>start\<close> is the thread's variable. The value of \<open>DMAPrinting\<close>, on which only pauses depend, is
  part of the result.
\<close>

definition pnw_write :: "nat \<Rightarrow> u32 \<Rightarrow> u32 \<Rightarrow> u32 \<Rightarrow> psys \<Rightarrow> (u32 \<times> psys) option" where
  "pnw_write p tw ts start y =
     (let io = PortIO (sp y) ! p
      in if DataSize io = 0 then Some (start, y)
         else let s1 = set_pio p (io\<lparr>TotalSize := DataSize io\<rparr>) (sp y);
                  y1 = set_start_num p (if tw \<noteq> 0 then tw else 1) (y\<lparr>sp := s1\<rparr>)
              in (case write_loop p (sp y1) of
                    None \<Rightarrow> None
                  | Some s2 \<Rightarrow>
                      Some (ts, set_start_num p 0
                        (y1\<lparr>sp := set_pio p ((PortIO s2 ! p)\<lparr>DataSize := 0\<rparr>) s2\<rparr>))))"

definition pnw_pass :: "nat \<Rightarrow> u32 \<Rightarrow> u32 \<Rightarrow> u32 \<Rightarrow> psys \<Rightarrow> (u8 \<times> u32 \<times> psys) option" where
  "pnw_pass p tw ts start y =
     (case pnw_write p tw ts start y of
        None \<Rightarrow> None
      | Some (start', y2) \<Rightarrow>
          (case DMAPrinting p (sp y2) of (r, s3) \<Rightarrow> Some (r, start', y2\<lparr>sp := s3\<rparr>)))"

text \<open>
  The loop itself over a sequence of clock readings, three per pass (the loop test, then \<open>tw\<close> and
  \<open>ts\<close>). The flag of the result tells whether the loop was left; otherwise the readings ran out
  with the loop still running.
\<close>

fun pnw_loop :: "nat \<Rightarrow> u32 \<Rightarrow> (u32 \<times> u32 \<times> u32) list \<Rightarrow> psys \<Rightarrow> (bool \<times> psys) option" where
  "pnw_loop p start [] y = Some (False, y)"
| "pnw_loop p start ((t, tw, ts) # ticks) y =
     (if t - start < PRN_EXIT_PRINT_MODE_TIME
      then (case pnw_pass p tw ts start y of
              None \<Rightarrow> None
            | Some (_, start', y') \<Rightarrow> pnw_loop p start' ticks y')
      else Some (True, y))"

text \<open>
  The start of a round (the thread was woken through the semaphore; \<open>usbprn_open\<close> returns 0, so
  the wait for the printer ends at once) and its end, after \<open>PRN_EXIT_PRINT_MODE_TIME\<close> without
  data. For a printer recognised as a Sharp AR-M207 (\<open>IS_SHARP_AR_M207\<close>) \<open>usbprn_open\<close> and
  \<open>usbprn_close\<close> also exchange GDI commands with it; they are not modelled, and the step relation of the printing
  subsystem is about other printers.
\<close>

definition pnw_begin :: "nat \<Rightarrow> psys \<Rightarrow> psys" where
  "pnw_begin p y = y\<lparr>sp := (sp y)\<lparr>SP_SIGNAL_PORT_1 := SP_SIGNAL_PORT_1 (sp y) - 1\<rparr>,
     PNW_Statu := (PNW_Statu y)[p := 1]\<rparr>"

definition pnw_end :: "nat \<Rightarrow> psys \<Rightarrow> psys" where
  "pnw_end p y =
     (let (st, s1) = PrnReadPortStatus p (sp y)
      in y\<lparr>sp := s1\<lparr>G_PortReady := G_PortReady s1 OR port_mask p\<rparr>,
           adjPortType := (adjPortType y)[p := st],
           PNW_Statu := (PNW_Statu y)[p := 0]\<rparr>)"

text \<open>One round of the thread's endless loop; with the semaphore at 0 it stays blocked.\<close>

definition PortNWrite :: "nat \<Rightarrow> u32 \<Rightarrow> (u32 \<times> u32 \<times> u32) list \<Rightarrow> psys \<Rightarrow> psys option" where
  "PortNWrite p start ticks y =
     (if SP_SIGNAL_PORT_1 (sp y) = 0 then Some y
      else case pnw_loop p start ticks (pnw_begin p y) of
             None \<Rightarrow> None
           | Some (left, y') \<Rightarrow> Some (if left then pnw_end p y' else y'))"

section \<open>Plugging and unplugging a printer\<close>

text \<open>
  The fields of \<open>struct usblp\<close> and of its \<open>struct usb_device\<close> that the attach and unattach hooks
  read. \<open>None\<close> is an access through a null pointer or outside \<open>PortIO\<close>.
\<close>

record usblp =
  device_id_string :: "u8 list"
  printer_port :: nat
  ttport :: nat

definition LENGTH_OF_DEVICE_ID :: nat where "LENGTH_OF_DEVICE_ID = 1024"

definition sharp_check :: "parport \<Rightarrow> bool option" where
  "sharp_check io =
     (case Manufacture io of
        None \<Rightarrow> None
      | Some mf \<Rightarrow>
          if take 5 mf \<noteq> cstr ''SHARP'' then Some False
          else (case CommandSet io of
                  None \<Rightarrow> None
                | Some cs \<Rightarrow> Some (take 6 cs = cstr ''RASTER'' \<or>
                    SupportLang io AND (P1284_PJL OR P1284_PCL OR P1284_POSTSCRIPT) = 0)))"

definition usbprn_attach :: "(nat \<Rightarrow> bool) \<Rightarrow> nat \<Rightarrow> usblp \<Rightarrow> psys \<Rightarrow> (int \<times> psys) option" where
  "usbprn_attach malloc_ok minor d y =
     (let i = NUM_OF_1284_PORT + printer_port d; s = sp y
      in if i \<ge> length (PortIO s) then None
         else if p_base (PortIO s ! i) \<noteq> 0 then Some (0, y)
         else let io = (PortIO s ! i)\<lparr>p_base := minor + 1, HasGetDeviceID := 1,
                         PrnMode := PRN_USB_PRINTER, PrnReadBackMode := PRN_USB_PRINTER\<rparr>
              in if malloc_ok LENGTH_OF_DEVICE_ID
                 then let tmp = takeWhile (\<lambda>c. c \<noteq> 0) (drop 2 (device_id_string d));
                          io' = parse_device_id malloc_ok tmp io
                      in (case sharp_check io' of
                            None \<Rightarrow> None
                          | Some sh \<Rightarrow> Some (1, y\<lparr>sp := set_pio i io' s,
                                IS_SHARP_AR_M207 := (sh \<or> IS_SHARP_AR_M207 y)\<rparr>))
                 else Some (1, y\<lparr>sp := set_pio i io s\<rparr>))"

definition usbprn_unattach :: "nat \<Rightarrow> usblp \<Rightarrow> psys \<Rightarrow> (int \<times> psys) option" where
  "usbprn_unattach minor d y =
     (let i = NUM_OF_1284_PORT + ttport d; s = sp y
      in if i \<ge> length (PortIO s) then None
         else if p_base (PortIO s ! i) \<noteq> 0 \<and> p_base (PortIO s ! i) - 1 = minor
         then Some (1, y\<lparr>sp := set_pio i (PrnFreeDeviceInfo ((PortIO s ! i)\<lparr>p_base := 0,
                HasGetDeviceID := 0, SupportLang := 0, PrnMode := PRN_NO_PRINTER,
                PrnReadBackMode := PRN_NO_PRINTER\<rparr>)) s\<rparr>)
         else Some (0, y))"

end
