(* ===== verification/Print_Path.thy ===== *)
theory Print_Path
  imports Prnport
begin

text \<open>
  The path of the data from the queue to the printer: the spooler thread and the port writer keep
  the bytes in order and lose none. \<open>pending\<close> is what is still to be printed: the block handed to
  the port writer, then the blocks of the output queue.
\<close>

unbundle bit_operations_syntax

definition block_bytes :: "nat \<Rightarrow> spool \<Rightarrow> u8 list" where
  "block_bytes p s =
     (let io = PortIO s ! p
      in if DataSize io = 0 then [] else mem_read (qmem s) (DataPtr io) (nat (DataSize io)))"

definition queued_bytes :: "nat \<Rightarrow> spool \<Rightarrow> u8 list" where
  "queued_bytes p s = concat (map (\<lambda>b. buf_bytes p b s) (outs_of p s))"

definition pending :: "nat \<Rightarrow> spool \<Rightarrow> u8 list" where
  "pending p s = block_bytes p s @ queued_bytes p s"

definition sizes_ok :: "nat \<Rightarrow> spool \<Rightarrow> bool" where
  "sizes_ok p s \<longleftrightarrow> (\<forall>b<PRNQUEUELEN. 0 \<le> b_size (buf (PrinterList s ! p) ! b) \<and>
     b_size (buf (PrinterList s ! p) ! b) \<le> int (BLOCKSIZE + 20))"

text \<open>The frame of everything that moves buffers between the lists and the port.\<close>

definition same_bufs :: "nat \<Rightarrow> spool \<Rightarrow> spool \<Rightarrow> bool" where
  "same_bufs p s t \<longleftrightarrow> qmem t = qmem s \<and> usblp_table t = usblp_table s \<and>
     map b_size (buf (PrinterList t ! p)) = map b_size (buf (PrinterList s ! p)) \<and>
     map b_data (buf (PrinterList t ! p)) = map b_data (buf (PrinterList s ! p)) \<and>
     InUse (PrinterList t ! p) = InUse (PrinterList s ! p) \<and>
     map p_base (PortIO t) = map p_base (PortIO s)"

lemma same_bufs_refl [simp]: "same_bufs p s s"
  by (simp add: same_bufs_def)

lemma same_bufs_trans: "same_bufs p s t \<Longrightarrow> same_bufs p t u \<Longrightarrow> same_bufs p s u"
  by (simp add: same_bufs_def)

lemma same_bufs_field:
  assumes "same_bufs p s t" "i < length (buf (PrinterList s ! p))"
  shows "b_size (buf (PrinterList t ! p) ! i) = b_size (buf (PrinterList s ! p) ! i)"
    "b_data (buf (PrinterList t ! p) ! i) = b_data (buf (PrinterList s ! p) ! i)"
  using assms unfolding same_bufs_def by (blast intro: map_eq_nth)+

lemma same_bufs_bytes:
  "same_bufs p s t \<Longrightarrow> i < length (buf (PrinterList s ! p)) \<Longrightarrow> buf_bytes p i t = buf_bytes p i s"
  using same_bufs_field [of p s t i] by (simp add: buf_bytes_def same_bufs_def Let_def)

lemma same_bufs_sizes:
  "same_bufs p s t \<Longrightarrow> length (buf (PrinterList s ! p)) = PRNQUEUELEN \<Longrightarrow> sizes_ok p s \<Longrightarrow> sizes_ok p t"
  using same_bufs_field(1) [of p s t] by (simp add: sizes_ok_def)

lemma same_bufs_present:
  assumes "same_bufs p s t" "p < length (PortIO s)"
  shows "usb_present p t = usb_present p s"
proof -
  have "map p_base (PortIO t) = map p_base (PortIO s)" using assms(1) by (simp add: same_bufs_def)
  then have "p_base (PortIO t ! p) = p_base (PortIO s ! p)"
    using assms(2) by (metis length_map nth_map)
  then show ?thesis using assms(1) by (simp add: usb_present_def same_bufs_def)
qed

lemma same_payload_bufs: "same_payload p s t \<Longrightarrow> same_bufs p s t"
  by (simp add: same_payload_def same_bufs_def)

lemma concat_bytes_cong:
  "\<forall>b \<in> set bs. buf_bytes p b t = buf_bytes p b s \<Longrightarrow>
   concat (map (\<lambda>b. buf_bytes p b t) bs) = concat (map (\<lambda>b. buf_bytes p b s) bs)"
  by (auto intro!: arg_cong [of _ _ concat] map_cong)

lemma same_bufs_queued:
  assumes "same_bufs p s t" "spool_inv p s" "outs_of p t = outs_of p s"
  shows "queued_bytes p t = queued_bytes p s"
proof -
  have "\<forall>b \<in> set (outs_of p s). buf_bytes p b t = buf_bytes p b s"
    using same_bufs_bytes [OF assms(1)] spool_inv_outs [OF assms(2)] spool_inv_len [OF assms(2)] by auto
  then show ?thesis unfolding queued_bytes_def assms(3) by (rule concat_bytes_cong)
qed

lemma size_fits: "0 \<le> n \<Longrightarrow> n \<le> int (BLOCKSIZE + 20) \<Longrightarrow> uint (word_of_int n :: u16) = n"
  by (simp add: uint_word_of_int BLOCKSIZE_def)

section \<open>One step of DMAPrinting\<close>

lemma DMAPrinting_frame:
  assumes "spool_inv p s"
  shows "same_bufs p s (snd (DMAPrinting p s)) \<and> usb_out (snd (DMAPrinting p s)) = usb_out s \<and>
    length (PrinterList (snd (DMAPrinting p s))) = length (PrinterList s)"
proof -
  note r = release_old_spec [OF assms]
  have pl: "p < length (PrinterList (release_old p s))" using r(1) by (simp add: port_inv_def)
  obtain o1 u where u: "PrnGetOutQueueBuf p (release_old p s) = (o1, u)" by (metis surj_pair)
  have pay: "same_payload p s u"
    using same_payload_trans [OF r(4) payload_get_out [OF pl]] u by simp
  then have "p < length (PrinterList u)" using pl r(4) by (simp add: same_payload_def)
  then have pay2: "same_payload p s (PrnPutInQueueBuf p b u)" for b
    using same_payload_trans [OF pay payload_put_in] by blast
  show ?thesis
  proof (cases o1)
    case None
    with u pay show ?thesis by (simp add: DMAPrinting_alt same_payload_def same_bufs_def)
  next
    case (Some b)
    have "map p_base ((PortIO u)[p := (PortIO u ! p)\<lparr>DataSize := n, DataPtr := a\<rparr>]) = map p_base (PortIO u)" for n a
      by (rule nth_update_same_field) simp
    with Some u pay pay2 [of b] show ?thesis
      by (simp add: DMAPrinting_alt Let_def same_payload_def same_bufs_def)
  qed
qed

definition in_pool :: "nat \<Rightarrow> spool \<Rightarrow> nat set" where
  "in_pool p s = set (frees_of p s) \<union> set (outs_of p s) \<union> set (released p s)"

text \<open>The queued blocks, in order, are what \<open>DMAPrinting\<close> hands over and what it leaves.\<close>

lemma DMAPrinting_moves:
  assumes inv: "spool_inv p s" and sz: "sizes_ok p s" and dm: "DMAPrinting p s = (r, t)"
  shows "spool_inv p t \<and> in_pool p t = in_pool p s \<and>
    outs_of p t = tl (outs_of p s) \<and> length (PortIO t) = length (PortIO s) \<and>
    length (pNoUseBuf t) = length (pNoUseBuf s) \<and> G_PortReady t = G_PortReady s \<and>
    length (frees_of p t) + length (outs_of p t) + length (released p t) =
      length (frees_of p s) + length (outs_of p s) + length (released p s) \<and>
    (if r = 0 then PortIO t = PortIO s \<and> released p t = [] \<and> SP_SIGNAL_PORT_1 t = SP_SIGNAL_PORT_1 s \<and>
       queued_bytes p t = queued_bytes p s
     else r = 1 \<and> DataSize (PortIO t ! p) \<noteq> 0 \<and> block_bytes p t @ queued_bytes p t = queued_bytes p s \<and>
       (\<exists>b. released p t = [b] \<and> DataPtr (PortIO t ! p) = b_data (buf (PrinterList t ! p) ! b) \<and>
            DataSize (PortIO t ! p) = b_size (buf (PrinterList t ! p) ! b)) \<and>
       SP_SIGNAL_PORT_1 t = SP_SIGNAL_PORT_1 s + (if G_PortReady s AND port_mask p \<noteq> 0 then 1 else 0))"
proof -
  have fr: "same_bufs p s t" using DMAPrinting_frame [OF inv] dm by simp
  have lens: "p < length (pNoUseBuf s)" "p < length (PortIO s)" using inv by (auto simp: spool_inv_def)
  have len: "length (buf (PrinterList s ! p)) = PRNQUEUELEN" using inv by (rule spool_inv_len)
  have bytes: "buf_bytes p b t = buf_bytes p b s" if "b \<in> set (outs_of p s)" for b
    using that same_bufs_bytes [OF fr] len spool_inv_outs [OF inv] by simp
  have queued: "queued_bytes p t = concat (map (\<lambda>b. buf_bytes p b s) os)"
    if "outs_of p t = os" "set os \<subseteq> set (outs_of p s)" for os
    unfolding queued_bytes_def that(1) using bytes that(2) map_cong [of os os "\<lambda>b. buf_bytes p b t"] by (metis subsetD)
  show ?thesis
  proof (cases "outs_of p s")
    case Nil
    from DMAPrinting_idle [OF inv Nil] dm have t: "r = 0" "spool_inv p t"
      "frees_of p t = released p s @ frees_of p s" "outs_of p t = []"
      "pNoUseBuf t = (pNoUseBuf s)[p := None]" "PortIO t = PortIO s"
      "SP_SIGNAL_PORT_1 t = SP_SIGNAL_PORT_1 s" "G_PortReady t = G_PortReady s" by auto
    have rel: "released p t = []" using t(5) lens by (simp add: released_def)
    show ?thesis using t rel Nil lens by (auto simp: queued_bytes_def in_pool_def)
  next
    case (Cons b os)
    have b: "b < PRNQUEUELEN" using spool_inv_outs [OF inv] Cons by simp
    show ?thesis
    proof (cases "b_size (buf (PrinterList s ! p) ! b) = 0")
      case True
      from DMAPrinting_eof [OF inv Cons True] dm have t: "r = 0" "spool_inv p t"
        "frees_of p t = b # released p s @ frees_of p s" "outs_of p t = os"
        "pNoUseBuf t = (pNoUseBuf s)[p := None]" "PortIO t = PortIO s"
        "SP_SIGNAL_PORT_1 t = SP_SIGNAL_PORT_1 s" "G_PortReady t = G_PortReady s" by auto
      have rel: "released p t = []" using t(5) lens by (simp add: released_def)
      have "buf_bytes p b s = []" using True by (simp add: buf_bytes_def mem_read_def)
      moreover have "queued_bytes p t = concat (map (\<lambda>b. buf_bytes p b s) os)"
        using queued [OF t(4)] Cons by auto
      ultimately have "queued_bytes p t = queued_bytes p s" using Cons by (simp add: queued_bytes_def)
      then show ?thesis using t rel Cons lens by (auto simp: in_pool_def)
    next
      case False
      let ?n = "b_size (buf (PrinterList s ! p) ! b)" and ?a = "b_data (buf (PrinterList s ! p) ! b)"
      have n: "uint (word_of_int ?n :: u16) = ?n"
        using sz b by (intro size_fits) (auto simp: sizes_ok_def)
      from DMAPrinting_data [OF inv Cons False] dm n have t: "r = 1" "spool_inv p t"
        "frees_of p t = released p s @ frees_of p s" "outs_of p t = os"
        "pNoUseBuf t = (pNoUseBuf s)[p := Some b]"
        "PortIO t = (PortIO s)[p := (PortIO s ! p)\<lparr>DataSize := ?n, DataPtr := ?a\<rparr>]"
        "SP_SIGNAL_PORT_1 t = SP_SIGNAL_PORT_1 s + (if G_PortReady s AND port_mask p \<noteq> 0 then 1 else 0)"
        "G_PortReady t = G_PortReady s" by auto
      have rel: "released p t = [b]" using t(5) lens by (simp add: released_def)
      have fld: "b_size (buf (PrinterList t ! p) ! b) = ?n" "b_data (buf (PrinterList t ! p) ! b) = ?a"
        using same_bufs_field [OF fr, of b] b len by auto
      have "block_bytes p t = buf_bytes p b s"
        using t(6) lens False fr by (simp add: block_bytes_def buf_bytes_def same_bufs_def Let_def)
      moreover have "queued_bytes p t = concat (map (\<lambda>b. buf_bytes p b s) os)"
        using queued [OF t(4)] Cons by auto
      ultimately have "block_bytes p t @ queued_bytes p t = queued_bytes p s"
        using Cons by (simp add: queued_bytes_def)
      then show ?thesis using t rel fld Cons False lens by (auto simp: in_pool_def)
    qed
  qed
qed

text \<open>In particular when the port has no block outstanding.\<close>

lemma DMAPrinting_conserves:
  assumes "spool_inv p s" "sizes_ok p s" "DataSize (PortIO s ! p) = 0" "DMAPrinting p s = (r, t)"
  shows "pending p t = pending p s" "r = 0 \<Longrightarrow> DataSize (PortIO t ! p) = 0"
  using DMAPrinting_moves [OF assms(1,2,4)] assms(3) by (auto simp: pending_def block_bytes_def split: if_splits)


section \<open>One pass of the port writer\<close>

lemma usbprn_write_simps [simp]:
  "fst (usbprn_write p a n s) = n"
  "PortIO (snd (usbprn_write p a n s)) = PortIO s"
  "PrinterList (snd (usbprn_write p a n s)) = PrinterList s"
  "pNoUseBuf (snd (usbprn_write p a n s)) = pNoUseBuf s"
  "G_PortReady (snd (usbprn_write p a n s)) = G_PortReady s"
  "SP_SIGNAL_PORT_1 (snd (usbprn_write p a n s)) = SP_SIGNAL_PORT_1 s"
  "qmem (snd (usbprn_write p a n s)) = qmem s"
  "usblp_table (snd (usbprn_write p a n s)) = usblp_table s"
  by (simp_all add: usbprn_write_def)

lemma usbprn_write_out:
  "usb_out (snd (usbprn_write p a n s)) =
     usb_out s @ (if usb_present p s then mem_read (qmem s) a (nat n) else [])"
  by (simp add: usbprn_write_def)

text \<open>\<open>usbprn_write\<close> reports the whole length as written, so one iteration is enough.\<close>

lemma write_loop_once:
  assumes "p < length (PortIO s)" "TotalSize (PortIO s ! p) = DataSize (PortIO s ! p)"
  shows "write_loop p s = Some (set_pio p ((PortIO s ! p)\<lparr>DataSize := 0, PortTimeout := 0\<rparr>)
    (snd (usbprn_write p (DataPtr (PortIO s ! p)) (DataSize (PortIO s ! p)) s)))"
  using assms by (subst write_loop.simps) (simp add: usbprn_write_def Let_def split: prod.split)

lemma set_start_num_simps [simp]:
  "sp (set_start_num p v y) = sp y" "PNW_Statu (set_start_num p v y) = PNW_Statu y"
  "lost (set_start_num p v y) = lost y"
  by (simp_all add: set_start_num_def)

lemma usb_present_cong:
  "p_base (PortIO t ! p) = p_base (PortIO s ! p) \<Longrightarrow> usblp_table t = usblp_table s \<Longrightarrow>
   usb_present p t = usb_present p s"
  by (simp add: usb_present_def)

lemma pnw_write_spec:
  assumes "p < length (PortIO (sp y))"
  obtains st y' io where "pnw_write p tw ts start y = Some (st, y')"
    "PortIO (sp y') = (PortIO (sp y))[p := io]" "DataSize io = 0" "p_base io = p_base (PortIO (sp y) ! p)"
    "usb_out (sp y') = usb_out (sp y) @ (if usb_present p (sp y) then block_bytes p (sp y) else [])"
    "PrinterList (sp y') = PrinterList (sp y)" "lost y' = lost y"
    "pNoUseBuf (sp y') = pNoUseBuf (sp y)" "G_PortReady (sp y') = G_PortReady (sp y)"
    "SP_SIGNAL_PORT_1 (sp y') = SP_SIGNAL_PORT_1 (sp y)" "qmem (sp y') = qmem (sp y)"
    "usblp_table (sp y') = usblp_table (sp y)" "PNW_Statu y' = PNW_Statu y"
proof (cases "DataSize (PortIO (sp y) ! p) = 0")
  case True
  then show ?thesis
    by (intro that [of start y "PortIO (sp y) ! p"]) (simp_all add: pnw_write_def block_bytes_def)
next
  case False
  let ?io = "(PortIO (sp y) ! p)\<lparr>TotalSize := DataSize (PortIO (sp y) ! p)\<rparr>"
  let ?s1 = "set_pio p ?io (sp y)"
  let ?s2 = "set_pio p (?io\<lparr>DataSize := 0, PortTimeout := 0\<rparr>)
    (snd (usbprn_write p (DataPtr ?io) (DataSize ?io) ?s1))"
  have pr: "usb_present p ?s1 = usb_present p (sp y)"
    using assms by (intro usb_present_cong) simp_all
  have w: "write_loop p ?s1 = Some ?s2"
    using write_loop_once [of p ?s1] assms by simp
  show ?thesis
    using False w assms pr
    by (intro that [of ts "snd (the (pnw_write p tw ts start y))"
          "PortIO (sp (snd (the (pnw_write p tw ts start y)))) ! p"])
      (simp_all add: pnw_write_def block_bytes_def Let_def usbprn_write_out)
qed

definition path_inv :: "nat \<Rightarrow> spool \<Rightarrow> bool" where
  "path_inv p s \<longleftrightarrow> spool_inv p s \<and> sizes_ok p s \<and>
     (DataSize (PortIO s ! p) \<noteq> 0 \<longrightarrow>
       (\<exists>b. released p s = [b] \<and> DataPtr (PortIO s ! p) = b_data (buf (PrinterList s ! p) ! b) \<and>
            DataSize (PortIO s ! p) = b_size (buf (PrinterList s ! p) ! b)))"

lemma spool_inv_cong:
  "PrinterList t = PrinterList s \<Longrightarrow> pNoUseBuf t = pNoUseBuf s \<Longrightarrow> length (PortIO t) = length (PortIO s) \<Longrightarrow>
   spool_inv p t = spool_inv p s"
  by (simp add: spool_inv_def port_inv_def split: option.split)

lemma queued_bytes_cong:
  "PrinterList t = PrinterList s \<Longrightarrow> qmem t = qmem s \<Longrightarrow> queued_bytes p t = queued_bytes p s"
  by (simp add: queued_bytes_def buf_bytes_def)

lemma DMAPrinting_path_inv:
  assumes "path_inv p s" "DataSize (PortIO s ! p) = 0" "DMAPrinting p s = (r, t)"
  shows "path_inv p t"
proof -
  have s: "spool_inv p s" "sizes_ok p s" using assms(1) by (auto simp: path_inv_def)
  have fr: "same_bufs p s t" using DMAPrinting_frame [OF s(1)] assms(3) by simp
  have "sizes_ok p t" using same_bufs_sizes [OF fr spool_inv_len [OF s(1)] s(2)] .
  then show ?thesis
    using DMAPrinting_moves [OF s(1,2) assms(3)] assms(2) by (auto simp: path_inv_def split: if_splits)
qed

lemma pnw_pass_spec:
  assumes "path_inv p (sp y)"
  obtains r st y' where "pnw_pass p tw ts start y = Some (r, st, y')" "path_inv p (sp y')"
    "pending p (sp y) = block_bytes p (sp y) @ pending p (sp y')"
    "usb_out (sp y') = usb_out (sp y) @ (if usb_present p (sp y) then block_bytes p (sp y) else [])"
    "lost y' = lost y" "usb_present p (sp y') = usb_present p (sp y)"
    "outs_of p (sp y') = tl (outs_of p (sp y))" "in_pool p (sp y') = in_pool p (sp y)"
    "length (frees_of p (sp y')) + length (outs_of p (sp y')) + length (released p (sp y')) =
       length (frees_of p (sp y)) + length (outs_of p (sp y)) + length (released p (sp y))"
    "G_PortReady (sp y') = G_PortReady (sp y)" "PNW_Statu y' = PNW_Statu y"
    "G_PortReady (sp y) AND port_mask p = 0 \<longrightarrow> SP_SIGNAL_PORT_1 (sp y') = SP_SIGNAL_PORT_1 (sp y)"
    "outs_of p (sp y) = [] \<longrightarrow> DataSize (PortIO (sp y') ! p) = 0 \<and> released p (sp y') = []"
    "same_bufs p (sp y) (sp y')"
proof -
  have y: "spool_inv p (sp y)" "sizes_ok p (sp y)"
    using assms by (auto simp: path_inv_def)
  then have len: "p < length (PortIO (sp y))" by (simp add: spool_inv_def)
  obtain st y2 io where w: "pnw_write p tw ts start y = Some (st, y2)"
    "PortIO (sp y2) = (PortIO (sp y))[p := io]" "DataSize io = 0" "p_base io = p_base (PortIO (sp y) ! p)"
    "usb_out (sp y2) = usb_out (sp y) @ (if usb_present p (sp y) then block_bytes p (sp y) else [])"
    "PrinterList (sp y2) = PrinterList (sp y)" "lost y2 = lost y"
    "pNoUseBuf (sp y2) = pNoUseBuf (sp y)" "G_PortReady (sp y2) = G_PortReady (sp y)"
    "SP_SIGNAL_PORT_1 (sp y2) = SP_SIGNAL_PORT_1 (sp y)" "qmem (sp y2) = qmem (sp y)"
    "usblp_table (sp y2) = usblp_table (sp y)" "PNW_Statu y2 = PNW_Statu y"
    by (rule pnw_write_spec [OF len])
  have z: "DataSize (PortIO (sp y2) ! p) = 0" using w len by simp
  have p2: "path_inv p (sp y2)"
    using y w len spool_inv_cong [of "sp y2" "sp y" p]
    by (simp add: path_inv_def sizes_ok_def)
  then have s2: "spool_inv p (sp y2)" "sizes_ok p (sp y2)" by (auto simp: path_inv_def)
  obtain r t where dm: "DMAPrinting p (sp y2) = (r, t)" by (metis surj_pair)
  note c = DMAPrinting_moves [OF s2 dm] and c' = DMAPrinting_conserves [OF s2 z dm]
  have pend: "pending p (sp y2) = queued_bytes p (sp y)"
    using w z queued_bytes_cong [of "sp y2" "sp y" p] by (simp add: pending_def block_bytes_def)
  have out: "usb_out t = usb_out (sp y2)" using DMAPrinting_frame [OF s2(1)] dm by simp
  have rel: "released p (sp y2) = released p (sp y)" using w by (simp add: released_def)
  have pool: "in_pool p (sp y2) = in_pool p (sp y)" using w rel by (simp add: in_pool_def)
  have "map p_base ((PortIO (sp y))[p := io]) = map p_base (PortIO (sp y))"
    using w(4) by (rule nth_update_same_field)
  then have "same_bufs p (sp y) (sp y2)" using w by (simp add: same_bufs_def)
  then have sb: "same_bufs p (sp y) t"
    using same_bufs_trans DMAPrinting_frame [OF s2(1)] dm by fastforce
  have idle: "outs_of p (sp y) = [] \<longrightarrow> DataSize (PortIO t ! p) = 0 \<and> released p t = []"
    using DMAPrinting_idle [OF s2(1)] dm z s2(1) w(6) by (auto simp: released_def spool_inv_def)
  have pres: "usb_present p t = usb_present p (sp y)" by (rule same_bufs_present [OF sb len])
  have sig: "G_PortReady (sp y) AND port_mask p = 0 \<longrightarrow> SP_SIGNAL_PORT_1 t = SP_SIGNAL_PORT_1 (sp y)"
    using c w(9,10) by (auto split: if_splits)
  have cnt: "length (frees_of p t) + length (outs_of p t) + length (released p t) =
      length (frees_of p (sp y)) + length (outs_of p (sp y)) + length (released p (sp y))"
    using c w(6) rel by metis
  show ?thesis
    by (rule that [of r st "y2\<lparr>sp := t\<rparr>"])
      (use w dm c c' out pend rel pool sb idle sig cnt pres DMAPrinting_path_inv [OF p2 z dm] in
        \<open>simp_all add: pnw_pass_def pending_def\<close>)
qed

end
