(* ===== verification/Print_System.thy ===== *)
theory Print_System
  imports Print_Path
begin

text \<open>
  The printing subsystem as a whole: clients fill and submit buffers, the spooler thread starts the
  port writer, the writer prints, the state thread watches. The threads run at one priority and
  give up the processor only where they block or pause, so a step is one pass of a thread's loop
  or one call of a client.
\<close>

unbundle bit_operations_syntax

lemma PrnReadPortStatus_state [simp]: "snd (PrnReadPortStatus p s) = s"
  by (simp add: PrnReadPortStatus_def Let_def NUM_OF_1284_PORT_def)

lemma PrnReadPortStatus_pair: obtains st where "PrnReadPortStatus p s = (st, s)"
  by (metis PrnReadPortStatus_state prod.collapse)

lemma state_spooler_port_sp [simp]: "sp (state_spooler_port p y) = sp y"
  by (rule PrnReadPortStatus_pair [of p "sp y"]) (simp add: state_spooler_port_def Let_def)

lemma state_spooler_port_statu [simp]: "PNW_Statu (state_spooler_port p y) = PNW_Statu y"
  by (rule PrnReadPortStatus_pair [of p "sp y"]) (simp add: state_spooler_port_def Let_def)

lemma state_spooler_port_lost [simp]: "lost (state_spooler_port p y) = lost y"
  by (rule PrnReadPortStatus_pair [of p "sp y"]) (simp add: state_spooler_port_def Let_def)

lemma PrnStateSpooler_frame [simp]:
  "sp (PrnStateSpooler y) = sp y" "PNW_Statu (PrnStateSpooler y) = PNW_Statu y" "lost (PrnStateSpooler y) = lost y"
  by (simp_all add: PrnStateSpooler_def NUM_OF_PRN_PORT_def)

lemma PrnStartSpooler_port: "PrnStartSpooler s = spooler_port 0 s"
  by (simp add: PrnStartSpooler_def NUM_OF_PRN_PORT_def)

definition client_fill :: "nat \<Rightarrow> u8 list \<Rightarrow> spool \<Rightarrow> spool" where
  "client_fill b bs s =
     set_b_size 0 b (int (length bs))
       (s\<lparr>qmem := mem_write (qmem s) (b_data (buf (PrinterList s ! 0) ! b)) bs\<rparr>)"

definition boot :: "psys \<Rightarrow> psys" where
  "boot y = y\<lparr>sp := Spooler_init (spool_static\<lparr>usblp_table := usblp_table (sp y)\<rparr>), PNW_Statu := [0], lost := []\<rparr>"

section \<open>Lost blocks\<close>

text \<open>
  \<open>lost\<close> records the blocks that were taken from the queue and never reached the printer, each with the
  number of bytes the printer had got before. \<open>weave\<close> puts them back in their places.
\<close>

definition note_lost :: "psys \<Rightarrow> psys" where
  "note_lost y = (if block_bytes 0 (sp y) = [] then y
     else y\<lparr>lost := lost y @ [(length (usb_out (sp y)), block_bytes 0 (sp y))]\<rparr>)"

fun weave :: "nat \<Rightarrow> 'a list \<Rightarrow> (nat \<times> 'a list) list \<Rightarrow> 'a list" where
  "weave k out [] = out"
| "weave k out ((n, b) # l) = take (n - k) out @ b @ weave n (drop (n - k) out) l"

fun marks :: "nat \<Rightarrow> nat \<Rightarrow> (nat \<times> 'a list) list \<Rightarrow> bool" where
  "marks k m [] \<longleftrightarrow> k \<le> m"
| "marks k m ((n, b) # l) \<longleftrightarrow> k \<le> n \<and> marks n m l"

lemma marks_le: "marks k m l \<Longrightarrow> k \<le> m"
  by (induction l arbitrary: k) (auto intro: order_trans)

lemma marks_later: "marks k m l \<Longrightarrow> m \<le> m' \<Longrightarrow> marks k m' l"
  by (induction l arbitrary: k) auto

lemma marks_snoc: "marks k m l \<Longrightarrow> marks k m (l @ [(m, b)])"
  by (induction l arbitrary: k) auto

lemma weave_out: "marks k (k + length out) l \<Longrightarrow> weave k (out @ x) l = weave k out l @ x"
proof (induction l arbitrary: k out)
  case (Cons p l)
  obtain n b where p: "p = (n, b)" by (cases p)
  have n: "k \<le> n" "marks n (k + length out) l" "n \<le> k + length out"
    using Cons.prems by (auto simp: p marks_le)
  then have "marks n (n + length (drop (n - k) out)) l" by (simp add: add.commute)
  from Cons.IH [OF this] n show ?case by (simp add: p)
qed simp

lemma weave_snoc: "marks k (k + length out) l \<Longrightarrow> weave k out (l @ [(k + length out, b)]) = weave k out l @ b"
proof (induction l arbitrary: k out)
  case (Cons p l)
  obtain n c where p: "p = (n, c)" by (cases p)
  have n: "k \<le> n" "marks n (k + length out) l" "n \<le> k + length out"
    using Cons.prems by (auto simp: p marks_le)
  then have m: "marks n (n + length (drop (n - k) out)) l" and e: "n + length (drop (n - k) out) = k + length out"
    by (simp_all add: add.commute)
  from Cons.IH [OF m, unfolded e] show ?case by (simp add: p)
qed simp

section \<open>The steps\<close>

text \<open>
  \<open>H\<close> is the set of buffers the clients hold and \<open>sub\<close> the bytes submitted so far. The port writer
  may leave its loop at any pass, as its test looks at the clock only: a block outstanding is then
  lost. A block it writes while no printer is attached is lost as well. The printer may be unplugged and
  another plugged in at any time (no Sharp AR-M207, see \<open>pnw_begin\<close>). \<open>PrnPrintPattern\<close> is not a step: after it
  the port prints nothing any more, see \<open>PrnPrintPattern_never_printed\<close>.
\<close>

definition see_unplugged :: "psys \<Rightarrow> psys" where
  "see_unplugged y = (if usb_present 0 (sp y) then y else note_lost y)"

inductive pp_reach :: "psys \<Rightarrow> nat set \<Rightarrow> u8 list \<Rightarrow> bool" where
  attach: "usbprn_attach malloc_ok minor d (boot y) = Some (1, y') \<Longrightarrow> \<not> IS_SHARP_AR_M207 y' \<Longrightarrow>
    pp_reach y' {} []"
| take: "pp_reach y H sub \<Longrightarrow> PrnGetInQueueBuf 0 (sp y) = (Some b, s') \<Longrightarrow>
    pp_reach (y\<lparr>sp := s'\<rparr>) (insert b H) sub"
| fill: "pp_reach y H sub \<Longrightarrow> b \<in> H \<Longrightarrow> length bs \<le> BLOCKSIZE + 20 \<Longrightarrow>
    pp_reach (y\<lparr>sp := client_fill b bs (sp y)\<rparr>) H sub"
| submit: "pp_reach y H sub \<Longrightarrow> b \<in> H \<Longrightarrow>
    pp_reach (y\<lparr>sp := PrnPutOutQueueBuf 0 b f (sp y)\<rparr>) (H - {b}) (sub @ buf_bytes 0 b (sp y))"
| release: "pp_reach y H sub \<Longrightarrow> b \<in> H \<Longrightarrow>
    pp_reach (y\<lparr>sp := PrnPutInQueueBuf 0 b (sp y)\<rparr>) (H - {b}) sub"
| inuse: "pp_reach y H sub \<Longrightarrow> pp_reach (y\<lparr>sp := PrnSetQueueInUse 0 v (sp y)\<rparr>) H sub"
| spooler: "pp_reach y H sub \<Longrightarrow> pp_reach (y\<lparr>sp := PrnStartSpooler (sp y)\<rparr>) H sub"
| start: "pp_reach y H sub \<Longrightarrow> PNW_Statu y ! 0 = 0 \<Longrightarrow> SP_SIGNAL_PORT_1 (sp y) > 0 \<Longrightarrow>
    pp_reach (pnw_begin 0 y) H sub"
| pass: "pp_reach y H sub \<Longrightarrow> PNW_Statu y ! 0 \<noteq> 0 \<Longrightarrow>
    pnw_pass 0 tw ts start (see_unplugged y) = Some (r, start', y') \<Longrightarrow> pp_reach y' H sub"
| finish: "pp_reach y H sub \<Longrightarrow> PNW_Statu y ! 0 \<noteq> 0 \<Longrightarrow> pp_reach (pnw_end 0 (note_lost y)) H sub"
| watch: "pp_reach y H sub \<Longrightarrow> pp_reach (PrnStateSpooler y) H sub"
| table: "pp_reach y H sub \<Longrightarrow> pp_reach (y\<lparr>sp := (sp y)\<lparr>usblp_table := tbl\<rparr>\<rparr>) H sub"
| unplug: "pp_reach y H sub \<Longrightarrow> usbprn_unattach minor d y = Some (r, y') \<Longrightarrow> pp_reach y' H sub"
| plug: "pp_reach y H sub \<Longrightarrow> usbprn_attach malloc_ok minor d y = Some (r, y') \<Longrightarrow> \<not> IS_SHARP_AR_M207 y' \<Longrightarrow>
    pp_reach y' H sub"

section \<open>The invariant\<close>

text \<open>
  Once the writer has left its loop and the port is ready, its block is dead: the next one is written
  over it. \<open>settle\<close> forgets it.
\<close>

definition settle :: "spool \<Rightarrow> spool" where
  "settle s = (if G_PortReady s AND port_mask 0 \<noteq> 0 then set_pio 0 ((PortIO s ! 0)\<lparr>DataSize := 0\<rparr>) s else s)"

lemma settle_simps [simp]:
  "PrinterList (settle s) = PrinterList s" "pNoUseBuf (settle s) = pNoUseBuf s" "qmem (settle s) = qmem s"
  "usb_out (settle s) = usb_out s" "usblp_table (settle s) = usblp_table s" "G_PortReady (settle s) = G_PortReady s"
  "SP_SIGNAL_PORT_1 (settle s) = SP_SIGNAL_PORT_1 s" "length (PortIO (settle s)) = length (PortIO s)"
  "released p (settle s) = released p s" "in_pool p (settle s) = in_pool p s"
  "queued_bytes p (settle s) = queued_bytes p s" "sizes_ok p (settle s) = sizes_ok p s"
  by (simp_all add: settle_def released_def in_pool_def sizes_ok_def queued_bytes_def buf_bytes_def)

lemma settle_spool_inv [simp]: "spool_inv p (settle s) = spool_inv p s"
  by (rule spool_inv_cong) simp_all

lemma settle_busy: "G_PortReady s AND port_mask 0 = 0 \<Longrightarrow> settle s = s"
  by (simp add: settle_def)

lemma settle_ready:
  "G_PortReady s AND port_mask 0 \<noteq> 0 \<Longrightarrow> 0 < length (PortIO s) \<Longrightarrow> DataSize (PortIO (settle s) ! 0) = 0"
  by (simp add: settle_def)

lemma settle_none: "DataSize (PortIO s ! 0) = 0 \<Longrightarrow> settle s = s"
proof -
  assume "DataSize (PortIO s ! 0) = 0"
  then have "(PortIO s ! 0)\<lparr>DataSize := 0\<rparr> = PortIO s ! 0" by (cases "PortIO s ! 0") simp
  then show ?thesis by (simp add: settle_def set_pio_def)
qed

lemma settle_PortIO:
  "PortIO t = PortIO s \<Longrightarrow> G_PortReady t = G_PortReady s \<Longrightarrow> PortIO (settle t) = PortIO (settle s)"
  by (simp add: settle_def)

text \<open>The writer's handshake: who may touch the port's block next.\<close>

definition handshake :: "psys \<Rightarrow> bool" where
  "handshake y \<longleftrightarrow> length (PNW_Statu y) = 1 \<and>
     (if G_PortReady (sp y) AND port_mask 0 \<noteq> 0
      then SP_SIGNAL_PORT_1 (sp y) = 0 \<and> PNW_Statu y ! 0 = 0
      else SP_SIGNAL_PORT_1 (sp y) = (if PNW_Statu y ! 0 = 0 then 1 else 0))"

definition addrs_ok :: "spool \<Rightarrow> bool" where
  "addrs_ok s \<longleftrightarrow> (\<forall>b<PRNQUEUELEN. b_data (buf (PrinterList s ! 0) ! b) = buf_addr 0 b)"

text \<open>What has left the queue: printed, or lost on the way.\<close>

definition gone :: "psys \<Rightarrow> u8 list" where
  "gone y = weave 0 (usb_out (sp y)) (lost y)"

definition pp_inv :: "psys \<Rightarrow> nat set \<Rightarrow> u8 list \<Rightarrow> bool" where
  "pp_inv y H sub \<longleftrightarrow> path_inv 0 (settle (sp y)) \<and> handshake y \<and> addrs_ok (sp y) \<and>
     H \<union> in_pool 0 (sp y) = {..<PRNQUEUELEN} \<and> H \<inter> in_pool 0 (sp y) = {} \<and>
     marks 0 (length (usb_out (sp y))) (lost y) \<and> sub = gone y @ pending 0 (settle (sp y))"

lemma addrs_ok_same:
  assumes "same_bufs 0 s t" "length (buf (PrinterList s ! 0)) = PRNQUEUELEN" "addrs_ok s"
  shows "addrs_ok t"
  using same_bufs_field(2) [OF assms(1)] assms(2,3) by (simp add: addrs_ok_def)

lemma block_bytes_same:
  "PortIO t = PortIO s \<Longrightarrow> qmem t = qmem s \<Longrightarrow> block_bytes p t = block_bytes p s"
  by (simp add: block_bytes_def Let_def)

text \<open>A client operation that keeps the payload and the port leaves the handshake alone.\<close>

lemma handshake_payload:
  "same_payload 0 (sp y) s' \<Longrightarrow> handshake (y\<lparr>sp := s'\<rparr>) = handshake y"
  by (simp add: handshake_def same_payload_def)

lemma path_inv_payload:
  assumes "path_inv p s" "same_payload p s t" "port_inv p t"
    and "set (released p s) \<inter> set (frees_of p t @ outs_of p t) = {}"
  shows "path_inv p t"
proof -
  have s: "spool_inv p s" "sizes_ok p s" using assms(1) by (auto simp: path_inv_def)
  note sb = same_payload_bufs [OF assms(2)]
  have rel: "released p t = released p s" using assms(2) by (simp add: released_def same_payload_def)
  have "spool_inv p t"
    using s(1) assms(2-4) by (auto simp: spool_inv_def same_payload_def released_def split: option.splits)
  moreover have "sizes_ok p t" by (rule same_bufs_sizes [OF sb spool_inv_len [OF s(1)] s(2)])
  moreover have "b_size (buf (PrinterList t ! p) ! b) = b_size (buf (PrinterList s ! p) ! b)"
    "b_data (buf (PrinterList t ! p) ! b) = b_data (buf (PrinterList s ! p) ! b)"
    if "released p s = [b]" for b
  proof -
    have "b < length (buf (PrinterList s ! p))"
      using that s(1) spool_inv_len [OF s(1)] by (auto simp: released_def spool_inv_def split: option.splits)
    then show "b_size (buf (PrinterList t ! p) ! b) = b_size (buf (PrinterList s ! p) ! b)"
      "b_data (buf (PrinterList t ! p) ! b) = b_data (buf (PrinterList s ! p) ! b)"
      using same_bufs_field [OF sb] by auto
  qed
  ultimately show ?thesis
    using assms(1,2) rel by (auto simp: path_inv_def same_payload_def)
qed


lemma settle_payload: "same_payload 0 s t \<Longrightarrow> same_payload 0 (settle s) (settle t)"
  by (simp add: same_payload_def settle_def)

lemma port_inv_settle [simp]: "port_inv p (settle s) = port_inv p s"
  by (simp add: port_inv_def)

lemma gone_sp: "usb_out t = usb_out (sp y) \<Longrightarrow> gone (y\<lparr>sp := t\<rparr>) = gone y"
  by (simp add: gone_def)

lemma pp_inv_client:
  assumes inv: "pp_inv y H sub" and pay: "same_payload 0 (sp y) t" and pt: "port_inv 0 t"
    and rel: "set (released 0 (sp y)) \<inter> set (frees_of 0 t @ outs_of 0 t) = {}"
    and H': "H' \<union> set (released 0 (sp y) @ frees_of 0 t @ outs_of 0 t) = {..<PRNQUEUELEN}"
      "H' \<inter> set (released 0 (sp y) @ frees_of 0 t @ outs_of 0 t) = {}"
    and q: "queued_bytes 0 t = queued_bytes 0 (sp y) @ extra"
  shows "pp_inv (y\<lparr>sp := t\<rparr>) H' (sub @ extra)"
proof -
  have i: "path_inv 0 (settle (sp y))" "handshake y" "addrs_ok (sp y)" "sub = gone y @ pending 0 (settle (sp y))"
    "marks 0 (length (usb_out (sp y))) (lost y)"
    using inv by (auto simp: pp_inv_def)
  then have len: "length (buf (PrinterList (sp y) ! 0)) = PRNQUEUELEN"
    by (auto simp: path_inv_def spool_inv_len)
  have eqs: "PortIO t = PortIO (sp y)" "qmem t = qmem (sp y)" "usb_out t = usb_out (sp y)"
    "pNoUseBuf t = pNoUseBuf (sp y)" using pay by (auto simp: same_payload_def)
  have sp: "same_payload 0 (settle (sp y)) (settle t)" using pay by (rule settle_payload)
  then have "pending 0 (settle t) = pending 0 (settle (sp y)) @ extra"
    using block_bytes_same [of "settle t" "settle (sp y)" 0] q by (simp add: pending_def same_payload_def)
  moreover have "H' \<union> in_pool 0 t = {..<PRNQUEUELEN}" "H' \<inter> in_pool 0 t = {}"
    using H' eqs(4) by (auto simp: in_pool_def released_def)
  moreover have "addrs_ok t" by (rule addrs_ok_same [OF same_payload_bufs [OF pay] len i(3)])
  ultimately show ?thesis
    using path_inv_payload [OF i(1) sp] pt rel handshake_payload [OF pay] i(2,4,5) gone_sp [OF eqs(3)] eqs(3)
    by (simp add: pp_inv_def)
qed

lemma pp_invD:
  assumes "pp_inv y H sub"
  shows "port_inv 0 (sp y)" "spool_inv 0 (sp y)" "0 < length (PrinterList (sp y))"
    "set (released 0 (sp y)) \<inter> set (frees_of 0 (sp y) @ outs_of 0 (sp y)) = {}"
    "distinct (frees_of 0 (sp y) @ outs_of 0 (sp y))"
    "H \<inter> set (released 0 (sp y) @ frees_of 0 (sp y) @ outs_of 0 (sp y)) = {}" "H \<subseteq> {..<PRNQUEUELEN}"
    "H \<union> set (released 0 (sp y) @ frees_of 0 (sp y) @ outs_of 0 (sp y)) = {..<PRNQUEUELEN}"
proof -
  show sp: "spool_inv 0 (sp y)" using assms by (simp add: pp_inv_def path_inv_def)
  then show p: "port_inv 0 (sp y)" and "0 < length (PrinterList (sp y))"
    by (auto simp: spool_inv_def port_inv_def)
  show "set (released 0 (sp y)) \<inter> set (frees_of 0 (sp y) @ outs_of 0 (sp y)) = {}"
    using sp by (auto simp: spool_inv_def released_def split: option.splits)
  show "distinct (frees_of 0 (sp y) @ outs_of 0 (sp y))" using p by (rule pq.pool_distinct)
  show "H \<inter> set (released 0 (sp y) @ frees_of 0 (sp y) @ outs_of 0 (sp y)) = {}" "H \<subseteq> {..<PRNQUEUELEN}"
    "H \<union> set (released 0 (sp y) @ frees_of 0 (sp y) @ outs_of 0 (sp y)) = {..<PRNQUEUELEN}"
    using assms by (auto simp: pp_inv_def in_pool_def)
qed

lemma pp_inv_sizes: "pp_inv y H sub \<Longrightarrow> sizes_ok 0 (sp y)"
  by (simp add: pp_inv_def path_inv_def)

lemma pp_inv_take:
  assumes "pp_inv y H sub" "PrnGetInQueueBuf 0 (sp y) = (Some b, s')"
  shows "pp_inv (y\<lparr>sp := s'\<rparr>) (insert b H) sub"
proof -
  note d = pp_invD [OF assms(1)]
  have "frees_of 0 (sp y) \<noteq> []" using pq.get_in_empty [OF d(1)] assms(2) by auto
  then obtain fr where fr: "frees_of 0 (sp y) = b # fr" "port_inv 0 s'" "frees_of 0 s' = fr"
    "outs_of 0 s' = outs_of 0 (sp y)"
    using pq.get_in_some [OF d(1)] assms(2) by (cases "frees_of 0 (sp y)") fastforce+
  have pay: "same_payload 0 (sp y) s'" using payload_get_in [OF d(3)] assms(2) by simp
  have b: "b < PRNQUEUELEN" using pq.pool_range [OF d(1)] fr(1) by auto
  have q: "queued_bytes 0 s' = queued_bytes 0 (sp y)"
    by (rule same_bufs_queued [OF same_payload_bufs [OF pay] d(2) fr(4)])
  show ?thesis
    using pp_inv_client [OF assms(1) pay fr(2), of "insert b H" "[]"] fr b q d by auto
qed

lemma pp_inv_submit:
  assumes "pp_inv y H sub" "b \<in> H"
  shows "pp_inv (y\<lparr>sp := PrnPutOutQueueBuf 0 b f (sp y)\<rparr>) (H - {b}) (sub @ buf_bytes 0 b (sp y))"
proof -
  let ?t = "PrnPutOutQueueBuf 0 b f (sp y)"
  note d = pp_invD [OF assms(1)]
  have b: "b < PRNQUEUELEN" "b \<notin> set (frees_of 0 (sp y) @ outs_of 0 (sp y))" using d(6,7) assms(2) by auto
  have t: "port_inv 0 ?t" "frees_of 0 ?t = frees_of 0 (sp y)" "outs_of 0 ?t = outs_of 0 (sp y) @ [b]"
    using pq.put_out_spec [OF d(1) b] by auto
  have pay: "same_payload 0 (sp y) ?t" using d(3) by (rule payload_put_out)
  have by': "buf_bytes 0 c ?t = buf_bytes 0 c (sp y)" if "c < PRNQUEUELEN" for c
    using same_bufs_bytes [OF same_payload_bufs [OF pay]] that spool_inv_len [OF d(2)] by simp
  have "map (\<lambda>c. buf_bytes 0 c ?t) (outs_of 0 (sp y)) = map (\<lambda>c. buf_bytes 0 c (sp y)) (outs_of 0 (sp y))"
    using by' spool_inv_outs [OF d(2)] by simp
  then have q: "queued_bytes 0 ?t = queued_bytes 0 (sp y) @ buf_bytes 0 b (sp y)"
    using by' [OF b(1)] t(3) by (simp add: queued_bytes_def cong: map_cong)
  show ?thesis
    by (rule pp_inv_client [OF assms(1) pay t(1) _ _ _ q]) (use d t assms(2) in auto)
qed

lemma pp_inv_release:
  assumes "pp_inv y H sub" "b \<in> H"
  shows "pp_inv (y\<lparr>sp := PrnPutInQueueBuf 0 b (sp y)\<rparr>) (H - {b}) sub"
proof -
  let ?t = "PrnPutInQueueBuf 0 b (sp y)"
  note d = pp_invD [OF assms(1)]
  have b: "b < PRNQUEUELEN" "b \<notin> set (frees_of 0 (sp y) @ outs_of 0 (sp y))" using d(6,7) assms(2) by auto
  have t: "port_inv 0 ?t" "frees_of 0 ?t = b # frees_of 0 (sp y)" "outs_of 0 ?t = outs_of 0 (sp y)"
    using pq.put_in_spec [OF d(1) b] by auto
  have pay: "same_payload 0 (sp y) ?t" using d(3) by (rule payload_put_in)
  have "queued_bytes 0 ?t = queued_bytes 0 (sp y) @ []"
    using same_bufs_queued [OF same_payload_bufs [OF pay] d(2) t(3)] by simp
  from pp_inv_client [OF assms(1) pay t(1) _ _ _ this, of "H - {b}"] d t assms(2) show ?thesis by auto
qed


lemma path_inv_transfer:
  assumes "path_inv p s" "port_inv p t" "frees_of p t = frees_of p s" "outs_of p t = outs_of p s"
    and "PortIO t = PortIO s" "pNoUseBuf t = pNoUseBuf s" "sizes_ok p t"
    and "\<And>b. b \<in> set (released p s) \<Longrightarrow>
      b_size (buf (PrinterList t ! p) ! b) = b_size (buf (PrinterList s ! p) ! b) \<and>
      b_data (buf (PrinterList t ! p) ! b) = b_data (buf (PrinterList s ! p) ! b)"
  shows "path_inv p t"
proof -
  have rel: "released p t = released p s" using assms(6) by (simp add: released_def)
  have "spool_inv p s" using assms(1) by (simp add: path_inv_def)
  then have "spool_inv p t" using assms(2-6) by (simp add: spool_inv_def split: option.splits)
  then show ?thesis
    unfolding path_inv_def rel assms(5) using assms(1,7,8) by (auto simp: path_inv_def)
qed

lemma pp_inv_inuse:
  assumes "pp_inv y H sub"
  shows "pp_inv (y\<lparr>sp := PrnSetQueueInUse 0 v (sp y)\<rparr>) H sub"
proof -
  let ?t = "PrnSetQueueInUse 0 v (sp y)"
  note d = pp_invD [OF assms]
  have t: "port_inv 0 ?t" "frees_of 0 ?t = frees_of 0 (sp y)" "outs_of 0 ?t = outs_of 0 (sp y)"
    using set_in_use_inv [OF d(1)] by auto
  have f: "b_size (buf (PrinterList ?t ! 0) ! b) = b_size (buf (PrinterList (sp y) ! 0) ! b)"
    "b_data (buf (PrinterList ?t ! 0) ! b) = b_data (buf (PrinterList (sp y) ! 0) ! b)" for b
    using d(3) by (simp_all add: PrnSetQueueInUse_def Let_def)
  have o: "PortIO ?t = PortIO (sp y)" "qmem ?t = qmem (sp y)" "usb_out ?t = usb_out (sp y)"
    "pNoUseBuf ?t = pNoUseBuf (sp y)" "usblp_table ?t = usblp_table (sp y)"
    "G_PortReady ?t = G_PortReady (sp y)" "SP_SIGNAL_PORT_1 ?t = SP_SIGNAL_PORT_1 (sp y)"
    by (simp_all add: PrnSetQueueInUse_def Let_def)
  note os = settle_PortIO [OF o(1,6)]
  have "pending 0 (settle ?t) = pending 0 (settle (sp y))"
    using block_bytes_same [OF os] t(3) f o(2) by (simp add: pending_def queued_bytes_def buf_bytes_def Let_def)
  moreover have pi: "path_inv 0 (settle (sp y))" using assms by (simp add: pp_inv_def)
  have "sizes_ok 0 ?t" using pi f by (simp add: path_inv_def sizes_ok_def)
  then have "path_inv 0 (settle ?t)" using f t o(4) by (intro path_inv_transfer [OF pi _ _ _ os]) simp_all
  moreover have "handshake (y\<lparr>sp := ?t\<rparr>)" using assms o by (simp add: pp_inv_def handshake_def)
  ultimately show ?thesis
    using assms t f o gone_sp [OF o(3)] by (simp add: pp_inv_def addrs_ok_def in_pool_def released_def)
qed

lemma nth_update_field:
  "f y = f (xs ! i) \<Longrightarrow> f (xs[i := y] ! c) = f (xs ! c)"
  by (cases "i < length xs") (auto simp: nth_list_update list_update_beyond)

lemma client_fill_frame:
  assumes "0 < length (PrinterList s)"
  shows "nexts (PrinterList (client_fill b bs s) ! 0) = nexts (PrinterList s ! 0)"
    "PortIO (client_fill b bs s) = PortIO s" "usb_out (client_fill b bs s) = usb_out s"
    "pNoUseBuf (client_fill b bs s) = pNoUseBuf s" "usblp_table (client_fill b bs s) = usblp_table s"
    "G_PortReady (client_fill b bs s) = G_PortReady s"
    "SP_SIGNAL_PORT_1 (client_fill b bs s) = SP_SIGNAL_PORT_1 s"
    "qmem (client_fill b bs s) = mem_write (qmem s) (b_data (buf (PrinterList s ! 0) ! b)) bs"
    "b_data (buf (PrinterList (client_fill b bs s) ! 0) ! c) = b_data (buf (PrinterList s ! 0) ! c)"
    "b < length (buf (PrinterList s ! 0)) \<Longrightarrow> b_size (buf (PrinterList (client_fill b bs s) ! 0) ! c) =
      (if c = b then int (length bs) else b_size (buf (PrinterList s ! 0) ! c))"
  using assms by (simp_all add: client_fill_def set_b_size_def Let_def nexts_set_field nth_update_field nth_list_update)

lemma client_fill_queue:
  assumes "port_inv 0 s"
  shows "port_inv 0 (client_fill b bs s)" "frees_of 0 (client_fill b bs s) = frees_of 0 s"
    "outs_of 0 (client_fill b bs s) = outs_of 0 s"
  using set_b_size_inv [of 0 "s\<lparr>qmem := m\<rparr>" for m] assms port_inv_cong [of "s\<lparr>qmem := m\<rparr>" s 0 for m]
  unfolding client_fill_def by simp_all

text \<open>Filling a held buffer does not disturb the bytes on their way to the printer.\<close>

lemma client_fill_other_bytes:
  assumes "addrs_ok s" "sizes_ok 0 s" "b < PRNQUEUELEN" "c < PRNQUEUELEN" "c \<noteq> b"
    and "length bs \<le> BLOCKSIZE + 20" "n \<le> BLOCKSIZE + 20"
  shows "mem_read (mem_write (qmem s) (b_data (buf (PrinterList s ! 0) ! b)) bs)
      (b_data (buf (PrinterList s ! 0) ! c)) n =
    mem_read (qmem s) (b_data (buf (PrinterList s ! 0) ! c)) n"
  using buf_addr_disjoint [OF assms(3,4), of 0 0] assms
  by (auto simp: addrs_ok_def intro!: mem_read_write_other)

lemma pp_inv_fill:
  assumes inv: "pp_inv y H sub" and b: "b \<in> H" and bs: "length bs \<le> BLOCKSIZE + 20"
  shows "pp_inv (y\<lparr>sp := client_fill b bs (sp y)\<rparr>) H sub"
proof -
  let ?s = "sp y" and ?t = "client_fill b bs (sp y)"
  note d = pp_invD [OF inv]
  have i: "path_inv 0 (settle ?s)" "sizes_ok 0 ?s" "addrs_ok ?s" using inv by (auto simp: pp_inv_def path_inv_def)
  have bl: "b < PRNQUEUELEN" "b < length (buf (PrinterList ?s ! 0))"
    using b d(7) spool_inv_len [OF d(2)] by auto
  note fr = client_fill_frame [OF d(3), of b bs] and cq = client_fill_queue [OF d(1), of b bs]
  note sz = fr(10) [OF bl(2)]
  have other: "mem_read (qmem ?t) (b_data (buf (PrinterList ?s ! 0) ! c)) (nat (b_size (buf (PrinterList ?s ! 0) ! c)))
      = mem_read (qmem ?s) (b_data (buf (PrinterList ?s ! 0) ! c)) (nat (b_size (buf (PrinterList ?s ! 0) ! c)))"
    if "c < PRNQUEUELEN" "c \<noteq> b" for c
    unfolding fr(8) using i(2) that by (intro client_fill_other_bytes i(2,3) bl bs that)
      (auto simp: sizes_ok_def nat_le_iff)
  have rel: "released 0 ?t = released 0 ?s" using fr(4) by (simp add: released_def)
  have relb: "c < PRNQUEUELEN \<and> c \<noteq> b" if "released 0 ?s = [c]" for c
    using that d(2,6) b by (auto simp: released_def spool_inv_def split: option.splits)
  have "buf_bytes 0 c ?t = buf_bytes 0 c ?s" if "c \<in> set (outs_of 0 ?s)" for c
    using other [of c] that spool_inv_outs [OF d(2)] d(6) b sz [of c] fr(9) [of c]
    by (auto simp: buf_bytes_def Let_def)
  then have "queued_bytes 0 ?t = queued_bytes 0 ?s"
    using cq(3) by (simp add: queued_bytes_def cong: map_cong)
  moreover note os = settle_PortIO [OF fr(2,6)]
  have "block_bytes 0 (settle ?t) = block_bytes 0 (settle ?s)"
    using i(1) os relb other by (auto simp: block_bytes_def Let_def path_inv_def)
  ultimately have "pending 0 (settle ?t) = pending 0 (settle ?s)" by (simp add: pending_def)
  moreover have "path_inv 0 (settle ?t)"
  proof (rule path_inv_transfer [OF i(1) _ _ _ os])
    show "sizes_ok 0 (settle ?t)" using i(2) sz bs by (simp add: sizes_ok_def)
    show "b_size (buf (PrinterList (settle ?t) ! 0) ! c) = b_size (buf (PrinterList (settle ?s) ! 0) ! c) \<and>
      b_data (buf (PrinterList (settle ?t) ! 0) ! c) = b_data (buf (PrinterList (settle ?s) ! 0) ! c)"
      if "c \<in> set (released 0 (settle ?s))" for c
      using that d(6) b sz [of c] fr(9) [of c] by auto
  qed (use cq fr(4) in simp_all)
  moreover have "handshake (y\<lparr>sp := ?t\<rparr>)" using inv fr by (simp add: pp_inv_def handshake_def)
  ultimately show ?thesis
    using inv cq fr rel gone_sp [OF fr(3)] by (simp add: pp_inv_def addrs_ok_def in_pool_def)
qed

lemma note_lost_simps [simp]: "sp (note_lost y) = sp y" "PNW_Statu (note_lost y) = PNW_Statu y"
  "sp (see_unplugged y) = sp y" "PNW_Statu (see_unplugged y) = PNW_Statu y"
  by (simp_all add: note_lost_def see_unplugged_def)

text \<open>Noting a block as lost puts it behind what has left the queue.\<close>

lemma gone_note_lost:
  assumes "marks 0 (length (usb_out (sp y))) (lost y)"
  shows "gone (note_lost y) = gone y @ block_bytes 0 (sp y)"
    "marks 0 (length (usb_out (sp y))) (lost (note_lost y))"
  using weave_snoc [of 0 "usb_out (sp y)" "lost y"] marks_snoc [OF assms] assms
  by (auto simp: note_lost_def gone_def)

lemma running_busy:
  assumes "pp_inv y H sub" "PNW_Statu y ! 0 \<noteq> 0"
  shows "G_PortReady (sp y) AND port_mask 0 = 0" "settle (sp y) = sp y"
proof -
  show "G_PortReady (sp y) AND port_mask 0 = 0"
    using assms by (auto simp: pp_inv_def handshake_def split: if_splits)
  then show "settle (sp y) = sp y" by (rule settle_busy)
qed

text \<open>A pass over the writer's loop prints the block outstanding, or loses it, and takes the next.\<close>

lemma pnw_pass_gone:
  assumes m: "marks 0 (length (usb_out (sp y))) (lost y)" and pi: "path_inv 0 (sp y)"
  obtains r st y' where "pnw_pass 0 tw ts start (see_unplugged y) = Some (r, st, y')" "path_inv 0 (sp y')"
    "gone y' @ pending 0 (sp y') = gone y @ pending 0 (sp y)" "in_pool 0 (sp y') = in_pool 0 (sp y)"
    "G_PortReady (sp y') = G_PortReady (sp y)" "PNW_Statu y' = PNW_Statu y" "same_bufs 0 (sp y) (sp y')"
    "G_PortReady (sp y) AND port_mask 0 = 0 \<longrightarrow> SP_SIGNAL_PORT_1 (sp y') = SP_SIGNAL_PORT_1 (sp y)"
    "marks 0 (length (usb_out (sp y'))) (lost y')"
proof -
  have "path_inv 0 (sp (see_unplugged y))" using pi by simp
  then obtain r st y' where p: "pnw_pass 0 tw ts start (see_unplugged y) = Some (r, st, y')" "path_inv 0 (sp y')"
    "pending 0 (sp (see_unplugged y)) = block_bytes 0 (sp (see_unplugged y)) @ pending 0 (sp y')"
    "usb_out (sp y') = usb_out (sp (see_unplugged y)) @
       (if usb_present 0 (sp (see_unplugged y)) then block_bytes 0 (sp (see_unplugged y)) else [])"
    "lost y' = lost (see_unplugged y)"
    "in_pool 0 (sp y') = in_pool 0 (sp (see_unplugged y))" "G_PortReady (sp y') = G_PortReady (sp (see_unplugged y))"
    "PNW_Statu y' = PNW_Statu (see_unplugged y)" "same_bufs 0 (sp (see_unplugged y)) (sp y')"
    "G_PortReady (sp (see_unplugged y)) AND port_mask 0 = 0 \<longrightarrow>
       SP_SIGNAL_PORT_1 (sp y') = SP_SIGNAL_PORT_1 (sp (see_unplugged y))"
    by (rule pnw_pass_spec)
  have "gone y' = gone y @ block_bytes 0 (sp y) \<and> marks 0 (length (usb_out (sp y'))) (lost y')"
  proof (cases "usb_present 0 (sp y)")
    case True
    have "weave 0 (usb_out (sp y) @ block_bytes 0 (sp y)) (lost y) = weave 0 (usb_out (sp y)) (lost y) @ block_bytes 0 (sp y)"
      by (rule weave_out) (use m in simp)
    with True p(4,5) m show ?thesis by (simp add: gone_def see_unplugged_def marks_later)
  next
    case False
    then have "gone y' = gone (note_lost y)" using p(4,5) by (simp add: gone_def see_unplugged_def)
    with False gone_note_lost [OF m] p(4,5) show ?thesis by (simp add: see_unplugged_def)
  qed
  with p show ?thesis by (intro that [OF p(1,2)]) simp_all
qed

lemma pp_inv_pass:
  assumes inv: "pp_inv y H sub" and run: "PNW_Statu y ! 0 \<noteq> 0"
    and pass: "pnw_pass 0 tw ts start (see_unplugged y) = Some (r, start', y')"
  shows "pp_inv y' H sub"
proof -
  note busy = running_busy [OF inv run]
  have i: "path_inv 0 (sp y)" "handshake y" "addrs_ok (sp y)" "sub = gone y @ pending 0 (sp y)"
    "marks 0 (length (usb_out (sp y))) (lost y)"
    using inv busy(2) by (auto simp: pp_inv_def)
  obtain r1 st y1 where p: "pnw_pass 0 tw ts start (see_unplugged y) = Some (r1, st, y1)" "path_inv 0 (sp y1)"
    "gone y1 @ pending 0 (sp y1) = gone y @ pending 0 (sp y)"
    "in_pool 0 (sp y1) = in_pool 0 (sp y)" "G_PortReady (sp y1) = G_PortReady (sp y)"
    "PNW_Statu y1 = PNW_Statu y" "same_bufs 0 (sp y) (sp y1)"
    "G_PortReady (sp y) AND port_mask 0 = 0 \<longrightarrow> SP_SIGNAL_PORT_1 (sp y1) = SP_SIGNAL_PORT_1 (sp y)"
    "marks 0 (length (usb_out (sp y1))) (lost y1)"
    by (rule pnw_pass_gone [OF i(5,1)])
  have y1: "y1 = y'" using p(1) pass by simp
  have "length (buf (PrinterList (sp y) ! 0)) = PRNQUEUELEN" using pp_invD(2) [OF inv] by (rule spool_inv_len)
  then have "addrs_ok (sp y1)" by (rule addrs_ok_same [OF p(7) _ i(3)])
  moreover have "handshake y1" using i(2) p busy by (simp add: handshake_def)
  moreover have "settle (sp y1) = sp y1" using busy(1) p(5) by (simp add: settle_busy)
  ultimately show ?thesis using inv p y1 i(4) by (simp add: pp_inv_def)
qed

lemma clear_ready: "(w AND NOT (port_mask 0)) AND port_mask 0 = 0"
  by (simp add: and.assoc)

lemma pp_inv_spooler:
  assumes inv: "pp_inv y H sub"
  shows "pp_inv (y\<lparr>sp := PrnStartSpooler (sp y)\<rparr>) H sub"
proof (cases "G_PortReady (sp y) AND port_mask 0 = 0")
  case True
  then show ?thesis using inv by (simp add: PrnStartSpooler_port spooler_port_def)
next
  case ready: False
  have i: "path_inv 0 (settle (sp y))" "handshake y" "addrs_ok (sp y)" "sub = gone y @ pending 0 (settle (sp y))"
    using inv by (auto simp: pp_inv_def)
  then have s: "spool_inv 0 (sp y)" "sizes_ok 0 (sp y)" by (auto simp: path_inv_def)
  then have len: "0 < length (PortIO (sp y))" by (simp add: spool_inv_def)
  have h: "SP_SIGNAL_PORT_1 (sp y) = 0" "PNW_Statu y ! 0 = 0"
    using i(2) ready by (auto simp: handshake_def)
  have old: "pending 0 (settle (sp y)) = queued_bytes 0 (sp y)"
    using settle_ready [OF ready len] by (simp add: pending_def block_bytes_def)
  obtain r t where dm: "DMAPrinting 0 (sp y) = (r, t)" by (metis surj_pair)
  define t' where "t' = (if r \<noteq> 0 then t\<lparr>G_PortReady := G_PortReady t AND NOT (port_mask 0)\<rparr> else t)"
  have t': "PrnStartSpooler (sp y) = t'" using ready dm by (simp add: PrnStartSpooler_port spooler_port_def t'_def)
  note c = DMAPrinting_moves [OF s dm]
  have fr: "same_bufs 0 (sp y) t" "usb_out t = usb_out (sp y)" using DMAPrinting_frame [OF s(1)] dm by auto
  have eqs: "PrinterList t' = PrinterList t" "PortIO t' = PortIO t" "qmem t' = qmem t" "usb_out t' = usb_out t"
    "pNoUseBuf t' = pNoUseBuf t" "usblp_table t' = usblp_table t" "SP_SIGNAL_PORT_1 t' = SP_SIGNAL_PORT_1 t"
    by (simp_all add: t'_def)
  have "handshake (y\<lparr>sp := t'\<rparr>)"
  proof (cases "r = 0")
    case True
    with c h i(2) ready show ?thesis by (simp add: handshake_def t'_def)
  next
    case False
    with c h i(2) ready show ?thesis by (simp add: handshake_def t'_def clear_ready)
  qed
  moreover have si: "spool_inv 0 t'" "sizes_ok 0 t'"
    using c eqs spool_inv_cong [of t' t 0] same_bufs_sizes [OF fr(1) spool_inv_len [OF s(1)] s(2)]
    by (simp_all add: sizes_ok_def)
  have "path_inv 0 (settle t') \<and> pending 0 (settle t') = queued_bytes 0 (sp y)"
  proof (cases "r = 0")
    case True
    then have r: "G_PortReady t' AND port_mask 0 \<noteq> 0" "0 < length (PortIO t')" "queued_bytes 0 t' = queued_bytes 0 (sp y)"
      using c ready len by (auto simp: t'_def)
    from settle_ready [OF r(1,2)] r(3) si show ?thesis by (simp add: path_inv_def pending_def block_bytes_def)
  next
    case False
    then have b: "settle t' = t'" by (simp add: t'_def settle_busy clear_ready)
    have "queued_bytes 0 t' = queued_bytes 0 t" "block_bytes 0 t' = block_bytes 0 t" "released 0 t' = released 0 t"
      using eqs queued_bytes_cong [of t' t 0] block_bytes_same [of t' t 0] by (simp_all add: released_def)
    with False c si eqs b show ?thesis by (simp add: path_inv_def pending_def)
  qed
  moreover have "addrs_ok t'"
    using addrs_ok_same [OF fr(1) spool_inv_len [OF s(1)] i(3)] eqs by (simp add: addrs_ok_def)
  moreover have "in_pool 0 t' = in_pool 0 t" using eqs by (simp add: in_pool_def released_def)
  moreover have "in_pool 0 t = in_pool 0 (sp y)" using c by simp
  moreover have "gone (y\<lparr>sp := t'\<rparr>) = gone y" using eqs fr by (intro gone_sp) simp
  ultimately show ?thesis using inv t' eqs fr old by (simp add: pp_inv_def)
qed

lemma pp_inv_cong:
  assumes "pp_inv y H sub" "handshake y'" and "PrinterList (sp y') = PrinterList (sp y)"
    "PortIO (sp y') = PortIO (sp y)" "pNoUseBuf (sp y') = pNoUseBuf (sp y)" "qmem (sp y') = qmem (sp y)"
    "G_PortReady (sp y') = G_PortReady (sp y)" "usb_out (sp y') = usb_out (sp y)" "lost y' = lost y"
  shows "pp_inv y' H sub"
  using assms spool_inv_cong [of "sp y'" "sp y" 0] queued_bytes_cong [of "sp y'" "sp y" 0]
    settle_PortIO [OF assms(4,7)] block_bytes_same [of "settle (sp y')" "settle (sp y)" 0]
  by (simp add: pp_inv_def path_inv_def sizes_ok_def released_def addrs_ok_def pending_def in_pool_def gone_def)

lemma pp_inv_start:
  assumes "pp_inv y H sub" "PNW_Statu y ! 0 = 0" "SP_SIGNAL_PORT_1 (sp y) > 0"
  shows "pp_inv (pnw_begin 0 y) H sub"
proof (rule pp_inv_cong [OF assms(1)])
  have "handshake y" using assms(1) by (simp add: pp_inv_def)
  then show "handshake (pnw_begin 0 y)"
    using assms(2,3) by (auto simp: handshake_def pnw_begin_def split: if_splits)
qed (simp_all add: pnw_begin_def)

lemma set_ready: "(w OR port_mask 0) AND port_mask 0 \<noteq> 0"
  by (simp add: port_mask_def bit.conj_disj_distrib2)

text \<open>The writer leaves its loop: what it had not printed is lost.\<close>

lemma pp_inv_finish:
  assumes "pp_inv y H sub" "PNW_Statu y ! 0 \<noteq> 0"
  shows "pp_inv (pnw_end 0 (note_lost y)) H sub"
proof -
  let ?y' = "pnw_end 0 (note_lost y)"
  note busy = running_busy [OF assms]
  obtain st where st: "PrnReadPortStatus 0 (sp y) = (st, sp y)" by (rule PrnReadPortStatus_pair)
  have i: "path_inv 0 (sp y)" "handshake y" "addrs_ok (sp y)" "sub = gone y @ pending 0 (sp y)"
    and m: "marks 0 (length (usb_out (sp y))) (lost y)"
    using assms(1) busy(2) by (auto simp: pp_inv_def)
  have sp: "sp ?y' = (sp y)\<lparr>G_PortReady := G_PortReady (sp y) OR port_mask 0\<rparr>" "lost ?y' = lost (note_lost y)"
    by (simp_all add: pnw_end_def st)
  have inv: "spool_inv 0 (sp y)" "sizes_ok 0 (sp y)" using i(1) by (auto simp: path_inv_def)
  have inv': "spool_inv 0 (sp ?y')" "sizes_ok 0 (sp ?y')"
    using inv sp(1) spool_inv_cong [of "sp ?y'" "sp y" 0] by (simp_all add: sizes_ok_def)
  have "G_PortReady (sp ?y') AND port_mask 0 \<noteq> 0" by (simp add: sp(1) port_mask_def bit.conj_disj_distrib2)
  moreover have "0 < length (PortIO (sp ?y'))" using inv by (simp add: sp(1) spool_inv_def)
  ultimately have "DataSize (PortIO (settle (sp ?y')) ! 0) = 0" by (rule settle_ready)
  then have "path_inv 0 (settle (sp ?y'))" "pending 0 (settle (sp ?y')) = queued_bytes 0 (sp y)"
    using inv' sp(1) queued_bytes_cong [of "sp ?y'" "sp y" 0] by (simp_all add: path_inv_def pending_def block_bytes_def)
  moreover have "gone ?y' = gone y @ block_bytes 0 (sp y)"
    using gone_note_lost(1) [OF m] sp by (simp add: gone_def)
  moreover have "handshake ?y'" using i(2) assms(2) st sp(1)
    by (auto simp: handshake_def pnw_end_def port_mask_def bit.conj_disj_distrib2 split: if_splits)
  moreover have "in_pool 0 (sp ?y') = in_pool 0 (sp y)" using sp(1) by (simp add: in_pool_def released_def)
  ultimately show ?thesis
    using assms(1) i(3,4) gone_note_lost(2) [OF m] sp by (simp add: pp_inv_def addrs_ok_def pending_def)
qed


section \<open>The boot state\<close>

lemma parse_section_frame:
  "DataSize (parse_section m q io) = DataSize io" "p_base (parse_section m q io) = p_base io"
  "DataPtr (parse_section m q io) = DataPtr io"
  by (simp_all add: parse_section_def Let_def split: list.split)

lemma parse_device_id_frame:
  "DataSize (parse_device_id m q io) = DataSize io \<and> p_base (parse_device_id m q io) = p_base io \<and>
   DataPtr (parse_device_id m q io) = DataPtr io"
proof (induction m q io rule: parse_device_id.induct)
  case (1 m q io)
  then show ?case
    by (subst (1 2 3) parse_device_id.simps) (simp add: Let_def parse_section_frame split: list.split)
qed

lemma link_bufs_nth:
  "i < length bs \<Longrightarrow> b_data (link_bufs bs ! i) = b_data (bs ! i) \<and> b_size (link_bufs bs ! i) = b_size (bs ! i)"
  by (simp add: link_bufs_def)

lemma boot_state:
  fixes tbl
  defines "s \<equiv> Spooler_init (spool_static\<lparr>usblp_table := tbl\<rparr>)"
  shows "port_inv 0 s" "frees_of 0 s = [0..<PRNQUEUELEN]" "outs_of 0 s = []"
    "pNoUseBuf s = [None]" "PortIO s = [zero_parport]" "G_PortReady s = 1" "SP_SIGNAL_PORT_1 s = 0"
    "usblp_table s = tbl" "usb_out s = []" "addrs_ok s" "sizes_ok 0 s"
    "InUse (PrinterList s ! 0) = PrnNoUsed"
proof -
  let ?q = "PrnQueueInit (PrnPortInit (spool_static\<lparr>usblp_table := tbl\<rparr>))"
  have pl: "PrinterList (PrnPortInit (spool_static\<lparr>usblp_table := tbl\<rparr>)) = [zero_ps]"
    by (simp add: PrnPortInit_def spool_static_def NUM_OF_PRN_PORT_def)
  obtain bs a where bs: "queue_init_bufs PRINT_QUEUE_ADDRESS (buf zero_ps) = (bs, a)" by (metis surj_pair)
  have lz: "length (buf zero_ps) = PRNQUEUELEN" by (simp add: zero_ps_def)
  have l: "length bs = PRNQUEUELEN" using queue_init_bufs_spec [OF bs] lz by simp
  have q: "PrinterList ?q = [zero_ps\<lparr>buf := bs\<rparr>]"
    unfolding PrnQueueInit_def by (simp add: pl bs)
  have nth: "b_data (bs ! j) = buf_addr 0 j" "b_size (bs ! j) = 0" if "j < PRNQUEUELEN" for j
    using queue_init_bufs_spec [OF bs] that lz by (simp_all add: buf_addr_def zero_ps_def zero_buf_def)
  have s: "PrinterList s = [init_port 0 (zero_ps\<lparr>buf := bs\<rparr>)]" "pNoUseBuf s = [None]"
    by (simp_all add: s_def Spooler_init_def PrnPrinterInit_def q)
  show "pNoUseBuf s = [None]" by (rule s)
  have "port_inv 0 (PrnPrinterInit ?q)" "frees_of 0 (PrnPrinterInit ?q) = [0..<PRNQUEUELEN]"
    "outs_of 0 (PrnPrinterInit ?q) = []" using PrnPrinterInit_port [of 0 ?q] q l by simp_all
  then show "port_inv 0 s" "frees_of 0 s = [0..<PRNQUEUELEN]" "outs_of 0 s = []"
    by (simp_all add: s_def Spooler_init_def port_inv_def)
  show "PortIO s = [zero_parport]" "G_PortReady s = 1" "SP_SIGNAL_PORT_1 s = 0" "usblp_table s = tbl" "usb_out s = []"
    by (simp_all add: s_def Spooler_init_def PrnPrinterInit_def PrnQueueInit_def PrnPortInit_def
        spool_static_def NUM_OF_PRN_PORT_def)
  show "InUse (PrinterList s ! 0) = PrnNoUsed" by (simp add: s init_port_def)
  show "addrs_ok s" "sizes_ok 0 s"
    using nth l by (simp_all add: addrs_ok_def sizes_ok_def s init_port_def link_bufs_nth)
qed

lemma usbprn_attach_boot:
  assumes "usbprn_attach malloc_ok minor d (boot y) = Some (1, y')"
  obtains io where "sp y' = set_pio 0 io (sp (boot y))" "DataSize io = 0" "p_base io = minor + 1"
    "PNW_Statu y' = [0]" "lost y' = []"
proof -
  note b = boot_state [of "usblp_table (sp y)"]
  have p0: "printer_port d = 0"
    using assms b(5) by (auto simp: usbprn_attach_def boot_def Let_def NUM_OF_1284_PORT_def split: if_splits)
  show ?thesis
    using assms p0 parse_device_id_frame
    by (auto simp: usbprn_attach_def boot_def Let_def NUM_OF_1284_PORT_def b(5) zero_parport_def
        intro!: that split: if_splits option.splits)
qed

lemma pp_inv_attach:
  assumes "usbprn_attach malloc_ok minor d (boot y) = Some (1, y')"
  shows "pp_inv y' {} []"
proof -
  let ?s = "Spooler_init (spool_static\<lparr>usblp_table := usblp_table (sp y)\<rparr>)"
  obtain io where y': "sp y' = set_pio 0 io ?s" "DataSize io = 0" "p_base io = minor + 1" "PNW_Statu y' = [0]" "lost y' = []"
    using usbprn_attach_boot [OF assms(1)] by (auto simp: boot_def)
  note b = boot_state [of "usblp_table (sp y)"]
  have q: "port_inv 0 (sp y')" "frees_of 0 (sp y') = [0..<PRNQUEUELEN]" "outs_of 0 (sp y') = []"
    using b y'(1) port_inv_cong [of "sp y'" ?s 0] by simp_all
  have rel: "released 0 (sp y') = []" using b(4) y'(1) by (simp add: released_def)
  have z: "settle (sp y') = sp y'" using y'(1,2) b(5) by (intro settle_none) simp
  have "path_inv 0 (sp y')" using q b y' by (simp add: path_inv_def spool_inv_def sizes_ok_def)
  moreover have "handshake y'" using b y' by (simp add: handshake_def port_mask_def)
  moreover have "addrs_ok (sp y')" using b(10) y'(1) by (simp add: addrs_ok_def)
  ultimately show ?thesis
    using q rel b y' z by (auto simp: pp_inv_def in_pool_def pending_def block_bytes_def queued_bytes_def gone_def)
qed

section \<open>Unplugging and plugging in\<close>

text \<open>A printer that comes or goes leaves the queue and the block outstanding alone.\<close>

lemma pp_inv_io:
  assumes inv: "pp_inv y H sub"
    and io: "DataSize (PortIO (sp y') ! 0) = DataSize (PortIO (sp y) ! 0)"
      "DataPtr (PortIO (sp y') ! 0) = DataPtr (PortIO (sp y) ! 0)" "length (PortIO (sp y')) = length (PortIO (sp y))"
    and y': "PrinterList (sp y') = PrinterList (sp y)" "pNoUseBuf (sp y') = pNoUseBuf (sp y)"
      "qmem (sp y') = qmem (sp y)" "usb_out (sp y') = usb_out (sp y)" "G_PortReady (sp y') = G_PortReady (sp y)"
      "SP_SIGNAL_PORT_1 (sp y') = SP_SIGNAL_PORT_1 (sp y)" "PNW_Statu y' = PNW_Statu y" "lost y' = lost y"
  shows "pp_inv y' H sub"
proof -
  have len: "0 < length (PortIO (sp y))" using pp_invD(2) [OF inv] by (simp add: spool_inv_def)
  have p: "DataSize (PortIO (settle (sp y')) ! 0) = DataSize (PortIO (settle (sp y)) ! 0)"
    "DataPtr (PortIO (settle (sp y')) ! 0) = DataPtr (PortIO (settle (sp y)) ! 0)"
    using io len by (simp_all add: settle_def y')
  have "pending 0 (settle (sp y')) = pending 0 (settle (sp y))"
    using queued_bytes_cong [of "sp y'" "sp y" 0] p y' by (simp add: pending_def block_bytes_def Let_def)
  moreover have "path_inv 0 (settle (sp y))" using inv by (simp add: pp_inv_def)
  then have "path_inv 0 (settle (sp y'))"
    using p spool_inv_cong [OF y'(1,2) io(3), of 0] y' by (simp add: path_inv_def sizes_ok_def released_def)
  moreover have "handshake y'" using inv y' by (simp add: pp_inv_def handshake_def)
  ultimately show ?thesis
    using inv y' by (simp add: pp_inv_def addrs_ok_def in_pool_def released_def gone_def)
qed

lemma pp_inv_table: "pp_inv y H sub \<Longrightarrow> pp_inv (y\<lparr>sp := (sp y)\<lparr>usblp_table := tbl\<rparr>\<rparr>) H sub"
  by (rule pp_inv_io) simp_all

lemma nth_update_eq: "f io = f (xs ! i) \<Longrightarrow> f (xs[i := io] ! 0) = f (xs ! 0)"
  by (cases "i = 0"; cases "xs = []") auto

lemma pp_inv_unplug:
  assumes "pp_inv y H sub" "usbprn_unattach minor d y = Some (r, y')"
  shows "pp_inv y' H sub"
  using assms by (auto simp: usbprn_unattach_def Let_def PrnFreeDeviceInfo_def split: if_splits
      intro!: pp_inv_io [OF assms(1)] nth_update_eq [of DataSize] nth_update_eq [of DataPtr])

lemma pp_inv_plug:
  assumes "pp_inv y H sub" "usbprn_attach malloc_ok minor d y = Some (r, y')"
  shows "pp_inv y' H sub"
  using assms by (auto simp: usbprn_attach_def Let_def parse_device_id_frame split: if_splits option.splits
      intro!: pp_inv_io [OF assms(1)] nth_update_eq [of DataSize] nth_update_eq [of DataPtr])

lemma pp_reach_inv: "pp_reach y H sub \<Longrightarrow> pp_inv y H sub"
proof (induction rule: pp_reach.induct)
  case (watch y H sub)
  then have "handshake (PrnStateSpooler y)" by (simp add: pp_inv_def handshake_def)
  from pp_inv_cong [OF watch.IH this] show ?case by simp
qed (blast intro: pp_inv_attach pp_inv_take pp_inv_fill pp_inv_submit pp_inv_release pp_inv_inuse
  pp_inv_spooler pp_inv_start pp_inv_pass pp_inv_finish pp_inv_table pp_inv_unplug pp_inv_plug)+

end
