(* ===== verification/Print_Props.thy ===== *)
theory Print_Props
  imports Print_System
begin

text \<open>
  Properties of the printing subsystem: nothing submitted is lost, duplicated or reordered on its
  way to the printer; a running port writer prints everything that is queued; and the two ways in
  which the code can lose a block all the same.
\<close>

unbundle bit_operations_syntax

section \<open>Draining\<close>

text \<open>The clock readings of a run of the writer's loop that does not time out.\<close>

fun timely :: "u32 \<Rightarrow> (u32 \<times> u32 \<times> u32) list \<Rightarrow> bool" where
  "timely start [] = True"
| "timely start ((t, tw, ts) # ticks) =
     (t - start < PRN_EXIT_PRINT_MODE_TIME \<and> timely start ticks \<and> timely ts ticks)"

lemma pnw_write_start: "pnw_write p tw ts start y = Some (st, y') \<Longrightarrow> st = start \<or> st = ts"
  by (auto simp: pnw_write_def Let_def split: if_splits option.splits)

lemma pnw_pass_start: "pnw_pass p tw ts start y = Some (r, st, y') \<Longrightarrow> st = start \<or> st = ts"
  using pnw_write_start [of p tw ts start y] by (auto simp: pnw_pass_def split: option.splits prod.splits)

lemma pnw_loop_drains:
  assumes "path_inv p (sp y)" "timely start ticks" "length (outs_of p (sp y)) < length ticks"
    and "usb_present p (sp y)"
  shows "\<exists>y'. pnw_loop p start ticks y = Some (False, y') \<and> path_inv p (sp y') \<and> lost y' = lost y \<and>
    usb_out (sp y') = usb_out (sp y) @ pending p (sp y) \<and> outs_of p (sp y') = [] \<and>
    DataSize (PortIO (sp y') ! p) = 0 \<and> released p (sp y') = [] \<and> in_pool p (sp y') = in_pool p (sp y)"
  using assms
proof (induction ticks arbitrary: start y)
  case (Cons x ticks)
  obtain t tw ts where x: "x = (t, tw, ts)" by (cases x)
  obtain r st y1 where p: "pnw_pass p tw ts start y = Some (r, st, y1)" "path_inv p (sp y1)"
    "pending p (sp y) = block_bytes p (sp y) @ pending p (sp y1)"
    "usb_out (sp y1) = usb_out (sp y) @ (if usb_present p (sp y) then block_bytes p (sp y) else [])"
    "lost y1 = lost y" "usb_present p (sp y1) = usb_present p (sp y)"
    "outs_of p (sp y1) = tl (outs_of p (sp y))" "in_pool p (sp y1) = in_pool p (sp y)"
    "outs_of p (sp y) = [] \<longrightarrow> DataSize (PortIO (sp y1) ! p) = 0 \<and> released p (sp y1) = []"
    by (rule pnw_pass_spec [OF Cons.prems(1)])
  have step: "pnw_loop p start (x # ticks) y = pnw_loop p st ticks y1"
    using p(1) Cons.prems(2) by (simp add: x)
  have tm: "timely st ticks" using pnw_pass_start [OF p(1)] Cons.prems(2) x by auto
  show ?case
  proof (cases "length (outs_of p (sp y1)) < length ticks")
    case True
    have "usb_present p (sp y1)" using p(6) Cons.prems(4) by simp
    from Cons.IH [OF p(2) tm True this] p(3-5,8) step Cons.prems(4) show ?thesis by auto
  next
    case False
    then have none: "ticks = []" "outs_of p (sp y) = []" using Cons.prems(3) p(7)
      by (cases "outs_of p (sp y)"; cases ticks; auto)+
    have "outs_of p (sp y1) = []" "DataSize (PortIO (sp y1) ! p) = 0" "released p (sp y1) = []"
      using p(7,9) none(2) by auto
    moreover from this have "pending p (sp y1) = []"
      by (simp add: pending_def block_bytes_def queued_bytes_def)
    ultimately show ?thesis using p step none(1) Cons.prems(4) by auto
  qed
qed simp

section \<open>Leaving the loop too early\<close>

lemma spooler_port_ready:
  "G_PortReady s AND port_mask p \<noteq> 0 \<Longrightarrow> DMAPrinting p s = (1, t) \<Longrightarrow>
   spooler_port p s = t\<lparr>G_PortReady := G_PortReady t AND NOT (port_mask p)\<rparr>"
  by (simp add: spooler_port_def)

text \<open>A block that is fetched after the block outstanding was not printed is printed instead of it.\<close>

lemma DMAPrinting_overwrites:
  assumes "spool_inv p s" "sizes_ok p s" "outs_of p s = c # os" "b_size (buf (PrinterList s ! p) ! c) \<noteq> 0"
    and "released p s = [b]"
  shows "\<exists>t. DMAPrinting p s = (1, t) \<and> b \<in> set (frees_of p t) \<and> usb_out t = usb_out s \<and>
    pending p t = queued_bytes p s"
proof -
  from DMAPrinting_data [OF assms(1,3,4)] obtain t where t: "DMAPrinting p s = (1, t)"
    "frees_of p t = released p s @ frees_of p s" "outs_of p t = os"
    "PortIO t = (PortIO s)[p := (PortIO s ! p)\<lparr>
      DataSize := uint (word_of_int (b_size (buf (PrinterList s ! p) ! c)) :: u16),
      DataPtr := b_data (buf (PrinterList s ! p) ! c)\<rparr>]" by auto
  have fr: "same_bufs p s t" "usb_out t = usb_out s" using DMAPrinting_frame [OF assms(1)] t(1) by auto
  have c: "c < PRNQUEUELEN" using spool_inv_outs [OF assms(1)] assms(3) by simp
  then have "uint (word_of_int (b_size (buf (PrinterList s ! p) ! c)) :: u16) = b_size (buf (PrinterList s ! p) ! c)"
    using assms(2) by (intro size_fits) (auto simp: sizes_ok_def)
  then have blk: "block_bytes p t = buf_bytes p c s"
    using t(4) assms(1,4) fr(1) by (simp add: block_bytes_def buf_bytes_def same_bufs_def Let_def spool_inv_def)
  have "\<forall>b \<in> set os. buf_bytes p b t = buf_bytes p b s"
    using same_bufs_bytes [OF fr(1)] spool_inv_outs [OF assms(1)] spool_inv_len [OF assms(1)] assms(3) by auto
  then have "queued_bytes p t = concat (map (\<lambda>b. buf_bytes p b s) os)"
    using t(3) by (simp add: queued_bytes_def cong: map_cong)
  with t fr blk assms(3,5) show ?thesis by (auto simp: pending_def queued_bytes_def)
qed


section \<open>A client's job block\<close>

text \<open>Taking, filling and submitting one buffer.\<close>

definition client_job :: "nat \<Rightarrow> u8 list \<Rightarrow> u8 \<Rightarrow> spool \<Rightarrow> spool" where
  "client_job b bs f s = PrnPutOutQueueBuf 0 b f (client_fill b bs (snd (PrnGetInQueueBuf 0 s)))"

lemma client_job_reach:
  fixes f :: u8
  assumes r: "pp_reach y H sub" and fr: "frees_of 0 (sp y) = b # fr" and bs: "length bs \<le> BLOCKSIZE + 20"
  defines "y' \<equiv> y\<lparr>sp := client_job b bs f (sp y)\<rparr>"
  shows "pp_reach y' (H - {b}) (sub @ bs)" "frees_of 0 (sp y') = fr" "outs_of 0 (sp y') = outs_of 0 (sp y) @ [b]"
    "PortIO (sp y') = PortIO (sp y)" "G_PortReady (sp y') = G_PortReady (sp y)"
    "b < PRNQUEUELEN" "b \<notin> H" "usb_out (sp y') = usb_out (sp y)"
    "c < PRNQUEUELEN \<Longrightarrow> b_size (buf (PrinterList (sp y') ! 0) ! c) =
      (if c = b then int (length bs) else b_size (buf (PrinterList (sp y) ! 0) ! c))"
    "usb_present 0 (sp y') = usb_present 0 (sp y)"
proof -
  have inv: "pp_inv y H sub" using r by (rule pp_reach_inv)
  note d = pp_invD [OF inv]
  show b: "b < PRNQUEUELEN" "b \<notin> H" using pq.pool_range [OF d(1)] d(6) fr by auto
  obtain s1 where s1: "PrnGetInQueueBuf 0 (sp y) = (Some b, s1)" "port_inv 0 s1" "frees_of 0 s1 = fr"
    "outs_of 0 s1 = outs_of 0 (sp y)" using pq.get_in_some [OF d(1) fr] by blast
  have p1: "same_payload 0 (sp y) s1" using payload_get_in [OF d(3)] s1(1) by simp
  have r1: "pp_reach (y\<lparr>sp := s1\<rparr>) (insert b H) sub" by (rule pp_reach.take [OF r s1(1)])
  let ?s2 = "client_fill b bs s1"
  have r2: "pp_reach (y\<lparr>sp := ?s2\<rparr>) (insert b H) sub" using pp_reach.fill [OF r1 _ bs, of b] by simp
  have p1': "0 < length (PrinterList s1)" using s1(2) by (simp add: port_inv_def)
  note f2 = client_fill_frame [OF p1', of b bs] and q2 = client_fill_queue [OF s1(2), of b bs]
  have l1: "length (buf (PrinterList s1 ! 0)) = PRNQUEUELEN"
    using spool_inv_len [OF d(2)] p1 by (metis same_payload_def length_map)
  have sz: "b_size (buf (PrinterList ?s2 ! 0) ! c) = (if c = b then int (length bs) else b_size (buf (PrinterList (sp y) ! 0) ! c))"
    if "c < PRNQUEUELEN" for c
    using f2(10) [of c] b(1) l1 same_payload_field(1) [OF p1, of c] that spool_inv_len [OF d(2)] by simp
  have bytes: "buf_bytes 0 b ?s2 = bs"
    using f2(8,9) f2(10) [of b] b(1) l1 by (simp add: buf_bytes_def Let_def mem_read_write_same)
  have "b \<notin> set (frees_of 0 ?s2 @ outs_of 0 ?s2)" using d(5) fr q2 s1 by auto
  note q3 = pq.put_out_spec [OF q2(1) b(1) this, of f]
  have y': "sp y' = PrnPutOutQueueBuf 0 b f ?s2" using s1(1) by (simp add: y'_def client_job_def)
  have p2: "0 < length (PrinterList ?s2)" using q2(1) by (simp add: port_inv_def)
  have p3: "same_payload 0 ?s2 (sp y')" unfolding y' using p2 by (rule payload_put_out)
  show "pp_reach y' (H - {b}) (sub @ bs)"
    using pp_reach.submit [OF r2, of b f] bytes b(2) y' by (simp add: y'_def)
  show "frees_of 0 (sp y') = fr" "outs_of 0 (sp y') = outs_of 0 (sp y) @ [b]" using q3 q2 s1 y' by auto
  show "PortIO (sp y') = PortIO (sp y)" "G_PortReady (sp y') = G_PortReady (sp y)" "usb_out (sp y') = usb_out (sp y)"
    "usb_present 0 (sp y') = usb_present 0 (sp y)"
    using p3 f2 p1 by (auto simp: same_payload_def usb_present_def)
  show "c < PRNQUEUELEN \<Longrightarrow> b_size (buf (PrinterList (sp y') ! 0) ! c) =
      (if c = b then int (length bs) else b_size (buf (PrinterList (sp y) ! 0) ! c))"
    using sz [of c] same_payload_field(1) [OF p3, of c] l1 f2 by (metis client_fill_frame(1) nexts_length p1')
qed

text \<open>A system to start from: one printer on minor 0, whose device id is not read.\<close>

definition psys_static :: psys where
  "psys_static = \<lparr>sp = spool_static\<lparr>usblp_table := (\<lambda>m. m = 0)\<rparr>, PortType = [0], adjPortType = [0],
     Printing_StartNum = [0], Printing_MarkNum = [0], PNW_Statu = [0], st_time = 0,
     IS_SHARP_AR_M207 = False, lost = []\<rparr>"

definition plain_usblp :: usblp where
  "plain_usblp = \<lparr>device_id_string = [], printer_port = 0, ttport = 0\<rparr>"

lemma attach_static:
  obtains y where "pp_reach y {} []" "frees_of 0 (sp y) = [0..<PRNQUEUELEN]" "outs_of 0 (sp y) = []"
    "G_PortReady (sp y) = 1" "PNW_Statu y ! 0 = 0" "usb_out (sp y) = []" "DataSize (PortIO (sp y) ! 0) = 0"
    "InUse (PrinterList (sp y) ! 0) = PrnNoUsed" "usb_present 0 (sp y)" "lost y = []"
proof -
  note b = boot_state [of "\<lambda>m. m = 0"]
  have "\<exists>y. usbprn_attach (\<lambda>_. False) 0 plain_usblp (boot psys_static) = Some (1, y) \<and> \<not> IS_SHARP_AR_M207 y"
    by (simp add: usbprn_attach_def plain_usblp_def NUM_OF_1284_PORT_def boot_def psys_static_def b
        zero_parport_def Let_def)
  then obtain y where y: "usbprn_attach (\<lambda>_. False) 0 plain_usblp (boot psys_static) = Some (1, y)" "\<not> IS_SHARP_AR_M207 y"
    by blast
  have r: "pp_reach y {} []" by (rule pp_reach.attach [OF y])
  obtain io where io: "sp y = set_pio 0 io (sp (boot psys_static))" "DataSize io = 0" "PNW_Statu y = [0]" "lost y = []"
    "p_base io = 1" using usbprn_attach_boot [OF y(1)] by (metis add_0)
  have "sp (boot psys_static) = Spooler_init (spool_static\<lparr>usblp_table := (\<lambda>m. m = 0)\<rparr>)"
    by (simp add: boot_def psys_static_def)
  with io b r show ?thesis by (intro that [of y]) (simp_all add: usb_present_def)
qed


text \<open>A run that leaves the writer running with two blocks queued.\<close>

lemma one_block_started:
  obtains y where "pp_reach y {} [65]" "frees_of 0 (sp y) = [1..<PRNQUEUELEN]" "outs_of 0 (sp y) = []"
    "PNW_Statu y ! 0 = 1" "DataSize (PortIO (sp y) ! 0) \<noteq> 0" "released 0 (sp y) = [0]" "usb_present 0 (sp y)"
    "lost y = []"
proof -
  obtain y0 where y0: "pp_reach y0 {} []" "frees_of 0 (sp y0) = [0..<PRNQUEUELEN]" "outs_of 0 (sp y0) = []"
    "G_PortReady (sp y0) = 1" "PNW_Statu y0 ! 0 = 0" "DataSize (PortIO (sp y0) ! 0) = 0" "usb_present 0 (sp y0)"
    "lost y0 = []" by (rule attach_static)
  define y1 where "y1 = y0\<lparr>sp := client_job 0 [65] PRN_Q_NORMAL (sp y0)\<rparr>"
  have f0: "frees_of 0 (sp y0) = 0 # [1..<PRNQUEUELEN]" using y0(2) by (simp add: PRNQUEUELEN_def upt_rec)
  have y1: "pp_reach y1 {} [65]" "frees_of 0 (sp y1) = [1..<PRNQUEUELEN]" "outs_of 0 (sp y1) = [0]"
    "G_PortReady (sp y1) = 1" "PNW_Statu y1 = PNW_Statu y0" "DataSize (PortIO (sp y1) ! 0) = 0"
    "b_size (buf (PrinterList (sp y1) ! 0) ! 0) = 1" "usb_present 0 (sp y1)" "lost y1 = []"
    using client_job_reach(1-5,8,10) [OF y0(1) f0, of "[65]" PRN_Q_NORMAL]
      client_job_reach(9) [OF y0(1) f0, of "[65]" 0 PRN_Q_NORMAL] y0
    by (simp_all add: y1_def BLOCKSIZE_def PRNQUEUELEN_def)
  have p1: "spool_inv 0 (sp y1)" "sizes_ok 0 (sp y1)"
    using pp_reach_inv [OF y1(1)] by (auto simp: pp_inv_def path_inv_def)
  have "b_size (buf (PrinterList (sp y1) ! 0) ! 0) \<noteq> 0" using y1(7) by simp
  from DMAPrinting_data [OF p1(1) y1(3) this] obtain t where t: "DMAPrinting 0 (sp y1) = (1, t)"
    "frees_of 0 t = released 0 (sp y1) @ frees_of 0 (sp y1)" "pNoUseBuf t = (pNoUseBuf (sp y1))[0 := Some 0]" by auto
  note c = DMAPrinting_moves [OF p1 t(1)]
  have ready: "G_PortReady (sp y1) AND port_mask 0 \<noteq> 0" using y1(4) by (simp add: port_mask_def)
  define y2 where "y2 = y1\<lparr>sp := PrnStartSpooler (sp y1)\<rparr>"
  have s2: "sp y2 = t\<lparr>G_PortReady := G_PortReady t AND NOT (port_mask 0)\<rparr>"
    using spooler_port_ready [OF ready t(1)] by (simp add: y2_def PrnStartSpooler_port)
  have r2: "pp_reach y2 {} [65]" unfolding y2_def by (rule pp_reach.spooler [OF y1(1)])
  have st2: "PNW_Statu y2 ! 0 = 0" using y1(5) y0(5) by (simp add: y2_def)
  have "same_bufs 0 (sp y1) t" using DMAPrinting_frame [OF p1(1)] t(1) by simp
  from same_bufs_present [OF this] p1(1) y1(8) have pr: "usb_present 0 t" by (simp add: spool_inv_def)
  have "lost (pnw_begin 0 y2) = []" using y1(9) by (simp add: pnw_begin_def y2_def)
  moreover have "usb_present 0 (sp (pnw_begin 0 y2))" using pr by (simp add: pnw_begin_def s2 usb_present_def)
  moreover from st2 have "SP_SIGNAL_PORT_1 (sp y2) > 0"
    using pp_reach_inv [OF r2] s2 by (simp add: pp_inv_def handshake_def clear_ready)
  moreover from this have r3: "pp_reach (pnw_begin 0 y2) {} [65]" by (rule pp_reach.start [OF r2 st2])
  moreover have "length (PNW_Statu y2) = 1" using pp_reach_inv [OF r2] by (simp add: pp_inv_def handshake_def)
  moreover have rel: "released 0 t = [0]" using t(3) p1(1) by (simp add: released_def spool_inv_def)
  moreover have "released 0 (sp y1) = []"
  proof -
    note d = pp_invD(4,8) [OF pp_reach_inv [OF y1(1)]]
    have "set (released 0 (sp y1)) \<subseteq> {..<PRNQUEUELEN}" using d(2) by auto
    also have "\<dots> \<subseteq> set ([1..<PRNQUEUELEN] @ [0])" by auto
    finally have "set (released 0 (sp y1)) \<inter> set ([1..<PRNQUEUELEN] @ [0]) = set (released 0 (sp y1))"
      by (rule inf.absorb1)
    then show ?thesis using d(1) y1(2,3) by simp
  qed
  moreover have "released 0 (sp (pnw_begin 0 y2)) = released 0 t" by (simp add: released_def pnw_begin_def s2)
  ultimately show ?thesis
    using c t(2) y1(2,3) by (intro that [OF r3]) (simp_all add: pnw_begin_def s2)
qed

lemma two_blocks_queued:
  obtains y where "pp_reach y {} [65, 66, 67]" "PNW_Statu y ! 0 = 1" "DataSize (PortIO (sp y) ! 0) = 0"
    "outs_of 0 (sp y) = [0, 1]" "b_size (buf (PrinterList (sp y) ! 0) ! 0) = 1"
    "b_size (buf (PrinterList (sp y) ! 0) ! 1) = 1" "lost y = []"
proof -
  obtain y0 where y0: "pp_reach y0 {} [65]" "frees_of 0 (sp y0) = [1..<PRNQUEUELEN]" "outs_of 0 (sp y0) = []"
    "PNW_Statu y0 ! 0 = 1" "released 0 (sp y0) = [0]" "usb_present 0 (sp y0)" "lost y0 = []"
    by (rule one_block_started)
  have i0: "path_inv 0 (sp y0)" "spool_inv 0 (sp y0)"
    using pp_reach_inv [OF y0(1)] running_busy(2) [OF pp_reach_inv [OF y0(1)]] y0(4)
    by (auto simp: pp_inv_def path_inv_def)
  obtain st y1 io where w: "pnw_write 0 7 8 5 y0 = Some (st, y1)" "PortIO (sp y1) = (PortIO (sp y0))[0 := io]"
    "DataSize io = 0" "PrinterList (sp y1) = PrinterList (sp y0)" "pNoUseBuf (sp y1) = pNoUseBuf (sp y0)"
    "PNW_Statu y1 = PNW_Statu y0" "lost y1 = lost y0"
    by (rule pnw_write_spec [of 0 y0 7 8 5]) (use i0 in \<open>auto simp: path_inv_def spool_inv_def\<close>)
  have i1: "spool_inv 0 (sp y1)" using i0(2) spool_inv_cong [of "sp y1" "sp y0" 0] w by simp
  obtain t where t: "DMAPrinting 0 (sp y1) = (0, t)" "frees_of 0 t = released 0 (sp y1) @ frees_of 0 (sp y1)"
    "outs_of 0 t = []" "PortIO t = PortIO (sp y1)" using DMAPrinting_idle [OF i1] y0(3) w(4) by auto
  define y2 where "y2 = y1\<lparr>sp := t\<rparr>"
  have "pnw_pass 0 7 8 5 (see_unplugged y0) = Some (0, st, y2)"
    using w(1) t(1) y0(6) by (simp add: pnw_pass_def y2_def see_unplugged_def)
  then have r2: "pp_reach y2 {} [65]" by (rule pp_reach.pass [OF y0(1), rotated]) (simp add: y0(4))
  have "released 0 (sp y1) = released 0 (sp y0)" using w(5) by (simp add: released_def)
  then have f2: "frees_of 0 (sp y2) = 0 # 1 # [2..<PRNQUEUELEN]"
    using t(2) y0(2,5) w(4) by (simp add: y2_def PRNQUEUELEN_def upt_rec)
  have o2: "outs_of 0 (sp y2) = []" "PNW_Statu y2 ! 0 = 1" "DataSize (PortIO (sp y2) ! 0) = 0"
    using t(3,4) w i0(2) y0(4) by (simp_all add: y2_def spool_inv_def)
  define y3 where "y3 = y2\<lparr>sp := client_job 0 [66] PRN_Q_NORMAL (sp y2)\<rparr>"
  have l: "length [x] \<le> BLOCKSIZE + 20" for x :: u8 by (simp add: BLOCKSIZE_def)
  note j3 = client_job_reach(1-4) [OF r2 f2 l, of 66 PRN_Q_NORMAL, folded y3_def]
    client_job_reach(9) [OF r2 f2 l, of 0 66 PRN_Q_NORMAL, folded y3_def]
  have r3: "pp_reach y3 {} [65, 66]" using j3(1) by simp
  define y4 where "y4 = y3\<lparr>sp := client_job 1 [67] PRN_Q_NORMAL (sp y3)\<rparr>"
  note j4 = client_job_reach(1-4) [OF r3 j3(2) l, of 67 PRN_Q_NORMAL, folded y4_def]
    client_job_reach(9) [OF r3 j3(2) l, of 0 67 PRN_Q_NORMAL, folded y4_def]
    client_job_reach(9) [OF r3 j3(2) l, of 1 67 PRN_Q_NORMAL, folded y4_def]
  have "PNW_Statu y4 = PNW_Statu y2" "lost y4 = []" using w(7) y0(7) by (simp_all add: y4_def y3_def y2_def)
  then show ?thesis
    using j3 j4 o2 by (intro that [of y4]) (simp_all add: PRNQUEUELEN_def)
qed

section \<open>Properties\<close>

text \<open>C1: Every byte submitted to the print queue is accounted for. In every state the printing subsystem
  can reach, in any interleaving of the clients, the spooler, the port writer, the state thread and a
  printer that is unplugged and plugged in, the bytes submitted so far are the bytes handed to the
  printer, with the lost blocks put back in their places, followed by the bytes still to be printed:
  nothing else is lost, and nothing is repeated or reordered. A block is lost only when the writer leaves its loop
  with the block outstanding (its test looks at the clock only) or writes it while no printer is attached;
  as long as that has not happened, what was submitted is what was printed and what is to be printed. And
  each of the ten buffers is in exactly one place.\<close>

theorem print_path_exact:
  assumes "pp_reach y H sub"
  shows "sub = weave 0 (usb_out (sp y)) (lost y) @ pending 0 (settle (sp y)) \<and>
    (lost y = [] \<longrightarrow> sub = usb_out (sp y) @ pending 0 (settle (sp y))) \<and> H \<inter> in_pool 0 (sp y) = {} \<and>
    H \<union> in_pool 0 (sp y) = {..<PRNQUEUELEN} \<and>
    distinct (frees_of 0 (sp y) @ outs_of 0 (sp y) @ released 0 (sp y))"
proof -
  have i: "pp_inv y H sub" using assms by (rule pp_reach_inv)
  have "distinct (released 0 (sp y))" by (simp add: released_def split: option.split)
  then show ?thesis using i pp_invD(4,5) [OF i] by (auto simp: pp_inv_def gone_def)
qed

text \<open>A run in which the writer leaves its loop with a block outstanding.\<close>

lemma one_block_lost:
  obtains y where "pp_reach y {} [65, 66, 67]" "lost y \<noteq> []"
proof -
  obtain y where y: "pp_reach y {} [65, 66, 67]" "PNW_Statu y ! 0 = 1" "DataSize (PortIO (sp y) ! 0) = 0"
    "outs_of 0 (sp y) = [0, 1]" "b_size (buf (PrinterList (sp y) ! 0) ! 0) = 1" by (rule two_blocks_queued)
  note i = pp_reach_inv [OF y(1)]
  have b: "settle (sp y) = sp y" using running_busy(2) [OF i] y(2) by simp
  then have s: "path_inv 0 (sp y)" "spool_inv 0 (sp y)" "sizes_ok 0 (sp y)" using i by (auto simp: pp_inv_def path_inv_def)
  from DMAPrinting_data [OF s(2) y(4)] y(5) obtain t where t: "DMAPrinting 0 (sp y) = (1, t)" by auto
  define u where "u = (see_unplugged y)\<lparr>sp := t\<rparr>"
  have "pnw_pass 0 7 8 5 (see_unplugged y) = Some (1, 5, u)"
    using y(3) t by (simp add: pnw_pass_def pnw_write_def u_def)
  then have ru: "pp_reach u {} [65, 66, 67]" by (rule pp_reach.pass [OF y(1), rotated]) (simp add: y(2))
  have st: "PNW_Statu u ! 0 \<noteq> 0" using y(2) by (simp add: u_def)
  have d: "DataSize (PortIO t ! 0) \<noteq> 0" using DMAPrinting_moves [OF s(2,3) t] by simp
  have "path_inv 0 t" by (rule DMAPrinting_path_inv [OF s(1) y(3) t])
  then obtain c where c: "released 0 t = [c]" "DataSize (PortIO t ! 0) = b_size (buf (PrinterList t ! 0) ! c)"
    "spool_inv 0 t" "sizes_ok 0 t" using d by (auto simp: path_inv_def)
  then have "c < PRNQUEUELEN" by (auto simp: spool_inv_def released_def split: option.splits)
  with c(4) have "0 \<le> b_size (buf (PrinterList t ! 0) ! c)" by (simp add: sizes_ok_def)
  with c(2) d have "0 < DataSize (PortIO t ! 0)" by linarith
  then have "length (block_bytes 0 t) \<noteq> 0" by (simp add: block_bytes_def Let_def)
  then have "block_bytes 0 t \<noteq> []" by blast
  then have "lost (note_lost u) \<noteq> []" by (simp add: note_lost_def u_def)
  moreover have "lost (pnw_end 0 w) = lost w" for w by (simp add: pnw_end_def split: prod.split)
  ultimately show ?thesis using that [OF pp_reach.finish [OF ru st]] by simp
qed

theorem print_path_exact_witness:
  "(\<exists>y. pp_reach y {} [65] \<and> usb_out (sp y) @ pending 0 (settle (sp y)) = [65] \<and> outs_of 0 (sp y) = [] \<and>
    in_pool 0 (sp y) = {..<PRNQUEUELEN}) \<and>
   (\<exists>y. pp_reach y {} [65, 66, 67] \<and> lost y \<noteq> [] \<and>
    weave 0 (usb_out (sp y)) (lost y) @ pending 0 (settle (sp y)) = [65, 66, 67])"
proof
  obtain y where y: "pp_reach y {} [65]" "outs_of 0 (sp y) = []" "lost y = []" by (rule one_block_started)
  from print_path_exact [OF y(1)] y
  show "\<exists>y. pp_reach y {} [65] \<and> usb_out (sp y) @ pending 0 (settle (sp y)) = [65] \<and> outs_of 0 (sp y) = [] \<and>
    in_pool 0 (sp y) = {..<PRNQUEUELEN}" by (intro exI [of _ y]) simp
  obtain z where z: "pp_reach z {} [65, 66, 67]" "lost z \<noteq> []" by (rule one_block_lost)
  from print_path_exact [OF z(1)] z
  show "\<exists>y. pp_reach y {} [65, 66, 67] \<and> lost y \<noteq> [] \<and>
    weave 0 (usb_out (sp y)) (lost y) @ pending 0 (settle (sp y)) = [65, 66, 67]" by (intro exI [of _ z]) simp
qed

text \<open>C3: A running port writer that is not timed out prints everything, while a printer is attached: after one pass more than there are
  queued buffers, every submitted byte has reached the printer (but for blocks lost before, and none
  is lost now), no block is outstanding, and every
  buffer not held by a client is back on the free list.\<close>

theorem writer_drains:
  assumes "pp_reach y H sub" "timely start ticks" "length (outs_of 0 (sp y)) < length ticks"
    and "usb_present 0 (sp y)" "PNW_Statu y ! 0 \<noteq> 0 \<or> DataSize (PortIO (sp y) ! 0) = 0"
  shows "\<exists>y'. pnw_loop 0 start ticks y = Some (False, y') \<and> weave 0 (usb_out (sp y')) (lost y') = sub \<and>
    lost y' = lost y \<and> usb_out (sp y') = usb_out (sp y) @ pending 0 (sp y) \<and>
    pending 0 (sp y') = [] \<and> set (frees_of 0 (sp y')) = {..<PRNQUEUELEN} - H"
proof -
  have i: "pp_inv y H sub" using assms(1) by (rule pp_reach_inv)
  have b: "settle (sp y) = sp y" using assms(5) running_busy(2) [OF i] settle_none by blast
  then have "path_inv 0 (sp y)" using i by (simp add: pp_inv_def)
  from pnw_loop_drains [OF this assms(2-4)] obtain y' where y': "pnw_loop 0 start ticks y = Some (False, y')"
    "usb_out (sp y') = usb_out (sp y) @ pending 0 (sp y)" "outs_of 0 (sp y') = []" "lost y' = lost y"
    "DataSize (PortIO (sp y') ! 0) = 0" "released 0 (sp y') = []" "in_pool 0 (sp y') = in_pool 0 (sp y)" by blast
  have "set (frees_of 0 (sp y')) = in_pool 0 (sp y)" using y'(3,6,7) by (auto simp: in_pool_def)
  then have "set (frees_of 0 (sp y')) = {..<PRNQUEUELEN} - H" using i by (auto simp: pp_inv_def)
  moreover have "weave 0 (usb_out (sp y) @ pending 0 (sp y)) (lost y) = gone y @ pending 0 (sp y)"
    unfolding gone_def by (rule weave_out) (use i in \<open>simp add: pp_inv_def\<close>)
  ultimately show ?thesis using y' i b
    by (auto simp: pp_inv_def pending_def block_bytes_def queued_bytes_def)
qed

theorem writer_drains_witness:
  "\<exists>y y'. pp_reach y {} [65] \<and> pnw_loop 0 100 [(110, 120, 130)] y = Some (False, y') \<and>
    usb_out (sp y') = [65] \<and> set (frees_of 0 (sp y')) = {..<PRNQUEUELEN}"
proof -
  obtain y where y: "pp_reach y {} [65]" "outs_of 0 (sp y) = []" "PNW_Statu y ! 0 = 1" "usb_present 0 (sp y)" "lost y = []"
    by (rule one_block_started)
  have "timely 100 [(110, 120, 130)]" by (simp add: PRN_EXIT_PRINT_MODE_TIME_def)
  with writer_drains [OF y(1), of 100 "[(110, 120, 130)]"] y(2-5)
  obtain y' where "pnw_loop 0 100 [(110, 120, 130)] y = Some (False, y')" "usb_out (sp y') = [65]"
    "set (frees_of 0 (sp y')) = {..<PRNQUEUELEN}" by auto
  with y(1) show ?thesis by blast
qed

text \<open>C4: The loop test of \<open>PortNWrite\<close> looks at the clock only. When the exit time passes right after
  a pass that fetched a block, the writer ends its round with the block outstanding and marks the
  port ready; the spooler then puts that block's buffer back on the free list and starts the next
  one: the block's bytes are never printed. What was submitted is then what was printed (with earlier
  losses put back), this block, and what is still to be printed.\<close>

theorem writer_timeout_loses_block:
  assumes "pp_reach y H sub" "PNW_Statu y ! 0 \<noteq> 0" "DataSize (PortIO (sp y) ! 0) = 0"
    and "outs_of 0 (sp y) = b # c # os"
    and "b_size (buf (PrinterList (sp y) ! 0) ! b) \<noteq> 0" "b_size (buf (PrinterList (sp y) ! 0) ! c) \<noteq> 0"
    and "t - start < PRN_EXIT_PRINT_MODE_TIME" "\<not> t' - start < PRN_EXIT_PRINT_MODE_TIME"
  shows "\<exists>y' s'. pnw_loop 0 start [(t, tw, ts), (t', tw', ts')] y = Some (True, y') \<and>
    s' = PrnStartSpooler (sp (pnw_end 0 y')) \<and> b \<in> set (frees_of 0 s') \<and>
    sub = weave 0 (usb_out s') (lost y) @ buf_bytes 0 b (sp y) @ pending 0 s'"
proof -
  have i: "pp_inv y H sub" using assms(1) by (rule pp_reach_inv)
  have s: "path_inv 0 (sp y)" "spool_inv 0 (sp y)" "sizes_ok 0 (sp y)" "sub = gone y @ pending 0 (sp y)"
    using i running_busy(2) [OF i assms(2)] by (auto simp: pp_inv_def path_inv_def)
  from DMAPrinting_data [OF s(2) assms(4,5)] obtain u where u: "DMAPrinting 0 (sp y) = (1, u)"
    "outs_of 0 u = c # os" "pNoUseBuf u = (pNoUseBuf (sp y))[0 := Some b]" by auto
  have "pnw_write 0 tw ts start y = Some (start, y)" using assms(3) by (simp add: pnw_write_def)
  then have loop: "pnw_loop 0 start [(t, tw, ts), (t', tw', ts')] y = Some (True, y\<lparr>sp := u\<rparr>)"
    using u(1) assms(7,8) by (simp add: pnw_pass_def)
  have fu: "same_bufs 0 (sp y) u" "usb_out u = usb_out (sp y)" using DMAPrinting_frame [OF s(2)] u(1) by auto
  note su = DMAPrinting_path_inv [OF s(1) assms(3) u(1)]
  obtain st where st: "PrnReadPortStatus 0 u = (st, u)" by (rule PrnReadPortStatus_pair)
  let ?e = "u\<lparr>G_PortReady := G_PortReady u OR port_mask 0\<rparr>"
  have e: "sp (pnw_end 0 (y\<lparr>sp := u\<rparr>)) = ?e" by (simp add: pnw_end_def st)
  have se: "spool_inv 0 ?e" "sizes_ok 0 ?e" using su spool_inv_cong [of ?e u 0] by (simp_all add: path_inv_def sizes_ok_def)
  have rel: "released 0 ?e = [b]" using u(3) s(2) by (simp add: released_def spool_inv_def)
  have c: "c < PRNQUEUELEN" using spool_inv_outs [OF s(2)] assms(4) by simp
  have cz: "b_size (buf (PrinterList ?e ! 0) ! c) \<noteq> 0"
    using same_bufs_field(1) [OF fu(1)] c spool_inv_len [OF s(2)] assms(6) by simp
  have oe: "outs_of 0 ?e = c # os" using u(2) by simp
  obtain w where w: "DMAPrinting 0 ?e = (1, w)" "b \<in> set (frees_of 0 w)" "usb_out w = usb_out ?e"
    "pending 0 w = queued_bytes 0 ?e" using DMAPrinting_overwrites [OF se oe cz rel] by blast
  let ?s' = "PrnStartSpooler ?e"
  have s': "?s' = w\<lparr>G_PortReady := G_PortReady w AND NOT (port_mask 0)\<rparr>"
    using spooler_port_ready [OF _ w(1)] set_ready by (simp add: PrnStartSpooler_port)
  have "queued_bytes 0 ?e = concat (map (\<lambda>b. buf_bytes 0 b (sp y)) (c # os))"
  proof -
    have "\<forall>d \<in> set (c # os). buf_bytes 0 d ?e = buf_bytes 0 d (sp y)"
      using same_bufs_bytes [OF fu(1)] spool_inv_outs [OF s(2)] spool_inv_len [OF s(2)] assms(4)
      by (auto simp: buf_bytes_def)
    then show ?thesis unfolding queued_bytes_def oe by (rule concat_bytes_cong)
  qed
  moreover have "pending 0 (sp y) = buf_bytes 0 b (sp y) @ concat (map (\<lambda>b. buf_bytes 0 b (sp y)) (c # os))"
    using assms(3,4) by (simp add: pending_def block_bytes_def queued_bytes_def)
  moreover have "pending 0 ?s' = pending 0 w" using s' queued_bytes_cong [of ?s' w 0] block_bytes_same [of ?s' w 0]
    by (simp add: pending_def)
  ultimately have "sub = weave 0 (usb_out ?s') (lost y) @ buf_bytes 0 b (sp y) @ pending 0 ?s'"
    unfolding s(4) using w(3,4) fu(2) s' by (simp add: gone_def)
  moreover have "b \<in> set (frees_of 0 ?s')" using w(2) s' by simp
  ultimately show ?thesis
    using loop by (intro exI [of _ "y\<lparr>sp := u\<rparr>"] exI [of _ ?s'] conjI) (simp_all only: e)
qed


theorem writer_timeout_loses_block_witness:
  "\<exists>y y' s'. pp_reach y {} [65, 66, 67] \<and>
    pnw_loop 0 100 [(7099, 0, 0), (7100, 0, 0)] y = Some (True, y') \<and>
    s' = PrnStartSpooler (sp (pnw_end 0 y')) \<and> lost y = [] \<and> usb_out s' @ buf_bytes 0 0 (sp y) @ pending 0 s' = [65, 66, 67]"
proof -
  obtain y where y: "pp_reach y {} [65, 66, 67]" "PNW_Statu y ! 0 = 1" "DataSize (PortIO (sp y) ! 0) = 0"
    "outs_of 0 (sp y) = [0, 1]" "b_size (buf (PrinterList (sp y) ! 0) ! 0) = 1"
    "b_size (buf (PrinterList (sp y) ! 0) ! 1) = 1" "lost y = []" by (rule two_blocks_queued)
  have t: "(7099 :: u32) - 100 < PRN_EXIT_PRINT_MODE_TIME" "\<not> (7100 :: u32) - 100 < PRN_EXIT_PRINT_MODE_TIME"
    by (simp_all add: PRN_EXIT_PRINT_MODE_TIME_def)
  have "PNW_Statu y ! 0 \<noteq> 0" "b_size (buf (PrinterList (sp y) ! 0) ! 0) \<noteq> 0" "b_size (buf (PrinterList (sp y) ! 0) ! 1) \<noteq> 0"
    using y(2,5,6) by simp_all
  from writer_timeout_loses_block [OF y(1) this(1) y(3,4) this(2,3) t, of 0 0 0 0]
  obtain y' s' where w: "pnw_loop 0 100 [(7099, 0, 0), (7100, 0, 0)] y = Some (True, y')"
    "s' = PrnStartSpooler (sp (pnw_end 0 y'))"
    "[65, 66, 67] = weave 0 (usb_out s') (lost y) @ buf_bytes 0 0 (sp y) @ pending 0 s'" by blast
  have "usb_out s' @ buf_bytes 0 0 (sp y) @ pending 0 s' = [65, 66, 67]"
    unfolding w(3) by (simp only: y(7) weave.simps)
  with y(1,7) w(1,2) show ?thesis by blast
qed

end
