(* ===== verification/Prnport_Props.thy ===== *)
theory Prnport_Props
  imports Print_Props
begin

text \<open>
  Properties of the port driver's other parts: the port status, the device identification strings,
  the thread that watches for a printer that has stopped taking data, plugging and unplugging, and
  the direct output of a pattern.
\<close>

unbundle bit_operations_syntax

section \<open>Direct output of a pattern\<close>

lemma PrnStartSpooler_busy: "G_PortReady s AND port_mask 0 = 0 \<Longrightarrow> PrnStartSpooler s = s"
  by (simp add: PrnStartSpooler_port spooler_port_def)

lemma PrnPutInQueueBuf_simps [simp]:
  "G_PortReady (PrnPutInQueueBuf p b s) = G_PortReady s"
  "SP_SIGNAL_PORT_1 (PrnPutInQueueBuf p b s) = SP_SIGNAL_PORT_1 s"
  "usb_out (PrnPutInQueueBuf p b s) = usb_out s"
  by (simp_all add: PrnPutInQueueBuf_def Let_def)

lemma PrnPutOutQueueBuf_ready [simp]: "G_PortReady (PrnPutOutQueueBuf p b f s) = G_PortReady s"
  by (simp add: PrnPutOutQueueBuf_def Let_def)

lemma set_b_size_simps [simp]:
  "G_PortReady (set_b_size p b n s) = G_PortReady s" "SP_SIGNAL_PORT_1 (set_b_size p b n s) = SP_SIGNAL_PORT_1 s"
  "usb_out (set_b_size p b n s) = usb_out s"
  by (simp_all add: set_b_size_def Let_def)

text \<open>C10: \<open>PrnPrintPattern\<close> clears the port's ready bit before it calls \<open>StartDMAIO\<close>, which posts the
  writer's semaphore only when that bit is set. After a successful call the pattern is not printed,
  the spooler does nothing, the port writer stays blocked, and a job queued afterwards is not
  started either.\<close>

theorem PrnPrintPattern_never_printed:
  assumes "pp_reach y H sub" "G_PortReady (sp y) AND port_mask 0 \<noteq> 0"
    and "PrnGetPrinterStatus 0 (sp y) = PrnNoUsed" "\<not> PrnGetAvailQueueNO 0 (sp y) < 1"
  shows "\<exists>s'. PrnPrintPattern 0 Data n (sp y) = Some (0, s') \<and> usb_out s' = usb_out (sp y) \<and>
    PrnStartSpooler s' = s' \<and> PortNWrite 0 start ticks (y\<lparr>sp := s'\<rparr>) = Some (y\<lparr>sp := s'\<rparr>) \<and>
    PrnStartSpooler (PrnPutOutQueueBuf 0 b f s') = PrnPutOutQueueBuf 0 b f s'"
proof -
  have i: "pp_inv y H sub" using assms(1) by (rule pp_reach_inv)
  note d = pp_invD [OF i]
  have sig: "SP_SIGNAL_PORT_1 (sp y) = 0" using i assms(2) by (simp add: pp_inv_def handshake_def)
  have "frees_of 0 (sp y) \<noteq> []"
    using port_invD [OF d(1)] assms(4) by (auto simp: PrnGetAvailQueueNO_def pq_rep_def)
  then obtain c s1 where s1: "PrnGetInQueueBuf 0 (sp y) = (Some c, s1)"
    using pq.get_in_some [OF d(1)] by (cases "frees_of 0 (sp y)") blast+
  have p1: "same_payload 0 (sp y) s1" using payload_get_in [OF d(3)] s1 by simp
  define s2 where "s2 = set_b_size 0 c (uint n)
    (s1\<lparr>qmem := mem_write (qmem s1) (b_data (buf (PrinterList s1 ! 0) ! c)) (take (unat n) Data)\<rparr>)"
  define s3 where "s3 = s2\<lparr>G_PortReady := G_PortReady s2 AND NOT (port_mask 0)\<rparr>"
  define s' where "s' = PrnPutInQueueBuf 0 c (snd (StartDMAIO (b_data (buf (PrinterList s1 ! 0) ! c)) (uint n) 0 s3))"
  have "PrnPrintPattern 0 Data n (sp y) = Some (0, s')"
    using s1 assms(2-4) by (simp add: PrnPrintPattern_def s'_def s3_def s2_def Let_def)
  moreover have "G_PortReady s3 AND port_mask 0 = 0" by (simp add: s3_def clear_ready)
  then have "G_PortReady s' AND port_mask 0 = 0" "SP_SIGNAL_PORT_1 s' = SP_SIGNAL_PORT_1 s3"
    by (simp_all add: s'_def)
  moreover from this(2) have "SP_SIGNAL_PORT_1 s' = 0"
    using sig p1 by (simp add: s3_def s2_def same_payload_def)
  moreover have "usb_out s' = usb_out (sp y)" using p1 by (simp add: s'_def s3_def s2_def same_payload_def)
  ultimately show ?thesis by (simp add: PrnStartSpooler_busy PortNWrite_def)
qed

theorem PrnPrintPattern_never_printed_witness:
  "\<exists>y s'. pp_reach y {} [] \<and> PrnPrintPattern 0 [65, 66] 2 (sp y) = Some (0, s') \<and> usb_out s' = [] \<and>
    PrnStartSpooler (PrnPutOutQueueBuf 0 3 PRN_Q_NORMAL s') = PrnPutOutQueueBuf 0 3 PRN_Q_NORMAL s'"
proof -
  obtain y where y: "pp_reach y {} []" "frees_of 0 (sp y) = [0..<PRNQUEUELEN]" "G_PortReady (sp y) = 1"
    "usb_out (sp y) = []" "InUse (PrinterList (sp y) ! 0) = PrnNoUsed" by (rule attach_static)
  have ready: "G_PortReady (sp y) AND port_mask 0 \<noteq> 0" using y(3) by (simp add: port_mask_def)
  have idle: "PrnGetPrinterStatus 0 (sp y) = PrnNoUsed" using y(5) by (simp add: PrnGetPrinterStatus_def)
  have "PrnGetAvailQueueNO 0 (sp y) = 10"
    using port_invD [OF pp_invD(1) [OF pp_reach_inv [OF y(1)]]] y(2)
    by (simp add: PrnGetAvailQueueNO_def pq_rep_def PRNQUEUELEN_def)
  then have avail: "\<not> PrnGetAvailQueueNO 0 (sp y) < 1" by simp
  from PrnPrintPattern_never_printed [OF y(1) ready idle avail, of "[65, 66]" 2 0 "[]" 3 PRN_Q_NORMAL] y(1,4)
  show ?thesis by fastforce
qed


section \<open>Port status\<close>

text \<open>What the rest of the system learns of a port: off line without a printer; with one, ready
  when the writer is idle, the port unused and all buffers free, and printing otherwise. Reading
  the status changes nothing, and paper-out is never read from the printer.\<close>

theorem PrnReadPortStatus_spec:
  "PrnReadPortStatus p s =
     ((if \<not> usb_present p s then PORT_OFF_LINE else if port_idle p s then PORT_READY else PORT_PRINTING), s)"
  by (simp add: PrnReadPortStatus_def Let_def usbprn_read_status_def connected_rc_def NUM_OF_1284_PORT_def
      port_consts status_bits)

lemma xor_and_disjoint: "b AND c = 0 \<Longrightarrow> (a XOR b) AND c = a AND c" for a b c :: u8
  by (simp add: bit.conj_xor_distrib2)

text \<open>The status byte's select line (\<open>PARPORT_STATUS_SELECT\<close>) has no influence: the test uses the
  mask of the control register's bit (\<open>PARPORT_CONTROL_SELECT\<close>), which is the mask of the fault line
  tested before.\<close>

theorem connected_rc_ignores_select:
  "connected_rc (status XOR PARPORT_STATUS_SELECT) idle = connected_rc status idle"
proof -
  have "PARPORT_STATUS_SELECT AND m = 0 \<Longrightarrow> (status XOR PARPORT_STATUS_SELECT) AND m = status AND m" for m
    by (rule xor_and_disjoint)
  then show ?thesis by (simp add: connected_rc_def status_bits)
qed

section \<open>Watching for a printer that stops\<close>

lemma state_spooler_port_active:
  assumes "PrnGetPrinterStatus p (sp y) \<noteq> PrnNoUsed" "usb_present p (sp y)"
    and "p < length (Printing_MarkNum y)" "Printing_StartNum y ! p > 0"
  defines "t \<equiv> (if Printing_MarkNum y ! p = Printing_StartNum y ! p
      then if st_time y \<ge> 45 then 45 else st_time y + 1 else 0)"
  shows "st_time (state_spooler_port p y) = t"
    "Printing_MarkNum (state_spooler_port p y) = (Printing_MarkNum y)[p := Printing_StartNum y ! p]"
    "Printing_StartNum (state_spooler_port p y) = Printing_StartNum y"
    "length (adjPortType (state_spooler_port p y)) = length (adjPortType y)"
    "length (PortType (state_spooler_port p y)) = length (PortType y)"
    "t = 45 \<Longrightarrow> p < length (adjPortType y) \<Longrightarrow> adjPortType (state_spooler_port p y) ! p = PORT_PAPER_OUT"
    "t = 45 \<Longrightarrow> p < length (PortType y) \<Longrightarrow> PortType (state_spooler_port p y) ! p = ALERT_ERROR"
proof -
  have st: "PrnReadPortStatus p (sp y) = ((if port_idle p (sp y) then PORT_READY else PORT_PRINTING), sp y)"
    using assms(2) by (simp add: PrnReadPortStatus_def Let_def usbprn_read_status_def connected_rc_def
        NUM_OF_1284_PORT_def port_consts status_bits)
  note defs = state_spooler_port_def Let_def st port_consts t_def
  show "st_time (state_spooler_port p y) = t"
    "Printing_MarkNum (state_spooler_port p y) = (Printing_MarkNum y)[p := Printing_StartNum y ! p]"
    "Printing_StartNum (state_spooler_port p y) = Printing_StartNum y"
    "length (adjPortType (state_spooler_port p y)) = length (adjPortType y)"
    "length (PortType (state_spooler_port p y)) = length (PortType y)"
    "t = 45 \<Longrightarrow> p < length (adjPortType y) \<Longrightarrow> adjPortType (state_spooler_port p y) ! p = PORT_PAPER_OUT"
    "t = 45 \<Longrightarrow> p < length (PortType y) \<Longrightarrow> PortType (state_spooler_port p y) ! p = ALERT_ERROR"
    using assms(1,3,4) by (simp_all add: defs split: if_splits)
qed


lemma unat_numeral_45: "unat (45 :: u32) = 45"
  by simp

text \<open>The counter after \<open>n\<close> passes over a port whose write does not end.\<close>

lemma state_spooler_count:
  assumes "PrnGetPrinterStatus p (sp y) \<noteq> PrnNoUsed" "usb_present p (sp y)"
    and "p < length (Printing_MarkNum y)" "Printing_StartNum y ! p > 0"
    and "p < length (adjPortType y)" "p < length (PortType y)"
  defines "z n \<equiv> (state_spooler_port p ^^ Suc n) y"
  shows "sp (z n) = sp y \<and> Printing_StartNum (z n) = Printing_StartNum y \<and>
    Printing_MarkNum (z n) ! p = Printing_StartNum y ! p \<and> p < length (Printing_MarkNum (z n)) \<and>
    p < length (adjPortType (z n)) \<and> p < length (PortType (z n)) \<and> min 45 n \<le> unat (st_time (z n)) \<and>
    st_time (z n) \<le> 45 \<and>
    (st_time (z n) = 45 \<longrightarrow> adjPortType (z n) ! p = PORT_PAPER_OUT \<and> PortType (z n) ! p = ALERT_ERROR)"
proof (induction n)
  case 0
  have "(if Printing_MarkNum y ! p = Printing_StartNum y ! p
      then if st_time y \<ge> 45 then 45 else st_time y + 1 else 0) \<le> (45 :: u32)"
    by (simp add: inc_le)
  then show ?case
    using state_spooler_port_active [OF assms(1-4)] assms(3,5,6) unfolding z_def by auto
next
  case (Suc n)
  let ?w = "z n" and ?t = "if st_time (z n) \<ge> 45 then 45 else st_time (z n) + 1"
  have w: "PrnGetPrinterStatus p (sp ?w) \<noteq> PrnNoUsed" "usb_present p (sp ?w)" "p < length (Printing_MarkNum ?w)"
    "Printing_StartNum ?w ! p > 0" using Suc assms(1,2,4) by simp_all
  note a = state_spooler_port_active [OF w]
  have z': "z (Suc n) = state_spooler_port p ?w" by (simp add: z_def)
  have mark: "Printing_MarkNum ?w ! p = Printing_StartNum ?w ! p" using Suc by simp
  have "min 45 (Suc n) \<le> unat ?t"
  proof (cases "st_time ?w \<ge> 45")
    case False
    then have "unat (st_time ?w) < 45" by (simp add: word_le_nat_alt)
    then have "unat (st_time ?w + 1) = unat (st_time ?w) + 1" by (simp add: unat_word_ariths)
    then show ?thesis using False Suc by (simp add: min_def split: if_splits)
  qed simp
  moreover have "?t \<le> 45" by (simp add: inc_le)
  ultimately show ?case
    unfolding z' using a mark Suc by simp
qed

text \<open>C8: A printer that takes no data while a job is active is reported: as long as the port is in
  use, a printer is attached and the writer's time stamp does not change, 46 or more passes of
  \<open>PrnStateSpooler\<close> leave the port marked as out of paper with an error alert.\<close>

theorem stalled_printer_reported:
  assumes "PrnGetPrinterStatus p (sp y) \<noteq> PrnNoUsed" "usb_present p (sp y)"
    and "p < length (Printing_MarkNum y)" "Printing_StartNum y ! p > 0"
    and "p < length (adjPortType y)" "p < length (PortType y)" "n \<ge> 46"
  shows "adjPortType ((state_spooler_port p ^^ n) y) ! p = PORT_PAPER_OUT \<and>
    PortType ((state_spooler_port p ^^ n) y) ! p = ALERT_ERROR"
proof -
  obtain k where k: "n = Suc k" "45 \<le> k" using assms(7) by (cases n) auto
  note c = state_spooler_count [OF assms(1-6), of k]
  then have "unat (st_time ((state_spooler_port p ^^ Suc k) y)) = 45"
    using k(2) by (auto simp: word_le_nat_alt)
  then have "st_time ((state_spooler_port p ^^ Suc k) y) = 45" by (metis word_unat_eq_iff unat_numeral_45)
  with c k(1) show ?thesis by blast
qed


definition stalled_psys :: psys where
  "stalled_psys = psys_static\<lparr>sp := spool_static\<lparr>PrinterList := [zero_ps\<lparr>InUse := RawTcpUsed\<rparr>],
     PortIO := [zero_parport\<lparr>p_base := 1\<rparr>], usblp_table := (\<lambda>m. m = 0)\<rparr>, Printing_StartNum := [5]\<rparr>"

theorem stalled_printer_reported_witness:
  "adjPortType ((state_spooler_port 0 ^^ 46) stalled_psys) ! 0 = PORT_PAPER_OUT"
proof -
  have "PrnGetPrinterStatus 0 (sp stalled_psys) \<noteq> PrnNoUsed" "usb_present 0 (sp stalled_psys)"
    "0 < length (Printing_MarkNum stalled_psys)" "Printing_StartNum stalled_psys ! 0 > 0"
    "0 < length (adjPortType stalled_psys)" "0 < length (PortType stalled_psys)"
    by (simp_all add: stalled_psys_def psys_static_def PrnGetPrinterStatus_def usb_present_def
        RawTcpUsed_def PrnNoUsed_def)
  from stalled_printer_reported [OF this, of 46] show ?thesis by simp
qed

text \<open>Once the writer makes progress the alert is withdrawn: a single pass over a used port with a
  printer attached, whose time stamp is cleared or has changed since the last pass, reports the
  port as ready with a recovery alert and restarts the count.\<close>

theorem progress_clears_alert:
  assumes "PrnGetPrinterStatus p (sp y) \<noteq> PrnNoUsed" "usb_present p (sp y)"
    and "Printing_StartNum y ! p = 0 \<or> Printing_MarkNum y ! p \<noteq> Printing_StartNum y ! p"
    and "p < length (adjPortType y)" "p < length (PortType y)"
  shows "adjPortType (state_spooler_port p y) ! p = PORT_READY \<and>
    PortType (state_spooler_port p y) ! p = ALERT_RECOVERY \<and> st_time (state_spooler_port p y) = 0"
proof -
  have "PrnReadPortStatus p (sp y) = ((if port_idle p (sp y) then PORT_READY else PORT_PRINTING), sp y)"
    using assms(2) by (simp add: PrnReadPortStatus_def Let_def usbprn_read_status_def connected_rc_def
        NUM_OF_1284_PORT_def port_consts status_bits)
  then show ?thesis
    using assms(1,3-5) by (auto simp: state_spooler_port_def Let_def port_consts)
qed

theorem progress_clears_alert_witness:
  "adjPortType (state_spooler_port 0 stalled_psys) ! 0 = PORT_READY"
proof -
  have "PrnGetPrinterStatus 0 (sp stalled_psys) \<noteq> PrnNoUsed" "usb_present 0 (sp stalled_psys)"
    "Printing_StartNum stalled_psys ! 0 = 0 \<or> Printing_MarkNum stalled_psys ! 0 \<noteq> Printing_StartNum stalled_psys ! 0"
    "0 < length (adjPortType stalled_psys)" "0 < length (PortType stalled_psys)"
    by (simp_all add: stalled_psys_def psys_static_def PrnGetPrinterStatus_def usb_present_def
        RawTcpUsed_def PrnNoUsed_def)
  from progress_clears_alert [OF this] show ?thesis by simp
qed

section \<open>Device identification\<close>

lemma parse_device_id_last:
  "char_semicolon \<notin> set a \<Longrightarrow> parse_device_id m a io = parse_section m a io"
  by (subst parse_device_id.simps) (simp add: split_at_sep(3,4))

lemma parse_device_id_cons:
  "char_semicolon \<notin> set a \<Longrightarrow>
   parse_device_id m (a @ char_semicolon # rest) io = parse_device_id m rest (parse_section m a io)"
  by (subst parse_device_id.simps) (simp add: split_at_sep(1,2))

lemmas id_keys = cstr_def toupper_def char_colon_def char_semicolon_def

lemma parse_known_sections:
  assumes "\<forall>n. m n"
  shows "parse_section m (cstr ''MANUFACTURER'' @ char_colon # v) io = io\<lparr>Manufacture := Some v\<rparr>"
    "parse_section m (cstr ''MODEL'' @ char_colon # v) io = io\<lparr>Model := Some v\<rparr>"
    "parse_section m (cstr ''CLASS'' @ char_colon # v) io = io"
    "parse_section m (cstr ''COMMAND SET'' @ char_colon # v) io =
       io\<lparr>CommandSet := Some v, SupportLang := lang_bits (map toupper v)\<rparr>"
    "parse_section m (cstr ''DESCRIPTION'' @ char_colon # v) io =
       io\<lparr>Description := (if v = [] then None else Some v)\<rparr>"
  using assms by (simp_all add: parse_section_def split_at_sep(1,2) dup_def Let_def id_keys)


text \<open>C9: Reading back the device information the server hands out gives the same identification:
  \<open>parse_device_id\<close> on the output of \<open>PrnDeviceInfo\<close> restores manufacturer, model, command set and
  description of a printer, and derives its languages from the command set, as long as none of the
  strings has a semicolon, the description is not empty and everything fits.\<close>

theorem device_info_roundtrip:
  assumes "Manufacture io = Some mf" "Model io = Some md" "CommandSet io = Some cs" "Description io = Some ds"
    and "char_semicolon \<notin> set (mf @ md @ cs @ ds)" "ds \<noteq> []" "\<forall>n. malloc_ok n"
    and "length mf + length md + length cs + length ds < 445"
  shows "parse_device_id malloc_ok (PrnDeviceInfo Buf io) io0 =
    io0\<lparr>Manufacture := Some mf, Model := Some md, CommandSet := Some cs,
        SupportLang := lang_bits (map toupper cs), Description := Some ds\<rparr>"
proof -
  have len: "length mf + (length md + (length cs + 54)) < SNMP_MAX_STRING"
    "length mf + (length md + (length cs + (length ds + 67))) < SNMP_MAX_STRING"
    using assms(8) by (simp_all add: SNMP_MAX_STRING_def)
  have info: "PrnDeviceInfo Buf io =
     (cstr ''MANUFACTURER'' @ char_colon # mf) @ char_semicolon # (cstr ''MODEL'' @ char_colon # md) @
     char_semicolon # (cstr ''CLASS'' @ char_colon # cstr ''PRINTER'') @
     char_semicolon # (cstr ''COMMAND SET'' @ char_colon # cs) @ char_semicolon # (cstr ''DESCRIPTION'' @ char_colon # ds)"
    using assms(1-4) len by (simp add: PrnDeviceInfo_def Let_def id_keys algebra_simps)
  have k: "char_semicolon \<notin> set (cstr ''MANUFACTURER'')" "char_semicolon \<notin> set (cstr ''MODEL'')"
    "char_semicolon \<notin> set (cstr ''CLASS'')" "char_semicolon \<notin> set (cstr ''COMMAND SET'')"
    "char_semicolon \<notin> set (cstr ''DESCRIPTION'')" "char_semicolon \<notin> set (cstr ''PRINTER'')"
    "char_semicolon \<noteq> char_colon" by (simp_all add: id_keys)
  then show ?thesis
    unfolding info using assms(5,6)
    by (simp add: parse_device_id_cons parse_device_id_last parse_known_sections [OF assms(7)] del: append_assoc)
qed

theorem device_info_roundtrip_witness:
  "parse_device_id (\<lambda>_. True)
     (PrnDeviceInfo [] (zero_parport\<lparr>Manufacture := Some (cstr ''HP''), Model := Some (cstr ''LJ4''),
        CommandSet := Some (cstr ''PCL,PJL''), Description := Some (cstr ''x'')\<rparr>)) zero_parport =
   zero_parport\<lparr>Manufacture := Some (cstr ''HP''), Model := Some (cstr ''LJ4''),
     CommandSet := Some (cstr ''PCL,PJL''), SupportLang := P1284_PJL OR P1284_PCL, Description := Some (cstr ''x'')\<rparr>"
proof -
  have "lang_bits (map toupper (cstr ''PCL,PJL'')) = P1284_PJL OR P1284_PCL"
    by (simp add: lang_bits_def id_keys)
  moreover have "parse_device_id (\<lambda>_. True)
     (PrnDeviceInfo [] (zero_parport\<lparr>Manufacture := Some (cstr ''HP''), Model := Some (cstr ''LJ4''),
        CommandSet := Some (cstr ''PCL,PJL''), Description := Some (cstr ''x'')\<rparr>)) zero_parport =
   zero_parport\<lparr>Manufacture := Some (cstr ''HP''), Model := Some (cstr ''LJ4''), CommandSet := Some (cstr ''PCL,PJL''),
     SupportLang := lang_bits (map toupper (cstr ''PCL,PJL'')), Description := Some (cstr ''x'')\<rparr>"
    by (rule device_info_roundtrip) (simp_all add: cstr_def char_semicolon_def)
  ultimately show ?thesis by simp
qed

section \<open>Plugging and unplugging\<close>

text \<open>C11: A printer plugged into the free port can be unplugged again exactly when the transaction
  translator port of its USB device is 0: then the port is free, with no device strings left.
  Otherwise \<open>usbprn_unattach\<close> indexes \<open>PortIO\<close> with another port number than \<open>usbprn_attach\<close> did,
  outside the array, and the port stays taken.\<close>

theorem attach_then_unattach:
  assumes "usbprn_attach malloc_ok minor d y = Some (1, y')" "length (PortIO (sp y)) = NUM_OF_PRN_PORT"
  shows "p_base (PortIO (sp y') ! 0) = minor + 1 \<and>
    (if ttport d = 0
     then \<exists>y''. usbprn_unattach minor d y' = Some (1, y'') \<and> p_base (PortIO (sp y'') ! 0) = 0 \<and>
       Manufacture (PortIO (sp y'') ! 0) = None \<and> Model (PortIO (sp y'') ! 0) = None \<and>
       CommandSet (PortIO (sp y'') ! 0) = None \<and> Description (PortIO (sp y'') ! 0) = None \<and>
       HasGetDeviceID (PortIO (sp y'') ! 0) = 0
     else usbprn_unattach minor d y' = None)"
proof -
  have one: "length (PortIO (sp y)) = 1" using assms(2) by (simp add: NUM_OF_PRN_PORT_def)
  have p: "printer_port d = 0"
    using assms(1) one by (auto simp: usbprn_attach_def Let_def NUM_OF_1284_PORT_def split: if_splits)
  obtain io where io: "sp y' = set_pio 0 io (sp y)" "p_base io = minor + 1"
    using assms(1) p parse_device_id_frame
    by (auto simp: usbprn_attach_def Let_def NUM_OF_1284_PORT_def split: if_splits option.splits)
  then show ?thesis
    using one by (auto simp: usbprn_unattach_def NUM_OF_1284_PORT_def PrnFreeDeviceInfo_def Let_def)
qed

definition hub_usblp :: usblp where
  "hub_usblp = \<lparr>device_id_string = [0, 0] @ cstr ''MFG:HP;MDL:LJ4;CMD:PCL;'', printer_port = 0, ttport = 3\<rparr>"

theorem attach_then_unattach_witness:
  "\<exists>y'. usbprn_attach (\<lambda>_. False) 0 hub_usblp psys_static = Some (1, y') \<and>
    usbprn_unattach 0 hub_usblp y' = None"
proof -
  have l: "length (PortIO (sp psys_static)) = NUM_OF_PRN_PORT"
    by (simp add: psys_static_def spool_static_def)
  obtain y' where y': "usbprn_attach (\<lambda>_. False) 0 hub_usblp psys_static = Some (1, y')"
    by (simp add: usbprn_attach_def hub_usblp_def NUM_OF_1284_PORT_def psys_static_def spool_static_def
        NUM_OF_PRN_PORT_def zero_parport_def Let_def)
  from attach_then_unattach [OF y' l] y' show ?thesis by (simp add: hub_usblp_def)
qed

end
