(* ===== verification/Asn1.thy ===== *)
theory Asn1
  imports PS_Prelude
begin

text \<open>
  The ASN.1 coder of the SNMP agent, \<open>src/apps/snmp/src/asn1.c\<close>.

  A buffer is a byte list and a pointer a position in it. A parser gets the buffer, the position of
  the object and \<open>*datalength\<close>; it returns what it stores through its pointer arguments, the new
  position and the new \<open>*datalength\<close>. A builder returns the changed buffer, the position after the
  object and the new \<open>*datalength\<close>. \<open>int\<close> variables are integers with the conversions to and from
  \<open>uint32\<close> written out; \<open>long\<close> is 32 bits wide on the target.

  \<open>Failed\<close> is a null pointer returned without, \<open>ParseErr\<close> one returned with an increment of
  \<open>snmpInASNParseErrs\<close>. \<open>OutOfBounds\<close> is an access outside the buffer, which the C code makes
  without noticing.
\<close>

unbundle bit_operations_syntax

datatype asn_error = Failed | ParseErr | OutOfBounds

definition ASN_LONG_LENGTH :: u8 where "ASN_LONG_LENGTH = 0x80"
definition ASN_BIT8 :: u8 where "ASN_BIT8 = 0x80"
definition ASN_EXTENSION_ID :: u8 where "ASN_EXTENSION_ID = 0x1F"
definition MAX_SUBID :: u32 where "MAX_SUBID = 0xFFFF"
definition MAX_OID_LEN :: nat where "MAX_OID_LEN = 64"
definition sizeof_long :: int where "sizeof_long = 4"

lemmas asn_consts = ASN_LONG_LENGTH_def ASN_BIT8_def ASN_EXTENSION_ID_def MAX_SUBID_def MAX_OID_LEN_def
  sizeof_long_def

text \<open>Conversions between \<open>int\<close> and \<open>uint32\<close>.\<close>

definition s32 :: "int \<Rightarrow> int" where "s32 i = sint (word_of_int i :: u32)"
definition u32_of :: "int \<Rightarrow> u32" where "u32_of i = word_of_int i"

section \<open>Buffer access\<close>

definition bindE :: "'e + 'a \<Rightarrow> ('a \<Rightarrow> 'e + 'b) \<Rightarrow> 'e + 'b" where
  "bindE m f = (case m of Inl e \<Rightarrow> Inl e | Inr x \<Rightarrow> f x)"

definition rd :: "u8 list \<Rightarrow> nat \<Rightarrow> asn_error + u8" where
  "rd mem i = (if i < length mem then Inr (mem ! i) else Inl OutOfBounds)"

definition rd_n :: "u8 list \<Rightarrow> nat \<Rightarrow> nat \<Rightarrow> asn_error + u8 list" where
  "rd_n mem i n = (if i + n \<le> length mem then Inr (take n (drop i mem)) else Inl OutOfBounds)"

definition overwrite :: "u8 list \<Rightarrow> nat \<Rightarrow> u8 list \<Rightarrow> u8 list" where
  "overwrite mem i bs = take i mem @ bs @ drop (i + length bs) mem"

definition wr :: "u8 list \<Rightarrow> nat \<Rightarrow> u8 list \<Rightarrow> asn_error + u8 list" where
  "wr mem i bs = (if i + length bs \<le> length mem then Inr (overwrite mem i bs) else Inl OutOfBounds)"

section \<open>Lengths and headers\<close>

text \<open>\<open>*length = (*length << 8) | (long)data[i+1]\<close>\<close>

definition be_step :: "u32 \<Rightarrow> u8 \<Rightarrow> u32" where
  "be_step v b = push_bit 8 v OR ucast b"

definition asn_parse_length :: "u8 list \<Rightarrow> nat \<Rightarrow> asn_error + (u32 \<times> nat)" where
  "asn_parse_length mem data =
     bindE (rd mem data) (\<lambda>lengthbyte.
       if lengthbyte AND ASN_LONG_LENGTH \<noteq> 0
       then let n = lengthbyte AND NOT ASN_LONG_LENGTH
            in if n = 0 then Inl ParseErr
               else if n > 4 then Inl ParseErr
               else bindE (rd_n mem (data + 1) (unat n)) (\<lambda>bs.
                 Inr (foldl be_step 0 bs, data + unat n + 1))
       else Inr (ucast lengthbyte, data + 1))"

definition length_bytes :: "int \<Rightarrow> u8 list" where
  "length_bytes n =
     (if n < 0x80 then [word_of_int n]
      else if n \<le> 0xFF then [0x01 OR ASN_LONG_LENGTH, word_of_int n]
      else [0x02 OR ASN_LONG_LENGTH, word_of_int (n div 256), word_of_int n])"

definition asn_build_length :: "u8 list \<Rightarrow> nat \<Rightarrow> int \<Rightarrow> int \<Rightarrow> asn_error + (u8 list \<times> nat \<times> int)" where
  "asn_build_length mem data datalength n =
     (let bs = length_bytes n
      in bindE (wr mem data bs) (\<lambda>mem'.
           if datalength < int (length bs) then Inl Failed
           else Inr (mem', data + length bs, datalength - int (length bs))))"

definition asn_parse_header :: "u8 list \<Rightarrow> nat \<Rightarrow> int \<Rightarrow> asn_error + (u8 \<times> nat \<times> int)" where
  "asn_parse_header mem data datalength =
     bindE (rd mem data) (\<lambda>type.
       if type AND ASN_EXTENSION_ID = ASN_EXTENSION_ID then Inl ParseErr
       else bindE (asn_parse_length mem (data + 1)) (\<lambda>(asn_length, bufp).
         if of_nat (bufp - data) + asn_length > u32_of datalength then Inl ParseErr
         else Inr (type, bufp, sint asn_length)))"

definition asn_build_header :: "u8 list \<Rightarrow> nat \<Rightarrow> int \<Rightarrow> u8 \<Rightarrow> int \<Rightarrow> asn_error + (u8 list \<times> nat \<times> int)" where
  "asn_build_header mem data datalength type n =
     (if datalength < 1 then Inl Failed
      else bindE (wr mem data [type]) (\<lambda>mem'. asn_build_length mem' (data + 1) (datalength - 1) n))"

text \<open>The object's contents behind its header, as the builders of strings, integers and object
  identifiers all end.\<close>

definition put_contents ::
  "u8 list \<Rightarrow> asn_error + (u8 list \<times> nat \<times> int) \<Rightarrow> asn_error + (u8 list \<times> nat \<times> int)" where
  "put_contents bs r =
     bindE r (\<lambda>(mem, data, datalength).
       if datalength < int (length bs) then Inl Failed
       else bindE (wr mem data bs) (\<lambda>mem'. Inr (mem', data + length bs, datalength - int (length bs))))"

section \<open>Integers\<close>

fun parse_int_loop :: "u8 list \<Rightarrow> nat \<Rightarrow> nat \<Rightarrow> u32 \<Rightarrow> asn_error + (u32 \<times> nat)" where
  "parse_int_loop mem bufp 0 v = Inr (v, bufp)"
| "parse_int_loop mem bufp (Suc n) v =
     bindE (rd mem bufp) (\<lambda>b. parse_int_loop mem (bufp + 1) n (be_step v b))"

definition asn_parse_int :: "u8 list \<Rightarrow> nat \<Rightarrow> int \<Rightarrow> int \<Rightarrow> asn_error + (u8 \<times> u32 \<times> nat \<times> int)" where
  "asn_parse_int mem data datalength intsize =
     (if intsize \<noteq> sizeof_long then Inl Failed
      else bindE (rd mem data) (\<lambda>type.
        bindE (asn_parse_length mem (data + 1)) (\<lambda>(asn_length, bufp).
          if sint (asn_length + of_nat (bufp - data)) > datalength then Inl ParseErr
          else if sint asn_length > intsize then Inl ParseErr
          else bindE (rd mem bufp) (\<lambda>b.
            bindE (parse_int_loop mem bufp (unat asn_length) (if b AND 0x80 \<noteq> 0 then -1 else 0)) (\<lambda>(v, bufp').
              Inr (type, v, bufp', s32 (datalength - (sint asn_length + int (bufp - data)))))))))"

text \<open>Dropping the redundant leading bytes, and the bytes of what is left.\<close>

fun trunc_int :: "nat \<Rightarrow> u32 \<Rightarrow> nat \<times> u32" where
  "trunc_int intsize integer =
     (if (integer AND 0xFF800000 = 0 \<or> integer AND 0xFF800000 = 0xFF800000) \<and> intsize > 1
      then trunc_int (intsize - 1) (push_bit 8 integer) else (intsize, integer))"

declare trunc_int.simps [simp del]

fun int_bytes :: "nat \<Rightarrow> u32 \<Rightarrow> u8 list" where
  "int_bytes 0 integer = []"
| "int_bytes (Suc n) integer = ucast (drop_bit 24 (integer AND 0xFF000000)) # int_bytes n (push_bit 8 integer)"

definition asn_build_int :: "u8 list \<Rightarrow> nat \<Rightarrow> int \<Rightarrow> u8 \<Rightarrow> u32 \<Rightarrow> int \<Rightarrow> asn_error + (u8 list \<times> nat \<times> int)" where
  "asn_build_int mem data datalength type integer intsize =
     (if intsize \<noteq> sizeof_long then Inl Failed
      else let (n, i) = trunc_int (nat intsize) integer
           in put_contents (int_bytes n i) (asn_build_header mem data datalength type (int n)))"

definition unsigned_contents :: "u32 \<Rightarrow> u8 list" where
  "unsigned_contents integer =
     (let add_null_byte = (ucast (drop_bit 24 (integer AND 0xFF000000)) :: u8) AND 0x80 \<noteq> 0;
          (n, i) = trunc_int (if add_null_byte then 5 else 4) integer
      in if add_null_byte then 0 # int_bytes (n - 1) i else int_bytes n i)"

definition asn_build_unsigned_int ::
  "u8 list \<Rightarrow> nat \<Rightarrow> int \<Rightarrow> u8 \<Rightarrow> u32 \<Rightarrow> int \<Rightarrow> asn_error + (u8 list \<times> nat \<times> int)" where
  "asn_build_unsigned_int mem data datalength type integer intsize =
     (if intsize \<noteq> sizeof_long then Inl Failed
      else let bs = unsigned_contents integer
           in put_contents bs (asn_build_header mem data datalength type (int (length bs))))"


section \<open>Strings, null, bit strings and sequences\<close>

definition asn_parse_string ::
  "u8 list \<Rightarrow> nat \<Rightarrow> int \<Rightarrow> int \<Rightarrow> asn_error + (u8 \<times> u8 list \<times> nat \<times> int)" where
  "asn_parse_string mem data datalength strlength =
     bindE (rd mem data) (\<lambda>type.
       bindE (asn_parse_length mem (data + 1)) (\<lambda>(asn_length, bufp).
         if asn_length + of_nat (bufp - data) > u32_of datalength then Inl ParseErr
         else if asn_length > u32_of strlength then Inl ParseErr
         else bindE (rd_n mem bufp (unat asn_length)) (\<lambda>string.
           Inr (type, string, bufp + unat asn_length,
                s32 (datalength - (sint asn_length + int (bufp - data)))))))"

definition asn_build_string ::
  "u8 list \<Rightarrow> nat \<Rightarrow> int \<Rightarrow> u8 \<Rightarrow> u8 list \<Rightarrow> asn_error + (u8 list \<times> nat \<times> int)" where
  "asn_build_string mem data datalength type string =
     put_contents string (asn_build_header mem data datalength type (int (length string)))"

definition asn_parse_null :: "u8 list \<Rightarrow> nat \<Rightarrow> int \<Rightarrow> asn_error + (u8 \<times> nat \<times> int)" where
  "asn_parse_null mem data datalength =
     bindE (rd mem data) (\<lambda>type.
       bindE (asn_parse_length mem (data + 1)) (\<lambda>(asn_length, bufp).
         if asn_length \<noteq> 0 then Inl ParseErr
         else Inr (type, bufp, datalength - int (bufp - data))))"

definition asn_build_null :: "u8 list \<Rightarrow> nat \<Rightarrow> int \<Rightarrow> u8 \<Rightarrow> asn_error + (u8 list \<times> nat \<times> int)" where
  "asn_build_null mem data datalength type = asn_build_header mem data datalength type 0"

text \<open>The first byte of a bit string's contents is the number of unused bits.\<close>

definition asn_build_bitstring ::
  "u8 list \<Rightarrow> nat \<Rightarrow> int \<Rightarrow> u8 \<Rightarrow> u8 list \<Rightarrow> asn_error + (u8 list \<times> nat \<times> int)" where
  "asn_build_bitstring mem data datalength type string =
     (case string of
        [] \<Rightarrow> Inl Failed
      | b # _ \<Rightarrow> if b > 7 then Inl Failed
                 else put_contents string (asn_build_header mem data datalength type (int (length string))))"

text \<open>
  With length 0, \<open>asn_build_sequence\<close> reserves a header of four bytes. Called again with the final
  length it writes the shortest header and moves the contents, which start four bytes behind
  \<open>data\<close>, up to it.
\<close>

definition asn_build_sequence ::
  "u8 list \<Rightarrow> nat \<Rightarrow> int \<Rightarrow> u8 \<Rightarrow> int \<Rightarrow> asn_error + (u8 list \<times> nat \<times> int)" where
  "asn_build_sequence mem data datalength type n =
     (if n = 0
      then if datalength < 4 then Inl Failed
           else bindE (wr mem data [type, 0x02 OR ASN_LONG_LENGTH, 0, 0]) (\<lambda>mem'.
             Inr (mem', data + 4, datalength - 4))
      else bindE (wr mem data [type]) (\<lambda>mem'.
             let hdr = (if n < 0x80 then 2 else if n \<le> 0xFF then 3 else 4 :: nat)
             in if datalength < int hdr then Inl Failed
                else bindE (wr mem' data (type # length_bytes n)) (\<lambda>mem''.
                       bindE (rd_n mem'' (data + 4) (nat n)) (\<lambda>contents.
                         Inr (overwrite mem'' (data + hdr) contents, data + hdr + nat n, datalength - int hdr)))))"

section \<open>Object identifiers\<close>

text \<open>One subidentifier: its value and the number of bytes read.\<close>

fun parse_subid :: "u8 list \<Rightarrow> u32 \<Rightarrow> (u32 \<times> nat) option" where
  "parse_subid [] subid = None"
| "parse_subid (b # bs) subid =
     (let subid' = push_bit 7 subid + ucast (b AND NOT ASN_BIT8)
      in if b AND ASN_BIT8 \<noteq> 0 then map_option (\<lambda>(v, n). (v, Suc n)) (parse_subid bs subid')
         else Some (subid', 1))"

text \<open>At most \<open>k\<close> subidentifiers while \<open>length > 0\<close>.\<close>

fun parse_subids :: "nat \<Rightarrow> int \<Rightarrow> u8 list \<Rightarrow> asn_error + (u16 list \<times> nat)" where
  "parse_subids 0 len bs = Inr ([], 0)"
| "parse_subids (Suc k) len bs =
     (if len \<le> 0 then Inr ([], 0)
      else case parse_subid bs 0 of
             None \<Rightarrow> Inl OutOfBounds
           | Some (v, n) \<Rightarrow>
               if v > MAX_SUBID then Inl ParseErr
               else bindE (parse_subids k (len - int n) (drop n bs)) (\<lambda>(vs, m). Inr (ucast v # vs, n + m)))"

text \<open>\<open>stale\<close> is what the caller's array holds at index 1 before the call.\<close>

definition split_first :: "u16 \<Rightarrow> u16 list" where
  "split_first subid =
     (let y = ucast (ucast (subid mod 40) :: u8) in [ucast (ucast ((subid - y) div 40) :: u8), y])"

definition asn_parse_objid ::
  "u8 list \<Rightarrow> nat \<Rightarrow> int \<Rightarrow> u16 \<Rightarrow> int \<Rightarrow> asn_error + (u8 \<times> u16 list \<times> nat \<times> int)" where
  "asn_parse_objid mem data datalength stale objidlength =
     bindE (rd mem data) (\<lambda>type.
       bindE (asn_parse_length mem (data + 1)) (\<lambda>(asn_length, bufp).
         if asn_length + of_nat (bufp - data) > u32_of datalength then Inl ParseErr
         else bindE (parse_subids (nat (objidlength - 1)) (sint asn_length) (drop bufp mem)) (\<lambda>(subs, n).
           Inr (type,
                (case subs of [] \<Rightarrow> take 1 (split_first stale) | v # vs \<Rightarrow> split_first v @ vs),
                bufp + n, s32 (datalength - (sint asn_length + int (bufp - data)))))))"

text \<open>The highest group of seven bits that is not zero, as a mask and its position.\<close>

definition subid_mask :: "u32 \<Rightarrow> u32 \<times> nat" where
  "subid_mask subid =
     foldl (\<lambda>(msk, bits) i. let testmask = push_bit (7 * i) 0x7F
                             in if subid AND testmask \<noteq> 0 then (testmask, 7 * i) else (msk, bits))
       (0x7F, 0) [0, 1, 2, 3, 4]"

partial_function (option) emit_subid :: "u32 \<Rightarrow> u32 \<Rightarrow> nat \<Rightarrow> u8 list \<Rightarrow> u8 list option" where
  "emit_subid subid msk bits bp =
     (if msk = 0x7F then Some (bp @ [ucast (subid AND msk)])
      else emit_subid subid (drop_bit 7 msk) (bits - 7)
             (bp @ [ucast (drop_bit bits (subid AND msk)) OR ASN_BIT8]))"

declare emit_subid.simps [code]

definition subid_bytes :: "u16 \<Rightarrow> u8 list option" where
  "subid_bytes subid = (case subid_mask (ucast subid) of (msk, bits) \<Rightarrow> emit_subid (ucast subid) msk bits [])"

fun subids_bytes :: "u16 list \<Rightarrow> u8 list option" where
  "subids_bytes [] = Some []"
| "subids_bytes (v # vs) =
     (case subid_bytes v of
        None \<Rightarrow> None
      | Some bs \<Rightarrow> map_option (\<lambda>cs. bs @ cs) (subids_bytes vs))"

text \<open>
  The result is an option for the loops; \<open>OutOfBounds\<close> are object identifiers that do not fit into
  the local arrays \<open>objbuf\<close> and \<open>buf\<close>.
\<close>

definition merge_first :: "u16 list \<Rightarrow> u16 list" where
  "merge_first objid = (case objid of x # y # vs \<Rightarrow> (y + x * 40) # vs | _ \<Rightarrow> [])"

definition asn_build_objid ::
  "u8 list \<Rightarrow> nat \<Rightarrow> int \<Rightarrow> u8 \<Rightarrow> u16 list \<Rightarrow> (asn_error + (u8 list \<times> nat \<times> int)) option" where
  "asn_build_objid mem data datalength type objid =
     (if length objid > MAX_OID_LEN then Some (Inl OutOfBounds)
      else case subids_bytes (merge_first objid) of
             None \<Rightarrow> None
           | Some buf \<Rightarrow>
               Some (if length buf > MAX_OID_LEN then Inl OutOfBounds
                     else put_contents buf (asn_build_header mem data datalength type (int (length buf)))))"

end
