(* ===== verification/Asn1_Props.thy ===== *)
theory Asn1_Props
  imports Asn1
begin

text \<open>
  Properties of the ASN.1 coder: every builder is undone by its parser, integers are encoded in the
  fewest bytes, and the conditions under which parsers stay inside the message and builders inside
  their buffers.
\<close>

unbundle bit_operations_syntax

section \<open>Buffers\<close>

definition holds :: "u8 list \<Rightarrow> nat \<Rightarrow> u8 list \<Rightarrow> bool" where
  "holds mem i bs \<longleftrightarrow> i + length bs \<le> length mem \<and> take (length bs) (drop i mem) = bs"

lemma bindE_simps [simp]: "bindE (Inr x) f = f x" "bindE (Inl e) f = Inl e"
  by (simp_all add: bindE_def)

lemma bindE_eq_Inr: "bindE m f = Inr y \<longleftrightarrow> (\<exists>x. m = Inr x \<and> f x = Inr y)"
  by (cases m) simp_all

lemma overwrite_length [simp]: "i + length bs \<le> length mem \<Longrightarrow> length (overwrite mem i bs) = length mem"
  by (simp add: overwrite_def)

lemma overwrite_twice:
  "i + length a + length b \<le> length mem \<Longrightarrow>
   overwrite (overwrite mem i a) (i + length a) b = overwrite mem i (a @ b)"
  by (simp add: overwrite_def ac_simps)

lemma overwrite_same:
  "i + length b \<le> length mem \<Longrightarrow> length a \<le> length b \<Longrightarrow> overwrite (overwrite mem i a) i b = overwrite mem i b"
  by (simp add: overwrite_def ac_simps)

lemma holds_overwrite: "i + length bs \<le> length mem \<Longrightarrow> holds (overwrite mem i bs) i bs"
  by (simp add: holds_def overwrite_def)

lemma holds_append: "holds mem i (a @ b) \<longleftrightarrow> holds mem i a \<and> holds mem (i + length a) b"
  by (auto simp: holds_def take_add add.commute [of i] simp flip: drop_drop)

lemma holds_Cons: "holds mem i (b # bs) \<longleftrightarrow> rd mem i = Inr b \<and> holds mem (Suc i) bs"
  by (auto simp: holds_def rd_def Cons_nth_drop_Suc [symmetric] split: if_splits)

lemma holds_rd_n: "holds mem i bs \<Longrightarrow> rd_n mem i (length bs) = Inr bs"
  by (simp add: holds_def rd_n_def)

lemma wr_fits: "i + length bs \<le> length mem \<Longrightarrow> wr mem i bs = Inr (overwrite mem i bs)"
  by (simp add: wr_def)

section \<open>Headers\<close>

definition object_bytes :: "u8 \<Rightarrow> u8 list \<Rightarrow> u8 list" where
  "object_bytes type bs = type # length_bytes (int (length bs)) @ bs"

lemma length_bytes_len: "length (length_bytes n) \<in> {1, 2, 3}"
  by (simp add: length_bytes_def)

lemma build_header_fits:
  assumes "data + 1 + length (length_bytes n) \<le> length mem" "1 + int (length (length_bytes n)) \<le> datalength"
  shows "asn_build_header mem data datalength type n =
    Inr (overwrite mem data (type # length_bytes n), data + 1 + length (length_bytes n),
         datalength - (1 + int (length (length_bytes n))))"
  using assms overwrite_twice [of data "[type]" "length_bytes n" mem]
  by (simp add: asn_build_header_def asn_build_length_def wr_fits Let_def)

text \<open>All builders of primitive objects write the object's bytes and advance by their number.\<close>

lemma build_object_fits:
  assumes "data + length (object_bytes type bs) \<le> length mem" "int (length (object_bytes type bs)) \<le> datalength"
  shows "put_contents bs (asn_build_header mem data datalength type (int (length bs))) =
    Inr (overwrite mem data (object_bytes type bs), data + length (object_bytes type bs),
         datalength - int (length (object_bytes type bs)))"
  using assms overwrite_twice [of data "type # length_bytes (int (length bs))" bs mem]
  by (simp add: object_bytes_def put_contents_def build_header_fits wr_fits add.assoc)

text \<open>With less room than the object needs they fail, as long as the buffer has room for the header.\<close>

lemma build_object_fails:
  assumes "datalength < int (length (object_bytes type bs))" "data + 4 \<le> length mem"
  shows "put_contents bs (asn_build_header mem data datalength type (int (length bs))) = Inl Failed"
proof -
  have l: "data + (1 + length (length_bytes (int (length bs)))) \<le> length mem"
    using assms(2) length_bytes_len [of "int (length bs)"] by auto
  then show ?thesis
    using assms(1)
    by (simp add: object_bytes_def put_contents_def asn_build_header_def asn_build_length_def wr_def Let_def)
qed

lemma be_step_bit: "bit (be_step v b) k \<longleftrightarrow> k < 32 \<and> (if k < 8 then bit b k else bit v (k - 8))"
  by (auto simp: be_step_def bit_simps dest: bit_imp_le_length)

lemma be_step_arith: "be_step v b = v * 256 + ucast b"
proof -
  have "push_bit 8 v AND (ucast b :: u32) = 0"
    by (rule bit_eqI) (auto simp: bit_simps dest: bit_imp_le_length)
  then have "be_step v b = push_bit 8 v + ucast b" by (simp add: be_step_def disjunctive_add_eq_or)
  then show ?thesis by (simp add: push_bit_eq_mult)
qed

lemma ucast_byte: "ucast (word_of_int k :: u8) = (word_of_int (k mod 256) :: u32)"
proof -
  have "k mod 256 = take_bit 8 k" by (simp add: take_bit_eq_mod)
  then show ?thesis by (auto simp: bit_simps intro!: bit_eqI)
qed

lemma bit7_iff: "bit b 7 \<longleftrightarrow> 0x80 \<le> unat b" for b :: u8
proof -
  have "bit b 7 \<longleftrightarrow> bit (unat b) 7" by (simp add: bit_unsigned_iff)
  also have "\<dots> \<longleftrightarrow> odd (unat b div 2 ^ 7)" by (rule bit_iff_odd)
  finally have "bit b 7 \<longleftrightarrow> odd (unat b div 128)" by simp
  moreover have "unat b < 2 ^ LENGTH(8)" by (rule unsigned_less)
  then have "unat b div 128 < 2" by simp
  moreover have "unat b div 128 = 0 \<longleftrightarrow> unat b < 0x80" by (simp add: div_eq_0_iff)
  ultimately show ?thesis by (metis One_nat_def even_zero less_2_cases linorder_not_le odd_one)
qed

lemma and_80_iff: "b AND 0x80 = 0 \<longleftrightarrow> \<not> bit b 7" for b :: u8
proof -
  have p: "(0x80 :: u8) = push_bit 7 1" by simp
  have "bit (b AND 0x80) n \<longleftrightarrow> n = 7 \<and> bit b 7" for n
    unfolding p bit_and_iff bit_push_bit_iff bit_1_iff by auto
  then show ?thesis by (metis bit_0_eq bit_eqI bot_apply bot_bool_def)
qed

lemma parse_length_bytes:
  assumes "holds mem p (length_bytes n)" "0 \<le> n" "n \<le> 0xFFFF"
  shows "asn_parse_length mem p = Inr (word_of_int n, p + length (length_bytes n))"
proof -
  consider "n < 0x80" | "0x80 \<le> n" "n \<le> 0xFF" | "0xFF < n" by linarith
  then show ?thesis
  proof cases
    case 1
    then have r: "rd mem p = Inr (word_of_int n)" using assms(1) by (simp add: length_bytes_def holds_Cons)
    have m: "n mod 256 = n" using 1 assms(2) by simp
    then have "unat (word_of_int n :: u8) < 0x80" using 1 assms(2) by (simp add: unat_eq_nat_uint uint_word_of_int)
    then have "(word_of_int n :: u8) AND 0x80 = 0" unfolding and_80_iff bit7_iff by simp
    then show ?thesis using r 1 m by (simp add: asn_parse_length_def asn_consts length_bytes_def ucast_byte)
  next
    case 2
    then have h: "rd mem p = Inr 0x81" "rd_n mem (p + 1) 1 = Inr [word_of_int n]"
      using assms(1) holds_rd_n [of mem "Suc p" "[word_of_int n]"]
      by (simp_all add: length_bytes_def asn_consts holds_Cons)
    then show ?thesis using 2
      by (simp add: asn_parse_length_def asn_consts length_bytes_def be_step_arith ucast_byte)
  next
    case 3
    let ?h = "word_of_int (n div 256) :: u8" and ?l = "word_of_int n :: u8"
    have h: "rd mem p = Inr 0x82" "rd_n mem (p + 1) 2 = Inr [?h, ?l]"
      using 3 assms(1) holds_rd_n [of mem "Suc p" "[?h, ?l]"]
      by (simp_all add: length_bytes_def asn_consts holds_Cons numeral_2_eq_2)
    have "n div 256 mod 256 = n div 256" using assms(2,3) by simp
    then have "be_step (be_step 0 ?h) ?l = word_of_int (n div 256) * 256 + word_of_int (n mod 256)"
      by (simp add: be_step_arith ucast_byte)
    also have "\<dots> = word_of_int (n div 256 * 256 + n mod 256)"
      by (simp only: of_int_add of_int_mult of_int_numeral)
    finally have "be_step (be_step 0 ?h) ?l = word_of_int n" by (simp only: div_mult_mod_eq)
    then show ?thesis using h 3 by (simp add: asn_parse_length_def asn_consts length_bytes_def)
  qed
qed


section \<open>Integers\<close>

lemma int_bytes_length [simp]: "length (int_bytes n i) = n"
  by (induction n arbitrary: i) simp_all

lemma top_byte_bit: "bit (ucast (drop_bit 24 (i AND 0xFF000000)) :: u8) k \<longleftrightarrow> k < 8 \<and> bit i (24 + k)" for i :: u32
proof -
  have m: "(0xFF000000 :: u32) = NOT (mask 24)" by (simp add: mask_eq_exp_minus_1)
  show ?thesis unfolding m by (auto simp: bit_simps)
qed

lemma foldl_be_bits:
  "n \<le> 4 \<Longrightarrow> k < 32 \<Longrightarrow>
   bit (foldl be_step f (int_bytes n i)) k = (if k < 8 * n then bit i (32 - 8 * n + k) else bit f (k - 8 * n))"
proof (induction n arbitrary: f i)
  case (Suc n)
  define b :: u8 where "b = ucast (drop_bit 24 (i AND 0xFF000000))"
  have tb: "bit b j \<longleftrightarrow> j < 8 \<and> bit i (24 + j)" for j unfolding b_def by (rule top_byte_bit)
  have "int_bytes (Suc n) i = b # int_bytes n (push_bit 8 i)" by (simp only: int_bytes.simps b_def)
  then have "bit (foldl be_step f (int_bytes (Suc n) i)) k =
      (if k < 8 * n then bit (push_bit 8 i) (32 - 8 * n + k) else bit (be_step f b) (k - 8 * n))"
    using Suc.IH [of "be_step f b" "push_bit 8 i"] Suc.prems by simp
  also have "\<dots> = (if k < 8 * Suc n then bit i (32 - 8 * Suc n + k) else bit f (k - 8 * Suc n))"
  proof -
    consider "k < 8 * n" | "8 * n \<le> k" "k < 8 * Suc n" | "8 * Suc n \<le> k" by linarith
    then show ?thesis
    proof cases
      case 1
      have "32 - 8 * n + k - 8 = 32 - 8 * Suc n + k" "8 \<le> 32 - 8 * n + k" "32 - 8 * n + k < 32"
        using 1 Suc.prems by (linarith | simp)+
      then show ?thesis using 1 by (simp only: bit_push_bit_iff) (simp add: possible_bit_word)
    next
      case 2
      have "24 + (k - 8 * n) = 32 - 8 * Suc n + k" "k - 8 * n < 8" using 2 Suc.prems by (linarith | simp)+
      then show ?thesis using 2 Suc.prems by (simp add: be_step_bit tb)
    next
      case 3
      have "k - 8 * n - 8 = k - 8 * Suc n" "\<not> k - 8 * n < 8" "k - 8 * n < 32" using 3 Suc.prems by (linarith | simp)+
      then show ?thesis using 3 Suc.prems by (simp add: be_step_bit)
    qed
  qed
  finally show ?case .
qed simp

lemma top9_bits:
  fixes i :: u32
  shows "(i AND 0xFF800000 = 0 \<or> i AND 0xFF800000 = 0xFF800000) \<longleftrightarrow> (\<forall>k. 23 \<le> k \<and> k < 32 \<longrightarrow> bit i k = bit i 31)"
proof -
  have m: "(0xFF800000 :: u32) = NOT (mask 23)" by (simp add: mask_eq_exp_minus_1)
  have b: "bit (i AND 0xFF800000) k \<longleftrightarrow> 23 \<le> k \<and> k < 32 \<and> bit i k" "bit (0xFF800000 :: u32) k \<longleftrightarrow> 23 \<le> k \<and> k < 32" for k
    unfolding m by (auto simp: bit_simps)
  have "i AND 0xFF800000 = 0 \<longleftrightarrow> (\<forall>k. 23 \<le> k \<and> k < 32 \<longrightarrow> \<not> bit i k)"
    unfolding bit_eq_iff b bit_0_eq by auto
  moreover have "i AND 0xFF800000 = 0xFF800000 \<longleftrightarrow> (\<forall>k. 23 \<le> k \<and> k < 32 \<longrightarrow> bit i k)"
    unfolding bit_eq_iff b by auto
  moreover have "23 \<le> (31 :: nat) \<and> 31 < (32 :: nat)" by simp
  ultimately show ?thesis by (cases "bit i 31") blast+
qed


lemma trunc_int_spec:
  assumes "trunc_int m i = (n, j)" "1 \<le> m" "m \<le> 4"
  shows "1 \<le> n" "n \<le> m" "j = push_bit (8 * (m - n)) i"
    "\<And>k. 31 - 8 * (m - n) \<le> k \<Longrightarrow> k < 32 \<Longrightarrow> bit i k = bit i 31"
    "n = 1 \<or> \<not> (\<forall>k. 23 \<le> k \<and> k < 32 \<longrightarrow> bit j k = bit j 31)"
proof -
  have "1 \<le> n \<and> n \<le> m \<and> j = push_bit (8 * (m - n)) i \<and>
    (\<forall>k. 31 - 8 * (m - n) \<le> k \<and> k < 32 \<longrightarrow> bit i k = bit i 31) \<and>
    (n = 1 \<or> \<not> (\<forall>k. 23 \<le> k \<and> k < 32 \<longrightarrow> bit j k = bit j 31))"
    using assms
  proof (induction m i rule: trunc_int.induct)
    case (1 m i)
    show ?case
    proof (cases "(\<forall>k. 23 \<le> k \<and> k < 32 \<longrightarrow> bit i k = bit i 31) \<and> m > 1")
      case True
      then have c: "(i AND 0xFF800000 = 0 \<or> i AND 0xFF800000 = 0xFF800000) \<and> m > 1"
        by (simp only: top9_bits) blast
      have "trunc_int m i = trunc_int (m - 1) (push_bit 8 i)" by (subst trunc_int.simps) (rule if_P [OF c])
      then have t: "trunc_int (m - 1) (push_bit 8 i) = (n, j)" using "1.prems"(1) by simp
      have m1: "1 \<le> m - 1" "m - 1 \<le> 4" using True "1.prems"(3) by auto
      have ih: "1 \<le> n" "n \<le> m - 1" "j = push_bit (8 * (m - 1 - n)) (push_bit 8 i)"
        "\<And>k. 31 - 8 * (m - 1 - n) \<le> k \<Longrightarrow> k < 32 \<Longrightarrow> bit (push_bit 8 i) k = bit (push_bit 8 i) 31"
        "n = 1 \<or> \<not> (\<forall>k. 23 \<le> k \<and> k < 32 \<longrightarrow> bit j k = bit j 31)"
        using "1.IH" [OF c t m1] by blast+
      have e: "8 * (m - 1 - n) + 8 = 8 * (m - n)" using ih(2) True by auto
      have "bit i k = bit i 31" if k: "31 - 8 * (m - n) \<le> k" "k < 32" for k
      proof (cases "23 \<le> k")
        case False
        have "bit (push_bit 8 i) (k + 8) = bit (push_bit 8 i) 31"
          using k False e by (intro ih(4)) linarith+
        then have "bit i k = bit i 23" using False by (simp add: bit_push_bit_iff possible_bit_word)
        moreover have "23 \<le> (23 :: nat) \<and> 23 < (32 :: nat)" by simp
        ultimately show ?thesis using conjunct1 [OF True] by blast
      qed (use True k in blast)
      moreover have "j = push_bit (8 * (m - n)) i" using ih(3) e by (simp add: add.commute)
      moreover have "n \<le> m" using ih(2) by simp
      ultimately show ?thesis using ih(1,5) by blast
    next
      case False
      then have "trunc_int m i = (m, i)" by (subst trunc_int.simps) (simp only: top9_bits simp_thms if_False)
      then have nj: "n = m" "j = i" using "1.prems"(1) by auto
      have "bit i k = bit i 31" if "31 \<le> k" "k < 32" for k
      proof -
        have "k = 31" using that by linarith
        then show ?thesis by (rule arg_cong)
      qed
      then have top: "\<forall>k. 31 - 8 * (m - n) \<le> k \<and> k < 32 \<longrightarrow> bit i k = bit i 31"
        unfolding nj diff_self_eq_0 mult_0_right diff_zero by blast
      have "m = 1 \<or> 1 < m" using "1.prems"(2) by linarith
      then have "n = 1 \<or> \<not> (\<forall>k. 23 \<le> k \<and> k < 32 \<longrightarrow> bit j k = bit j 31)"
        using False unfolding nj by blast
      with top show ?thesis using "1.prems"(2) unfolding nj diff_self_eq_0 mult_0_right push_bit_0_id id_apply
        by blast
    qed
  qed
  then show "1 \<le> n" "n \<le> m" "j = push_bit (8 * (m - n)) i"
    "\<And>k. 31 - 8 * (m - n) \<le> k \<Longrightarrow> k < 32 \<Longrightarrow> bit i k = bit i 31"
    "n = 1 \<or> \<not> (\<forall>k. 23 \<le> k \<and> k < 32 \<longrightarrow> bit j k = bit j 31)"
    by blast+
qed

definition int_contents :: "u32 \<Rightarrow> u8 list" where
  "int_contents v = (case trunc_int 4 v of (n, i) \<Rightarrow> int_bytes n i)"

lemma int_contents_len: "1 \<le> length (int_contents v)" "length (int_contents v) \<le> 4"
  using trunc_int_spec [of 4 v] by (auto simp: int_contents_def split: prod.split)

text \<open>Reading the contents back, with the fill the parser chooses from the first byte.\<close>

lemma int_contents_bits:
  obtains n j where "trunc_int 4 v = (n, j)" "1 \<le> n" "n \<le> 4" "j = push_bit (8 * (4 - n)) v"
    "int_contents v = int_bytes n j" "\<forall>k. 8 * n - 1 \<le> k \<and> k < 32 \<longrightarrow> bit v k = bit v 31"
proof -
  obtain n j where t: "trunc_int 4 v = (n, j)" by (metis surj_pair)
  have m: "1 \<le> (4 :: nat)" "(4 :: nat) \<le> 4" by simp_all
  note sp = trunc_int_spec [OF t m]
  have "31 - 8 * (4 - n) \<le> 8 * n - 1" using sp(1,2) by linarith
  then have top: "bit v k = bit v 31" if "8 * n - 1 \<le> k" "k < 32" for k
    by (rule sp(4) [OF order_trans [OF _ that(1)] that(2)])
  have "int_contents v = int_bytes n j" by (simp add: int_contents_def t)
  then show ?thesis by (rule that [OF t sp(1-3)]) (use top in blast)
qed

lemma int_contents_sign: "hd (int_contents v) AND 0x80 \<noteq> 0 \<longleftrightarrow> bit v 31"
proof -
  obtain n j where n: "1 \<le> n" "n \<le> 4" "j = push_bit (8 * (4 - n)) v" "int_contents v = int_bytes n j"
    and all: "\<forall>k. 8 * n - 1 \<le> k \<and> k < 32 \<longrightarrow> bit v k = bit v 31" by (rule int_contents_bits [of v])
  have top: "bit v k = bit v 31" if "8 * n - 1 \<le> k" "k < 32" for k using all that by blast
  define b :: u8 where "b = ucast (drop_bit 24 (j AND 0xFF000000))"
  have "int_contents v = b # int_bytes (n - 1) (push_bit 8 j)"
    unfolding b_def n(4) using n(1) by (cases n) simp_all
  then have hd: "hd (int_contents v) = b" by simp
  have e: "8 * (4 - n) \<le> 31" "31 - 8 * (4 - n) = 8 * n - 1" using n by linarith+
  have "bit b 7 = bit j 31" unfolding b_def by (simp only: top_byte_bit) simp
  also have "\<dots> = bit v (31 - 8 * (4 - n))" using n e(1) by (simp add: bit_push_bit_iff possible_bit_word)
  also have "\<dots> = bit v 31" unfolding e(2) using n(1,2) by (intro top) auto
  finally show ?thesis unfolding hd by (simp add: and_80_iff)
qed

lemma int_contents_parse:
  "foldl be_step (if hd (int_contents v) AND 0x80 \<noteq> 0 then - 1 else 0) (int_contents v) = v"
proof -
  obtain n j where t: "trunc_int 4 v = (n, j)" and n: "1 \<le> n" "n \<le> 4" "j = push_bit (8 * (4 - n)) v"
    and all: "\<forall>k. 8 * n - 1 \<le> k \<and> k < 32 \<longrightarrow> bit v k = bit v 31" by (rule int_contents_bits [of v])
  have top: "bit v k = bit v 31" if "8 * n - 1 \<le> k" "k < 32" for k using all that by blast
  show ?thesis
  proof (rule bit_eqI)
    fix k assume "possible_bit TYPE(u32) k"
    then have k: "k < 32" by (simp add: possible_bit_word)
    have "bit (foldl be_step f (int_contents v)) k = (if k < 8 * n then bit v k else bit f (k - 8 * n))" for f
    proof -
      have "8 * (4 - n) \<le> 32 - 8 * n + k" "k < 8 * n \<Longrightarrow> 32 - 8 * n + k < 32" "32 - 8 * n + k - 8 * (4 - n) = k"
        using n by auto
      then show ?thesis using foldl_be_bits [OF n(2) k, of f j] t n(3)
        by (simp add: int_contents_def bit_push_bit_iff possible_bit_word)
    qed
    then show "bit (foldl be_step (if hd (int_contents v) AND 0x80 \<noteq> 0 then - 1 else 0) (int_contents v)) k = bit v k"
      using top [of k] k int_contents_sign [of v] less_imp_diff_less [OF k, of "8 * n"] by (simp add: possible_bit_word)
  qed
qed


lemma parse_int_loop_holds:
  "holds mem p bs \<Longrightarrow> parse_int_loop mem p (length bs) v = Inr (foldl be_step v bs, p + length bs)"
  by (induction bs arbitrary: p v) (simp_all add: holds_Cons)

lemma s32_small: "- (2 ^ 31) \<le> i \<Longrightarrow> i < 2 ^ 31 \<Longrightarrow> s32 i = i"
  by (simp add: s32_def signed_of_int signed_take_bit_int_eq_self)

lemma sint_small_nat: "n < 2 ^ 31 \<Longrightarrow> sint (of_nat n :: u32) = int n"
  by (simp add: signed_of_nat signed_take_bit_int_eq_self)

lemma unat_small_nat: "n < 2 ^ 31 \<Longrightarrow> unat (of_nat n :: u32) = n"
  by (simp add: unat_of_nat)

lemma parse_object_length:
  assumes "holds mem data (object_bytes type bs)" "length bs \<le> 0xFFFF"
  shows "rd mem data = Inr type"
    "asn_parse_length mem (data + 1) = Inr (of_nat (length bs), data + 1 + length (length_bytes (int (length bs))))"
    "holds mem (data + 1 + length (length_bytes (int (length bs)))) bs"
  using assms parse_length_bytes [of mem "Suc data" "int (length bs)"]
  by (simp_all add: object_bytes_def holds_Cons holds_append)

lemma asn_parse_int_object:
  assumes h: "holds mem data (object_bytes type (int_contents v))"
    and dl: "int (length (object_bytes type (int_contents v))) \<le> datalength" "datalength < 2 ^ 31"
  shows "asn_parse_int mem data datalength 4 =
    Inr (type, v, data + length (object_bytes type (int_contents v)),
         datalength - int (length (object_bytes type (int_contents v))))"
proof -
  let ?bs = "int_contents v"
  let ?h = "1 + length (length_bytes (int (length ?bs)))"
  have l: "1 \<le> length ?bs" "length ?bs \<le> 4" by (rule int_contents_len)+
  then have lb: "length (length_bytes (int (length ?bs))) = 1" by (simp add: length_bytes_def)
  note p = parse_object_length [OF h, unfolded lb]
  have c: "holds mem (data + 2) ?bs" using p(3) l by simp
  then have r: "rd mem (data + 2) = Inr (hd ?bs)" using l(1) by (cases ?bs) (simp_all add: holds_Cons)
  have ob: "length (object_bytes type ?bs) = 2 + length ?bs" by (simp add: object_bytes_def lb)
  have len: "sint (of_nat (length ?bs) + of_nat 2 :: u32) = int (length ?bs) + 2"
    using sint_small_nat [of "length ?bs + 2"] l(2) by (simp add: add.commute)
  have sl: "sint (of_nat (length ?bs) :: u32) = int (length ?bs)" "unat (of_nat (length ?bs) :: u32) = length ?bs"
    using l(2) by (simp_all add: sint_small_nat unat_small_nat)
  have lp: "parse_int_loop mem (data + 2) (length ?bs) (if hd ?bs AND 0x80 \<noteq> 0 then - 1 else 0) =
      Inr (v, data + 2 + length ?bs)"
    using parse_int_loop_holds [OF c] int_contents_parse [of v] by simp
  have "s32 (datalength - (int (length ?bs) + 2)) = datalength - (int (length ?bs) + 2)"
    using dl ob by (intro s32_small) simp_all
  then show ?thesis
    using p(1,2) l r lp len sl dl ob by (simp add: asn_parse_int_def sizeof_long_def)
qed


lemma asn_build_int_object:
  assumes "data + length (object_bytes type (int_contents v)) \<le> length mem"
    and "int (length (object_bytes type (int_contents v))) \<le> datalength"
  shows "asn_build_int mem data datalength type v 4 =
    Inr (overwrite mem data (object_bytes type (int_contents v)), data + length (object_bytes type (int_contents v)),
         datalength - int (length (object_bytes type (int_contents v))))"
proof -
  obtain n j where t: "trunc_int 4 v = (n, j)" by (metis surj_pair)
  then have "int_bytes n j = int_contents v" "int n = int (length (int_contents v))" by (simp_all add: int_contents_def)
  then show ?thesis
    using build_object_fits [OF assms] t by (simp add: asn_build_int_def sizeof_long_def)
qed

lemma int_object_len: "length (object_bytes type (int_contents v)) = 2 + length (int_contents v)"
  using int_contents_len [of v] by (simp add: object_bytes_def length_bytes_def)

text \<open>How many bytes an integer needs.\<close>

lemma fits_bits:
  fixes v :: u32
  assumes "- (2 ^ m) \<le> sint v" "sint v < 2 ^ m" "m \<le> k" "k < 32"
  shows "bit v k = bit v m"
proof -
  have "signed_take_bit m (sint v) = sint v" using assms(1,2) by (simp add: signed_take_bit_int_eq_self)
  then have "bit (sint v) k = bit (sint v) m"
    using assms(3) bit_signed_take_bit_iff [of m "sint v" k] by (simp add: min_def)
  moreover have "min 31 k = k" "min 31 m = m" using assms(3,4) by auto
  ultimately show ?thesis by (simp add: bit_signed_iff)
qed

lemma int_contents_minimal:
  assumes "1 \<le> k" "k < length (int_contents v)"
  shows "\<not> (- (2 ^ (8 * k - 1)) \<le> sint v \<and> sint v < 2 ^ (8 * k - 1))"
proof
  assume fit: "- (2 ^ (8 * k - 1)) \<le> sint v \<and> sint v < 2 ^ (8 * k - 1)"
  obtain n j where t: "trunc_int 4 v = (n, j)" by (metis surj_pair)
  have "1 \<le> (4 :: nat)" "(4 :: nat) \<le> 4" by simp_all
  note sp = trunc_int_spec [OF t this]
  have n: "k < n" "n \<le> 4" "j = push_bit (8 * (4 - n)) v" using assms sp(2,3) t by (auto simp: int_contents_def)
  have e: "bit v l = bit v (8 * k - 1)" if "8 * k - 1 \<le> l" "l < 32" for l
    using fits_bits [of "8 * k - 1" v l] fit that by blast
  have top: "bit j l = bit v (8 * k - 1)" if l: "23 \<le> l" "l < 32" for l
  proof -
    have "8 * (4 - n) \<le> l" "8 * k - 1 \<le> l - 8 * (4 - n)" "l - 8 * (4 - n) < 32" using n assms(1) l by linarith+
    then show ?thesis using e [of "l - 8 * (4 - n)"] l n(3) by (simp add: bit_push_bit_iff possible_bit_word)
  qed
  have "bit j 31 = bit v (8 * k - 1)" by (rule top) simp_all
  then have "\<forall>l. 23 \<le> l \<and> l < 32 \<longrightarrow> bit j l = bit j 31" using top by blast
  moreover have "n \<noteq> 1" using n(1) assms(1) by simp
  ultimately show False using sp(5) by blast
qed

text \<open>The bits above the sign of a shorter number all equal it, so it is the number itself.\<close>

lemma bits_fit:
  fixes v :: u32
  assumes "\<And>k. m \<le> k \<Longrightarrow> k < 32 \<Longrightarrow> bit v k = bit v 31" "m \<le> 31"
  shows "- (2 ^ m) \<le> sint v \<and> sint v < 2 ^ m"
proof -
  have "bit (signed_take_bit m (sint v)) k = bit (sint v) k" for k
  proof (cases "k \<le> m")
    case False
    have "bit v (min 31 k) = bit v m" using assms(1) [of m] assms(1) [of "min 31 k"] assms(2) False by simp
    then show ?thesis using False assms(2) by (simp add: bit_signed_take_bit_iff bit_signed_iff min_def)
  next
    case True
    then have "min k m = k" by simp
    then show ?thesis by (simp add: bit_signed_take_bit_iff min.commute)
  qed
  then have "signed_take_bit m (sint v) = sint v" by (intro bit_eqI) blast
  then show ?thesis by (metis signed_take_bit_int_greater_eq_minus_exp signed_take_bit_int_less_exp)
qed

lemma int_contents_fits:
  assumes "1 \<le> k"
  shows "- (2 ^ (8 * k - 1)) \<le> sint v \<and> sint v < 2 ^ (8 * k - 1) \<longleftrightarrow> length (int_contents v) \<le> k"
proof (cases "length (int_contents v) \<le> k")
  case False
  then show ?thesis using int_contents_minimal [OF assms, of v] by auto
next
  case True
  obtain n j where n: "1 \<le> n" "n \<le> 4" "int_contents v = int_bytes n j"
    and all: "\<forall>k. 8 * n - 1 \<le> k \<and> k < 32 \<longrightarrow> bit v k = bit v 31" by (rule int_contents_bits [of v])
  have fit: "- (2 ^ (8 * n - 1)) \<le> sint v \<and> sint v < 2 ^ (8 * n - 1)"
  proof (rule bits_fit)
    show "8 * n - 1 \<le> 31" using n(2) by linarith
  qed (use all in blast)
  have "n \<le> k" using True n(3) by simp
  then have "(2 :: int) ^ (8 * n - 1) \<le> 2 ^ (8 * k - 1)" by (intro power_increasing) auto
  then have "- (2 ^ (8 * k - 1)) \<le> sint v" "sint v < 2 ^ (8 * k - 1)" using fit by linarith+
  with True show ?thesis by blast
qed

section \<open>Unsigned integers\<close>

definition be_value :: "u8 list \<Rightarrow> nat" where
  "be_value bs = foldl (\<lambda>a b. a * 256 + unat b) 0 bs"

lemma foldl_be_word: "foldl be_step (of_nat a) bs = of_nat (foldl (\<lambda>a b. a * 256 + unat b) a bs)"
proof (induction bs arbitrary: a)
  case (Cons b bs)
  have "be_step (of_nat a) b = of_nat (a * 256 + unat b)" by (simp add: be_step_arith)
  then show ?case using Cons [of "a * 256 + unat b"] by (simp only: foldl_Cons)
qed simp

lemma foldl_be_bound: "foldl (\<lambda>a b. a * 256 + unat (b :: u8)) a bs < (a + 1) * 256 ^ length bs"
proof (induction bs arbitrary: a)
  case (Cons b bs)
  have "unat b < 2 ^ LENGTH(8)" by (rule unsigned_less)
  then have "a * 256 + unat b + 1 \<le> (a + 1) * 256" by simp
  then have "(a * 256 + unat b + 1) * 256 ^ length bs \<le> (a + 1) * 256 * 256 ^ length bs" by (rule mult_le_mono1)
  also have "(a + 1) * 256 * 256 ^ length bs = (a + 1) * 256 ^ length (b # bs)" by (simp only: length_Cons power_Suc mult.assoc)
  finally show ?case using Cons [of "a * 256 + unat b"] by (simp only: foldl_Cons)
qed simp

lemma be_value_bound: "be_value bs < 256 ^ length bs"
  using foldl_be_bound [of 0 bs] by (simp add: be_value_def)

lemma be_value_word:
  assumes "foldl be_step 0 bs = v" "length bs \<le> 4"
  shows "be_value bs = unat v"
proof -
  have "(256 :: nat) ^ length bs \<le> 256 ^ 4" using assms(2) by (rule power_increasing) simp
  then have "be_value bs < 2 ^ 32" using be_value_bound [of bs] by simp
  moreover have "v = of_nat (be_value bs)" using foldl_be_word [of 0 bs] assms(1) by (simp add: be_value_def)
  ultimately show ?thesis by (simp add: unat_of_nat)
qed

lemma be_value_0: "be_value (0 # bs) = be_value bs"
  by (simp add: be_value_def)


lemma int_bytes_full: "foldl be_step 0 (int_bytes 4 v) = v"
proof (rule bit_eqI)
  fix k assume "possible_bit TYPE(u32) k"
  then have "k < 32" by (simp add: possible_bit_word)
  then show "bit (foldl be_step 0 (int_bytes 4 v)) k = bit v k" using foldl_be_bits [of 4 k 0 v] by simp
qed

lemma bit31_iff: "bit v 31 \<longleftrightarrow> 0x80000000 \<le> unat v" for v :: u32
proof -
  have "bit v 31 \<longleftrightarrow> bit (unat v) 31" by (simp add: bit_unsigned_iff)
  also have "\<dots> \<longleftrightarrow> odd (unat v div 2 ^ 31)" by (rule bit_iff_odd)
  finally have "bit v 31 \<longleftrightarrow> odd (unat v div 0x80000000)" by simp
  moreover have "unat v < 2 ^ LENGTH(32)" by (rule unsigned_less)
  then have "unat v div 0x80000000 < 2" by simp
  moreover have "unat v div 0x80000000 = 0 \<longleftrightarrow> unat v < 0x80000000" by (simp add: div_eq_0_iff)
  ultimately show ?thesis by (metis One_nat_def even_zero less_2_cases linorder_not_le odd_one)
qed

lemma unat_top9: "unat (v AND 0xFF800000) = unat v div 2 ^ 23 * 2 ^ 23" for v :: u32
proof -
  have m: "(0xFF800000 :: u32) = NOT (mask 23)" by (simp add: mask_eq_exp_minus_1)
  have "v AND 0xFF800000 = push_bit 23 (drop_bit 23 v)"
    unfolding m by (rule bit_eqI) (auto simp: bit_simps)
  moreover have "unat (drop_bit 23 v) = unat v div 2 ^ 23" by (simp add: drop_bit_eq_div unat_div)
  moreover have "unat v < 2 ^ LENGTH(32)" by (rule unsigned_less)
  then have "unat v < 2 ^ 32" by simp
  with div_times_less_eq_dividend have "unat v div 2 ^ 23 * 2 ^ 23 < 2 ^ 32" by (rule le_less_trans)
  ultimately show ?thesis by (simp add: push_bit_eq_mult unat_word_ariths)
qed

lemma top9_ones:
  fixes v :: u32
  assumes "bit v 31"
  shows "(\<forall>k. 23 \<le> k \<and> k < 32 \<longrightarrow> bit v k = bit v 31) \<longleftrightarrow> 0xFF800000 \<le> v"
proof -
  have "v AND 0xFF800000 \<noteq> 0"
  proof
    assume "v AND 0xFF800000 = 0"
    then have "bit (v AND 0xFF800000) 31 = bit (0 :: u32) 31" by simp
    then show False using assms by (simp add: bit_simps)
  qed
  have "(\<forall>k. 23 \<le> k \<and> k < 32 \<longrightarrow> bit v k = bit v 31) \<longleftrightarrow> v AND 0xFF800000 = 0xFF800000"
    using top9_bits [of v] \<open>v AND 0xFF800000 \<noteq> 0\<close> by blast
  also have "\<dots> \<longleftrightarrow> unat v div 2 ^ 23 * 2 ^ 23 = 0xFF800000"
    unfolding unat_top9 [symmetric] by (simp add: word_unat_eq_iff)
  also have "\<dots> \<longleftrightarrow> 0xFF800000 \<le> unat v"
  proof -
    have "unat v < 2 ^ LENGTH(32)" by (rule unsigned_less)
    then have "unat v div 2 ^ 23 < 512" by simp
    then have "unat v div 2 ^ 23 * 2 ^ 23 = 0xFF800000 \<longleftrightarrow> 511 \<le> unat v div 2 ^ 23" by auto
    also have "\<dots> \<longleftrightarrow> 511 * 2 ^ 23 \<le> unat v" by (rule less_eq_div_iff_mult_less_eq) simp
    finally show ?thesis by simp
  qed
  finally show ?thesis by (simp add: word_le_nat_alt)
qed

lemma unsigned_contents_value: "be_value (unsigned_contents v) = unat v \<longleftrightarrow> v < 0xFF800000"
proof (cases "bit v 31")
  case False
  have "(ucast (drop_bit 24 (v AND 0xFF000000)) :: u8) AND 0x80 = 0"
    unfolding and_80_iff top_byte_bit using False by simp
  then have u: "unsigned_contents v = int_contents v" unfolding unsigned_contents_def int_contents_def by simp
  have "foldl be_step 0 (int_contents v) = v" using int_contents_parse [of v] int_contents_sign [of v] False by simp
  then have "be_value (unsigned_contents v) = unat v"
    unfolding u by (rule be_value_word) (rule int_contents_len)
  moreover have "v < 0xFF800000" using False bit31_iff [of v] by (simp add: word_less_nat_alt)
  ultimately show ?thesis by simp
next
  case True
  have "(ucast (drop_bit 24 (v AND 0xFF000000)) :: u8) AND 0x80 \<noteq> 0"
    unfolding and_80_iff top_byte_bit using True by simp
  then have u: "unsigned_contents v = (case trunc_int 5 v of (n, i) \<Rightarrow> 0 # int_bytes (n - 1) i)"
    unfolding unsigned_contents_def by simp
  have c: "(v AND 0xFF800000 = 0 \<or> v AND 0xFF800000 = 0xFF800000) \<longleftrightarrow> 0xFF800000 \<le> v"
    unfolding top9_bits top9_ones [OF True] by (rule refl)
  show ?thesis
  proof (cases "0xFF800000 \<le> v")
    case big: True
    with c have "trunc_int 5 v = trunc_int 4 (push_bit 8 v)"
      by (subst trunc_int.simps) simp
    moreover obtain n j where t: "trunc_int 4 (push_bit 8 v) = (n, j)" by (metis surj_pair)
    ultimately have "unsigned_contents v = 0 # int_bytes (n - 1) j" using u by simp
    moreover have "n - 1 \<le> 3" using trunc_int_spec(2) [OF t] by simp
    then have "(256 :: nat) ^ (n - 1) \<le> 256 ^ 3" by (rule power_increasing) simp
    ultimately have "be_value (unsigned_contents v) < 256 ^ 3"
      using be_value_bound [of "int_bytes (n - 1) j"] by (simp add: be_value_0)
    moreover have "0xFF800000 \<le> unat v" using big by (simp add: word_le_nat_alt)
    ultimately show ?thesis using big by auto
  next
    case small: False
    then have "trunc_int 5 v = (5, v)" using c by (subst trunc_int.simps) (simp only: simp_thms if_False)
    then have "unsigned_contents v = 0 # int_bytes 4 v" using u by simp
    then have "be_value (unsigned_contents v) = unat v"
      using be_value_word [OF int_bytes_full [of v]] by (simp add: be_value_0)
    then show ?thesis using small by simp
  qed
qed


lemma trunc_int_le: "fst (trunc_int m i) \<le> m"
proof (induction m i rule: trunc_int.induct)
  case (1 m i)
  then show ?case by (subst trunc_int.simps) (auto intro: le_trans [OF _ diff_le_self])
qed

lemma unsigned_contents_len: "length (unsigned_contents v) \<le> 5"
  using trunc_int_le [of 5 v] trunc_int_le [of 4 v]
  by (auto simp: unsigned_contents_def Let_def split: prod.splits)

section \<open>Strings\<close>

lemma u32_of_nat: "u32_of (int n) = of_nat n"
  by (simp add: u32_of_def)

lemma of_nat_u32_less: "m < 2 ^ 32 \<Longrightarrow> n < 2 ^ 32 \<Longrightarrow> (of_nat m :: u32) < of_nat n \<longleftrightarrow> m < n"
  by (simp add: word_less_nat_alt unat_of_nat)

text \<open>The test every parser makes of the object against the rest of the message.\<close>

lemma length_check:
  assumes "int (h + n) \<le> datalength" "datalength < 2 ^ 31"
  shows "\<not> u32_of datalength < of_nat n + of_nat h" "\<not> u32_of datalength < of_nat h + of_nat n"
    "s32 (datalength - (int n + int h)) = datalength - int (h + n)" "sint (of_nat n :: u32) = int n"
    "unat (of_nat n :: u32) = n"
proof -
  obtain d where d: "datalength = int d" "h + n \<le> d" "d < 2 ^ 31" using assms by (cases datalength) auto
  have l: "\<not> (of_nat d :: u32) < of_nat (h + n)" using d(2,3) by (subst of_nat_u32_less) auto
  then show "\<not> u32_of datalength < of_nat h + of_nat n" unfolding d(1) u32_of_nat by simp
  then show "\<not> u32_of datalength < of_nat n + of_nat h" by (simp add: add.commute)
  show "s32 (datalength - (int n + int h)) = datalength - int (h + n)"
    using d by (subst s32_small) auto
  show "sint (of_nat n :: u32) = int n" "unat (of_nat n :: u32) = n"
    using d by (auto intro: sint_small_nat unat_small_nat)
qed

lemma object_len: "length (object_bytes type bs) = 1 + length (length_bytes (int (length bs))) + length bs"
  by (simp add: object_bytes_def)

lemma asn_parse_string_object:
  assumes h: "holds mem data (object_bytes type bs)" and n: "length bs \<le> 0xFFFF"
    and dl: "int (length (object_bytes type bs)) \<le> datalength" "datalength < 2 ^ 31"
    and sl: "int (length bs) \<le> strlength" "strlength < 2 ^ 31"
  shows "asn_parse_string mem data datalength strlength =
    Inr (type, bs, data + length (object_bytes type bs), datalength - int (length (object_bytes type bs)))"
proof -
  let ?h = "1 + length (length_bytes (int (length bs)))"
  note p = parse_object_length [OF h n]
  have c: "int (?h + length bs) \<le> datalength" using dl(1) by (simp add: object_len)
  note lc = length_check [OF c dl(2)]
  obtain k where k: "strlength = int k" "length bs \<le> k" "k < 2 ^ 31" using sl by (cases strlength) auto
  have "\<not> (of_nat k :: u32) < of_nat (length bs)" using k(2,3) by (subst of_nat_u32_less) auto
  then have st: "\<not> u32_of strlength < of_nat (length bs)" unfolding k(1) u32_of_nat .
  have e: "data + 1 + length (length_bytes (int (length bs))) - data = ?h" by simp
  show ?thesis
    unfolding asn_parse_string_def p(1) bindE_simps p(2) prod.case e
    using lc st holds_rd_n [OF p(3)] by (simp add: object_len)
qed

section \<open>Object identifiers\<close>

text \<open>Groups of seven bits, highest first; all but the last carry the continuation bit.\<close>

fun groups :: "nat \<Rightarrow> u32 \<Rightarrow> u8 list" where
  "groups 0 v = [ucast (v AND 0x7F)]"
| "groups (Suc i) v = (ucast (drop_bit (7 * Suc i) (v AND push_bit (7 * Suc i) 0x7F)) OR ASN_BIT8) # groups i v"

lemma groups_length [simp]: "length (groups i v) = Suc i"
  by (induction i) simp_all

lemma bit_int_consts: "bit (0x7F :: int) k \<longleftrightarrow> k < 7" "bit (0x80 :: int) k \<longleftrightarrow> k = 7"
proof -
  have "(0x7F :: int) = mask 7" "(0x80 :: int) = 2 ^ 7" by (simp_all add: mask_eq_exp_minus_1)
  then show "bit (0x7F :: int) k \<longleftrightarrow> k < 7" "bit (0x80 :: int) k \<longleftrightarrow> k = 7"
    by (simp_all only: bit_mask_iff bit_exp_iff possible_bit_int simp_thms eq_commute [of 7])
qed

lemma group_value:
  fixes v :: u32
  assumes "c = 0 \<or> c = ASN_BIT8"
  shows "(ucast ((ucast (drop_bit (7 * i) (v AND push_bit (7 * i) 0x7F)) OR c) AND NOT ASN_BIT8 :: u8) :: u32) =
     take_bit 7 (drop_bit (7 * i) v)"
  using assms by (intro bit_eqI) (auto simp: bit_simps bit_int_consts asn_consts dest: bit_imp_le_length)


lemma group_bit8:
  "(ucast (x AND 0x7F) :: u8) AND ASN_BIT8 = 0" "(b OR ASN_BIT8) AND ASN_BIT8 \<noteq> 0" for x :: u32
proof -
  show "(ucast (x AND 0x7F) :: u8) AND ASN_BIT8 = 0"
    by (rule bit_eqI) (auto simp: bit_simps bit_int_consts asn_consts)
  have "bit ((b OR ASN_BIT8) AND ASN_BIT8) 7" by (simp add: bit_simps asn_consts)
  then show "(b OR ASN_BIT8) AND ASN_BIT8 \<noteq> 0" by (metis bit_0_eq bot_apply bot_bool_def)
qed

lemma parse_groups: "parse_subid (groups i v @ rest) (drop_bit (7 * Suc i) v) = Some (v, Suc i)"
proof (induction i)
  case 0
  have "push_bit 7 (drop_bit 7 v) + ucast ((ucast (v AND 0x7F) :: u8) AND NOT ASN_BIT8) = v"
    using group_value [of 0 0 v] bits_ident [of 7 v] by simp
  then show ?case using group_bit8(1) [of v] by (simp add: Let_def)
next
  case (Suc i)
  let ?b = "ucast (drop_bit (7 * Suc i) (v AND push_bit (7 * Suc i) 0x7F)) OR ASN_BIT8 :: u8"
  have "push_bit 7 (drop_bit (7 * Suc (Suc i)) v) + ucast (?b AND NOT ASN_BIT8) = drop_bit (7 * Suc i) v"
    using group_value [of ASN_BIT8 "Suc i" v] bits_ident [of 7 "drop_bit (7 * Suc i) v"]
    by (simp only: drop_bit_drop_bit simp_thms) (simp add: add.commute)
  then show ?case
    using Suc.IH group_bit8(2) [of "ucast (drop_bit (7 * Suc i) (v AND push_bit (7 * Suc i) 0x7F))"]
    by (simp only: groups.simps append_Cons parse_subid.simps Let_def simp_thms if_True option.map prod.case)
qed

lemma small_group_cases: "i \<le> 3 \<Longrightarrow> i = 0 \<or> i = 1 \<or> i = 2 \<or> i = 3" for i :: nat
  by linarith

lemma emit_groups: "i \<le> 3 \<Longrightarrow> emit_subid v (push_bit (7 * i) 0x7F) (7 * i) bp = Some (bp @ groups i v)"
proof (induction i arbitrary: bp)
  case 0
  then show ?case by (subst emit_subid.simps) simp
next
  case (Suc i)
  have "push_bit (7 * Suc i) (0x7F :: u32) \<noteq> 0x7F" "drop_bit 7 (push_bit (7 * Suc i) (0x7F :: u32)) = push_bit (7 * i) 0x7F"
    using small_group_cases [OF Suc.prems] by auto
  then show ?case
    using Suc by (subst emit_subid.simps) simp
qed

lemma subid_mask_groups:
  fixes w :: u16
  obtains i where "i \<le> 2" "subid_mask (ucast w) = (push_bit (7 * i) 0x7F, 7 * i)"
    "drop_bit (7 * Suc i) (ucast w :: u32) = 0"
proof -
  define v :: u32 where "v = ucast w"
  have hi: "\<not> bit v k" if "16 \<le> k" for k using that by (auto simp: v_def bit_simps dest: bit_imp_le_length)
  have gb: "bit (v AND push_bit m 0x7F) k \<longleftrightarrow> m \<le> k \<and> k < m + 7 \<and> bit v k" for m k
    by (auto simp: bit_simps bit_int_consts dest: bit_imp_le_length)
  have g: "\<not> bit v k" if "v AND push_bit m 0x7F = 0" "m \<le> k" "k < m + 7" for m k
    using gb [of m k] that by simp
  have g0: "v AND push_bit m 0x7F = 0" if "\<And>k. m \<le> k \<Longrightarrow> k < m + 7 \<Longrightarrow> \<not> bit v k" for m
    by (rule bit_eqI) (use gb that in auto)
  have z: "drop_bit m v = 0" if "\<And>k. m \<le> k \<Longrightarrow> \<not> bit v k" for m
    using that by (intro bit_eqI) (simp add: bit_drop_bit_eq)
  have "v AND push_bit 21 0x7F = 0" "v AND push_bit 28 0x7F = 0" by (intro g0 hi; simp)+
  then have m: "subid_mask v =
      (if v AND push_bit 14 0x7F \<noteq> 0 then (push_bit 14 0x7F, 14)
       else if v AND push_bit 7 0x7F \<noteq> 0 then (push_bit 7 0x7F, 7) else (0x7F, 0))"
    unfolding subid_mask_def by (simp add: Let_def)
  show ?thesis
  proof (cases "v AND push_bit 14 0x7F = 0")
    case False
    then show ?thesis using m hi by (intro that [of 2]) (auto simp: v_def [symmetric] intro!: z)
  next
    case 14: True
    then have b14: "\<not> bit v k" if "14 \<le> k" for k using g [OF 14, of k] hi [of k] that by linarith
    show ?thesis
    proof (cases "v AND push_bit 7 0x7F = 0")
      case False
      then show ?thesis using m 14 b14 by (intro that [of 1]) (auto simp: v_def [symmetric] intro!: z)
    next
      case 7: True
      then have "\<not> bit v k" if "7 \<le> k" for k using g [OF 7, of k] b14 [of k] that by linarith
      then show ?thesis using m 14 7 by (intro that [of 0]) (auto simp: v_def [symmetric] intro!: z)
    qed
  qed
qed


lemma subid_bytes_parse:
  obtains bs where "subid_bytes w = Some bs" "1 \<le> length bs" "length bs \<le> 3"
    "\<And>rest. parse_subid (bs @ rest) 0 = Some (ucast w, length bs)"
proof -
  obtain i where i: "i \<le> 2" "subid_mask (ucast w) = (push_bit (7 * i) 0x7F, 7 * i)"
    "drop_bit (7 * Suc i) (ucast w :: u32) = 0" by (rule subid_mask_groups [of w])
  have "subid_bytes w = Some (groups i (ucast w))"
    using emit_groups [of i "ucast w" "[]"] i(1,2) by (simp add: subid_bytes_def)
  moreover have "parse_subid (groups i (ucast w) @ rest) 0 = Some (ucast w, length (groups i (ucast w)))" for rest
    using parse_groups [of i "ucast w" rest] i(3) by simp
  ultimately show ?thesis using i(1) by (intro that [of "groups i (ucast w)"]) simp_all
qed

lemma subids_roundtrip:
  obtains bs where "subids_bytes ws = Some bs" "length ws \<le> length bs" "length bs \<le> 3 * length ws"
    "\<And>k rest. length ws \<le> k \<Longrightarrow> parse_subids k (int (length bs)) (bs @ rest) = Inr (ws, length bs)"
proof (induction ws arbitrary: thesis)
  case Nil
  have "parse_subids k 0 rest = Inr ([], 0)" for k rest by (cases k) simp_all
  then show ?case by (intro Nil [of "[]"]) simp_all
next
  case (Cons w ws)
  obtain cs where cs: "subids_bytes ws = Some cs" "length ws \<le> length cs" "length cs \<le> 3 * length ws"
    "\<And>k rest. length ws \<le> k \<Longrightarrow> parse_subids k (int (length cs)) (cs @ rest) = Inr (ws, length cs)"
    by (rule Cons.IH) blast
  obtain bs where bs: "subid_bytes w = Some bs" "1 \<le> length bs" "length bs \<le> 3"
    "\<And>rest. parse_subid (bs @ rest) 0 = Some (ucast w, length bs)" by (rule subid_bytes_parse [of w]) blast
  have max: "\<not> MAX_SUBID < ucast w"
  proof -
    have "unat w < 2 ^ LENGTH(16)" by (rule unsigned_less)
    then have "unat (ucast w :: u32) = unat w" by (simp add: unsigned_ucast_eq take_bit_nat_eq_self)
    then show ?thesis using \<open>unat w < 2 ^ LENGTH(16)\<close> by (simp add: MAX_SUBID_def word_less_nat_alt)
  qed
  have "parse_subids k (int (length (bs @ cs))) ((bs @ cs) @ rest) = Inr (w # ws, length (bs @ cs))"
    if k: "length (w # ws) \<le> k" for k rest
  proof -
    obtain k' where k': "k = Suc k'" "length ws \<le> k'" using k by (cases k) auto
    have "ucast (ucast w :: u32) = w" by (rule bit_eqI) (auto simp: bit_simps dest: bit_imp_le_length)
    then show ?thesis using bs(2) bs(4) [of "cs @ rest"] cs(4) [OF k'(2), of rest] max k'(1) by simp
  qed
  then show ?case using bs cs by (intro Cons.prems [of "bs @ cs"]) simp_all
qed

lemma split_merge_first:
  assumes "unat x < 256" "unat y < 40" "unat x * 40 + unat y < 2 ^ 16"
  shows "split_first (y + x * 40) = [x, y]"
proof -
  have u: "unat (y + x * 40) = unat x * 40 + unat y"
    using assms(3) by (simp add: unat_word_ariths)
  have "unat ((y + x * 40) mod 40) = unat y" using u assms(2) by (simp add: unat_mod)
  then have m: "(y + x * 40) mod 40 = y" by (simp add: word_unat_eq_iff)
  have c: "ucast (ucast z :: u8) = z" if "unat z < 256" for z :: u16
    using that by (simp add: word_unat_eq_iff unsigned_ucast_eq take_bit_eq_mod unat_mod)
  have "unat (x * 40) = unat x * 40" using assms(3) by (simp add: unat_word_ariths)
  then have "unat (x * 40 div 40) = unat x" by (simp add: unat_div)
  then have "x * 40 div 40 = x" by (simp add: word_unat_eq_iff)
  then show ?thesis using m c [of y] c [of x] assms(1,2) by (simp add: split_first_def Let_def)
qed


lemma asn_parse_objid_object:
  assumes bs: "\<And>k rest. length ws \<le> k \<Longrightarrow> parse_subids k (int (length bs)) (bs @ rest) = Inr (ws, length bs)"
    and h: "holds mem data (object_bytes type bs)" and n: "length bs \<le> 0xFFFF"
    and dl: "int (length (object_bytes type bs)) \<le> datalength" "datalength < 2 ^ 31"
    and ol: "int (length ws) < objidlength"
  shows "asn_parse_objid mem data datalength stale objidlength =
    Inr (type, (case ws of [] \<Rightarrow> take 1 (split_first stale) | v # vs \<Rightarrow> split_first v @ vs),
         data + length (object_bytes type bs), datalength - int (length (object_bytes type bs)))"
proof -
  let ?h = "1 + length (length_bytes (int (length bs)))"
  note p = parse_object_length [OF h n]
  have c: "int (?h + length bs) \<le> datalength" using dl(1) by (simp add: object_len)
  note lc = length_check [OF c dl(2)]
  let ?b = "data + 1 + length (length_bytes (int (length bs)))"
  have e: "?b - data = ?h" by simp
  have "drop ?b mem = bs @ drop (length bs) (drop ?b mem)"
    using p(3) by (metis append_take_drop_id holds_def)
  moreover have "length ws \<le> nat (objidlength - 1)" using ol by simp
  ultimately have ps: "parse_subids (nat (objidlength - 1)) (int (length bs)) (drop ?b mem) = Inr (ws, length bs)"
    using bs by metis
  show ?thesis
    unfolding asn_parse_objid_def p(1) bindE_simps p(2) prod.case e lc(4) ps
    using lc by (simp add: object_len split: list.split)
qed

section \<open>Properties\<close>

text \<open>C12: Any 32-bit integer that \<open>asn_build_int\<close> writes is read back by \<open>asn_parse_int\<close> with the same
  type and value, and both leave off at the same place with the same number of bytes left. Six
  bytes of room are enough, and nothing outside the object is changed.\<close>

theorem asn_int_roundtrip:
  assumes "data + 6 \<le> length mem" "6 \<le> datalength" "datalength < 2 ^ 31"
  shows "\<exists>mem' p dl'. asn_build_int mem data datalength type v 4 = Inr (mem', p, dl') \<and>
    asn_parse_int mem' data datalength 4 = Inr (type, v, p, dl') \<and>
    data + 3 \<le> p \<and> p \<le> data + 6 \<and> dl' = datalength - int (p - data) \<and>
    take data mem' = take data mem \<and> drop p mem' = drop p mem"
proof -
  let ?ob = "object_bytes type (int_contents v)"
  have l: "3 \<le> length ?ob" "length ?ob \<le> 6" using int_contents_len [of v] by (simp_all add: int_object_len)
  have b: "asn_build_int mem data datalength type v 4 =
      Inr (overwrite mem data ?ob, data + length ?ob, datalength - int (length ?ob))"
    using assms l by (intro asn_build_int_object) simp_all
  have "asn_parse_int (overwrite mem data ?ob) data datalength 4 =
      Inr (type, v, data + length ?ob, datalength - int (length ?ob))"
    using assms l by (intro asn_parse_int_object holds_overwrite) simp_all
  with b l assms(1) show ?thesis by (auto simp: overwrite_def)
qed

theorem asn_int_roundtrip_witness:
  "\<exists>mem' p dl'. asn_build_int [0, 0, 0, 0, 0, 0, 9] 0 7 2 (- 129) 4 = Inr (mem', p, dl') \<and>
    asn_parse_int mem' 0 7 4 = Inr (2, - 129, p, dl')"
  using asn_int_roundtrip [of 0 "[0, 0, 0, 0, 0, 0, 9]" 7 2 "- 129"] by auto

text \<open>C13: \<open>asn_build_int\<close> uses the fewest bytes: the number of content bytes it announces is the least
  \<open>n\<close> such that the value is a two's complement number of \<open>n\<close> bytes. So those bytes are enough, and no fewer are.\<close>

theorem asn_int_shortest:
  assumes "data + 6 \<le> length mem" "6 \<le> datalength"
  shows "\<exists>n mem' dl'. asn_build_int mem data datalength type v 4 = Inr (mem', data + 2 + n, dl') \<and> mem' ! (data + 1) = of_nat n \<and>
    1 \<le> n \<and> n \<le> 4 \<and> (\<forall>k \<ge> 1. - (2 ^ (8 * k - 1)) \<le> sint v \<and> sint v < 2 ^ (8 * k - 1) \<longleftrightarrow> n \<le> k)"
proof -
  let ?ob = "object_bytes type (int_contents v)" and ?n = "length (int_contents v)"
  have l: "1 \<le> ?n" "?n \<le> 4" by (rule int_contents_len)+
  have b: "asn_build_int mem data datalength type v 4 =
      Inr (overwrite mem data ?ob, data + length ?ob, datalength - int (length ?ob))"
    using assms l by (intro asn_build_int_object) (simp_all add: int_object_len)
  have "?ob = type # of_nat ?n # int_contents v" using l by (simp add: object_bytes_def length_bytes_def)
  moreover have "data < length mem" using assms(1) by simp
  ultimately have "overwrite mem data ?ob ! (data + 1) = of_nat ?n" by (simp add: overwrite_def nth_append)
  with b l int_contents_fits [of _ v] show ?thesis by (intro exI [of _ ?n]) (auto simp: int_object_len)
qed

theorem asn_int_shortest_witness:
  "\<exists>mem' dl'. asn_build_int [0, 0, 0, 0, 0, 0] 0 6 2 300 4 = Inr (mem', 4, dl') \<and> mem' ! 1 = 2"
proof -
  have s: "sint (300 :: u32) = 300" by simp
  obtain n mem' dl' where n: "asn_build_int [0, 0, 0, 0, 0, 0] 0 6 2 300 4 = Inr (mem', 0 + 2 + n, dl')"
    "mem' ! (0 + 1) = of_nat n" "\<forall>k \<ge> 1. - (2 ^ (8 * k - 1)) \<le> sint (300 :: u32) \<and> sint (300 :: u32) < 2 ^ (8 * k - 1) \<longleftrightarrow> n \<le> k"
    using asn_int_shortest [of 0 "[0, 0, 0, 0, 0, 0]" 6 2 300] by auto
  from n(3) [rule_format, of 1] n(3) [rule_format, of 2] have "n = 2" unfolding s by simp
  with n(1,2) show ?thesis by (intro exI [of _ mem'] exI [of _ dl']) simp
qed

text \<open>C14: The contents \<open>asn_build_unsigned_int\<close> writes for a counter, gauge or time value have that
  value exactly when it is below \<open>0xFF800000\<close>. From there on the truncation loop drops leading bytes
  that are not redundant, as it takes the value for a negative number: \<open>0xFFFFFFFF\<close> is sent as 255.\<close>

theorem asn_unsigned_int_value:
  assumes "data + 7 \<le> length mem" "7 \<le> datalength"
  shows "\<exists>mem' p dl'. asn_build_unsigned_int mem data datalength type v 4 = Inr (mem', p, dl') \<and>
    (be_value (take (p - (data + 2)) (drop (data + 2) mem')) = unat v \<longleftrightarrow> v < 0xFF800000)"
proof -
  let ?bs = "unsigned_contents v"
  let ?ob = "object_bytes type ?bs"
  have n: "length ?bs \<le> 5" by (rule unsigned_contents_len)
  then have lb: "length_bytes (int (length ?bs)) = [of_nat (length ?bs)]" by (simp add: length_bytes_def)
  then have l: "length ?ob = 2 + length ?bs" by (simp add: object_bytes_def)
  have b: "asn_build_unsigned_int mem data datalength type v 4 =
      Inr (overwrite mem data ?ob, data + length ?ob, datalength - int (length ?ob))"
    using build_object_fits [of data type ?bs mem datalength] assms l n
    by (simp add: asn_build_unsigned_int_def sizeof_long_def Let_def)
  have "holds (overwrite mem data ?ob) data ?ob" using assms l n by (intro holds_overwrite) simp
  then have "holds (overwrite mem data ?ob) (data + 2) ?bs"
    by (simp add: object_bytes_def lb holds_Cons numeral_2_eq_2)
  then have "take (length ?bs) (drop (data + 2) (overwrite mem data ?ob)) = ?bs" by (simp add: holds_def)
  with b l unsigned_contents_value [of v] show ?thesis by auto
qed

theorem asn_unsigned_int_value_witness:
  "\<exists>mem' p dl'. asn_build_unsigned_int [0, 0, 0, 0, 0, 0, 0] 0 7 0x41 0xFFFFFFFF 4 = Inr (mem', p, dl') \<and>
    be_value (take (p - 2) (drop 2 mem')) \<noteq> 0xFFFFFFFF"
proof -
  have v: "unat (0xFFFFFFFF :: u32) = 0xFFFFFFFF" "\<not> (0xFFFFFFFF :: u32) < 0xFF800000" "(0 :: nat) + 2 = 2"
    by simp_all
  have room: "0 + 7 \<le> length [0, 0, 0, 0, 0, 0, 0 :: u8]" "(7 :: int) \<le> 7" by simp_all
  show ?thesis using asn_unsigned_int_value [OF room, of "0x41" "0xFFFFFFFF"] v(2) unfolding v(1,3) by blast
qed


text \<open>C15: An octet string of up to 65535 bytes that \<open>asn_build_string\<close> writes is read back by
  \<open>asn_parse_string\<close> byte for byte, when the message has room for it and the reader's buffer is
  large enough. With less room than the object needs, the builder fails.\<close>

theorem asn_string_roundtrip:
  assumes "length bs \<le> 0xFFFF" "data + 4 + length bs \<le> length mem" "datalength < 2 ^ 31"
    and "int (length bs) \<le> strlength" "strlength < 2 ^ 31"
  shows "if int (length (object_bytes type bs)) \<le> datalength
    then \<exists>mem' p dl'. asn_build_string mem data datalength type bs = Inr (mem', p, dl') \<and>
      asn_parse_string mem' data datalength strlength = Inr (type, bs, p, dl')
    else asn_build_string mem data datalength type bs = Inl Failed"
proof (cases "int (length (object_bytes type bs)) \<le> datalength")
  case True
  have l: "data + length (object_bytes type bs) \<le> length mem"
    using assms(2) length_bytes_len [of "int (length bs)"] by (auto simp: object_len)
  have "asn_build_string mem data datalength type bs = Inr (overwrite mem data (object_bytes type bs),
      data + length (object_bytes type bs), datalength - int (length (object_bytes type bs)))"
    unfolding asn_build_string_def by (rule build_object_fits [OF l True])
  moreover have "asn_parse_string (overwrite mem data (object_bytes type bs)) data datalength strlength =
      Inr (type, bs, data + length (object_bytes type bs), datalength - int (length (object_bytes type bs)))"
    using asn_parse_string_object [OF holds_overwrite [OF l] assms(1) True assms(3-5)] .
  ultimately show ?thesis using True by simp
next
  case False
  then show ?thesis using assms(2) build_object_fails [of datalength type bs data mem]
    by (simp add: asn_build_string_def)
qed

theorem asn_string_roundtrip_witness:
  "\<exists>mem' p dl'. asn_build_string (replicate 20 0) 3 10 4 [112, 117, 98] = Inr (mem', p, dl') \<and>
    asn_parse_string mem' 3 10 80 = Inr (4, [112, 117, 98], p, dl')"
  using asn_string_roundtrip [of "[112, 117, 98]" 3 "replicate 20 0" 10 80 4]
  by (simp add: object_bytes_def length_bytes_def)

lemma subids_bytes_some: "subids_bytes ws = Some (the (subids_bytes ws))"
  by (rule subids_roundtrip [of ws]) simp

text \<open>C16: The loops of \<open>asn_build_objid\<close> end for every object identifier. The encoding of one with \<open>n\<close> parts has at most
  \<open>3 * (n - 1)\<close> bytes, and when its first two parts obey the encoding's limits and the encoding
  fits the local buffer and the message, \<open>asn_parse_objid\<close> reads it back unchanged.\<close>

theorem asn_objid_roundtrip:
  assumes "unat x < 256" "unat y < 40" "unat x * 40 + unat y < 2 ^ 16"
    and "2 + length vs \<le> MAX_OID_LEN" "datalength < 2 ^ 31" "1 + int (length vs) < objidlength"
  shows "asn_build_objid mem data datalength type name \<noteq> None \<and>
    (\<exists>bs. subids_bytes (merge_first (x # y # vs)) = Some bs \<and> length bs \<le> 3 * (1 + length vs) \<and>
      (length bs \<le> MAX_OID_LEN \<and> data + 2 + length bs \<le> length mem \<and> 2 + int (length bs) \<le> datalength \<longrightarrow>
       (\<exists>mem' p dl'. asn_build_objid mem data datalength type (x # y # vs) = Some (Inr (mem', p, dl')) \<and>
          asn_parse_objid mem' data datalength stale objidlength = Inr (type, x # y # vs, p, dl'))))"
proof -
  let ?ws = "(y + x * 40) # vs"
  obtain bs where bs: "subids_bytes ?ws = Some bs" "length bs \<le> 3 * length ?ws"
    "\<And>k rest. length ?ws \<le> k \<Longrightarrow> parse_subids k (int (length bs)) (bs @ rest) = Inr (?ws, length bs)"
    by (rule subids_roundtrip [of ?ws]) blast
  let ?ob = "object_bytes type bs"
  have "\<exists>mem' p dl'. asn_build_objid mem data datalength type (x # y # vs) = Some (Inr (mem', p, dl')) \<and>
      asn_parse_objid mem' data datalength stale objidlength = Inr (type, x # y # vs, p, dl')"
    if room: "length bs \<le> MAX_OID_LEN" "data + 2 + length bs \<le> length mem" "2 + int (length bs) \<le> datalength"
  proof -
    have lb: "length ?ob = 2 + length bs" using room(1) by (simp add: object_bytes_def length_bytes_def MAX_OID_LEN_def)
    have l: "data + length ?ob \<le> length mem" "int (length ?ob) \<le> datalength" using room(2,3) lb by simp_all
    have "asn_build_objid mem data datalength type (x # y # vs) =
        Some (Inr (overwrite mem data ?ob, data + length ?ob, datalength - int (length ?ob)))"
      using build_object_fits [OF l] assms(4) bs(1) room(1) by (simp add: asn_build_objid_def merge_first_def)
    moreover have "asn_parse_objid (overwrite mem data ?ob) data datalength stale objidlength =
        Inr (type, split_first (y + x * 40) @ vs, data + length ?ob, datalength - int (length ?ob))"
      using asn_parse_objid_object [OF bs(3) holds_overwrite [OF l(1)] _ l(2) assms(5), of objidlength stale]
        room(1) assms(6) by (simp add: MAX_OID_LEN_def)
    ultimately show ?thesis using split_merge_first [OF assms(1-3)] by simp
  qed
  moreover have "asn_build_objid mem data datalength type name \<noteq> None"
    using subids_bytes_some [of "merge_first name"] by (auto simp: asn_build_objid_def split: option.split)
  ultimately show ?thesis using bs(1,2) by (simp add: merge_first_def)
qed

theorem asn_objid_roundtrip_witness:
  "\<exists>mem' p dl'. asn_build_objid (replicate 20 0) 0 20 6 [1, 3, 6, 1] = Some (Inr (mem', p, dl')) \<and>
    asn_parse_objid mem' 0 20 0 32 = Inr (6, [1, 3, 6, 1], p, dl')"
  using asn_objid_roundtrip [of 1 3 "[6, 1]" 20 32 "replicate 20 0" 0 6 "[]" 0] by (auto simp: MAX_OID_LEN_def)

end
