(* ===== verification/Mib.thy ===== *)
theory Mib
  imports Asn1 "HOL-Library.List_Lexorder" "HOL-Library.Sublist"
begin

text \<open>
  The management information base of the SNMP agent, the generic part of
  \<open>src/apps/snmp/src/snmpvars.c\<close>: the order of object identifiers (\<open>compare\<close>, \<open>compare_tree\<close>), the
  registration of variable tables (\<open>mib_register\<close>) and the search for a variable (\<open>getStatPtr\<close>).

  A variable's \<open>findVar\<close> function is part of the data (a function pointer in C), so the search is
  generic in the state \<open>'m\<close> those functions read and change. A value pointer is the byte list it
  points to together with the effect of storing through it.

  \<open>name\<close> is the array the caller passes, \<open>namelen\<close> the number of subidentifiers in use. A
  \<open>findVar\<close> function may overwrite the name even when it returns NULL.
\<close>

type_synonym oid = "u16 list"

section \<open>The order of object identifiers\<close>

fun compare :: "oid \<Rightarrow> oid \<Rightarrow> int" where
  "compare [] [] = 0"
| "compare [] (y # ys) = - 1"
| "compare (x # xs) [] = 1"
| "compare (x # xs) (y # ys) = (if x < y then - 1 else if y < x then 1 else compare xs ys)"

fun compare_tree :: "oid \<Rightarrow> oid \<Rightarrow> int" where
  "compare_tree xs [] = 0"
| "compare_tree [] (y # ys) = - 1"
| "compare_tree (x # xs) (y # ys) = (if x < y then - 1 else if y < x then 1 else compare_tree xs ys)"

section \<open>Variables and subtrees\<close>

text \<open>
  A write method gets the action, the message with the position of the encoded value, its type and
  length, and the variable's name; it returns an SNMP error code.
\<close>

type_synonym 'm write_fun = "int \<Rightarrow> u8 list \<Rightarrow> nat \<Rightarrow> u8 \<Rightarrow> int \<Rightarrow> oid \<Rightarrow> 'm \<Rightarrow> asn_error + (int \<times> 'm)"

record 'm found =
  f_name :: oid
  f_access :: "(u8 list \<times> (u8 list \<Rightarrow> 'm \<Rightarrow> 'm)) option"
  f_write :: "'m write_fun option"
  f_state :: 'm

type_synonym 'm find_fun = "oid \<Rightarrow> u8 \<Rightarrow> oid \<Rightarrow> bool \<Rightarrow> 'm \<Rightarrow> 'm found"

record 'm variable =
  magic :: u8
  vtype :: u8
  acl :: u16
  findVar :: "'m find_fun"
  vname :: oid

record 'm subtree =
  t_name :: oid
  t_variables :: "'m variable list"

fun mib_register :: "oid \<Rightarrow> 'm variable list \<Rightarrow> 'm subtree list \<Rightarrow> 'm subtree list" where
  "mib_register oid_base vars [] = [\<lparr>t_name = oid_base, t_variables = vars\<rparr>]"
| "mib_register oid_base vars (s # ss) =
     (if compare (t_name s) oid_base > 0 then \<lparr>t_name = oid_base, t_variables = vars\<rparr> # s # ss
      else s # mib_register oid_base vars ss)"

section \<open>The search\<close>

text \<open>The results \<open>getStatPtr\<close> stores through its pointer arguments.\<close>

record 'm stat_out =
  o_type :: u8
  o_acl :: u16
  o_write :: "'m write_fun option"
  o_noSuchObject :: bool

text \<open>
  \<open>Hit\<close>: a \<open>findVar\<close> function returned a value. \<open>Stop\<close>: an exact search returns NULL from inside the
  loop. \<open>Miss\<close>: the loop ended.
\<close>

datatype 'm scan =
  Hit "'m variable" "u8 list \<times> (u8 list \<Rightarrow> 'm \<Rightarrow> 'm)" oid nat "'m stat_out" 'm
| Stop oid nat "'m stat_out" 'm
| Miss oid nat "'m stat_out" 'm

definition set_name :: "oid \<Rightarrow> oid \<Rightarrow> oid" where
  "set_name name n = n @ drop (length n) name"

fun scan_vars ::
  "bool \<Rightarrow> oid \<Rightarrow> nat \<Rightarrow> int \<Rightarrow> 'm variable list \<Rightarrow> oid \<Rightarrow> nat \<Rightarrow> 'm stat_out \<Rightarrow> 'm \<Rightarrow> 'm scan" where
  "scan_vars exact tn suffixlen result [] name namelen out m = Miss name namelen out m"
| "scan_vars exact tn suffixlen result (v # vs) name namelen out m =
     (let result' = (if exact \<or> result \<ge> 0
                     then compare_tree (take suffixlen (drop (length tn) name)) (vname v) else result)
      in if (\<not> exact \<and> result' \<le> 0) \<or> (exact \<and> result' = 0)
         then (let f = findVar v (tn @ vname v) (magic v) (take namelen name) exact m;
                   name' = set_name name (f_name f);
                   namelen' = length (f_name f)
               in case f_access f of
                    Some a \<Rightarrow> Hit v a name' namelen' (out\<lparr>o_acl := acl v, o_write := f_write f\<rparr>) (f_state f)
                  | None \<Rightarrow>
                      (let out' = out\<lparr>o_acl := acl v, o_write := None\<rparr>
                       in if exact \<and> result' \<le> 0
                          then Stop name' namelen' (out'\<lparr>o_type := vtype v, o_noSuchObject := True\<rparr>) (f_state f)
                          else scan_vars exact tn suffixlen result' vs name' namelen' out' (f_state f)))
         else if exact \<and> result' \<le> 0
              then Stop name namelen (out\<lparr>o_type := vtype v, o_acl := acl v, o_noSuchObject := True\<rparr>) m
              else scan_vars exact tn suffixlen result' vs name namelen out m)"

fun scan_trees ::
  "bool \<Rightarrow> 'm subtree list \<Rightarrow> oid \<Rightarrow> nat \<Rightarrow> 'm stat_out \<Rightarrow> 'm \<Rightarrow> 'm scan" where
  "scan_trees exact [] name namelen out m = Miss name namelen out m"
| "scan_trees exact (tp # tps) name namelen out m =
     (let treeresult = compare_tree (take namelen name) (t_name tp)
      in if treeresult = 0 \<or> (\<not> exact \<and> treeresult < 0)
         then (case scan_vars exact (t_name tp) (namelen - length (t_name tp)) treeresult
                      (t_variables tp) name namelen out m of
                 Miss name' namelen' out' m' \<Rightarrow> scan_trees exact tps name' namelen' out' m'
               | r \<Rightarrow> r)
         else scan_trees exact tps name namelen out m)"

text \<open>
  \<open>trap\<close> is \<open>_SendAuthFailTrap\<close> with the test that it is enabled. Without access rights none of the
  results is set: the assignment to \<open>write_method\<close> changes the parameter only.
\<close>

definition getStatPtr ::
  "('m \<Rightarrow> 'm) \<Rightarrow> 'm subtree list \<Rightarrow> oid \<Rightarrow> nat \<Rightarrow> bool \<Rightarrow> u8 \<Rightarrow> 'm stat_out \<Rightarrow> 'm \<Rightarrow>
   (u8 list \<times> (u8 list \<Rightarrow> 'm \<Rightarrow> 'm)) option \<times> oid \<times> nat \<times> 'm stat_out \<times> 'm" where
  "getStatPtr trap subtrees name namelen exact view out m =
     (if view = 0 then (None, name, namelen, out, trap m)
      else case scan_trees exact subtrees name namelen (out\<lparr>o_write := None\<rparr>) m of
             Hit v a name' namelen' out' m' \<Rightarrow>
               (Some a, name', namelen', out'\<lparr>o_type := vtype v, o_acl := acl v\<rparr>, m')
           | Stop name' namelen' out' m' \<Rightarrow> (None, name', namelen', out', m')
           | Miss name' namelen' out' m' \<Rightarrow>
               (if exact then (None, name', namelen', out'\<lparr>o_noSuchObject := True\<rparr>, m')
                else (None, set_name name' (take namelen name), namelen, out'\<lparr>o_noSuchObject := True\<rparr>, m')))"

section \<open>The order is the lexicographic one\<close>

lemma compare_neg_iff: "compare a b < 0 \<longleftrightarrow> a < b"
  by (induction a b rule: compare.induct) auto

lemma compare_zero_iff: "compare a b = 0 \<longleftrightarrow> a = b"
  by (induction a b rule: compare.induct) auto

lemma compare_ge_iff: "compare a b \<ge> 0 \<longleftrightarrow> b \<le> a"
  using compare_neg_iff [of a b] by auto

lemma compare_pos_iff: "compare a b > 0 \<longleftrightarrow> b < a"
  using compare_neg_iff [of a b] compare_zero_iff [of a b] by auto

lemma compare_tree_neg_iff: "compare_tree a b < 0 \<longleftrightarrow> a < b"
  by (induction a b rule: compare_tree.induct) auto

lemma compare_tree_zero_iff: "compare_tree a b = 0 \<longleftrightarrow> prefix b a"
  by (induction a b rule: compare_tree.induct) auto

lemma compare_tree_values: "compare_tree a b \<in> {- 1, 0, 1}"
  by (induction a b rule: compare_tree.induct) auto

lemmas oid_order = compare_neg_iff compare_zero_iff compare_ge_iff compare_pos_iff
  compare_tree_neg_iff compare_tree_zero_iff

lemma compare_tree_append [simp]: "compare_tree (t @ s) (t @ v) = compare_tree s v"
  by (induction t) auto

lemma less_append_same [simp]: "((t :: oid) @ v < t @ w) = (v < w)"
  by (induction t) auto

lemma less_append_right: "(a :: oid) < t \<Longrightarrow> a < t @ v"
  by (induction a t rule: compare_tree.induct) (auto split: if_splits)

lemma prefix_le: "prefix t a \<Longrightarrow> (t :: oid) \<le> a"
  by (induction t a rule: compare.induct) auto

text \<open>Regions of unrelated names do not overlap.\<close>

lemma region_less:
  assumes "(v :: oid) < w" "\<not> prefix v w"
  shows "v @ x < w @ y"
  using assms by (induction v w rule: compare.induct) auto

lemma region_less_prefix:
  assumes "(v :: oid) < w" "\<not> prefix v w" "prefix v a" "prefix w b"
  shows "a < b"
  using region_less [OF assms(1,2)] assms(3,4) by (auto simp: prefix_def)

lemma below_region: "(a :: oid) < t \<Longrightarrow> prefix t b \<Longrightarrow> a < b"
  by (metis less_le_trans prefix_le)

lemma above_region:
  assumes "\<not> (a :: oid) < t" "\<not> prefix t a" "prefix t b"
  shows "b < a"
proof -
  have "t \<noteq> a" using assms(2) by auto
  with assms(1) have "t < a" by simp
  with assms(2,3) show ?thesis
    using region_less [of t a _ "[]"] by (auto simp: prefix_def)
qed

end
