(* ===== verification/Mib_Search.thy ===== *)
theory Mib_Search
  imports Mib
begin

text \<open>
  Correctness of \<open>getStatPtr\<close>. The locale \<open>mib_view\<close> is the contract between the search and the
  \<open>findVar\<close> functions: \<open>inst F\<close> are the instances of the variable with the full name \<open>F\<close> that
  exist in the states \<open>ok\<close>; a \<open>findVar\<close> function finds a given instance, finds the first instance
  after a name, and may leave a name of its own region behind when it finds none.

  From the contract follows that GET finds exactly the existing instances and GETNEXT the
  lexicographically next one of the whole tree.
\<close>

definition paths :: "'m subtree list \<Rightarrow> (oid \<times> 'm variable) list" where
  "paths ts = concat (map (\<lambda>t. map (\<lambda>v. (t_name t @ vname v, v)) (t_variables t)) ts)"

text \<open>\<open>v\<close> is before \<open>w\<close> and \<open>w\<close> does not extend \<open>v\<close>.\<close>

definition region_lt :: "oid \<Rightarrow> oid \<Rightarrow> bool" where
  "region_lt v w \<longleftrightarrow> compare v w < 0 \<and> compare_tree w v \<noteq> 0"

definition wf_mib :: "'m subtree list \<Rightarrow> bool" where
  "wf_mib ts \<longleftrightarrow> sorted_wrt region_lt (map fst (paths ts)) \<and> sorted_wrt region_lt (map t_name ts)"

definition least_after :: "oid \<Rightarrow> oid set \<Rightarrow> oid \<Rightarrow> bool" where
  "least_after n S i \<longleftrightarrow> i \<in> S \<and> n < i \<and> (\<forall>j\<in>S. n < j \<longrightarrow> i \<le> j)"

lemma region_ltD: "region_lt v w \<Longrightarrow> prefix v a \<Longrightarrow> prefix w b \<Longrightarrow> a < b"
  unfolding region_lt_def by (meson compare_neg_iff compare_tree_zero_iff region_less_prefix)

lemma region_lt_compare_tree: "region_lt v w \<Longrightarrow> prefix v a \<Longrightarrow> compare_tree a w < 0"
  using region_ltD [of v w a w] by (simp add: compare_tree_neg_iff)

lemma region_lt_append [simp]: "region_lt (t @ v) (t @ w) = region_lt v w"
  by (simp add: region_lt_def oid_order)

lemma least_after_first:
  "least_after n A i \<Longrightarrow> (\<And>j. j \<in> B \<Longrightarrow> i < j) \<Longrightarrow> least_after n (A \<union> B) i"
  by (auto simp: least_after_def less_imp_le)

lemma least_after_second:
  "(\<And>j. j \<in> A \<Longrightarrow> \<not> n < j) \<Longrightarrow> least_after n' B i \<Longrightarrow> (\<And>j. j \<in> B \<Longrightarrow> n < j \<longleftrightarrow> n' < j) \<Longrightarrow>
   least_after n (A \<union> B) i"
  by (auto simp: least_after_def)

lemma paths_Cons: "paths (t # ts) = map (\<lambda>v. (t_name t @ vname v, v)) (t_variables t) @ paths ts"
  by (simp add: paths_def)

lemma take_set_name [simp]: "take (length n) (set_name name n) = n"
  by (simp add: set_name_def)

lemma length_set_name: "length n \<le> length (set_name name n)"
  by (simp add: set_name_def)

text \<open>What the loop over a table reads as suffix after the name was overwritten.\<close>

lemma suffix_overwritten:
  assumes "prefix (tn @ v) n" "length v \<le> k"
  shows "prefix v (take k (drop (length tn) (set_name name n)))"
  using assms by (auto simp: prefix_def set_name_def)

locale mib_view =
  fixes ts :: "'m subtree list"
    and inst :: "oid \<Rightarrow> oid set"
    and ok :: "'m \<Rightarrow> bool"
  assumes wf: "wf_mib ts"
    and inst_region: "(F, v) \<in> set (paths ts) \<Longrightarrow> i \<in> inst F \<Longrightarrow> prefix F i"
    and next_some: "(F, v) \<in> set (paths ts) \<Longrightarrow> ok m \<Longrightarrow>
      f_access (findVar v F (magic v) n False m) \<noteq> None \<Longrightarrow>
      least_after n (inst F) (f_name (findVar v F (magic v) n False m))"
    and next_none: "(F, v) \<in> set (paths ts) \<Longrightarrow> ok m \<Longrightarrow>
      f_access (findVar v F (magic v) n False m) = None \<Longrightarrow>
      (\<forall>j\<in>inst F. \<not> n < j) \<and> (f_name (findVar v F (magic v) n False m) = n \<or>
        prefix F (f_name (findVar v F (magic v) n False m)) \<and> n < f_name (findVar v F (magic v) n False m))"
    and exact_access: "(F, v) \<in> set (paths ts) \<Longrightarrow> ok m \<Longrightarrow>
      f_access (findVar v F (magic v) n True m) \<noteq> None \<longleftrightarrow> n \<in> inst F"
    and exact_name: "(F, v) \<in> set (paths ts) \<Longrightarrow> ok m \<Longrightarrow> f_name (findVar v F (magic v) n True m) = n"
    and keep: "(F, v) \<in> set (paths ts) \<Longrightarrow> ok m \<Longrightarrow> ok (f_state (findVar v F (magic v) n e m))"
begin

definition insts :: "(oid \<times> 'm variable) list \<Rightarrow> oid set" where
  "insts ps = (\<Union>(F, v) \<in> set ps. inst F)"

text \<open>The invariant of the loop over a table: what the comparison results say of the name.\<close>

definition scan_inv :: "oid \<Rightarrow> nat \<Rightarrow> int \<Rightarrow> 'm variable list \<Rightarrow> oid \<Rightarrow> oid \<Rightarrow> bool" where
  "scan_inv tn k result vs name n \<longleftrightarrow>
     (if result < 0 then \<forall>w\<in>set vs. n < tn @ vname w
      else \<forall>w\<in>set vs. compare_tree (take k (drop (length tn) name)) (vname w) = compare_tree n (tn @ vname w))"

text \<open>What a search without a hit leaves as name: the name it began with, or a later one that is
  still before every instance of the tables to come.\<close>

definition moved :: "(oid \<times> 'm variable) list \<Rightarrow> oid \<Rightarrow> oid \<Rightarrow> bool" where
  "moved ps n n' \<longleftrightarrow> n' = n \<or> n < n' \<and> (\<exists>(F, v)\<in>set ps. prefix F n')"

definition tps :: "oid \<Rightarrow> 'm variable list \<Rightarrow> (oid \<times> 'm variable) list" where
  "tps tn vs = map (\<lambda>v. (tn @ vname v, v)) vs"

definition next_result :: "(oid \<times> 'm variable) list \<Rightarrow> oid \<Rightarrow> 'm scan \<Rightarrow> bool" where
  "next_result ps n r \<longleftrightarrow>
     (case r of
        Hit v a name' k' out' m' \<Rightarrow> least_after n (insts ps) (take k' name') \<and> k' \<le> length name' \<and> ok m'
      | Stop name' k' out' m' \<Rightarrow> False
      | Miss name' k' out' m' \<Rightarrow> (\<forall>j\<in>insts ps. \<not> n < j) \<and> moved ps n (take k' name') \<and> k' \<le> length name' \<and> ok m')"

lemma insts_append [simp]: "insts (ps @ qs) = insts ps \<union> insts qs"
  by (auto simp: insts_def)

lemma insts_Cons: "insts ((F, v) # ps) = inst F \<union> insts ps"
  by (auto simp: insts_def)

lemma insts_after:
  assumes "set qs \<subseteq> set (paths ts)" "\<And>G w. (G, w) \<in> set qs \<Longrightarrow> region_lt F G" "prefix F n" "j \<in> insts qs"
  shows "n < j"
  using assms inst_region region_ltD unfolding insts_def by fastforce

text \<open>One variable that finds nothing, and the rest of the search.\<close>

lemma next_result_later:
  assumes "next_result qs n' r" "\<forall>j\<in>insts ps. \<not> n < j" "moved ps n n'"
    and "set qs \<subseteq> set (paths ts)" "\<And>F v G w. (F, v) \<in> set ps \<Longrightarrow> (G, w) \<in> set qs \<Longrightarrow> region_lt F G"
  shows "next_result (ps @ qs) n r"
proof (cases "n' = n")
  case True
  have "moved qs n x \<Longrightarrow> moved (ps @ qs) n x" for x by (auto simp: moved_def)
  with True assms(1,2) show ?thesis
    by (auto simp: next_result_def split: scan.splits intro: least_after_second)
next
  case False
  with assms(3) obtain F v where F: "(F, v) \<in> set ps" "prefix F n'" "n < n'" by (auto simp: moved_def)
  have later: "n' < j" if "j \<in> insts qs" for j
    using insts_after [OF assms(4) _ F(2) that] assms(5) [OF F(1)] by blast
  then have iff: "n < j \<longleftrightarrow> n' < j" if "j \<in> insts qs" for j using F(3) that by (meson less_trans)
  have mv: "moved qs n' x \<Longrightarrow> moved (ps @ qs) n x" for x
    using F by (auto simp: moved_def)
  from assms(1,2) show ?thesis
    by (auto simp: next_result_def split: scan.splits intro: least_after_second mv iff dest: iff)
qed

lemma next_result_one:
  assumes "(F, v) \<in> set (paths ts)" "ok m" "set qs \<subseteq> set (paths ts)"
    and "\<And>G w. (G, w) \<in> set qs \<Longrightarrow> region_lt F G"
    and "f = findVar v F (magic v) n False m"
    and "\<And>a. f_access f = Some a \<Longrightarrow>
      r = Hit v a (set_name name (f_name f)) (length (f_name f)) (out1 a) (f_state f)"
    and "f_access f = None \<Longrightarrow> next_result qs (f_name f) r"
  shows "next_result ((F, v) # qs) n r"
proof (cases "f_access f")
  case (Some a)
  have l: "least_after n (inst F) (f_name f)" using next_some [OF assms(1,2)] Some assms(5) by simp
  then have "prefix F (f_name f)" using inst_region [OF assms(1)] by (simp add: least_after_def)
  then have "f_name f < j" if "j \<in> insts qs" for j
    using insts_after [of qs F, OF assms(3) _ _ that] assms(4) by blast
  then have "least_after n (inst F \<union> insts qs) (f_name f)" using l by (rule least_after_first [rotated])
  with assms(6) [OF Some] keep [OF assms(1,2)] show ?thesis
    by (simp add: next_result_def insts_Cons length_set_name assms(5))
next
  case None
  have n: "\<forall>j\<in>inst F. \<not> n < j" "f_name f = n \<or> prefix F (f_name f) \<and> n < f_name f"
    using next_none [OF assms(1,2)] None assms(5) by auto
  have "next_result ([(F, v)] @ qs) n r"
    using assms(7) [OF None] n assms(3,4) by (intro next_result_later) (auto simp: insts_def moved_def)
  then show ?thesis by simp
qed

text \<open>The invariant holds at the start of a table and is kept.\<close>

lemma scan_inv_start:
  assumes "compare_tree n tn = 0" "namelen \<le> length name" "n = take namelen name"
  shows "scan_inv tn (namelen - length tn) 0 vs name n"
proof -
  have p: "prefix tn n" using assms(1) by (simp add: compare_tree_zero_iff)
  then have "n = tn @ drop (length tn) n" by (auto simp: prefix_def)
  moreover have "drop (length tn) n = take (namelen - length tn) (drop (length tn) name)"
    using assms(3) by (simp add: drop_take)
  ultimately show ?thesis unfolding scan_inv_def by (metis compare_tree_append less_irrefl)
qed

lemma scan_inv_step:
  assumes "scan_inv tn k result (v # vs) name n"
    and "r' = (if result \<ge> 0 then compare_tree (take k (drop (length tn) name)) (vname v) else result)"
    and "\<And>w. w \<in> set vs \<Longrightarrow> region_lt (vname v) (vname w)"
    and "n' = n \<and> name' = name \<or> r' \<le> 0 \<and> prefix (tn @ vname v) n' \<and> name' = set_name name n'"
  shows "scan_inv tn k r' vs name' n'"
proof -
  have r': "r' \<le> 0 \<Longrightarrow> compare_tree n (tn @ vname v) \<le> 0"
    "r' < 0 \<Longrightarrow> n < tn @ vname v"
    "r' = 0 \<Longrightarrow> prefix (vname v) (take k (drop (length tn) name))"
    using assms(1,2) compare_tree_neg_iff [of n "tn @ vname v"]
    by (auto simp: scan_inv_def compare_tree_zero_iff split: if_splits)
  have later: "x < tn @ vname w" if "prefix (tn @ vname v) x" "w \<in> set vs" for x w
    using region_ltD [of "tn @ vname v" "tn @ vname w" x "tn @ vname w"] assms(3) that by simp
  show ?thesis
  proof (cases "r' < 0")
    case True
    then have "n < tn @ vname w" if "w \<in> set vs" for w
      using r'(2) later [of "tn @ vname v", OF _ that] by (simp add: less_trans)
    with True assms(4) later show ?thesis by (auto simp: scan_inv_def)
  next
    case False
    from assms(4) show ?thesis
    proof
      assume "n' = n \<and> name' = name"
      with False assms(1,2) show ?thesis by (auto simp: scan_inv_def split: if_splits)
    next
      assume a: "r' \<le> 0 \<and> prefix (tn @ vname v) n' \<and> name' = set_name name n'"
      with False have "r' = 0" by simp
      then have "length (vname v) \<le> k" using r'(3) by (auto dest: prefix_length_le)
      then have pv: "prefix (vname v) (take k (drop (length tn) name'))"
        using a suffix_overwritten by blast
      have "compare_tree (take k (drop (length tn) name')) (vname w) = compare_tree n' (tn @ vname w)"
        if w: "w \<in> set vs" for w
      proof -
        have "compare_tree (take k (drop (length tn) name')) (vname w) < 0"
          using region_lt_compare_tree [OF assms(3) [OF w] pv] .
        moreover have "compare_tree n' (tn @ vname w) < 0"
          using later [OF _ w] a by (simp add: compare_tree_neg_iff)
        ultimately show ?thesis
          using compare_tree_values [of "take k (drop (length tn) name')" "vname w"]
            compare_tree_values [of n' "tn @ vname w"] by auto
      qed
      with False show ?thesis by (simp add: scan_inv_def)
    qed
  qed
qed

lemma tps_Cons: "tps tn (v # vs) = (tn @ vname v, v) # tps tn vs"
  by (simp add: tps_def)

lemma scan_vars_next:
  assumes "set (tps tn vs) \<subseteq> set (paths ts)" "sorted_wrt region_lt (map vname vs)" "ok m"
    and "scan_inv tn k result vs name (take namelen name)" "namelen \<le> length name"
  shows "next_result (tps tn vs) (take namelen name) (scan_vars False tn k result vs name namelen out m)"
  using assms
proof (induction vs arbitrary: result name namelen out m)
  case Nil
  then show ?case by (simp add: next_result_def tps_def insts_def moved_def)
next
  case (Cons v vs)
  let ?n = "take namelen name" and ?F = "tn @ vname v"
  define r' where "r' = (if result \<ge> 0 then compare_tree (take k (drop (length tn) name)) (vname v) else result)"
  define f where "f = findVar v ?F (magic v) ?n False m"
  have F: "(?F, v) \<in> set (paths ts)" and sub: "set (tps tn vs) \<subseteq> set (paths ts)"
    using Cons.prems(1) by (auto simp: tps_Cons)
  have lt: "region_lt (vname v) (vname w)" if "w \<in> set vs" for w using Cons.prems(2) that by simp
  then have lt': "region_lt ?F G" if "(G, w) \<in> set (tps tn vs)" for G w using that by (auto simp: tps_def)
  have srt: "sorted_wrt region_lt (map vname vs)" using Cons.prems(2) by simp
  note IH = Cons.IH [OF sub srt]
  show ?case
  proof (cases "r' \<le> 0")
    case True
    have "next_result (tps tn vs) (f_name f) (scan_vars False tn k r' vs (set_name name (f_name f))
        (length (f_name f)) out' (f_state f))" if "f_access f = None" for out'
    proof -
      have nn: "f_name f = ?n \<or> prefix ?F (f_name f)"
        using next_none [OF F Cons.prems(3), of ?n] that by (auto simp: f_def)
      have "set_name name ?n = name" using Cons.prems(5) by (simp add: set_name_def)
      with nn have "scan_inv tn k r' vs (set_name name (f_name f)) (f_name f)"
        using scan_inv_step [OF Cons.prems(4) r'_def lt, of "f_name f" "set_name name (f_name f)"] True by auto
      then show ?thesis
        using IH [of "f_state f" r' "set_name name (f_name f)" "length (f_name f)" out'] keep [OF F Cons.prems(3)]
          length_set_name [of "f_name f" name] by (simp add: f_def)
    qed
    then have "next_result ((?F, v) # tps tn vs) ?n (scan_vars False tn k result (v # vs) name namelen out m)"
      using True by (intro next_result_one [OF F Cons.prems(3) sub lt' f_def])
        (simp_all add: r'_def [symmetric] f_def [symmetric] Let_def)
    then show ?thesis by (simp add: tps_Cons)
  next
    case False
    have inv: "scan_inv tn k r' vs name ?n" by (rule scan_inv_step [OF Cons.prems(4) r'_def lt]) auto
    have "\<not> ?n < ?F" "\<not> prefix ?F ?n"
      using False Cons.prems(4) compare_tree_neg_iff [of ?n ?F] compare_tree_zero_iff [of ?n ?F]
      by (auto simp: r'_def scan_inv_def split: if_splits)
    then have "\<forall>j\<in>insts [(?F, v)]. \<not> ?n < j"
      using above_region inst_region [OF F] by (fastforce simp: insts_def)
    then have "next_result ([(?F, v)] @ tps tn vs) ?n (scan_vars False tn k r' vs name namelen out m)"
      using IH [OF Cons.prems(3) inv Cons.prems(5)] sub lt'
      by (intro next_result_later [of _ ?n]) (auto simp: moved_def)
    moreover have "scan_vars False tn k result (v # vs) name namelen out m =
        scan_vars False tn k r' vs name namelen out m"
      using False by (simp add: r'_def [symmetric] Let_def)
    ultimately show ?thesis by (simp add: tps_Cons)
  qed
qed

lemma paths_tps: "paths (t # us) = tps (t_name t) (t_variables t) @ paths us"
  by (simp add: paths_Cons tps_def)

lemma scan_trees_next:
  assumes "set (paths us) \<subseteq> set (paths ts)" "sorted_wrt region_lt (map fst (paths us))" "ok m"
    and "namelen \<le> length name"
  shows "next_result (paths us) (take namelen name) (scan_trees False us name namelen out m)"
  using assms
proof (induction us arbitrary: name namelen out m)
  case Nil
  then show ?case by (simp add: next_result_def paths_def insts_def moved_def)
next
  case (Cons t us)
  let ?n = "take namelen name" and ?ps = "tps (t_name t) (t_variables t)" and ?tn = "t_name t"
  let ?tr = "compare_tree ?n ?tn"
  have sub: "set ?ps \<subseteq> set (paths ts)" "set (paths us) \<subseteq> set (paths ts)"
    using Cons.prems(1) by (auto simp: paths_tps)
  have srt: "sorted_wrt region_lt (map fst ?ps)" "sorted_wrt region_lt (map fst (paths us))"
    and lt: "\<And>F v G w. (F, v) \<in> set ?ps \<Longrightarrow> (G, w) \<in> set (paths us) \<Longrightarrow> region_lt F G"
    using Cons.prems(2) by (force simp: paths_tps sorted_wrt_append)+
  have srt': "sorted_wrt region_lt (map vname (t_variables t))"
    using srt(1) by (simp add: tps_def sorted_wrt_map)
  note IH = Cons.IH [OF sub(2) srt(2)]
  show ?case
  proof (cases "?tr \<le> 0")
    case True
    let ?r = "scan_vars False ?tn (namelen - length ?tn) ?tr (t_variables t) name namelen out m"
    have "scan_inv ?tn (namelen - length ?tn) ?tr (t_variables t) name ?n"
    proof (cases "?tr = 0")
      case True
      then show ?thesis using scan_inv_start [OF True Cons.prems(4) refl] by simp
    next
      case False
      with True have "?n < ?tn" "?tr < 0" using compare_tree_neg_iff [of ?n ?tn] by auto
      then show ?thesis by (simp add: scan_inv_def less_append_right)
    qed
    then have nr: "next_result ?ps ?n ?r" using scan_vars_next [OF sub(1) srt' Cons.prems(3) _ Cons.prems(4)] by simp
    have st: "scan_trees False (t # us) name namelen out m =
        (case ?r of Miss name' namelen' out' m' \<Rightarrow> scan_trees False us name' namelen' out' m' | r \<Rightarrow> r)"
      using True by (auto simp: Let_def)
    show ?thesis
    proof (cases ?r)
      case (Hit v a name' k' out' m')
      with nr have h: "least_after ?n (insts ?ps) (take k' name')" "k' \<le> length name'" "ok m'"
        by (simp_all add: next_result_def)
      then obtain F w where "(F, w) \<in> set ?ps" "take k' name' \<in> inst F" by (auto simp: least_after_def insts_def)
      then have "\<And>j. j \<in> insts (paths us) \<Longrightarrow> take k' name' < j"
        using insts_after [OF sub(2), of F "take k' name'"] inst_region lt sub(1) by blast
      then have "least_after ?n (insts ?ps \<union> insts (paths us)) (take k' name')"
        by (rule least_after_first [OF h(1)])
      with h Hit show ?thesis unfolding st by (simp add: next_result_def paths_tps)
    next
      case (Stop name' k' out' m')
      with nr show ?thesis by (simp add: next_result_def)
    next
      case (Miss name' k' out' m')
      with nr have h: "\<forall>j\<in>insts ?ps. \<not> ?n < j" "moved ?ps ?n (take k' name')" "k' \<le> length name'" "ok m'"
        by (simp_all add: next_result_def)
      have "next_result (?ps @ paths us) ?n (scan_trees False us name' k' out' m')"
        using next_result_later [OF IH [OF h(4,3)] h(1,2) sub(2) lt] .
      with Miss show ?thesis unfolding st by (simp add: paths_tps)
    qed
  next
    case False
    then have nt: "\<not> ?n < ?tn" "\<not> prefix ?tn ?n"
      using compare_tree_neg_iff [of ?n ?tn] compare_tree_zero_iff [of ?n ?tn] by auto
    have "\<forall>j\<in>insts ?ps. \<not> ?n < j"
    proof
      fix j assume "j \<in> insts ?ps"
      then obtain F w where Fw: "(F, w) \<in> set ?ps" "j \<in> inst F" by (auto simp: insts_def)
      then have "prefix F j" using sub(1) inst_region by blast
      moreover have "prefix ?tn F" using Fw(1) by (auto simp: tps_def)
      ultimately have "prefix ?tn j" by (rule prefix_order.trans [rotated])
      then have "j < ?n" by (rule above_region [OF nt])
      then show "\<not> ?n < j" by simp
    qed
    then have "next_result (?ps @ paths us) ?n (scan_trees False us name namelen out m)"
      using next_result_later [OF IH [OF Cons.prems(3,4)] _ _ sub(2) lt, of _ ?n] by (simp add: moved_def)
    with False show ?thesis by (simp add: paths_tps Let_def)
  qed
qed

text \<open>GETNEXT.\<close>

lemma getStatPtr_next:
  assumes "ok m" "namelen \<le> length name" "view \<noteq> 0"
    and "getStatPtr trap ts name namelen False view out m = (access, name', namelen', out', m')"
  shows "case access of
      Some a \<Rightarrow> least_after (take namelen name) (insts (paths ts)) (take namelen' name')
    | None \<Rightarrow> (\<forall>j\<in>insts (paths ts). \<not> take namelen name < j) \<and> take namelen' name' = take namelen name"
proof -
  have "next_result (paths ts) (take namelen name) (scan_trees False ts name namelen (out\<lparr>o_write := None\<rparr>) m)"
    using scan_trees_next [OF subset_refl _ assms(1,2)] wf by (simp add: wf_mib_def)
  moreover have "take namelen (set_name x (take namelen name)) = take namelen name" for x
    using assms(2) by (simp add: set_name_def)
  ultimately show ?thesis
    using assms(3,4) by (auto simp: getStatPtr_def next_result_def split: scan.splits)
qed

text \<open>GET.\<close>

definition exact_result :: "(oid \<times> 'm variable) list \<Rightarrow> oid \<Rightarrow> 'm scan \<Rightarrow> bool" where
  "exact_result ps n r \<longleftrightarrow>
     (case r of
        Hit v a name' k' out' m' \<Rightarrow> n \<in> insts ps \<and> take k' name' = n \<and> k' \<le> length name' \<and> ok m'
      | Stop name' k' out' m' \<Rightarrow> n \<notin> insts ps \<and> take k' name' = n \<and> k' \<le> length name' \<and> ok m'
      | Miss name' k' out' m' \<Rightarrow> n \<notin> insts ps \<and> take k' name' = n \<and> k' \<le> length name' \<and> ok m')"

lemma inst_empty_region: "(F, v) \<in> set (paths ts) \<Longrightarrow> \<not> prefix F n \<Longrightarrow> n \<notin> inst F"
  using inst_region by blast

lemma insts_none: "set ps \<subseteq> set (paths ts) \<Longrightarrow> (\<And>F v. (F, v) \<in> set ps \<Longrightarrow> \<not> prefix F n) \<Longrightarrow> n \<notin> insts ps"
  using inst_region by (fastforce simp: insts_def)

lemma scan_vars_exact:
  assumes "set (tps tn vs) \<subseteq> set (paths ts)" "sorted_wrt region_lt (map vname vs)" "ok m"
    and "take namelen name = tn @ take k (drop (length tn) name)" "namelen \<le> length name"
  shows "exact_result (tps tn vs) (take namelen name) (scan_vars True tn k result vs name namelen out m)"
  using assms(1-3)
proof (induction vs arbitrary: result out m)
  case Nil
  then show ?case using assms(5) by (simp add: exact_result_def tps_def insts_def)
next
  case (Cons v vs)
  let ?n = "take namelen name" and ?F = "tn @ vname v"
  let ?r = "compare_tree (take k (drop (length tn) name)) (vname v)"
  have F: "(?F, v) \<in> set (paths ts)" and sub: "set (tps tn vs) \<subseteq> set (paths ts)"
    using Cons.prems(1) by (auto simp: tps_Cons)
  have lt: "region_lt ?F (tn @ vname w)" if "w \<in> set vs" for w using Cons.prems(2) that by simp
  have r: "?r = compare_tree ?n ?F" using assms(4) by (metis compare_tree_append)
  have nm: "set_name name ?n = name" using assms(5) by (simp add: set_name_def)
  consider "?r = 0" | "?r < 0" | "?r > 0" by linarith
  then show ?case
  proof cases
    case 1
    then have p: "prefix ?F ?n" using r by (simp add: compare_tree_zero_iff)
    then have "\<not> prefix (tn @ vname w) ?n" if "w \<in> set vs" for w
      using region_ltD [OF lt [OF that] p, of ?n] by auto
    then have "?n \<notin> insts (tps tn vs)" using insts_none [OF sub, of ?n] by (auto simp: tps_def)
    then show ?thesis
      using 1 exact_access [OF F Cons.prems(3), of ?n] exact_name [OF F Cons.prems(3), of ?n]
        keep [OF F Cons.prems(3), of ?n True] assms(5) nm
      by (auto simp: exact_result_def tps_Cons insts_Cons Let_def split: option.splits)
  next
    case 2
    then have l: "?n < ?F" using r by (simp add: compare_tree_neg_iff)
    have "?n < tn @ vname w" if "w \<in> set vs" for w
      using l region_ltD [OF lt [OF that], of ?F] by (meson less_trans prefix_order.refl)
    with l have "?n < G" if "(G, w) \<in> set (tps tn (v # vs))" for G w
      using that by (auto simp: tps_def)
    then have "\<not> prefix G ?n" if "(G, w) \<in> set (tps tn (v # vs))" for G w
      using that prefix_le [of G ?n] by (meson leD)
    then have "?n \<notin> insts (tps tn (v # vs))" using insts_none [OF Cons.prems(1)] by blast
    with 2 Cons.prems(3) assms(5) show ?thesis by (auto simp: exact_result_def Let_def)
  next
    case 3
    then have "\<not> prefix ?F ?n" using r by (metis compare_tree_zero_iff less_irrefl)
    then have "?n \<notin> inst ?F" by (rule inst_empty_region [OF F])
    with 3 Cons.IH [OF sub _ Cons.prems(3), of ?r out] Cons.prems(2) show ?thesis
      by (auto simp: exact_result_def tps_Cons insts_Cons Let_def split: scan.splits)
  qed
qed

lemma scan_trees_exact:
  assumes "set (paths us) \<subseteq> set (paths ts)" "sorted_wrt region_lt (map fst (paths us))"
    and "sorted_wrt region_lt (map t_name us)" "ok m" "namelen \<le> length name"
  shows "exact_result (paths us) (take namelen name) (scan_trees True us name namelen out m)"
  using assms
proof (induction us arbitrary: name namelen out m)
  case Nil
  then show ?case by (simp add: exact_result_def paths_def insts_def)
next
  case (Cons t us)
  let ?n = "take namelen name" and ?ps = "tps (t_name t) (t_variables t)" and ?tn = "t_name t"
  have sub: "set ?ps \<subseteq> set (paths ts)" "set (paths us) \<subseteq> set (paths ts)"
    using Cons.prems(1) by (auto simp: paths_tps)
  have srt: "sorted_wrt region_lt (map fst ?ps)" "sorted_wrt region_lt (map fst (paths us))"
    "sorted_wrt region_lt (map t_name us)"
    using Cons.prems(2,3) by (auto simp: paths_tps sorted_wrt_append)
  have srt': "sorted_wrt region_lt (map vname (t_variables t))"
    using srt(1) by (simp add: tps_def sorted_wrt_map)
  show ?case
  proof (cases "compare_tree ?n ?tn = 0")
    case True
    then have p: "prefix ?tn ?n" by (simp add: compare_tree_zero_iff)
    have "\<not> prefix F ?n" if F: "(F, v) \<in> set (paths us)" for F v
    proof
      assume "prefix F ?n"
      moreover obtain u where u: "u \<in> set us" "prefix (t_name u) F" using F by (auto simp: paths_def)
      ultimately have "prefix (t_name u) ?n" by (blast intro: prefix_order.trans)
      moreover have "region_lt ?tn (t_name u)" using Cons.prems(3) u(1) by simp
      ultimately show False using region_ltD [OF _ p] by blast
    qed
    then have no: "?n \<notin> insts (paths us)" using insts_none [OF sub(2)] by blast
    have "?n = ?tn @ take (namelen - length ?tn) (drop (length ?tn) name)"
      using p by (metis append_eq_conv_conj drop_take prefix_def)
    then have er: "exact_result ?ps ?n (scan_vars True ?tn (namelen - length ?tn) 0 (t_variables t) name namelen out m)"
      (is "exact_result ?ps ?n ?r")
      using scan_vars_exact [OF sub(1) srt' Cons.prems(4) _ Cons.prems(5)] by blast
    show ?thesis
    proof (cases ?r)
      case (Miss name' k' out' m')
      with er have h: "?n \<notin> insts ?ps" "take k' name' = ?n" "k' \<le> length name'" "ok m'"
        by (simp_all add: exact_result_def)
      have "exact_result (paths us) (take k' name') (scan_trees True us name' k' out' m')"
        using Cons.IH [OF sub(2) srt(2,3) h(4,3)] .
      with h(1,2) True Miss show ?thesis
        by (simp add: exact_result_def paths_tps Let_def split: scan.splits)
    qed (use er True no in \<open>simp_all add: exact_result_def paths_tps Let_def\<close>)
  next
    case False
    then have "\<not> prefix ?tn ?n" by (simp add: compare_tree_zero_iff)
    then have "\<not> prefix F ?n" if "(F, v) \<in> set ?ps" for F v using that by (auto simp: tps_def dest: append_prefixD)
    then have "?n \<notin> insts ?ps" using insts_none [OF sub(1)] by blast
    with False Cons.IH [OF sub(2) srt(2,3) Cons.prems(4,5), of out] show ?thesis
      by (auto simp: exact_result_def paths_tps Let_def split: scan.splits)
  qed
qed

lemma getStatPtr_exact:
  assumes "ok m" "namelen \<le> length name" "view \<noteq> 0"
    and "getStatPtr trap ts name namelen True view out m = (access, name', namelen', out', m')"
  shows "(access \<noteq> None \<longleftrightarrow> take namelen name \<in> insts (paths ts)) \<and> take namelen' name' = take namelen name"
proof -
  have "exact_result (paths ts) (take namelen name) (scan_trees True ts name namelen (out\<lparr>o_write := None\<rparr>) m)"
    using scan_trees_exact [OF subset_refl _ _ assms(1,2)] wf by (simp add: wf_mib_def)
  then show ?thesis
    using assms(3,4) by (auto simp: getStatPtr_def exact_result_def split: scan.splits)
qed

end

end
