(* ===== verification/Snmp_State.thy ===== *)
theory Snmp_State
  imports Mib_Search Prnport
begin

text \<open>
  The state of the SNMP agent: the globals of \<open>snmpvars.c\<close>, \<open>snmpaget.c\<close> and \<open>snmp_api.c\<close> under
  \<open>src/apps/snmp/src\<close>, and the fields of \<open>EEPROM_Data\<close> (\<open>src/apps/ps/common/incl/eeprom.h\<close>) that the
  agent reads or writes.

  Character arrays are byte lists; \<open>cstring\<close> is the C string in such an array. The target is
  little-endian. An entry of \<open>SnmpCommunityAuth\<close> is an index into \<open>SnmpCommunityAuthName\<close>, for the
  pointer into the EEPROM data, and the access mode. \<open>net_ok\<close> and \<open>heap_ok\<close> say whether \<open>sendto\<close> and
  \<open>calloc\<close> succeed; \<open>live_pdus\<close> counts the PDUs allocated and not freed. \<open>kstat\<close> are the counters of the TCP/IP stack and the packet driver, one per group
  and magic number. \<open>junk_*\<close> is what uninitialised locals and memory outside an array happen to
  hold; nothing is assumed about it. \<open>WriteToEEPROM\<close> copies \<open>EEPROM_Data\<close> to \<open>flash\<close>; its failure,
  which stops the device in \<open>LightOnForever\<close>, is not modelled.
\<close>

datatype kgroup = K_if | K_ip | K_icmp | K_tcp | K_udp | K_ipx

record eeprom_data =
  BoxName :: "u8 list"
  Password :: "u8 list"
  PrintServerMode :: u8
  PrintServerName :: "u8 list"
  NDSTreeName :: "u8 list"
  NDSContext :: "u8 list"
  BoxIPAddress :: "u8 list"
  SubNetMask :: "u8 list"
  GetwayAddress :: "u8 list"
  SnmpSysContact :: "u8 list"
  SnmpSysLocation :: "u8 list"
  SnmpCommunityAuthName :: "u8 list list"
  SnmpTrapEnable :: u8
  SnmpAuthenTrap :: u8
  SnmpComm0AccessMode :: u8
  SnmpComm1AccessMode :: u8
  SnmpTrapTargetIP :: "u8 list list"
  ATZoneName :: "u8 list"
  ATPortType :: "u8 list list"

text \<open>What the agent does to the rest of the system: a trap sent to an address, an answer sent, the
  network restarted with the configured address, the device reset.\<close>

datatype event = SentTrap "u8 list" "u8 list" | SentPacket "u8 list" | UseEEPROMIP | Reset

record agent =
  ee :: eeprom_data
  flash :: eeprom_data
  Hostname :: "u8 list"
  prn :: psys
  kstat :: "kgroup \<Rightarrow> u8 \<Rightarrow> u32"
  msclock :: u32
  MyPhysNodeAddress :: "u8 list"
  long_return :: u32
  return_buf :: "u8 list"
  JetPort :: u8
  PSMode2 :: u8
  SnmpCommunityAuth :: "(nat \<times> u8) list"
  community :: "u8 list"
  community_len :: int
  session_access :: u8
  Snmp_Change_IP :: u8
  Snmp_WriteDataTo_EEPROM :: u8
  Snmp_Restart :: u8
  UsingSoftwareReset :: u8
  Snmp_PJLStatus :: u8
  Snmp_JobTimeOut :: u32
  Snmp_ScanTimeOut :: u32
  Snmp_PortDesiredMode :: u32
  Snmp_PortHandshanking :: u32
  Snmp_ProtocolSet :: u32
  Snmp_StatusPageLanguage :: u32
  Snmp_PrintStatusPage :: u32
  Snmp_ErrorBehavior :: u32
  Snmp_IdelTimeOut :: u32
  Reqid :: u32
  InitTrapSession :: u8
  live_pdus :: nat
  net_ok :: bool
  heap_ok :: bool
  stats :: "string \<Rightarrow> u32"
  events :: "event list"
  junk_buf :: "u8 list"
  junk_size :: int
  junk_data :: u32
  junk_status :: "nat \<Rightarrow> u8"
  junk_str :: "nat \<Rightarrow> u8 list"

section \<open>Constants\<close>

definition INTEGER :: u8 where "INTEGER = 0x02"
definition ASN_BIT_STRING :: u8 where "ASN_BIT_STRING = 0x03"
definition STRING :: u8 where "STRING = 0x04"
definition ASN_NULL :: u8 where "ASN_NULL = 0x05"
definition OBJID :: u8 where "OBJID = 0x06"
definition IPADDRESS :: u8 where "IPADDRESS = 0x40"
definition COUNTER :: u8 where "COUNTER = 0x41"
definition GAUGE :: u8 where "GAUGE = 0x42"
definition TIMETICKS :: u8 where "TIMETICKS = 0x43"
definition OPAQUE :: u8 where "OPAQUE = 0x44"
definition NSAP :: u8 where "NSAP = 0x45"
definition UINTEGER :: u8 where "UINTEGER = 0x47"
definition SEQUENCE :: u8 where "SEQUENCE = 0x30"
definition RONLY :: u16 where "RONLY = 0xAAAA"
definition RWRITE :: u16 where "RWRITE = 0xAABA"

lemmas asn_types = INTEGER_def ASN_BIT_STRING_def STRING_def ASN_NULL_def OBJID_def IPADDRESS_def COUNTER_def
  GAUGE_def TIMETICKS_def OPAQUE_def NSAP_def UINTEGER_def SEQUENCE_def

definition SNMP_ERR_NOERROR :: int where "SNMP_ERR_NOERROR = 0"
definition SNMP_ERR_TOOBIG :: int where "SNMP_ERR_TOOBIG = 1"
definition SNMP_ERR_NOSUCHNAME :: int where "SNMP_ERR_NOSUCHNAME = 2"
definition SNMP_ERR_BADVALUE :: int where "SNMP_ERR_BADVALUE = 3"
definition SNMP_ERR_READONLY :: int where "SNMP_ERR_READONLY = 4"
definition SNMP_ERR_GENERR :: int where "SNMP_ERR_GENERR = 5"
definition SNMP_ERR_NOACCESS :: int where "SNMP_ERR_NOACCESS = 6"
definition SNMP_ERR_WRONGTYPE :: int where "SNMP_ERR_WRONGTYPE = 7"
definition SNMP_ERR_WRONGLENGTH :: int where "SNMP_ERR_WRONGLENGTH = 8"
definition SNMP_ERR_WRONGENCODING :: int where "SNMP_ERR_WRONGENCODING = 9"
definition SNMP_ERR_WRONGVALUE :: int where "SNMP_ERR_WRONGVALUE = 10"
definition SNMP_ERR_NOCREATION :: int where "SNMP_ERR_NOCREATION = 11"
definition SNMP_ERR_INCONSISTENTVALUE :: int where "SNMP_ERR_INCONSISTENTVALUE = 12"
definition SNMP_ERR_AUTHORIZATIONERROR :: int where "SNMP_ERR_AUTHORIZATIONERROR = 16"
definition SNMP_ERR_NOTWRITABLE :: int where "SNMP_ERR_NOTWRITABLE = 17"
definition SNMP_ERR_INCONSISTENTNAME :: int where "SNMP_ERR_INCONSISTENTNAME = 18"

lemmas snmp_errs = SNMP_ERR_NOERROR_def SNMP_ERR_TOOBIG_def SNMP_ERR_NOSUCHNAME_def SNMP_ERR_BADVALUE_def
  SNMP_ERR_READONLY_def SNMP_ERR_GENERR_def SNMP_ERR_NOACCESS_def SNMP_ERR_WRONGTYPE_def
  SNMP_ERR_WRONGLENGTH_def SNMP_ERR_WRONGENCODING_def SNMP_ERR_WRONGVALUE_def SNMP_ERR_NOCREATION_def
  SNMP_ERR_INCONSISTENTVALUE_def SNMP_ERR_AUTHORIZATIONERROR_def SNMP_ERR_NOTWRITABLE_def
  SNMP_ERR_INCONSISTENTNAME_def

definition COMMIT :: int where "COMMIT = 2"
definition SNMP_TRAP_ENABLE :: u8 where "SNMP_TRAP_ENABLE = 1"
definition SNMP_TRAP_AUTH_ENABLE :: u8 where "SNMP_TRAP_AUTH_ENABLE = 1"
definition SNMP_TRAP_AUTHFAIL :: int where "SNMP_TRAP_AUTHFAIL = 4"
definition PS_DHCP_ON :: u8 where "PS_DHCP_ON = 0x80"
definition PS_WEBJETADMIN_ON :: u8 where "PS_WEBJETADMIN_ON = 0x04"
definition SETUP_PASSWD_LEN :: nat where "SETUP_PASSWD_LEN = 8"
definition SNMP_SYSCONTACT_LEN :: nat where "SNMP_SYSCONTACT_LEN = 16"
definition SNMP_SYSLOCATION_LEN :: nat where "SNMP_SYSLOCATION_LEN = 25"
definition SNMP_SYS_MAX_RW_LEN :: nat where "SNMP_SYS_MAX_RW_LEN = 30"
definition ATALK_ZONE_LEN :: nat where "ATALK_ZONE_LEN = 33"
definition NDS_TREE_LEN :: nat where "NDS_TREE_LEN = 33"
definition SNMP_PRINTSERVER_NAME_LEN :: nat where "SNMP_PRINTSERVER_NAME_LEN = 48"
definition DEFAULT_MAX_MTU :: u32 where "DEFAULT_MAX_MTU = 1500"
definition STATUSBYTES :: u32 where "STATUSBYTES = 19"

lemmas snmp_consts = COMMIT_def SNMP_TRAP_ENABLE_def SNMP_TRAP_AUTH_ENABLE_def SNMP_TRAP_AUTHFAIL_def
  PS_DHCP_ON_def PS_WEBJETADMIN_ON_def LENGTH_OF_BOX_NAME_def SETUP_PASSWD_LEN_def SNMP_SYSCONTACT_LEN_def
  SNMP_SYSLOCATION_LEN_def SNMP_SYS_MAX_RW_LEN_def ATALK_ZONE_LEN_def NDS_TREE_LEN_def
  SNMP_PRINTSERVER_NAME_LEN_def DEFAULT_MAX_MTU_def STATUSBYTES_def SNMP_MAX_STRING_def

definition SnmpVersionID :: oid where "SnmpVersionID = [1, 3, 6, 1, 4, 1, 11, 2, 3, 9, 1]"

definition version_descr :: "u8 list" where
  "version_descr = cstr ''ETHERNET MULTI_ENVIRONMENT,ROM H_07_19,JETDIRECT EX,JD28,EEPROM 3.51''"

section \<open>Memory\<close>

definition cstring :: "u8 list \<Rightarrow> u8 list" where
  "cstring a = takeWhile (\<lambda>c. c \<noteq> 0) a"

text \<open>A \<open>long\<close> and an \<open>oid\<close> array in memory.\<close>

definition long_bytes :: "u32 \<Rightarrow> u8 list" where
  "long_bytes v = [ucast v, ucast (drop_bit 8 v), ucast (drop_bit 16 v), ucast (drop_bit 24 v)]"

definition long_of :: "u8 list \<Rightarrow> u32" where
  "long_of bs = foldr (\<lambda>b v. push_bit 8 v OR ucast b) (take 4 bs) 0"

fun oid_bytes :: "oid \<Rightarrow> u8 list" where
  "oid_bytes [] = []"
| "oid_bytes (x # xs) = ucast x # ucast (drop_bit 8 x) # oid_bytes xs"

fun oid_of :: "u8 list \<Rightarrow> oid" where
  "oid_of (a # b # bs) = (push_bit 8 (ucast b) OR ucast a) # oid_of bs"
| "oid_of bs = []"

lemma oid_of_oid_bytes [simp]: "oid_of (oid_bytes xs) = xs"
proof (induction xs)
  case (Cons x xs)
  have "push_bit 8 (ucast (ucast (drop_bit 8 x) :: u8)) OR ucast (ucast x :: u8) = x"
    by (rule bit_word_eqI) (auto simp: bit_simps)
  with Cons show ?case by simp
qed simp

lemma long_of_long_bytes [simp]: "long_of (long_bytes v) = v"
proof (rule bit_word_eqI)
  fix n
  assume "n < LENGTH(32)"
  then consider "n < 8" | "8 \<le> n" "n < 16" | "16 \<le> n" "n < 24" | "24 \<le> n" "n < 32" by fastforce
  then show "bit (long_of (long_bytes v)) n = bit v n"
    by cases (auto simp: long_of_def long_bytes_def bit_simps)
qed

lemma length_long_bytes [simp]: "length (long_bytes v) = 4"
  by (simp add: long_bytes_def)

text \<open>\<open>WriteToEEPROM(&EEPROM_Data)\<close>\<close>

definition WriteToEEPROM :: "agent \<Rightarrow> agent" where
  "WriteToEEPROM m = m\<lparr>flash := ee m\<rparr>"

definition count :: "string \<Rightarrow> agent \<Rightarrow> agent" where
  "count c m = m\<lparr>stats := (stats m)(c := stats m c + 1)\<rparr>"

section \<open>An example\<close>

text \<open>A device with the address 192.168.1.2, all counters zero and no printer.\<close>

definition example_ee :: eeprom_data where
  "example_ee = \<lparr>BoxName = replicate 18 0, Password = replicate 8 0, PrintServerMode = 0,
     PrintServerName = cstr ''PS1'' @ replicate 45 0, NDSTreeName = replicate 33 0, NDSContext = replicate 251 0,
     BoxIPAddress = [192, 168, 1, 2], SubNetMask = [255, 255, 255, 0], GetwayAddress = [192, 168, 1, 1],
     SnmpSysContact = replicate 16 0, SnmpSysLocation = replicate 25 0,
     SnmpCommunityAuthName = [cstr ''public'' @ replicate 7 0, cstr ''private'' @ replicate 6 0],
     SnmpTrapEnable = 1, SnmpAuthenTrap = 1, SnmpComm0AccessMode = 1, SnmpComm1AccessMode = 3,
     SnmpTrapTargetIP = [[192, 168, 1, 9], [0, 0, 0, 0]], ATZoneName = replicate 33 0,
     ATPortType = replicate 3 (replicate 21 0)\<rparr>"

definition example_agent :: agent where
  "example_agent = \<lparr>ee = example_ee, flash = example_ee, Hostname = replicate 32 0,
     prn = \<lparr>sp = spool_static, PortType = replicate NUM_OF_PRN_PORT 0, adjPortType = replicate NUM_OF_PRN_PORT 0,
       Printing_StartNum = [], Printing_MarkNum = [], PNW_Statu = [], st_time = 0, IS_SHARP_AR_M207 = False, lost = []\<rparr>,
     kstat = (\<lambda>_ _. 0), msclock = 0, MyPhysNodeAddress = [0, 1, 2, 3, 4, 5], long_return = 0,
     return_buf = replicate 512 0, JetPort = 1, PSMode2 = 0, SnmpCommunityAuth = [(0, 1), (1, 3)],
     community = replicate 81 0, community_len = 0, session_access = 0, Snmp_Change_IP = 0,
     Snmp_WriteDataTo_EEPROM = 0, Snmp_Restart = 0, UsingSoftwareReset = 0, Snmp_PJLStatus = 0,
     Snmp_JobTimeOut = 0, Snmp_ScanTimeOut = 0, Snmp_PortDesiredMode = 0, Snmp_PortHandshanking = 0,
     Snmp_ProtocolSet = 0, Snmp_StatusPageLanguage = 0, Snmp_PrintStatusPage = 0, Snmp_ErrorBehavior = 0,
     Snmp_IdelTimeOut = 0, Reqid = 0, InitTrapSession = 0, live_pdus = 0, net_ok = True, heap_ok = True, stats = (\<lambda>_. 0),
     events = [], junk_buf = replicate 512 0, junk_size = 0, junk_data = 0, junk_status = (\<lambda>_. 0),
     junk_str = (\<lambda>_. [])\<rparr>"

lemmas example_defs = example_ee_def example_agent_def

end
