(* ===== verification/Mib_Vars.thy ===== *)
theory Mib_Vars
  imports Snmp_State
begin

text \<open>
  The \<open>findVar\<close> functions of \<open>src/apps/snmp/src/snmpvars.c\<close> and the helpers of \<open>snmp_api.c\<close> that
  they call, with \<open>WEBADMIN\<close> and \<open>DEF_IEEE1284\<close> defined and one printer port.

  All functions for single variables begin alike: the variable's instance is its name followed by
  0, and nothing is found when the requested name is another one (or not before it, for GETNEXT);
  otherwise the name is overwritten and a \<open>switch\<close> on the magic number selects the value.
  \<open>scalar_find\<close> is that beginning, and each \<open>ans_*\<close> one of the \<open>switch\<close> statements. Many of them
  return NULL after the name was overwritten.
\<close>

section \<open>Answers\<close>

type_synonym answer = "(u8 list \<times> (u8 list \<Rightarrow> agent \<Rightarrow> agent)) option \<times> agent write_fun option \<times> agent"

definition store_long :: "u8 list \<Rightarrow> agent \<Rightarrow> agent" where
  "store_long bs m = m\<lparr>long_return := long_of bs\<rparr>"

definition store_buf :: "u8 list \<Rightarrow> agent \<Rightarrow> agent" where
  "store_buf bs m = m\<lparr>return_buf := overwrite (return_buf m) 0 bs\<rparr>"

definition ret_null :: "agent \<Rightarrow> answer" where
  "ret_null m = (None, None, m)"

text \<open>\<open>long_return = v; return &long_return;\<close> with \<open>*write_method = w\<close>\<close>

definition ret_long :: "u32 \<Rightarrow> agent write_fun option \<Rightarrow> agent \<Rightarrow> answer" where
  "ret_long v w m = (let m' = m\<lparr>long_return := v\<rparr> in (Some (long_bytes v, store_long), w, m'))"

text \<open>\<open>return &long_return;\<close> without an assignment\<close>

definition ret_stale_long :: "agent \<Rightarrow> answer" where
  "ret_stale_long m = (Some (long_bytes (long_return m), store_long), None, m)"

text \<open>\<open>return return_buf;\<close> with the new contents of the buffer and \<open>*var_len = n\<close>\<close>

definition ret_buf :: "u8 list \<Rightarrow> nat \<Rightarrow> agent write_fun option \<Rightarrow> agent \<Rightarrow> answer" where
  "ret_buf b n w m = (Some (take n b, store_buf), w, m\<lparr>return_buf := b\<rparr>)"

text \<open>\<open>strcpy(return_buf, s); *var_len = strlen(return_buf);\<close>\<close>

definition ret_str :: "u8 list \<Rightarrow> agent write_fun option \<Rightarrow> agent \<Rightarrow> answer" where
  "ret_str s w m = ret_buf (overwrite (return_buf m) 0 (s @ [0])) (length s) w m"

definition kernel :: "kgroup \<Rightarrow> u8 \<Rightarrow> agent \<Rightarrow> answer" where
  "kernel g c m = (Some (long_bytes (kstat m g c),
     \<lambda>bs m. m\<lparr>kstat := (kstat m)(g := (kstat m g)(c := long_of bs))\<rparr>), None, m)"

section \<open>The beginning of the functions for single variables\<close>

definition newname_at :: "nat \<Rightarrow> oid \<Rightarrow> oid" where
  "newname_at k vn = take (length vn + 1) ((vn @ replicate (32 - length vn) 0)[k := 0])"

definition not_found :: "oid \<Rightarrow> agent \<Rightarrow> agent found" where
  "not_found name m = \<lparr>f_name = name, f_access = None, f_write = None, f_state = m\<rparr>"

definition found_at :: "oid \<Rightarrow> answer \<Rightarrow> agent found" where
  "found_at name r = (case r of (a, w, m) \<Rightarrow> \<lparr>f_name = name, f_access = a, f_write = w, f_state = m\<rparr>)"

definition scalar_find :: "nat \<Rightarrow> (u8 \<Rightarrow> agent \<Rightarrow> answer) \<Rightarrow> agent find_fun" where
  "scalar_find k ans vn mg name exact m =
     (let newname = newname_at k vn;
          result = compare name newname
      in if (exact \<and> result \<noteq> 0) \<or> (\<not> exact \<and> result \<ge> 0) then not_found name m
         else found_at newname (ans mg m))"

section \<open>Printer status (\<open>snmp_api.c\<close>)\<close>

text \<open>A port number beyond the last port reads outside the arrays.\<close>

definition snmp_ReadPrintStatus :: "nat \<Rightarrow> agent \<Rightarrow> u8 \<times> agent" where
  "snmp_ReadPrintStatus port m =
     (if NUM_OF_PRN_PORT \<le> port then (junk_status m port, m)
      else if RealPortStatus port (sp (prn m)) = 0x7F then (PORT_OFF_LINE, m)
      else (case ReadPrintStatus (sp (prn m)) of
              (PrintStatus, s) \<Rightarrow>
                (let m' = m\<lparr>prn := (prn m)\<lparr>sp := s\<rparr>\<rparr>
                 in (if adjPortType (prn m') ! port = PORT_PAPER_OUT then PORT_PAPER_OUT
                     else drop_bit (2 * port) PrintStatus AND 3, m'))))"

definition status_text :: "u8 \<Rightarrow> u8 list" where
  "status_text st =
     (if st = PORT_READY then cstr ''READY'' else if st = PORT_PAPER_OUT then cstr ''PAPER OUT''
      else if st = PORT_OFF_LINE then cstr ''OFF LINE'' else if st = PORT_PRINTING then cstr ''PRINTING''
      else [])"

definition snmp_ReadCardAndPeripheralStatus :: "nat \<Rightarrow> agent \<Rightarrow> u8 list \<times> agent" where
  "snmp_ReadCardAndPeripheralStatus port m =
     (case snmp_ReadPrintStatus port m of (st, m') \<Rightarrow> (status_text st, m'))"

definition ReadDataFromFrontPanel :: "nat \<Rightarrow> agent \<Rightarrow> u8 list \<times> agent" where
  "ReadDataFromFrontPanel port m = snmp_ReadCardAndPeripheralStatus port m"

definition ReadPrintModelAndID :: "u8 list \<Rightarrow> nat \<Rightarrow> agent \<Rightarrow> u8 list" where
  "ReadPrintModelAndID b port m =
     (if NUM_OF_PRN_PORT \<le> port then junk_str m port else PrnDeviceInfo b (PortIO (sp (prn m)) ! port))"

definition snmp_GetCfgSource :: "agent \<Rightarrow> u32" where
  "snmp_GetCfgSource m = (if PrintServerMode (ee m) AND PS_DHCP_ON \<noteq> 0 then 5 else 3)"

definition snmp_SetCfgSource :: "u32 \<Rightarrow> agent \<Rightarrow> agent" where
  "snmp_SetCfgSource v m =
     (if v = 5 \<or> v = 4 then m\<lparr>ee := (ee m)\<lparr>PrintServerMode := PrintServerMode (ee m) OR PS_DHCP_ON\<rparr>\<rparr>
      else if v = 1 \<or> v = 3 then m\<lparr>ee := (ee m)\<lparr>PrintServerMode := PrintServerMode (ee m) AND NOT PS_DHCP_ON\<rparr>\<rparr>
      else m)"

definition snmp_SetProtocol :: u32 where "snmp_SetProtocol = 1140850714"

text \<open>The length of an \<open>INTEGER\<close> is compared with \<open>sizeof(long)\<close> as an unsigned number.\<close>

definition snmp_CheckValueType :: "u8 \<Rightarrow> int \<Rightarrow> int" where
  "snmp_CheckValueType ty n =
     (if ty = STRING then (if n > int SNMP_MAX_STRING then SNMP_ERR_WRONGLENGTH else SNMP_ERR_NOERROR)
      else if ty = INTEGER then (if u32_of n > 4 then SNMP_ERR_WRONGLENGTH else SNMP_ERR_NOERROR)
      else if ty = IPADDRESS \<or> ty = COUNTER then (if n > 4 then SNMP_ERR_WRONGLENGTH else SNMP_ERR_NOERROR)
      else SNMP_ERR_WRONGTYPE)"

end
