(* ===== verification/Mib_Write.thy ===== *)
theory Mib_Write
  imports Mib_Vars
begin

text \<open>
  The write methods of \<open>src/apps/snmp/src/snmpvars.c\<close>: \<open>writeSystem\<close>, \<open>EnableAuthenTraps\<close>,
  \<open>writeDeviceMib\<close> and \<open>writeNpCardMib\<close>.

  Each parses the value again from the message, at \<open>pos\<close>. A failed parse leaves the local variables
  as they were, uninitialised. \<open>Inl OutOfBounds\<close> is an access outside an array, or a \<open>memcpy\<close> with
  a negative length.
\<close>

definition isprint :: "u8 \<Rightarrow> bool" where
  "isprint c \<longleftrightarrow> 0x20 \<le> c \<and> c \<le> 0x7E"

text \<open>\<open>snmpInASNParseErrs++\<close> inside a failed parser\<close>

definition perr :: "asn_error \<Rightarrow> agent \<Rightarrow> agent" where
  "perr e m = (if e = ParseErr then count ''snmp_inasnparseerrors'' m else m)"

text \<open>\<open>size = sizeof(buf); asn_parse_string(var_val, &bigsize, &var_val_type, buf, &size);\<close>\<close>

definition read_string :: "nat \<Rightarrow> u8 list \<Rightarrow> nat \<Rightarrow> agent \<Rightarrow> asn_error + (u8 list \<times> nat \<times> agent)" where
  "read_string cap mem pos m =
     (case asn_parse_string mem pos 1000 (int cap) of
        Inr (ty, s, p, dl) \<Rightarrow> Inr (overwrite (take cap (junk_buf m)) 0 s, length s, m)
      | Inl e \<Rightarrow> if e = OutOfBounds then Inl e else Inr (take cap (junk_buf m), cap, perr e m))"

definition strcpy_into :: "nat \<Rightarrow> u8 list \<Rightarrow> u8 list \<Rightarrow> asn_error + u8 list" where
  "strcpy_into cap arr s =
     (if length s + 1 \<le> cap then Inr (overwrite arr 0 (s @ [0])) else Inl OutOfBounds)"

section \<open>The system group\<close>

definition sys_check :: "u8 \<Rightarrow> nat \<Rightarrow> int" where
  "sys_check k sz =
     (if k = 4 then (if sz \<ge> SNMP_SYSCONTACT_LEN then SNMP_ERR_WRONGLENGTH else SNMP_ERR_NOERROR)
      else if k = 5 then (if sz > LENGTH_OF_BOX_NAME then SNMP_ERR_WRONGLENGTH else SNMP_ERR_NOERROR)
      else if k = 6 then (if sz \<ge> SNMP_SYSLOCATION_LEN then SNMP_ERR_WRONGLENGTH else SNMP_ERR_NOERROR)
      else SNMP_ERR_NOSUCHNAME)"

definition sys_commit :: "u8 \<Rightarrow> u8 list \<Rightarrow> agent \<Rightarrow> agent" where
  "sys_commit k s m =
     WriteToEEPROM
      (if k = 4 then m\<lparr>ee := (ee m)\<lparr>SnmpSysContact := overwrite (SnmpSysContact (ee m)) 0 s\<rparr>\<rparr>
       else if k = 5 then (let h = overwrite (Hostname m) 0 s
                           in m\<lparr>Hostname := h, ee := (ee m)\<lparr>BoxName := take LENGTH_OF_BOX_NAME h\<rparr>\<rparr>)
       else m\<lparr>ee := (ee m)\<lparr>SnmpSysLocation := overwrite (SnmpSysLocation (ee m)) 0 s\<rparr>\<rparr>)"

definition writeSystem :: "agent write_fun" where
  "writeSystem action mem pos ty n name m =
     (if ty \<noteq> STRING then Inr (SNMP_ERR_WRONGTYPE, m)
      else if n > int SNMP_SYS_MAX_RW_LEN then Inr (SNMP_ERR_WRONGLENGTH, m)
      else bindE (read_string (SNMP_SYS_MAX_RW_LEN + 1) mem pos m) (\<lambda>(b, sz, m1).
        if list_ex (\<lambda>c. \<not> isprint c) (take sz b) then Inr (SNMP_ERR_WRONGVALUE, m1)
        else if sz \<ge> SNMP_SYS_MAX_RW_LEN + 1 then Inl OutOfBounds
        else let k = ucast (name ! 7); e = sys_check k sz
             in if e \<noteq> SNMP_ERR_NOERROR then Inr (e, m1)
                else if action = COMMIT then Inr (SNMP_ERR_NOERROR, sys_commit k (take sz b @ [0]) m1)
                else Inr (SNMP_ERR_NOERROR, m1)))"

section \<open>The SNMP group\<close>

definition EnableAuthenTraps :: "agent write_fun" where
  "EnableAuthenTraps action mem pos ty n name m =
     (if ty \<noteq> INTEGER then Inr (SNMP_ERR_WRONGTYPE, m)
      else if u32_of n > 4 then Inr (SNMP_ERR_WRONGLENGTH, m)
      else case asn_parse_int mem pos 100 sizeof_long of
             Inl OutOfBounds \<Rightarrow> Inl OutOfBounds
           | r \<Rightarrow>
               (let v = (case r of Inr (ty', v, p, dl) \<Rightarrow> v | Inl e \<Rightarrow> junk_data m);
                    m1 = (case r of Inr x \<Rightarrow> m | Inl e \<Rightarrow> perr e m)
                in if v \<noteq> 1 \<and> v \<noteq> 2 then Inr (SNMP_ERR_WRONGVALUE, m1)
                   else if action = COMMIT
                   then Inr (SNMP_ERR_NOERROR, WriteToEEPROM (m1\<lparr>ee := (ee m1)\<lparr>SnmpAuthenTrap := ucast v\<rparr>\<rparr>))
                   else Inr (SNMP_ERR_NOERROR, m1)))"

section \<open>The enterprise groups\<close>

text \<open>
  The values of \<open>data\<close>, \<open>size\<close> and \<open>buf\<close> after the first \<open>switch\<close> of \<open>writeDeviceMib\<close> and
  \<open>writeNpCardMib\<close>; \<open>ip\<close> tells whether an \<open>IPADDRESS\<close> is parsed like a string. Of other types
  nothing is parsed.
\<close>

definition read_value ::
  "bool \<Rightarrow> u8 list \<Rightarrow> nat \<Rightarrow> u8 \<Rightarrow> agent \<Rightarrow> asn_error + (u32 \<times> int \<times> u8 list \<times> agent)" where
  "read_value ip mem pos ty m =
     (if ty = INTEGER
      then (case asn_parse_int mem pos 1000 sizeof_long of
              Inr (ty', v, p, dl) \<Rightarrow> Inr (v, sizeof_long, junk_buf m, m)
            | Inl e \<Rightarrow> if e = OutOfBounds then Inl e else Inr (junk_data m, sizeof_long, junk_buf m, perr e m))
      else if ty = STRING \<or> (ip \<and> ty = IPADDRESS)
      then bindE (read_string SNMP_MAX_STRING mem pos m) (\<lambda>(b, sz, m1).
             if sz \<ge> SNMP_MAX_STRING then Inl OutOfBounds
             else Inr (junk_data m, int sz, b[sz := 0], m1))
      else Inr (junk_data m, junk_size m, junk_buf m, m))"

definition set_password :: "u8 list \<Rightarrow> agent \<Rightarrow> asn_error + agent" where
  "set_password b m =
     (let NameLen = int (length (cstring b)); pw = Password (ee m)
      in bindE (if NameLen \<noteq> 0
                then if NameLen - 5 \<ge> 8 then Inr (overwrite pw 0 (take 8 b))
                     else if NameLen - 5 < 0 then Inl OutOfBounds
                     else Inr (overwrite pw 0 (take (nat (NameLen - 5)) b @ [0]))
                else Inr (overwrite pw 0 [0])) (\<lambda>pw'.
           Inr (m\<lparr>ee := (ee m)\<lparr>Password := pw'\<rparr>, Snmp_WriteDataTo_EEPROM := 1\<rparr>)))"

definition dev_check :: "u8 \<Rightarrow> int \<Rightarrow> int" where
  "dev_check k sz =
     (if k = 10 \<or> k = 11 then SNMP_ERR_NOERROR
      else if k = 13 then (if sz > int SNMP_MAX_STRING then SNMP_ERR_WRONGLENGTH else SNMP_ERR_NOERROR)
      else if k = 18 then (if sz > int ATALK_ZONE_LEN then SNMP_ERR_WRONGLENGTH else SNMP_ERR_NOERROR)
      else SNMP_ERR_NOSUCHNAME)"

definition dev_commit :: "u8 \<Rightarrow> u32 \<Rightarrow> u8 list \<Rightarrow> agent \<Rightarrow> asn_error + agent" where
  "dev_commit k data b m =
     (if k = 10 then Inr (m\<lparr>Snmp_JobTimeOut := data\<rparr>)
      else if k = 11 then Inr (m\<lparr>Snmp_PJLStatus := ucast data\<rparr>)
      else if k = 13 then set_password b m
      else bindE (strcpy_into ATALK_ZONE_LEN (ATZoneName (ee m)) (cstring b)) (\<lambda>z.
             Inr (m\<lparr>ee := (ee m)\<lparr>ATZoneName := z\<rparr>, Snmp_WriteDataTo_EEPROM := 1\<rparr>)))"

definition writeDeviceMib :: "agent write_fun" where
  "writeDeviceMib action mem pos ty n name m =
     (let errcode = snmp_CheckValueType ty n
      in if errcode \<noteq> SNMP_ERR_NOERROR then Inr (errcode, m)
         else bindE (read_value False mem pos ty m) (\<lambda>(data, sz, b, m1).
           let k = ucast (name ! 12); e = dev_check k sz
           in if e \<noteq> SNMP_ERR_NOERROR then Inr (e, m1)
              else if action = COMMIT then bindE (dev_commit k data b m1) (\<lambda>m2. Inr (SNMP_ERR_NOERROR, m2))
              else Inr (SNMP_ERR_NOERROR, m1)))"

definition np_check :: "u8 \<Rightarrow> u8 \<Rightarrow> u8 \<Rightarrow> int \<Rightarrow> int" where
  "np_check g k j sz =
     (if g = 5
      then if k = 1 \<or> k = 10 then SNMP_ERR_NOERROR
           else if k = 2 \<or> k = 12 \<or> k = 13 then (if sz > 4 then SNMP_ERR_WRONGLENGTH else SNMP_ERR_NOERROR)
           else SNMP_ERR_NOSUCHNAME
      else if g = 7
      then if k = 9 \<or> k = 10 \<or> k = 11 \<or> k = 12 then SNMP_ERR_NOERROR else SNMP_ERR_NOSUCHNAME
      else if g = 10
      then if k = 8 then (if sz \<ge> int SNMP_PRINTSERVER_NAME_LEN then SNMP_ERR_WRONGLENGTH else SNMP_ERR_NOERROR)
           else if k = 9 then (if sz \<ge> int NDS_TREE_LEN then SNMP_ERR_WRONGLENGTH else SNMP_ERR_NOERROR)
           else if k = 10 then (if j = 1 \<and> sz \<ge> int SNMP_MAX_STRING then SNMP_ERR_WRONGLENGTH else SNMP_ERR_NOERROR)
           else if k = 16 then SNMP_ERR_NOERROR else SNMP_ERR_NOSUCHNAME
      else if g = 13
      then if k = 3 \<or> k = 4 then SNMP_ERR_NOERROR else SNMP_ERR_NOSUCHNAME
      else if g = 17
      then if k = 1 then SNMP_ERR_NOERROR else SNMP_ERR_NOSUCHNAME
      else SNMP_ERR_NOERROR)"

text \<open>The loop that copies the NDS context out of the qualified name.\<close>

function nds_loop :: "u8 list \<Rightarrow> nat \<Rightarrow> nat \<Rightarrow> nat \<Rightarrow> u8 list \<Rightarrow> u8 list \<times> nat" where
  "nds_loop b NameLen index i ctx =
     (if index < NameLen
      then if b ! index = 0 then (ctx, i)
           else nds_loop b NameLen (index + 2) (i + 1) (ctx[i := b ! index])
      else (ctx, i))"
  by pat_completeness auto
termination by (relation "measure (\<lambda>(b, n, k, i, c). n - k)") auto

declare nds_loop.simps [simp del]

definition set_nds_context :: "u8 list \<Rightarrow> agent \<Rightarrow> agent" where
  "set_nds_context b m =
     (let NameLen = length (cstring (PrintServerName (ee m)));
          (ctx, i) = nds_loop b NameLen (10 + 2 * NameLen + 2) 0 (NDSContext (ee m))
      in m\<lparr>ee := (ee m)\<lparr>NDSContext := ctx[i := 0]\<rparr>, Snmp_WriteDataTo_EEPROM := 1\<rparr>)"

definition np_commit_cfg :: "u8 \<Rightarrow> u32 \<Rightarrow> u8 list \<Rightarrow> agent \<Rightarrow> agent" where
  "np_commit_cfg k data b m =
     (if k = 1 then (snmp_SetCfgSource data m)\<lparr>Snmp_WriteDataTo_EEPROM := 1\<rparr>
      else if k = 10 then m\<lparr>Snmp_IdelTimeOut := data\<rparr>
      else if k = 2 then m\<lparr>ee := (ee m)\<lparr>BoxIPAddress := take 4 b\<rparr>, Snmp_Change_IP := 1, Snmp_WriteDataTo_EEPROM := 1\<rparr>
      else if k = 12 then m\<lparr>ee := (ee m)\<lparr>SubNetMask := take 4 b\<rparr>, Snmp_WriteDataTo_EEPROM := 1\<rparr>
      else m\<lparr>ee := (ee m)\<lparr>GetwayAddress := take 4 b\<rparr>, Snmp_WriteDataTo_EEPROM := 1\<rparr>)"

definition np_commit_ipx :: "u8 \<Rightarrow> u8 \<Rightarrow> u32 \<Rightarrow> u8 list \<Rightarrow> agent \<Rightarrow> asn_error + agent" where
  "np_commit_ipx k j data b m =
     (if k = 8
      then bindE (strcpy_into SNMP_PRINTSERVER_NAME_LEN (PrintServerName (ee m)) (cstring b)) (\<lambda>z.
             Inr (m\<lparr>ee := (ee m)\<lparr>PrintServerName := z\<rparr>, Snmp_WriteDataTo_EEPROM := 1\<rparr>))
      else if k = 9
      then bindE (strcpy_into NDS_TREE_LEN (NDSTreeName (ee m)) (cstring b)) (\<lambda>z.
             Inr (m\<lparr>ee := (ee m)\<lparr>NDSTreeName := z\<rparr>, Snmp_WriteDataTo_EEPROM := 1\<rparr>))
      else if k = 10 then Inr (if j = 1 then set_nds_context b m else m)
      else Inr (m\<lparr>UsingSoftwareReset := ucast data, Snmp_Restart := 1\<rparr>))"

definition np_commit :: "u8 \<Rightarrow> u8 \<Rightarrow> u8 \<Rightarrow> u32 \<Rightarrow> u8 list \<Rightarrow> agent \<Rightarrow> asn_error + agent" where
  "np_commit g k j data b m =
     (if g = 5 then Inr (np_commit_cfg k data b m)
      else if g = 7
      then Inr (if k = 9 then m\<lparr>Snmp_ProtocolSet := data\<rparr>
                else if k = 10 then m\<lparr>Snmp_StatusPageLanguage := data\<rparr>
                else if k = 11 then m\<lparr>Snmp_PrintStatusPage := data\<rparr>
                else m\<lparr>Snmp_ErrorBehavior := data\<rparr>)
      else if g = 10 then np_commit_ipx k j data b m
      else if g = 13
      then Inr (if k = 3 then m\<lparr>Snmp_PortDesiredMode := data\<rparr> else m\<lparr>Snmp_PortHandshanking := data\<rparr>)
      else if g = 17 then Inr (m\<lparr>Snmp_ScanTimeOut := data\<rparr>)
      else Inr m)"

definition writeNpCardMib :: "agent write_fun" where
  "writeNpCardMib action mem pos ty n name m =
     (let errcode = snmp_CheckValueType ty n
      in if errcode \<noteq> SNMP_ERR_NOERROR then Inr (errcode, m)
         else bindE (read_value True mem pos ty m) (\<lambda>(data, sz, b, m1).
           let g = ucast (name ! 10); k = ucast (name ! 11); j = ucast (name ! 12); e = np_check g k j sz
           in if e \<noteq> SNMP_ERR_NOERROR then Inr (e, m1)
              else if action = COMMIT then bindE (np_commit g k j data b m1) (\<lambda>m2. Inr (SNMP_ERR_NOERROR, m2))
              else Inr (SNMP_ERR_NOERROR, m1)))"

end
