(* ===== verification/Mib_Handlers.thy ===== *)
theory Mib_Handlers
  imports Mib_Write
begin

text \<open>
  The \<open>findVar\<close> functions themselves, the variable tables and \<open>snmp_vars_init\<close> of
  \<open>src/apps/snmp/src/snmpvars.c\<close>. The branches under \<open>#if 0\<close> (the ARP table, TCP connections and
  UDP listeners) are absent from the program and from the model.
\<close>

section \<open>MIB-II\<close>

definition NGET32 :: "u8 list \<Rightarrow> u32" where
  "NGET32 bs = long_of bs"

definition store_sys :: "u8 \<Rightarrow> u8 list \<Rightarrow> agent \<Rightarrow> agent" where
  "store_sys k s m =
     (if k = 4 then m\<lparr>ee := (ee m)\<lparr>SnmpSysContact := overwrite (SnmpSysContact (ee m)) 0 s\<rparr>\<rparr>
      else if k = 5 then m\<lparr>Hostname := overwrite (Hostname m) 0 s\<rparr>
      else m\<lparr>ee := (ee m)\<lparr>SnmpSysLocation := overwrite (SnmpSysLocation (ee m)) 0 s\<rparr>\<rparr>)"

text \<open>Nothing is ever stored through the pointers to the two constant objects.\<close>

definition ans_system :: "u8 \<Rightarrow> agent \<Rightarrow> answer" where
  "ans_system mg m =
     (if mg = 0 then (Some (version_descr, \<lambda>bs m. m), None, m)
      else if mg = 1 then (Some (oid_bytes SnmpVersionID, \<lambda>bs m. m), None, m)
      else if mg = 3 \<or> mg = 8 then ret_long (msclock m div 10) None m
      else if mg = 2 then ret_long 1 None m
      else if mg = 4 then (Some (cstring (SnmpSysContact (ee m)), store_sys 4), Some writeSystem, m)
      else if mg = 5 then (Some (cstring (Hostname m), store_sys 5), Some writeSystem, m)
      else if mg = 6 then (Some (cstring (SnmpSysLocation (ee m)), store_sys 6), Some writeSystem, m)
      else if mg = 7 then ret_long 79 None m
      else ret_null m)"

definition var_system :: "agent find_fun" where
  "var_system = scalar_find 8 ans_system"

definition Interface_Scan_Get_Count :: nat where "Interface_Scan_Get_Count = 1"

definition ans_ifEntry :: "nat \<Rightarrow> u8 \<Rightarrow> agent \<Rightarrow> answer" where
  "ans_ifEntry interface mg m =
     (if mg = 1 then ret_long (of_nat interface) None m
      else if mg = 2 then (Some (cstr ''Ethernet'', \<lambda>bs m. m), None, m)
      else if mg = 3 then ret_long 6 None m
      else if mg = 4 then ret_long DEFAULT_MAX_MTU None m
      else if mg = 5 then ret_long 10000000 None m
      else if mg = 6 then ret_buf (overwrite (return_buf m) 0 (take 6 (MyPhysNodeAddress m))) 6 None m
      else if mg = 7 \<or> mg = 8 then ret_long 1 None m
      else if mg = 9 \<or> mg = 14 \<or> mg = 19 then ret_long 0 None m
      else if mg \<in> {10, 11, 12, 13, 15, 16, 17, 18, 20} then ret_long (kstat m K_if mg) None m
      else if mg = 21 then ret_stale_long m
      else if mg = 22 then ret_buf (overwrite (return_buf m) 0 [0, 0, 0, 0]) 4 None m
      else ret_null m)"

definition if_name :: "oid \<Rightarrow> nat \<Rightarrow> oid" where
  "if_name vn interface = take (length vn + 1) ((vn @ replicate (32 - length vn) 0)[10 := of_nat interface])"

definition var_ifEntry :: "agent find_fun" where
  "var_ifEntry vn mg name exact m =
     (case find (\<lambda>interface. let result = compare name (if_name vn interface)
                             in (exact \<and> result = 0) \<or> (\<not> exact \<and> result < 0))
             [1..<Suc Interface_Scan_Get_Count] of
        None \<Rightarrow> not_found name m
      | Some interface \<Rightarrow> found_at (if_name vn interface) (ans_ifEntry interface mg m))"

text \<open>\<open>LowAddr\<close> stays \<open>-1\<close> without the scan of the ARP table.\<close>

definition var_atEntry :: "agent find_fun" where
  "var_atEntry vn mg name exact m = not_found name m"

definition var_ip :: "agent find_fun" where
  "var_ip = scalar_find 8 (\<lambda>mg m. if mg \<le> 18 then kernel K_ip mg m else ret_null m)"

definition ans_ipAddr :: "u8 \<Rightarrow> agent \<Rightarrow> answer" where
  "ans_ipAddr mg m =
     (if mg = 1 then ret_long (NGET32 (BoxIPAddress (ee m))) None m
      else if mg = 2 then ret_long 1 None m
      else if mg = 3 then ret_long (NGET32 (SubNetMask (ee m))) None m
      else if mg = 4 then ret_long (0xFFFFFFFF AND 1) None m
      else if mg = 5 then ret_long DEFAULT_MAX_MTU None m
      else ret_null m)"

definition ip_name :: "oid \<Rightarrow> agent \<Rightarrow> oid" where
  "ip_name vn m = take 14 ((vn @ replicate (14 - length vn) 0)
     [10 := ucast (BoxIPAddress (ee m) ! 0), 11 := ucast (BoxIPAddress (ee m) ! 1),
      12 := ucast (BoxIPAddress (ee m) ! 2), 13 := ucast (BoxIPAddress (ee m) ! 3)])"

definition var_ipAddrEntry :: "agent find_fun" where
  "var_ipAddrEntry vn mg name exact m =
     (let current = ip_name vn m
      in if (exact \<and> compare current name = 0) \<or> (\<not> exact \<and> compare current name > 0)
         then found_at current (ans_ipAddr mg m) else not_found name m)"

definition var_icmp :: "agent find_fun" where
  "var_icmp = scalar_find 8 (\<lambda>mg m. if mg \<le> 25 then kernel K_icmp mg m else ret_null m)"

definition var_tcp :: "agent find_fun" where
  "var_tcp vn mg name exact m =
     (if mg < 13 \<or> mg = 18 \<or> mg = 19
      then scalar_find 8 (\<lambda>mg m. if 1 \<le> mg then kernel K_tcp mg m else ret_null m) vn mg name exact m
      else not_found name m)"

definition var_udp :: "agent find_fun" where
  "var_udp vn mg name exact m =
     (if mg \<le> 3 then scalar_find 8 (kernel K_udp) vn mg name exact m else not_found name m)"

definition snmp_counter :: "u8 \<Rightarrow> string" where
  "snmp_counter mg =
     (if mg = 1 then ''snmp_inpkts'' else if mg = 2 then ''snmp_outpkts''
      else if mg = 3 then ''snmp_inbadversions'' else if mg = 4 then ''snmp_inbadcommunitynames''
      else if mg = 6 then ''snmp_inasnparseerrors'' else if mg = 8 then ''snmp_intoobigs''
      else if mg = 10 then ''snmp_inbadvalues'' else if mg = 11 then ''snmp_inreadonlys''
      else if mg = 12 then ''snmp_ingenerrs'' else if mg = 13 then ''snmp_intotalreqvars''
      else if mg = 15 then ''snmp_ingetrequests'' else if mg = 16 then ''snmp_ingetnexts''
      else if mg = 17 then ''snmp_insetrequests'' else if mg = 21 then ''snmp_outnosuchnames''
      else if mg = 25 then ''snmp_outgetrequests'' else if mg = 26 then ''snmp_outgetnexts''
      else if mg = 27 then ''snmp_outsetrequests'' else if mg = 28 then ''snmp_outgetresponses''
      else if mg = 29 then ''snmp_outtraps'' else [])"

definition var_snmp :: "agent find_fun" where
  "var_snmp = scalar_find 8 (\<lambda>mg m.
     if mg = 30 then ret_long (ucast (SnmpAuthenTrap (ee m))) (Some EnableAuthenTraps) m
     else if snmp_counter mg \<noteq> [] then ret_long (stats m (snmp_counter mg)) None m
     else if mg \<in> {5, 9, 14, 18, 19, 20, 22, 24} then ret_long 0 None m
     else ret_null (m\<lparr>long_return := 0\<rparr>))"

section \<open>The device status group\<close>

definition jet_port :: "agent \<Rightarrow> nat" where
  "jet_port m = nat (uint (JetPort m) - 1)"

definition zero_return_buf :: "u8 list" where "zero_return_buf = replicate SNMP_MAX_STRING 0"

definition ans_password :: "agent \<Rightarrow> answer" where
  "ans_password m =
     (let pw = cstring (Password (ee m))
      in if length pw \<ge> 8
         then ret_buf (overwrite (return_buf m) 0 (take 8 (Password (ee m)) @ cstr ''=108;'')) 13 (Some writeDeviceMib) m
         else if length pw \<noteq> 0
         then ret_buf (overwrite (return_buf m) 0 (pw @ cstr ''=108;'')) 13 (Some writeDeviceMib) m
         else ret_buf (return_buf m) 8 (Some writeDeviceMib) m)"

text \<open>\<open>return_buf\<close> is cleared before the \<open>switch\<close>.\<close>

definition ans_devstatus :: "u8 \<Rightarrow> agent \<Rightarrow> answer" where
  "ans_devstatus mg m0 =
     (let m = m0\<lparr>return_buf := zero_return_buf\<rparr>
      in if mg = 1 then ret_long STATUSBYTES None m
         else if mg = 3 then (case ReadDataFromFrontPanel (jet_port m) m of (s, m') \<Rightarrow> ret_str s None m')
         else if mg = 7
         then (let s = ReadPrintModelAndID [] (jet_port m) m
               in ret_str (if s = [] then cstr ''MODEL:Unknown Printer'' else s) None m)
         else if mg = 10 then ret_long 0 (Some writeDeviceMib) m
         else if mg = 11 then ret_long (ucast (Snmp_PJLStatus m)) (Some writeDeviceMib) m
         else if mg = 13 then ans_password m
         else if mg = 18 then ret_str (cstring (ATZoneName (ee m))) (Some writeDeviceMib) m
         else if mg = 19
         then ret_str (if jet_port m < 3 then cstring (ATPortType (ee m) ! jet_port m) else junk_str m (jet_port m)) None m
         else ret_null m)"

definition var_devstatus :: "agent find_fun" where
  "var_devstatus = scalar_find 13 ans_devstatus"

text \<open>
  \<open>GDSTATUSLINESTATE\<close> and \<open>GDSTATUSINTERVENTIONSTATE\<close>: the status is read a second time when it is not
  \<open>PORT_READY\<close>, and \<open>long_return\<close> keeps its old value when it is not \<open>PORT_OFF_LINE\<close> either.
\<close>

definition ans_line_state :: "agent \<Rightarrow> answer" where
  "ans_line_state m =
     (case snmp_ReadPrintStatus (jet_port m) m of
        (st, m1) \<Rightarrow> if st = PORT_READY then ret_long 0 None m1
                    else (case snmp_ReadPrintStatus (jet_port m1) m1 of
                            (st2, m2) \<Rightarrow> if st2 = PORT_OFF_LINE then ret_long 2 None m2 else ret_stale_long m2))"

definition ans_gdstatusEntry :: "u8 \<Rightarrow> agent \<Rightarrow> answer" where
  "ans_gdstatusEntry mg m =
     (if mg = 1 \<or> mg = 3 then ans_line_state m
      else if mg = 2
      then (case snmp_ReadPrintStatus (jet_port m) m of (st, m1) \<Rightarrow> ret_long (if st = PORT_PAPER_OUT then 1 else 0) None m1)
      else if mg = 14
      then (case snmp_ReadPrintStatus (jet_port m) m of (st, m1) \<Rightarrow> ret_long (if st = PORT_PRINTING then 2 else 0) None m1)
      else if mg \<in> {6, 8, 9, 10, 11, 12, 13, 15, 16, 17, 18, 19, 21, 22, 23, 24} then ret_long 0 None m
      else ret_null m)"

definition var_gdstatusEntry :: "agent find_fun" where
  "var_gdstatusEntry = scalar_find 14 ans_gdstatusEntry"

section \<open>The npCard groups\<close>

definition ret_empty :: "agent \<Rightarrow> answer" where
  "ret_empty m = ret_buf (overwrite (return_buf m) 0 [0]) 0 None m"

definition var_npsys :: "agent find_fun" where
  "var_npsys = scalar_find 12 (\<lambda>mg m.
     if mg = 2 then ret_empty m else if mg = 7 \<or> mg = 8 then ret_long 0 None m else ret_null m)"

definition var_npconns :: "agent find_fun" where
  "var_npconns = scalar_find 12 (\<lambda>mg m.
     if mg = 1 \<or> mg = 16 \<or> mg = 17 then ret_long 0 None m else if mg = 11 then ret_empty m else ret_null m)"

definition ans_npcfg :: "u8 \<Rightarrow> agent \<Rightarrow> answer" where
  "ans_npcfg mg m0 =
     (let m = m0\<lparr>return_buf := zero_return_buf\<rparr>; w = Some writeNpCardMib;
          addr = (\<lambda>a. ret_buf (overwrite (return_buf m) 0 (take 4 a)) 4 w m)
      in if mg = 1 then ret_long (snmp_GetCfgSource m) w m
         else if mg = 2 then addr (BoxIPAddress (ee m))
         else if mg = 7 then ret_long 0 None m
         else if mg = 10 then ret_long 0 w m
         else if mg = 12 then addr (SubNetMask (ee m))
         else if mg = 13 then addr (GetwayAddress (ee m))
         else ret_null m)"

definition var_npcfg :: "agent find_fun" where
  "var_npcfg vn mg name exact m =
     scalar_find (if mg = 91 \<or> mg = 92 \<or> mg = 93 then 14 else 12) ans_npcfg vn mg name exact m"

definition var_nptcp :: "agent find_fun" where
  "var_nptcp = scalar_find 12 (\<lambda>mg m. if 1 \<le> mg \<and> mg \<le> 4 then ret_long 0 None m else ret_null m)"

definition var_npctl :: "agent find_fun" where
  "var_npctl = scalar_find 12 (\<lambda>mg m.
     if mg = 9 then ret_long snmp_SetProtocol (Some writeNpCardMib) (m\<lparr>Snmp_ProtocolSet := snmp_SetProtocol\<rparr>)
     else if mg = 10 \<or> mg = 11 \<or> mg = 12 then ret_long 0 (Some writeNpCardMib) m
     else ret_null m)"

definition var_npnpi :: "agent find_fun" where
  "var_npnpi vn mg name exact m =
     (if mg = 21 then scalar_find 12 (\<lambda>mg m. ret_null m) vn mg name exact m
      else scalar_find 13 (\<lambda>mg m.
             if mg = 32 \<or> mg = 33 then ret_long 0 None m
             else if mg = 38 then ret_long 1 None m
             else if mg = 42 then ret_long 3 None m
             else ret_null m) vn mg name exact m)"

definition hex_digit :: "nat \<Rightarrow> u8" where
  "hex_digit d = of_nat (if d < 10 then 48 + d else 55 + d)"

definition hex2 :: "u8 \<Rightarrow> u8 list" where
  "hex2 b = [hex_digit (unat b div 16), hex_digit (unat b mod 16)]"

text \<open>\<open>strcpy\<close> or \<open>sprintf\<close> of a string at an offset of the buffer.\<close>

definition put_str :: "nat \<Rightarrow> u8 list \<Rightarrow> u8 list \<Rightarrow> u8 list" where
  "put_str i s b = overwrite b i (s @ [0])"

definition ans_npipx :: "u8 \<Rightarrow> agent \<Rightarrow> answer" where
  "ans_npipx mg m =
     (if mg = 1
      then (let b = overwrite (return_buf m) 0 (replicate 78 0); b' = put_str 0 [0x01, 0x00, 0x13, 0x04] b
            in case snmp_ReadPrintStatus (jet_port m) m of
                 (st, m') \<Rightarrow>
                   ret_buf (if st = PORT_READY then b'[55 := 0x13, 77 := 0x01]
                            else if st = PORT_PAPER_OUT then b'[63 := 0x01, 69 := 0x01]
                            else if st = PORT_OFF_LINE then b'[71 := 0xFF]
                            else if st = PORT_PRINTING then b'[69 := 0x01] else b') 78 None m')
      else if mg = 2 \<or> mg = 3 \<or> mg = 4 \<or> mg = 5 then ret_long (kstat m K_ipx mg) None m
      else if mg = 6
      then (let b = overwrite (return_buf m) 0 (replicate 50 0);
                b1 = put_str 2 (concat (map hex2 (take 6 (MyPhysNodeAddress m)))) (b[0 := 0x03, 1 := 0x0C]);
                b2 = put_str 14 (cstr ''00C6'') b1
            in ret_buf (put_str 18 (cstring (PrintServerName (ee m))) b2) 50 None m)
      else if mg = 7
      then (let b = overwrite (return_buf m) 0 (replicate 78 0);
                b1 = put_str 14 (cstr ''00C6'') (put_str 0 [0x13, 0x00, 0x01, 0x01] b);
                b2 = put_str 18 (cstring (PrintServerName (ee m))) b1
            in ret_buf (b2[55 := 0x13, 77 := 0x01]) 78 None m)
      else if mg = 8 then ret_str (cstring (PrintServerName (ee m))) (Some writeNpCardMib) m
      else if mg = 9 then ret_str (cstring (NDSTreeName (ee m))) (Some writeNpCardMib) m
      else if mg = 16 then ret_long (ucast (UsingSoftwareReset m)) (Some writeNpCardMib) m
      else ret_null m)"

definition var_npipx :: "agent find_fun" where
  "var_npipx = scalar_find 12 ans_npipx"

text \<open>The qualified NDS name: every character is followed by a zero byte.\<close>

definition wide :: "u8 list \<Rightarrow> u8 list" where
  "wide s = concat (map (\<lambda>c. [c, 0]) s)"

definition nds_qualified :: "agent \<Rightarrow> u8 list" where
  "nds_qualified m = [0x20, 0, 0, 0] @ wide (cstr ''CN='') @ wide (cstring (PrintServerName (ee m))) @
     wide (cstr ''.'') @ wide (cstring (NDSContext (ee m))) @ [0, 0]"

definition ans_npipxEntry :: "u8 \<Rightarrow> agent \<Rightarrow> answer" where
  "ans_npipxEntry mg m =
     (if mg = 1
      then if cstring (NDSContext (ee m)) \<noteq> []
           then (let s = nds_qualified m in ret_buf (put_str 0 s (return_buf m)) (length s) (Some writeNpCardMib) m)
           else ret_buf (overwrite (return_buf m) 0 [0]) 0 (Some writeNpCardMib) m
      else ret_null m)"

definition var_npipxEntry :: "agent find_fun" where
  "var_npipxEntry = scalar_find 13 ans_npipxEntry"

definition var_npcard11 :: "agent find_fun" where
  "var_npcard11 = scalar_find 12 (\<lambda>mg m. if mg = 1 then ret_long 1 None m else ret_null m)"

definition var_npcard12 :: "agent find_fun" where
  "var_npcard12 = scalar_find 12 (\<lambda>mg m.
     if mg = 7 then ret_long 0 None m
     else if mg = 8 then ret_buf (overwrite (return_buf m) 0 (replicate 12 0)) 12 None m
     else ret_null m)"

definition var_npcard13 :: "agent find_fun" where
  "var_npcard13 = scalar_find 12 (\<lambda>mg m.
     if mg = 1 then ret_long (of_nat NUM_OF_PRN_PORT) None m
     else if mg = 3 \<or> mg = 4 then ret_long 0 (Some writeNpCardMib) m
     else ret_null m)"

definition var_npcard17 :: "agent find_fun" where
  "var_npcard17 = scalar_find 12 (\<lambda>mg m. if mg = 1 then ret_long 0 (Some writeNpCardMib) m else ret_null m)"

section \<open>The tables\<close>

definition var :: "u8 \<Rightarrow> u8 \<Rightarrow> u16 \<Rightarrow> agent find_fun \<Rightarrow> oid \<Rightarrow> agent variable" where
  "var mg ty ac f nm = \<lparr>magic = mg, vtype = ty, acl = ac, findVar = f, vname = nm\<rparr>"

definition system_variables :: "agent variable list" where
  "system_variables = [
     var 0 STRING RONLY var_system [1],
     var 1 OBJID RONLY var_system [2],
     var 3 TIMETICKS RONLY var_system [3],
     var 4 STRING RWRITE var_system [4],
     var 5 STRING RWRITE var_system [5],
     var 6 STRING RWRITE var_system [6],
     var 7 INTEGER RONLY var_system [7]]"

definition interface_variables :: "agent variable list" where
  "interface_variables = [
     var 2 INTEGER RONLY var_system [1],
     var 1 INTEGER RONLY var_ifEntry [2, 1, 1],
     var 2 STRING RONLY var_ifEntry [2, 1, 2],
     var 3 INTEGER RONLY var_ifEntry [2, 1, 3],
     var 4 INTEGER RONLY var_ifEntry [2, 1, 4],
     var 5 GAUGE RONLY var_ifEntry [2, 1, 5],
     var 6 STRING RONLY var_ifEntry [2, 1, 6],
     var 7 INTEGER RONLY var_ifEntry [2, 1, 7],
     var 8 INTEGER RONLY var_ifEntry [2, 1, 8],
     var 9 TIMETICKS RONLY var_ifEntry [2, 1, 9],
     var 10 COUNTER RONLY var_ifEntry [2, 1, 10],
     var 11 COUNTER RONLY var_ifEntry [2, 1, 11],
     var 12 COUNTER RONLY var_ifEntry [2, 1, 12],
     var 13 COUNTER RONLY var_ifEntry [2, 1, 13],
     var 14 COUNTER RONLY var_ifEntry [2, 1, 14],
     var 15 COUNTER RONLY var_ifEntry [2, 1, 15],
     var 16 COUNTER RONLY var_ifEntry [2, 1, 16],
     var 17 COUNTER RONLY var_ifEntry [2, 1, 17],
     var 18 COUNTER RONLY var_ifEntry [2, 1, 18],
     var 19 COUNTER RONLY var_ifEntry [2, 1, 19],
     var 20 COUNTER RONLY var_ifEntry [2, 1, 20],
     var 21 GAUGE RONLY var_ifEntry [2, 1, 21],
     var 22 OBJID RONLY var_ifEntry [2, 1, 22]]"

definition at_variables :: "agent variable list" where
  "at_variables = [
     var 0 INTEGER RONLY var_atEntry [1],
     var 1 STRING RONLY var_atEntry [2],
     var 2 IPADDRESS RONLY var_atEntry [3]]"

definition ip_variables :: "agent variable list" where
  "ip_variables = [
     var 0 INTEGER RONLY var_ip [1],
     var 1 INTEGER RONLY var_ip [2],
     var 2 COUNTER RONLY var_ip [3],
     var 3 COUNTER RONLY var_ip [4],
     var 4 COUNTER RONLY var_ip [5],
     var 5 COUNTER RONLY var_ip [6],
     var 6 COUNTER RONLY var_ip [7],
     var 7 COUNTER RONLY var_ip [8],
     var 8 COUNTER RONLY var_ip [9],
     var 9 COUNTER RONLY var_ip [10],
     var 10 COUNTER RONLY var_ip [11],
     var 11 COUNTER RONLY var_ip [12],
     var 12 INTEGER RONLY var_ip [13],
     var 13 COUNTER RONLY var_ip [14],
     var 14 COUNTER RONLY var_ip [15],
     var 15 COUNTER RONLY var_ip [16],
     var 16 COUNTER RONLY var_ip [17],
     var 17 COUNTER RONLY var_ip [18],
     var 18 COUNTER RONLY var_ip [19],
     var 1 IPADDRESS RONLY var_ipAddrEntry [20, 1, 1],
     var 2 INTEGER RONLY var_ipAddrEntry [20, 1, 2],
     var 3 IPADDRESS RONLY var_ipAddrEntry [20, 1, 3],
     var 4 INTEGER RONLY var_ipAddrEntry [20, 1, 4],
     var 5 INTEGER RONLY var_ipAddrEntry [20, 1, 5]]"

definition icmp_variables :: "agent variable list" where
  "icmp_variables = [
     var 0 COUNTER RONLY var_icmp [1],
     var 1 COUNTER RONLY var_icmp [2],
     var 2 COUNTER RONLY var_icmp [3],
     var 3 COUNTER RONLY var_icmp [4],
     var 4 COUNTER RONLY var_icmp [5],
     var 5 COUNTER RONLY var_icmp [6],
     var 6 COUNTER RONLY var_icmp [7],
     var 7 COUNTER RONLY var_icmp [8],
     var 8 COUNTER RONLY var_icmp [9],
     var 9 COUNTER RONLY var_icmp [10],
     var 10 COUNTER RONLY var_icmp [11],
     var 11 COUNTER RONLY var_icmp [12],
     var 12 COUNTER RONLY var_icmp [13],
     var 13 COUNTER RONLY var_icmp [14],
     var 14 COUNTER RONLY var_icmp [15],
     var 15 COUNTER RONLY var_icmp [16],
     var 16 COUNTER RONLY var_icmp [17],
     var 17 COUNTER RONLY var_icmp [18],
     var 18 COUNTER RONLY var_icmp [19],
     var 19 COUNTER RONLY var_icmp [20],
     var 20 COUNTER RONLY var_icmp [21],
     var 21 COUNTER RONLY var_icmp [22],
     var 22 COUNTER RONLY var_icmp [23],
     var 23 COUNTER RONLY var_icmp [24],
     var 24 COUNTER RONLY var_icmp [25],
     var 25 COUNTER RONLY var_icmp [26]]"

definition tcp_variables :: "agent variable list" where
  "tcp_variables = [
     var 1 INTEGER RONLY var_tcp [1],
     var 2 INTEGER RONLY var_tcp [2],
     var 3 INTEGER RONLY var_tcp [3],
     var 4 INTEGER RONLY var_tcp [4],
     var 5 COUNTER RONLY var_tcp [5],
     var 6 COUNTER RONLY var_tcp [6],
     var 7 COUNTER RONLY var_tcp [7],
     var 8 COUNTER RONLY var_tcp [8],
     var 9 GAUGE RONLY var_tcp [9],
     var 10 COUNTER RONLY var_tcp [10],
     var 11 COUNTER RONLY var_tcp [11],
     var 12 COUNTER RONLY var_tcp [12],
     var 13 INTEGER RONLY var_tcp [13, 1, 1],
     var 14 IPADDRESS RONLY var_tcp [13, 1, 2],
     var 15 INTEGER RONLY var_tcp [13, 1, 3],
     var 16 IPADDRESS RONLY var_tcp [13, 1, 4],
     var 17 INTEGER RONLY var_tcp [13, 1, 5],
     var 18 COUNTER RONLY var_tcp [14],
     var 19 COUNTER RONLY var_tcp [15]]"

definition udp_variables :: "agent variable list" where
  "udp_variables = [
     var 0 COUNTER RONLY var_udp [1],
     var 1 COUNTER RONLY var_udp [2],
     var 2 COUNTER RONLY var_udp [3],
     var 3 COUNTER RONLY var_udp [4],
     var 4 IPADDRESS RONLY var_udp [5, 1, 1],
     var 5 INTEGER RONLY var_udp [5, 1, 2]]"

definition snmp_variables :: "agent variable list" where
  "snmp_variables = [
     var 1 COUNTER RONLY var_snmp [1],
     var 2 COUNTER RONLY var_snmp [2],
     var 3 COUNTER RONLY var_snmp [3],
     var 4 COUNTER RONLY var_snmp [4],
     var 5 COUNTER RONLY var_snmp [5],
     var 6 COUNTER RONLY var_snmp [6],
     var 8 COUNTER RONLY var_snmp [8],
     var 9 COUNTER RONLY var_snmp [9],
     var 10 COUNTER RONLY var_snmp [10],
     var 11 COUNTER RONLY var_snmp [11],
     var 12 COUNTER RONLY var_snmp [12],
     var 13 COUNTER RONLY var_snmp [13],
     var 14 COUNTER RONLY var_snmp [14],
     var 15 COUNTER RONLY var_snmp [15],
     var 16 COUNTER RONLY var_snmp [16],
     var 17 COUNTER RONLY var_snmp [17],
     var 18 COUNTER RONLY var_snmp [18],
     var 19 COUNTER RONLY var_snmp [19],
     var 20 COUNTER RONLY var_snmp [20],
     var 21 COUNTER RONLY var_snmp [21],
     var 22 COUNTER RONLY var_snmp [22],
     var 24 COUNTER RONLY var_snmp [24],
     var 25 COUNTER RONLY var_snmp [25],
     var 26 COUNTER RONLY var_snmp [26],
     var 27 COUNTER RONLY var_snmp [27],
     var 28 COUNTER RONLY var_snmp [28],
     var 29 COUNTER RONLY var_snmp [29],
     var 30 INTEGER RWRITE var_snmp [30]]"

definition GeneralDeviceStatus_variables :: "agent variable list" where
  "GeneralDeviceStatus_variables = [
     var 1 INTEGER RONLY var_devstatus [1],
     var 1 INTEGER RONLY var_gdstatusEntry [2, 1],
     var 2 INTEGER RONLY var_gdstatusEntry [2, 2],
     var 3 INTEGER RONLY var_gdstatusEntry [2, 3],
     var 4 INTEGER RONLY var_gdstatusEntry [2, 4],
     var 5 INTEGER RONLY var_gdstatusEntry [2, 5],
     var 6 INTEGER RONLY var_gdstatusEntry [2, 6],
     var 8 INTEGER RONLY var_gdstatusEntry [2, 8],
     var 9 INTEGER RONLY var_gdstatusEntry [2, 9],
     var 10 INTEGER RONLY var_gdstatusEntry [2, 10],
     var 11 INTEGER RONLY var_gdstatusEntry [2, 11],
     var 12 INTEGER RONLY var_gdstatusEntry [2, 12],
     var 13 INTEGER RONLY var_gdstatusEntry [2, 13],
     var 14 INTEGER RONLY var_gdstatusEntry [2, 14],
     var 15 INTEGER RONLY var_gdstatusEntry [2, 15],
     var 16 INTEGER RONLY var_gdstatusEntry [2, 16],
     var 17 INTEGER RONLY var_gdstatusEntry [2, 17],
     var 18 INTEGER RONLY var_gdstatusEntry [2, 18],
     var 19 INTEGER RONLY var_gdstatusEntry [2, 19],
     var 20 STRING RONLY var_gdstatusEntry [2, 20],
     var 21 INTEGER RONLY var_gdstatusEntry [2, 21],
     var 22 INTEGER RONLY var_gdstatusEntry [2, 22],
     var 23 INTEGER RONLY var_gdstatusEntry [2, 23],
     var 24 INTEGER RONLY var_gdstatusEntry [2, 24],
     var 3 STRING RONLY var_devstatus [3],
     var 4 STRING RONLY var_devstatus [4],
     var 5 STRING RONLY var_devstatus [5],
     var 6 STRING RONLY var_devstatus [6],
     var 7 STRING RONLY var_devstatus [7],
     var 8 INTEGER RONLY var_devstatus [8],
     var 9 INTEGER RONLY var_devstatus [9],
     var 10 INTEGER RWRITE var_devstatus [10],
     var 11 INTEGER RWRITE var_devstatus [11],
     var 13 STRING RWRITE var_devstatus [13],
     var 18 STRING RWRITE var_devstatus [18],
     var 19 STRING RONLY var_devstatus [19]]"

definition NpSys_variables :: "agent variable list" where
  "NpSys_variables = [
     var 1 INTEGER RONLY var_npsys [1],
     var 2 STRING RONLY var_npsys [2],
     var 3 INTEGER RONLY var_npsys [3],
     var 4 INTEGER RONLY var_npsys [4],
     var 5 INTEGER RONLY var_npsys [5],
     var 6 INTEGER RONLY var_npsys [6],
     var 7 COUNTER RONLY var_npsys [7],
     var 8 COUNTER RONLY var_npsys [8],
     var 9 GAUGE RONLY var_npsys [9]]"

definition NpConns_variables :: "agent variable list" where
  "NpConns_variables = [
     var 1 COUNTER RONLY var_npconns [1],
     var 2 COUNTER RONLY var_npconns [2],
     var 3 COUNTER RONLY var_npconns [3],
     var 4 IPADDRESS RONLY var_npconns [4],
     var 5 COUNTER RONLY var_npconns [5],
     var 6 STRING RONLY var_npconns [6],
     var 7 IPADDRESS RONLY var_npconns [7],
     var 8 INTEGER RONLY var_npconns [8],
     var 9 TIMETICKS RONLY var_npconns [9],
     var 10 INTEGER RONLY var_npconns [10],
     var 11 IPADDRESS RONLY var_npconns [11],
     var 12 INTEGER RONLY var_npconns [12],
     var 13 INTEGER RONLY var_npconns [13],
     var 14 INTEGER RONLY var_npconns [14],
     var 15 INTEGER RONLY var_npconns [15],
     var 16 COUNTER RONLY var_npconns [16],
     var 17 COUNTER RONLY var_npconns [17]]"

definition NpCfg_variables :: "agent variable list" where
  "NpCfg_variables = [
     var 1 INTEGER RWRITE var_npcfg [1],
     var 2 IPADDRESS RWRITE var_npcfg [2],
     var 3 IPADDRESS RONLY var_npcfg [3],
     var 4 IPADDRESS RONLY var_npcfg [4],
     var 5 IPADDRESS RONLY var_npcfg [5],
     var 6 INTEGER RONLY var_npcfg [6],
     var 7 INTEGER RONLY var_npcfg [7],
     var 8 INTEGER RONLY var_npcfg [8],
     var 91 INTEGER RONLY var_npcfg [9, 1, 1],
     var 92 IPADDRESS RONLY var_npcfg [9, 1, 2],
     var 93 IPADDRESS RONLY var_npcfg [9, 1, 3],
     var 10 INTEGER RWRITE var_npcfg [10],
     var 11 INTEGER RONLY var_npcfg [11],
     var 12 IPADDRESS RWRITE var_npcfg [12],
     var 13 IPADDRESS RWRITE var_npcfg [13]]"

definition NpTcp_variables :: "agent variable list" where
  "NpTcp_variables = [
     var 1 COUNTER RONLY var_nptcp [1],
     var 2 COUNTER RONLY var_nptcp [2],
     var 3 COUNTER RONLY var_nptcp [3],
     var 4 COUNTER RONLY var_nptcp [4]]"

definition NpCtl_variables :: "agent variable list" where
  "NpCtl_variables = [
     var 1 IPADDRESS RONLY var_npctl [1],
     var 2 INTEGER RONLY var_npctl [2],
     var 3 TIMETICKS RONLY var_npctl [3],
     var 4 IPADDRESS RONLY var_npctl [4],
     var 5 INTEGER RONLY var_npctl [5],
     var 6 INTEGER RWRITE var_npctl [6],
     var 7 INTEGER RWRITE var_npctl [7],
     var 8 INTEGER RWRITE var_npctl [8],
     var 9 INTEGER RWRITE var_npctl [9],
     var 10 INTEGER RWRITE var_npctl [10],
     var 11 INTEGER RWRITE var_npctl [11],
     var 12 INTEGER RWRITE var_npctl [12]]"

definition NpNpi_variables :: "agent variable list" where
  "NpNpi_variables = [
     var 1 INTEGER RONLY var_npnpi [1, 1],
     var 2 INTEGER RONLY var_npnpi [1, 2],
     var 3 INTEGER RONLY var_npnpi [1, 3],
     var 4 INTEGER RONLY var_npnpi [1, 4],
     var 5 INTEGER RONLY var_npnpi [1, 5],
     var 6 INTEGER RONLY var_npnpi [1, 6],
     var 7 INTEGER RONLY var_npnpi [1, 7],
     var 8 INTEGER RONLY var_npnpi [1, 8],
     var 9 INTEGER RONLY var_npnpi [1, 9],
     var 10 INTEGER RONLY var_npnpi [1, 10],
     var 11 INTEGER RONLY var_npnpi [1, 11],
     var 21 INTEGER RONLY var_npnpi [2],
     var 31 INTEGER RONLY var_npnpi [3, 1],
     var 32 INTEGER RONLY var_npnpi [3, 2],
     var 33 INTEGER RONLY var_npnpi [3, 3],
     var 34 INTEGER RONLY var_npnpi [3, 4],
     var 35 INTEGER RONLY var_npnpi [3, 5],
     var 36 INTEGER RONLY var_npnpi [3, 6],
     var 37 INTEGER RONLY var_npnpi [3, 7],
     var 38 INTEGER RONLY var_npnpi [3, 8],
     var 39 INTEGER RONLY var_npnpi [3, 9],
     var 41 INTEGER RONLY var_npnpi [4, 1],
     var 42 INTEGER RONLY var_npnpi [4, 2],
     var 43 INTEGER RONLY var_npnpi [4, 3],
     var 44 INTEGER RONLY var_npnpi [4, 4],
     var 45 INTEGER RONLY var_npnpi [4, 5],
     var 46 INTEGER RONLY var_npnpi [4, 6],
     var 47 INTEGER RONLY var_npnpi [4, 7],
     var 48 INTEGER RONLY var_npnpi [4, 8]]"

definition NpIpx_variables :: "agent variable list" where
  "NpIpx_variables = [
     var 1 STRING RONLY var_npipx [1],
     var 2 INTEGER RONLY var_npipx [2],
     var 3 INTEGER RONLY var_npipx [3],
     var 4 INTEGER RONLY var_npipx [4],
     var 5 INTEGER RONLY var_npipx [5],
     var 6 STRING RONLY var_npipx [6],
     var 7 STRING RONLY var_npipx [7],
     var 8 STRING RWRITE var_npipx [8],
     var 9 STRING RWRITE var_npipx [9],
     var 1 STRING RWRITE var_npipxEntry [10, 1],
     var 16 INTEGER RWRITE var_npipx [16]]"

definition NpCard11_variables :: "agent variable list" where
  "NpCard11_variables = [
     var 1 INTEGER RONLY var_npcard11 [1]]"

definition NpCard12_variables :: "agent variable list" where
  "NpCard12_variables = [
     var 7 INTEGER RONLY var_npcard12 [7],
     var 8 STRING RONLY var_npcard12 [8]]"

definition NpCard13_variables :: "agent variable list" where
  "NpCard13_variables = [
     var 1 INTEGER RONLY var_npcard13 [1],
     var 3 INTEGER RWRITE var_npcard13 [3],
     var 4 INTEGER RWRITE var_npcard13 [4]]"

definition NpCard17_variables :: "agent variable list" where
  "NpCard17_variables = [
     var 1 INTEGER RWRITE var_npcard17 [1]]"

section \<open>Registration\<close>

definition MIB_BASE :: oid where "MIB_BASE = [1, 3, 6, 1, 2, 1]"
definition ENTERPRISE :: oid where "ENTERPRISE = [1, 3, 6, 1, 4, 1]"
definition GENERALDEVICESTATUS :: oid where "GENERALDEVICESTATUS = [11, 2, 3, 9, 1, 1]"
definition NPCARD :: oid where "NPCARD = [11, 2, 4, 3]"

text \<open>The tables in the order of the \<open>mib_register\<close> calls.\<close>

definition mib2_groups :: "(oid \<times> agent variable list) list" where
  "mib2_groups =
     [(MIB_BASE @ [1], system_variables), (MIB_BASE @ [2], interface_variables),
      (MIB_BASE @ [3, 1, 1], at_variables), (MIB_BASE @ [4], ip_variables), (MIB_BASE @ [5], icmp_variables),
      (MIB_BASE @ [6], tcp_variables), (MIB_BASE @ [7], udp_variables)]"

definition enterprise_groups :: "(oid \<times> agent variable list) list" where
  "enterprise_groups =
     [(ENTERPRISE @ GENERALDEVICESTATUS, GeneralDeviceStatus_variables),
      (ENTERPRISE @ NPCARD @ [1], NpSys_variables), (ENTERPRISE @ NPCARD @ [4], NpConns_variables),
      (ENTERPRISE @ NPCARD @ [5], NpCfg_variables), (ENTERPRISE @ NPCARD @ [6], NpTcp_variables),
      (ENTERPRISE @ NPCARD @ [7], NpCtl_variables), (ENTERPRISE @ NPCARD @ [8], NpNpi_variables),
      (ENTERPRISE @ NPCARD @ [10], NpIpx_variables), (ENTERPRISE @ NPCARD @ [11], NpCard11_variables),
      (ENTERPRISE @ NPCARD @ [12], NpCard12_variables), (ENTERPRISE @ NPCARD @ [13], NpCard13_variables),
      (ENTERPRISE @ NPCARD @ [17], NpCard17_variables)]"

definition register_all :: "(oid \<times> agent variable list) list \<Rightarrow> agent subtree list \<Rightarrow> agent subtree list" where
  "register_all gs ss = fold (\<lambda>(b, vs). mib_register b vs) gs ss"

definition snmp_vars_init :: "u8 \<Rightarrow> agent subtree list \<Rightarrow> agent subtree list" where
  "snmp_vars_init psmode2 subtrees =
     (let ss = register_all mib2_groups subtrees
      in if psmode2 AND PS_WEBJETADMIN_ON \<noteq> 0 then register_all enterprise_groups ss else ss)"

end
