(* ===== verification/Mib_Contract.thy ===== *)
theory Mib_Contract
  imports Mib_Handlers
begin

text \<open>
  The \<open>findVar\<close> functions keep the contract of \<open>mib_view\<close>, and the tables registered by
  \<open>snmp_vars_init\<close> form a well-formed tree: the interpretation \<open>agent_mib\<close> of the contract on the
  agent's own tables. Each variable has at most one instance; only that of the address table
  depends on the state, on the box's IP address.
\<close>

section \<open>Functions with at most one instance\<close>

definition ok_ip :: "u8 list \<Rightarrow> agent \<Rightarrow> bool" where
  "ok_ip ip m \<longleftrightarrow> BoxIPAddress (ee m) = ip \<and> length ip = 4"

definition single_inst :: "u8 list \<Rightarrow> agent find_fun \<Rightarrow> oid \<Rightarrow> u8 \<Rightarrow> oid option \<Rightarrow> bool" where
  "single_inst ip f F mg I \<longleftrightarrow> (\<forall>i. I = Some i \<longrightarrow> prefix F i) \<and>
     (\<forall>m n. ok_ip ip m \<longrightarrow>
        (f_access (f F mg n True m) \<noteq> None \<longleftrightarrow> I = Some n) \<and> f_name (f F mg n True m) = n \<and>
        (f_access (f F mg n False m) \<noteq> None \<longrightarrow> I = Some (f_name (f F mg n False m)) \<and> n < f_name (f F mg n False m)) \<and>
        (f_access (f F mg n False m) = None \<longrightarrow> (\<forall>i. I = Some i \<longrightarrow> \<not> n < i) \<and>
           (f_name (f F mg n False m) = n \<or> prefix F (f_name (f F mg n False m)) \<and> n < f_name (f F mg n False m))) \<and>
        (\<forall>e. ok_ip ip (f_state (f F mg n e m))))"

lemma single_instD:
  assumes "single_inst ip f F mg I" "ok_ip ip m"
  shows "f_access (f F mg n True m) \<noteq> None \<longleftrightarrow> I = Some n" "f_name (f F mg n True m) = n"
    "f_access (f F mg n False m) \<noteq> None \<longrightarrow> I = Some (f_name (f F mg n False m)) \<and> n < f_name (f F mg n False m)"
    "f_access (f F mg n False m) = None \<longrightarrow> (\<forall>i. I = Some i \<longrightarrow> \<not> n < i) \<and>
       (f_name (f F mg n False m) = n \<or> prefix F (f_name (f F mg n False m)) \<and> n < f_name (f F mg n False m))"
    "ok_ip ip (f_state (f F mg n e m))"
proof -
  note c = assms(1) [unfolded single_inst_def, THEN conjunct2, THEN spec, THEN spec, THEN mp, OF assms(2), of n]
  show "f_access (f F mg n True m) \<noteq> None \<longleftrightarrow> I = Some n" using c by (rule conjunct1)
  note c = c [THEN conjunct2]
  show "f_name (f F mg n True m) = n" using c by (rule conjunct1)
  note c = c [THEN conjunct2]
  show "f_access (f F mg n False m) \<noteq> None \<longrightarrow> I = Some (f_name (f F mg n False m)) \<and> n < f_name (f F mg n False m)"
    using c by (rule conjunct1)
  note c = c [THEN conjunct2]
  show "f_access (f F mg n False m) = None \<longrightarrow> (\<forall>i. I = Some i \<longrightarrow> \<not> n < i) \<and>
       (f_name (f F mg n False m) = n \<or> prefix F (f_name (f F mg n False m)) \<and> n < f_name (f F mg n False m))"
    using c by (rule conjunct1)
  show "ok_ip ip (f_state (f F mg n e m))" using c [THEN conjunct2] by (rule spec)
qed

lemma single_inst_region: "single_inst ip f F mg (Some i) \<Longrightarrow> prefix F i"
  unfolding single_inst_def by (drule conjunct1) simp

definition has_single :: "u8 list \<Rightarrow> agent find_fun \<Rightarrow> oid \<Rightarrow> u8 \<Rightarrow> bool" where
  "has_single ip f F mg \<longleftrightarrow> (\<exists>I. single_inst ip f F mg I)"

lemma newname_at_length: "length vn = k \<Longrightarrow> k < 32 \<Longrightarrow> newname_at k vn = vn @ [0]"
proof -
  assume a: "length vn = k" "k < 32"
  then have "replicate (32 - length vn) 0 = (0 :: u16) # replicate (31 - k) 0"
    by (simp add: Suc_diff_Suc [symmetric] flip: replicate_Suc)
  with a show ?thesis by (simp add: newname_at_def list_update_append)
qed

text \<open>The answers neither depend on the state in whether they are NULL nor change the EEPROM data.\<close>

definition steady :: "(u8 \<Rightarrow> agent \<Rightarrow> answer) \<Rightarrow> u8 \<Rightarrow> bool" where
  "steady ans mg \<longleftrightarrow> (\<exists>sup. \<forall>m. (fst (ans mg m) \<noteq> None \<longleftrightarrow> sup) \<and> ee (snd (snd (ans mg m))) = ee m)"

lemma named_single:
  assumes "steady ans mg" "prefix F N"
    and "\<And>n e m. ok_ip ip m \<Longrightarrow>
      f F mg n e m = (if (e \<and> n = N) \<or> (\<not> e \<and> n < N) then found_at N (ans mg m) else not_found n m)"
  shows "has_single ip f F mg"
proof -
  obtain sup where sup: "\<And>m. fst (ans mg m) \<noteq> None \<longleftrightarrow> sup" "\<And>m. ee (snd (snd (ans mg m))) = ee m"
    using assms(1) by (auto simp: steady_def)
  have acc: "f_access (found_at N (ans mg m)) \<noteq> None \<longleftrightarrow> sup" "f_name (found_at N (ans mg m)) = N"
    "ok_ip ip (f_state (found_at N (ans mg m))) \<longleftrightarrow> ok_ip ip m" for m
    using sup [of m] by (auto simp: found_at_def ok_ip_def split: prod.splits)
  have nf: "f_access (not_found n m) = None" "f_name (not_found n m) = n" "f_state (not_found n m) = m" for n m
    by (simp_all add: not_found_def)
  have "single_inst ip f F mg (if sup then Some N else None)"
    unfolding single_inst_def using acc nf assms(2,3) by (cases sup) (auto split: if_splits)
  then show ?thesis by (auto simp: has_single_def)
qed

lemma scalar_single:
  assumes "steady ans mg" "length F = k" "k < 32"
  shows "has_single ip (scalar_find k ans) F mg"
  by (rule named_single [OF assms(1), of _ "F @ [0]"])
    (auto simp: scalar_find_def newname_at_length [OF assms(2,3)] Let_def oid_order not_le)

lemma none_single: "has_single ip (\<lambda>vn mg name exact m. not_found name m) F mg"
  unfolding has_single_def by (rule exI [of _ None]) (simp add: single_inst_def not_found_def)

section \<open>The answers are steady\<close>

lemma fst_ret [simp]:
  "fst (ret_null m) = None" "fst (ret_long v w m) = Some (long_bytes v, store_long)"
  "fst (ret_stale_long m) = Some (long_bytes (long_return m), store_long)"
  "fst (ret_buf b n w m) = Some (take n b, store_buf)"
  "fst (ret_str s w m) = Some (take (length s) (overwrite (return_buf m) 0 (s @ [0])), store_buf)"
  "fst (ret_empty m) = Some ([], store_buf)"
  by (simp_all add: ret_null_def ret_long_def ret_stale_long_def ret_buf_def ret_str_def ret_empty_def Let_def)

lemma fst_kernel [simp]: "\<exists>a b. fst (kernel g c m) = Some (a, b)"
  by (simp add: kernel_def)

lemma ee_ret [simp]:
  "ee (snd (snd (ret_null m))) = ee m" "ee (snd (snd (ret_long v w m))) = ee m"
  "ee (snd (snd (ret_stale_long m))) = ee m" "ee (snd (snd (ret_buf b n w m))) = ee m"
  "ee (snd (snd (ret_str s w m))) = ee m" "ee (snd (snd (kernel g c m))) = ee m" "ee (snd (snd (ret_empty m))) = ee m"
  by (simp_all add: ret_null_def ret_long_def ret_stale_long_def ret_buf_def ret_str_def kernel_def ret_empty_def Let_def)

lemma ee_ReadPrintStatus: "snmp_ReadPrintStatus p m = (st, m') \<Longrightarrow> ee m' = ee m"
  by (auto simp: snmp_ReadPrintStatus_def Let_def split: if_splits prod.splits)

lemma ee_FrontPanel: "ReadDataFromFrontPanel p m = (s, m') \<Longrightarrow> ee m' = ee m"
  by (auto simp: ReadDataFromFrontPanel_def snmp_ReadCardAndPeripheralStatus_def ee_ReadPrintStatus split: prod.splits)

lemma steadyI: "(\<And>m. fst (ans mg m) \<noteq> None \<longleftrightarrow> b) \<Longrightarrow> (\<And>m. ee (snd (snd (ans mg m))) = ee m) \<Longrightarrow> steady ans mg"
  unfolding steady_def by (intro exI [of _ b]) simp

lemma steady_system: "steady ans_system mg"
  by (rule steadyI [of _ _ "mg \<le> 8"]) (auto simp: ans_system_def word_le_nat_alt word_unat_eq_iff)

lemma steady_password: "\<exists>a b. fst (ans_password m) = Some (a, b)" "ee (snd (snd (ans_password m))) = ee m"
  by (auto simp: ans_password_def Let_def)

lemma steady_devstatus: "steady ans_devstatus mg"
  by (rule steadyI [of _ _ "mg \<in> {1, 3, 7, 10, 11, 13, 18, 19}"])
    (auto simp: ans_devstatus_def Let_def steady_password dest!: ee_FrontPanel split: prod.splits)

lemma steady_line_state: "\<exists>a b. fst (ans_line_state m) = Some (a, b)" "ee (snd (snd (ans_line_state m))) = ee m"
  by (auto simp: ans_line_state_def dest!: ee_ReadPrintStatus split: prod.splits)

lemma steady_gdstatus: "steady ans_gdstatusEntry mg"
  by (rule steadyI [of _ _ "mg \<in> {1, 2, 3, 6, 8, 9, 10, 11, 12, 13, 14, 15, 16, 17, 18, 19, 21, 22, 23, 24}"])
    (auto simp: ans_gdstatusEntry_def steady_line_state dest!: ee_ReadPrintStatus split: prod.splits)

lemma steady_npcfg: "steady ans_npcfg mg"
  by (rule steadyI [of _ _ "mg \<in> {1, 2, 7, 10, 12, 13}"]) (auto simp: ans_npcfg_def Let_def)

lemma steady_npipx: "steady ans_npipx mg"
  by (rule steadyI [of _ _ "mg \<in> {1, 2, 3, 4, 5, 6, 7, 8, 9, 16}"])
    (auto simp: ans_npipx_def Let_def dest!: ee_ReadPrintStatus split: prod.splits)

lemma steady_npipxEntry: "steady ans_npipxEntry mg"
  by (rule steadyI [of _ _ "mg = 1"]) (auto simp: ans_npipxEntry_def Let_def)

lemma steady_if:
  assumes "steady a mg" "steady b mg"
  shows "steady (\<lambda>mg m. if P mg then a mg m else b mg m) mg"
proof (cases "P mg")
  case True
  with assms(1) show ?thesis unfolding steady_def by presburger
next
  case False
  with assms(2) show ?thesis unfolding steady_def by presburger
qed

lemma steady_kernel: "steady (kernel g) mg"
  by (rule steadyI [of _ _ True]) simp_all

lemma steady_null: "steady (\<lambda>mg m. ret_null m) mg"
  by (rule steadyI [of _ _ False]) simp_all

lemma steady_long: "steady (\<lambda>mg m. ret_long (v mg m) (w mg m) m) mg"
  by (rule steadyI [of _ _ True]) simp_all

lemma steady_long_protocol: "steady (\<lambda>mg m. ret_long (v mg m) (w mg m) (m\<lparr>Snmp_ProtocolSet := x\<rparr>)) mg"
  by (rule steadyI [of _ _ True]) simp_all

lemma steady_empty: "steady (\<lambda>mg m. ret_empty m) mg"
  by (rule steadyI [of _ _ True]) simp_all

lemma steady_buf: "steady (\<lambda>mg m. ret_buf (b mg m) (n mg m) (w mg m) m) mg"
  by (rule steadyI [of _ _ True]) simp_all

lemmas steady_ret = steady_null steady_long steady_long_protocol steady_empty steady_buf

section \<open>Every function of the tables keeps the contract\<close>

lemma single_system: "length F = 8 \<Longrightarrow> has_single ip var_system F mg"
  unfolding var_system_def by (rule scalar_single [OF steady_system]) simp_all

lemma single_ip: "length F = 8 \<Longrightarrow> has_single ip var_ip F mg"
  unfolding var_ip_def by (rule scalar_single [OF steady_if]) (simp_all add: steady_ret steady_kernel)

lemma single_icmp: "length F = 8 \<Longrightarrow> has_single ip var_icmp F mg"
  unfolding var_icmp_def by (rule scalar_single [OF steady_if]) (simp_all add: steady_ret steady_kernel)

lemma single_cong:
  assumes "\<And>name exact m. f F mg name exact m = g F mg name exact m" "has_single ip g F mg"
  shows "has_single ip f F mg"
  using assms by (simp add: has_single_def single_inst_def)

lemma single_tcp: "length F = 8 \<or> \<not> (mg < 13 \<or> mg = 18 \<or> mg = 19) \<Longrightarrow> has_single ip var_tcp F mg"
proof (cases "mg < 13 \<or> mg = 18 \<or> mg = 19")
  case True
  assume "length F = 8 \<or> \<not> (mg < 13 \<or> mg = 18 \<or> mg = 19)"
  with True have "has_single ip (scalar_find 8 (\<lambda>mg m. if 1 \<le> mg then kernel K_tcp mg m else ret_null m)) F mg"
    by (intro scalar_single [OF steady_if]) (simp_all add: steady_ret steady_kernel)
  then show ?thesis by (rule single_cong [rotated]) (use True in \<open>simp add: var_tcp_def\<close>)
next
  case False
  show ?thesis by (rule single_cong [OF _ none_single]) (use False in \<open>simp add: var_tcp_def\<close>)
qed

lemma single_udp: "length F = 8 \<or> \<not> mg \<le> 3 \<Longrightarrow> has_single ip var_udp F mg"
proof (cases "mg \<le> 3")
  case True
  assume "length F = 8 \<or> \<not> mg \<le> 3"
  with True have "has_single ip (scalar_find 8 (kernel K_udp)) F mg"
    by (intro scalar_single [OF steady_kernel]) simp_all
  then show ?thesis by (rule single_cong [rotated]) (use True in \<open>simp add: var_udp_def\<close>)
next
  case False
  show ?thesis by (rule single_cong [OF _ none_single]) (use False in \<open>simp add: var_udp_def\<close>)
qed

lemma single_at: "has_single ip var_atEntry F mg"
  by (rule single_cong [OF _ none_single]) (simp add: var_atEntry_def)

lemma single_devstatus: "length F = 13 \<Longrightarrow> has_single ip var_devstatus F mg"
  unfolding var_devstatus_def by (rule scalar_single [OF steady_devstatus]) simp_all

lemma single_gdstatus: "length F = 14 \<Longrightarrow> has_single ip var_gdstatusEntry F mg"
  unfolding var_gdstatusEntry_def by (rule scalar_single [OF steady_gdstatus]) simp_all

lemma single_npsys: "length F = 12 \<Longrightarrow> has_single ip var_npsys F mg"
  unfolding var_npsys_def by (intro scalar_single steady_if steady_ret) simp_all

lemma single_npconns: "length F = 12 \<Longrightarrow> has_single ip var_npconns F mg"
  unfolding var_npconns_def by (intro scalar_single steady_if steady_ret) simp_all

lemma single_npcfg:
  "length F = (if mg = 91 \<or> mg = 92 \<or> mg = 93 then 14 else 12) \<Longrightarrow> has_single ip var_npcfg F mg"
  by (rule single_cong [OF _ scalar_single [OF steady_npcfg]]) (auto simp: var_npcfg_def)

lemma single_nptcp: "length F = 12 \<Longrightarrow> has_single ip var_nptcp F mg"
  unfolding var_nptcp_def by (intro scalar_single steady_if steady_ret) simp_all

lemma single_npctl: "length F = 12 \<Longrightarrow> has_single ip var_npctl F mg"
  unfolding var_npctl_def by (intro scalar_single steady_if steady_ret) simp_all

lemma single_npnpi: "length F = (if mg = 21 then 12 else 13) \<Longrightarrow> has_single ip var_npnpi F mg"
proof (cases "mg = 21")
  case True
  assume "length F = (if mg = 21 then 12 else 13)"
  with True have "has_single ip (scalar_find 12 (\<lambda>mg m. ret_null m)) F mg"
    by (intro scalar_single steady_ret) simp_all
  then show ?thesis by (rule single_cong [rotated]) (use True in \<open>simp add: var_npnpi_def\<close>)
next
  case False
  assume "length F = (if mg = 21 then 12 else 13)"
  with False have "has_single ip (scalar_find 13 (\<lambda>mg m.
       if mg = 32 \<or> mg = 33 then ret_long 0 None m else if mg = 38 then ret_long 1 None m
       else if mg = 42 then ret_long 3 None m else ret_null m)) F mg"
    by (intro scalar_single steady_if steady_ret) simp_all
  then show ?thesis by (rule single_cong [rotated]) (use False in \<open>simp add: var_npnpi_def\<close>)
qed

lemma single_npipx: "length F = 12 \<Longrightarrow> has_single ip var_npipx F mg"
  unfolding var_npipx_def by (rule scalar_single [OF steady_npipx]) simp_all

lemma single_npipxEntry: "length F = 13 \<Longrightarrow> has_single ip var_npipxEntry F mg"
  unfolding var_npipxEntry_def by (rule scalar_single [OF steady_npipxEntry]) simp_all

lemma single_npcard11: "length F = 12 \<Longrightarrow> has_single ip var_npcard11 F mg"
  unfolding var_npcard11_def by (intro scalar_single steady_if steady_ret) simp_all

lemma single_npcard12: "length F = 12 \<Longrightarrow> has_single ip var_npcard12 F mg"
  unfolding var_npcard12_def by (intro scalar_single steady_if steady_ret) simp_all

lemma single_npcard13: "length F = 12 \<Longrightarrow> has_single ip var_npcard13 F mg"
  unfolding var_npcard13_def by (intro scalar_single steady_if steady_ret) simp_all

lemma single_npcard17: "length F = 12 \<Longrightarrow> has_single ip var_npcard17 F mg"
  unfolding var_npcard17_def by (intro scalar_single steady_if steady_ret) simp_all

lemma if_name_1: "length F = 10 \<Longrightarrow> if_name F 1 = F @ [1]"
proof -
  assume a: "length F = 10"
  then have "replicate (32 - length F) 0 = (0 :: u16) # replicate 21 0"
    by (simp flip: replicate_Suc)
  with a show ?thesis by (simp add: if_name_def list_update_append)
qed

lemma steady_ifEntry: "steady (ans_ifEntry 1) mg"
  by (rule steadyI [of _ _ "mg \<in> {1, 2, 3, 4, 5, 6, 7, 8, 9, 10, 11, 12, 13, 14, 15, 16, 17, 18, 19, 20, 21, 22}"])
    (auto simp: ans_ifEntry_def)

lemma single_ifEntry: "length F = 10 \<Longrightarrow> has_single ip var_ifEntry F mg"
  by (rule named_single [OF steady_ifEntry, of _ "F @ [1]"])
    (auto simp: var_ifEntry_def Interface_Scan_Get_Count_def if_name_1 [simplified] Let_def oid_order)

lemma steady_ipAddr: "steady ans_ipAddr mg"
  by (rule steadyI [of _ _ "mg \<in> {1, 2, 3, 4, 5}"]) (auto simp: ans_ipAddr_def)

lemma ip_name_ok:
  assumes "length F = 10" "ok_ip ip m"
  shows "ip_name F m = F @ map ucast ip"
proof -
  obtain a b c d where ip: "ip = [a, b, c, d]"
    using assms(2) by (auto simp: ok_ip_def length_Suc_conv eval_nat_numeral)
  then have "BoxIPAddress (ee m) = [a, b, c, d]" using assms(2) by (simp add: ok_ip_def)
  then show ?thesis using assms(1) ip
    by (simp add: ip_name_def list_update_append numeral_nat)
qed

lemma single_ipAddr: "length F = 10 \<Longrightarrow> has_single ip var_ipAddrEntry F mg"
  by (rule named_single [OF steady_ipAddr, of _ "F @ map ucast ip"])
    (auto simp: var_ipAddrEntry_def ip_name_ok Let_def oid_order)

lemmas singles = single_system single_ifEntry single_at single_ip single_ipAddr single_icmp single_tcp single_udp
  single_devstatus single_gdstatus single_npsys single_npconns single_npcfg single_nptcp single_npctl single_npnpi
  single_npipx single_npipxEntry single_npcard11 single_npcard12 single_npcard13 single_npcard17

end
