(* ===== verification/Mib_Tree.thy ===== *)
theory Mib_Tree
  imports Mib_Contract
begin

text \<open>
  The tree \<open>snmp_vars_init\<close> builds is well-formed, with and without the enterprise groups, and the
  contract of \<open>mib_view\<close> holds for it.
\<close>

section \<open>Order\<close>

lemma region_lt_iff: "region_lt v w \<longleftrightarrow> v < w \<and> \<not> prefix v w"
  by (simp add: region_lt_def oid_order)

lemma region_convex:
  assumes "(v :: oid) \<le> w" "w \<le> x" "prefix v x"
  shows "prefix v w"
proof (rule ccontr)
  assume "\<not> prefix v w"
  then have "v \<noteq> w" by auto
  with assms(1) have "v < w" by simp
  then have lt: "v @ y < w @ []" for y using \<open>\<not> prefix v w\<close> by (rule region_less)
  obtain y where "x = v @ y" using assms(3) by (auto simp: prefix_def)
  with lt [of y] assms(2) show False by simp
qed

lemma transp_region_lt: "transp region_lt"
proof (rule transpI)
  fix u v w
  assume "region_lt u v" "region_lt v w"
  then have uv: "u < v" "\<not> prefix u v" and vw: "v < w" by (auto simp: region_lt_iff)
  then have "\<not> prefix u w" using region_convex [of u v w] by (auto simp: less_imp_le)
  with uv vw show "region_lt u w" by (auto simp: region_lt_iff)
qed

section \<open>The tables\<close>

lemmas table_defs = system_variables_def interface_variables_def at_variables_def ip_variables_def
  icmp_variables_def tcp_variables_def udp_variables_def GeneralDeviceStatus_variables_def NpSys_variables_def
  NpConns_variables_def NpCfg_variables_def NpTcp_variables_def NpCtl_variables_def NpNpi_variables_def
  NpIpx_variables_def NpCard11_variables_def NpCard12_variables_def NpCard13_variables_def NpCard17_variables_def

lemmas oid_defs = MIB_BASE_def ENTERPRISE_def GENERALDEVICESTATUS_def NPCARD_def

definition mk_tree :: "oid \<times> agent variable list \<Rightarrow> agent subtree" where
  "mk_tree g = \<lparr>t_name = fst g, t_variables = snd g\<rparr>"

definition groups :: "u8 \<Rightarrow> (oid \<times> agent variable list) list" where
  "groups mode = mib2_groups @ (if mode AND PS_WEBJETADMIN_ON \<noteq> 0 then enterprise_groups else [])"

text \<open>The groups are registered in ascending order, so that each goes to the end of the list.\<close>

lemma mib_register_last:
  "\<forall>s\<in>set ss. compare (t_name s) b \<le> 0 \<Longrightarrow> mib_register b vs ss = ss @ [mk_tree (b, vs)]"
  by (induction ss) (auto simp: mk_tree_def)

lemma register_all_sorted:
  assumes "sorted_wrt (\<lambda>a b. compare (fst a) (fst b) \<le> 0) (hs @ gs)"
  shows "register_all gs (map mk_tree hs) = map mk_tree (hs @ gs)"
  using assms
proof (induction gs arbitrary: hs)
  case Nil
  then show ?case by (simp add: register_all_def)
next
  case (Cons g gs)
  obtain b vs where g: "g = (b, vs)" by (cases g)
  have "mib_register b vs (map mk_tree hs) = map mk_tree (hs @ [g])"
    using Cons.prems g by (subst mib_register_last) (auto simp: mk_tree_def sorted_wrt_append)
  then show ?case using Cons.IH [of "hs @ [g]"] Cons.prems g by (simp add: register_all_def)
qed

lemma groups_sorted: "sorted_wrt region_lt (map fst (groups mode))"
  unfolding successively_conv_sorted_wrt [OF transp_region_lt, symmetric]
  by (simp add: groups_def mib2_groups_def enterprise_groups_def oid_defs region_lt_def)

lemma snmp_vars_init_tree: "snmp_vars_init mode [] = map mk_tree (groups mode)"
proof -
  have le: "region_lt a b \<Longrightarrow> compare a b \<le> 0" for a b by (simp add: region_lt_def)
  have srt: "sorted_wrt (\<lambda>a b. compare (fst a) (fst b) \<le> 0) (groups mode)"
    using groups_sorted [of mode] by (auto simp: sorted_wrt_map intro: sorted_wrt_mono_rel [rotated] le)
  then have m2: "register_all mib2_groups [] = map mk_tree mib2_groups"
    using register_all_sorted [of "[]" mib2_groups] by (simp add: groups_def sorted_wrt_append)
  show ?thesis
  proof (cases "mode AND PS_WEBJETADMIN_ON = 0")
    case True
    with m2 show ?thesis by (simp add: snmp_vars_init_def groups_def)
  next
    case False
    with srt have "sorted_wrt (\<lambda>a b. compare (fst a) (fst b) \<le> 0) (mib2_groups @ enterprise_groups)"
      by (simp add: groups_def)
    from register_all_sorted [OF this] m2 False show ?thesis by (simp add: snmp_vars_init_def groups_def)
  qed
qed

lemma paths_groups: "paths (map mk_tree gs) = concat (map (\<lambda>(b, vs). map (\<lambda>v. (b @ vname v, v)) vs) gs)"
  by (simp add: paths_def mk_tree_def split_def comp_def)

lemma var_simps [simp]:
  "vname (var mg ty ac f nm) = nm" "magic (var mg ty ac f nm) = mg" "findVar (var mg ty ac f nm) = f"
  "vtype (var mg ty ac f nm) = ty" "acl (var mg ty ac f nm) = ac"
  by (simp_all add: var_def)

text \<open>Within each table the names ascend.\<close>

lemma tables_sorted: "(b, vs) \<in> set (mib2_groups @ enterprise_groups) \<Longrightarrow> sorted_wrt region_lt (map vname vs)"
  unfolding successively_conv_sorted_wrt [OF transp_region_lt, symmetric]
  by (auto simp: mib2_groups_def enterprise_groups_def table_defs region_lt_def)

lemma paths_sorted:
  assumes "sorted_wrt region_lt (map fst gs)" "\<And>b vs. (b, vs) \<in> set gs \<Longrightarrow> sorted_wrt region_lt (map vname vs)"
  shows "sorted_wrt region_lt (map fst (paths (map mk_tree gs)))"
  using assms
proof (induction gs)
  case Nil
  then show ?case by (simp add: paths_def)
next
  case (Cons g gs)
  obtain b vs where g: "g = (b, vs)" by (cases g)
  have "region_lt (b @ x) F" if "(F, v) \<in> set (paths (map mk_tree gs))" for x F v
  proof -
    obtain c y where F: "F = c @ y" "c \<in> fst ` set gs" using \<open>(F, v) \<in> _\<close> by (force simp: paths_groups)
    then have bc: "region_lt b c" using Cons.prems(1) g by auto
    then have "b @ x < c @ y" by (auto intro: region_ltD [OF bc])
    moreover have "\<not> prefix (b @ x) (c @ y)"
      using region_ltD [OF bc, of "c @ y" "c @ y"] by (auto dest: append_prefixD)
    ultimately show ?thesis by (simp add: region_lt_iff F)
  qed
  moreover have "sorted_wrt region_lt (map (\<lambda>v. b @ vname v) vs)"
    using Cons.prems(2) [of b vs] g by (simp add: sorted_wrt_map)
  moreover have "sorted_wrt region_lt (map fst (paths (map mk_tree gs)))"
    using Cons.IH Cons.prems by auto
  moreover have "map fst (paths (map mk_tree (g # gs))) =
      map (\<lambda>v. b @ vname v) vs @ map fst (paths (map mk_tree gs))"
    by (simp add: g paths_Cons mk_tree_def comp_def)
  ultimately show ?case by (auto simp: sorted_wrt_append)
qed

lemma wf_snmp_vars_init: "wf_mib (snmp_vars_init mode [])"
proof -
  have "sorted_wrt region_lt (map vname vs)" if "(b, vs) \<in> set (groups mode)" for b vs
    using that tables_sorted [of b vs] by (auto simp: groups_def split: if_splits)
  then show ?thesis
    using paths_sorted [OF groups_sorted] groups_sorted [of mode]
    by (simp add: wf_mib_def snmp_vars_init_tree mk_tree_def comp_def)
qed

section \<open>The contract\<close>

lemma tables_single:
  "(b, vs) \<in> set (mib2_groups @ enterprise_groups) \<Longrightarrow> v \<in> set vs \<Longrightarrow>
   has_single ip (findVar v) (b @ vname v) (magic v)"
  by (auto simp: mib2_groups_def enterprise_groups_def table_defs oid_defs singles)

lemma snmp_vars_single:
  assumes "(F, v) \<in> set (paths (snmp_vars_init mode []))"
  shows "has_single ip (findVar v) F (magic v)"
proof -
  obtain b vs where "(b, vs) \<in> set (mib2_groups @ enterprise_groups)" "v \<in> set vs" "F = b @ vname v"
    using assms unfolding snmp_vars_init_tree paths_groups by (auto simp: groups_def split: if_splits)
  then show ?thesis using tables_single by blast
qed

text \<open>The instances of a variable: the names for which its function finds a value.\<close>

definition mib_inst :: "u8 \<Rightarrow> u8 list \<Rightarrow> oid \<Rightarrow> oid set" where
  "mib_inst mode ip F = {i. \<exists>v m. (F, v) \<in> set (paths (snmp_vars_init mode [])) \<and> ok_ip ip m \<and>
     f_access (findVar v F (magic v) i True m) \<noteq> None}"

lemma paths_fun:
  assumes "(F, v) \<in> set (paths (snmp_vars_init mode []))" "(F, w) \<in> set (paths (snmp_vars_init mode []))"
  shows "v = w"
proof -
  let ?ps = "paths (snmp_vars_init mode [])"
  have "sorted_wrt region_lt xs \<Longrightarrow> distinct xs" for xs by (induction xs) (auto simp: region_lt_iff)
  then have "distinct (map fst ?ps)" using wf_snmp_vars_init [of mode] by (simp add: wf_mib_def)
  then show ?thesis using assms by (rule eq_key_imp_eq_value)
qed

lemma mib_inst_single:
  assumes "(F, v) \<in> set (paths (snmp_vars_init mode []))" "single_inst ip (findVar v) F (magic v) I" "ok_ip ip m"
  shows "i \<in> mib_inst mode ip F \<longleftrightarrow> I = Some i"
proof -
  have "f_access (findVar v F (magic v) i True m') \<noteq> None \<longleftrightarrow> I = Some i" if "ok_ip ip m'" for m'
    by (rule single_instD(1) [OF assms(2) that])
  with assms(1,3) paths_fun [OF _ assms(1)] show ?thesis unfolding mib_inst_def by blast
qed

interpretation agent_mib: mib_view "snmp_vars_init mode []" "mib_inst mode ip" "ok_ip ip"
  for mode ip
proof
  fix F v m n i e
  assume Fv: "(F, v) \<in> set (paths (snmp_vars_init mode []))"
  obtain I where I: "single_inst ip (findVar v) F (magic v) I"
    using snmp_vars_single [OF Fv] by (auto simp: has_single_def)
  note inst = mib_inst_single [OF Fv I]
  show "prefix F i" if i: "i \<in> mib_inst mode ip F"
  proof -
    obtain m0 where "ok_ip ip m0" using i by (auto simp: mib_inst_def)
    then have "I = Some i" using i inst by blast
    with I show ?thesis using single_inst_region by blast
  qed
  assume ok: "ok_ip ip m"
  note D = single_instD [OF I ok, of n]
  let ?f = "findVar v F (magic v) n False m"
  show "least_after n (mib_inst mode ip F) (f_name ?f)" if a: "f_access ?f \<noteq> None"
    using D(3) a inst [OF ok] by (auto simp: least_after_def)
  show "(\<forall>j\<in>mib_inst mode ip F. \<not> n < j) \<and> (f_name ?f = n \<or> prefix F (f_name ?f) \<and> n < f_name ?f)"
    if a: "f_access ?f = None"
    using D(4) a inst [OF ok] by blast
  show "f_access (findVar v F (magic v) n True m) \<noteq> None \<longleftrightarrow> n \<in> mib_inst mode ip F"
    using D(1) inst [OF ok] by blast
  show "f_name (findVar v F (magic v) n True m) = n" by (rule D(2))
  show "ok_ip ip (f_state (findVar v F (magic v) n e m))" by (rule D(5))
qed (rule wf_snmp_vars_init)

end
