(* ===== verification/Mib_Props.thy ===== *)
theory Mib_Props
  imports Mib_Tree
begin

text \<open>
  What the search of the registered tables means for a manager: GET finds every existing instance
  and nothing else, GETNEXT the next one, and a walk lists them all in order.
\<close>

definition mib_instances :: "u8 \<Rightarrow> u8 list \<Rightarrow> oid set" where
  "mib_instances mode ip = (\<Union>(F, v) \<in> set (paths (snmp_vars_init mode [])). mib_inst mode ip F)"

lemma insts_eq: "agent_mib.insts mode ip (paths (snmp_vars_init mode [])) = mib_instances mode ip"
  by (simp add: agent_mib.insts_def mib_instances_def)

lemma finite_mib_inst: "(F, v) \<in> set (paths (snmp_vars_init mode [])) \<Longrightarrow> finite (mib_inst mode ip F)"
proof -
  assume Fv: "(F, v) \<in> set (paths (snmp_vars_init mode []))"
  obtain I where I: "single_inst ip (findVar v) F (magic v) I"
    using snmp_vars_single [OF Fv] by (auto simp: has_single_def)
  have "i \<in> set_option I" if i: "i \<in> mib_inst mode ip F" for i
  proof -
    obtain m where ok: "ok_ip ip m" using i unfolding mib_inst_def by blast
    show ?thesis by (simp add: mib_inst_single [OF Fv I ok, THEN iffD1, OF i])
  qed
  then have "mib_inst mode ip F \<subseteq> set_option I" by (rule subsetI)
  then show ?thesis by (rule finite_subset) simp
qed

lemma finite_mib_instances: "finite (mib_instances mode ip)"
  unfolding mib_instances_def by (rule finite_UN_I) (auto intro: finite_mib_inst)

lemma paths_nonempty: "(F, v) \<in> set (paths (snmp_vars_init mode [])) \<Longrightarrow> F \<noteq> []"
proof -
  assume "(F, v) \<in> set (paths (snmp_vars_init mode []))"
  then obtain b vs where "(b, vs) \<in> set (mib2_groups @ enterprise_groups)" "F = b @ vname v"
    unfolding snmp_vars_init_tree paths_groups by (auto simp: groups_def split: if_splits)
  then show ?thesis by (auto simp: mib2_groups_def enterprise_groups_def oid_defs)
qed

section \<open>GET and GETNEXT\<close>

text \<open>Does a GET of this name return a value?\<close>

definition no_out :: "agent stat_out" where
  "no_out = \<lparr>o_type = 0, o_acl = 0, o_write = None, o_noSuchObject = False\<rparr>"

definition mib_get :: "u8 \<Rightarrow> oid \<Rightarrow> agent \<Rightarrow> bool" where
  "mib_get mode n m \<longleftrightarrow> \<not> Option.is_none (fst (getStatPtr (\<lambda>m. m) (snmp_vars_init mode []) n (length n) True 1 no_out m))"

text \<open>A walk: GETNEXT with the name of the last answer, at most \<open>k\<close> times.\<close>

fun mib_walk :: "nat \<Rightarrow> u8 \<Rightarrow> oid \<Rightarrow> agent \<Rightarrow> oid list" where
  "mib_walk 0 mode n m = []"
| "mib_walk (Suc k) mode n m =
     (case getStatPtr (\<lambda>m. m) (snmp_vars_init mode []) n (length n) False 1 no_out m of
        (Some a, name', namelen', out', m') \<Rightarrow> take namelen' name' # mib_walk k mode (take namelen' name') m'
      | (None, name', namelen', out', m') \<Rightarrow> [])"

lemma mib_get_iff: "ok_ip ip m \<Longrightarrow> mib_get mode n m \<longleftrightarrow> n \<in> mib_instances mode ip"
  using agent_mib.getStatPtr_exact [of ip m "length n" n 1 "\<lambda>m. m" mode no_out]
  by (cases "getStatPtr (\<lambda>m. m) (snmp_vars_init mode []) n (length n) True 1 no_out m")
    (auto simp: mib_get_def insts_eq Option.is_none_def)

lemma mib_get_instances: "ok_ip ip m \<Longrightarrow> {i. mib_get mode i m} = mib_instances mode ip"
  using mib_get_iff by blast

lemma getStatPtr_ok:
  assumes "ok_ip ip m" "namelen \<le> length name"
    and "getStatPtr trap (snmp_vars_init mode []) name namelen False view out m = (Some a, name', namelen', out', m')"
  shows "ok_ip ip m'"
proof -
  have "agent_mib.next_result mode ip (paths (snmp_vars_init mode [])) (take namelen name)
      (scan_trees False (snmp_vars_init mode []) name namelen (out\<lparr>o_write := None\<rparr>) m)"
    using agent_mib.scan_trees_next [OF subset_refl _ assms(1,2)] wf_snmp_vars_init [of mode]
    by (simp add: wf_mib_def)
  then show ?thesis using assms(3)
    by (auto simp: getStatPtr_def agent_mib.next_result_def split: scan.splits if_splits)
qed

lemma sorted_list_least:
  assumes "finite S" "least_after n S i"
  shows "sorted_list_of_set {j \<in> S. n < j} = i # sorted_list_of_set {j \<in> S. i < j}"
proof -
  have eq: "{j \<in> S. n < j} = insert i {j \<in> S. i < j}"
    using assms(2) by (auto simp: least_after_def)
  have "sorted_list_of_set (insert i {j \<in> S. i < j}) = insort i (sorted_list_of_set {j \<in> S. i < j})"
    using assms(1) by (subst sorted_list_of_set_insert_remove) auto
  also have "\<dots> = i # sorted_list_of_set {j \<in> S. i < j}"
    using assms(1) by (intro insort_is_Cons) (auto simp: less_imp_le)
  finally show ?thesis by (simp add: eq)
qed

lemma card_least:
  assumes "finite S" "least_after n S i"
  shows "card {j \<in> S. n < j} = Suc (card {j \<in> S. i < j})"
proof -
  have "length (sorted_list_of_set {j \<in> S. n < j}) = Suc (length (sorted_list_of_set {j \<in> S. i < j}))"
    by (simp add: sorted_list_least [OF assms] del: length_sorted_list_of_set)
  then show ?thesis by simp
qed

lemma mib_walk_after:
  assumes "ok_ip ip m" "card {j \<in> mib_instances mode ip. n < j} \<le> k"
  shows "mib_walk k mode n m = sorted_list_of_set {j \<in> mib_instances mode ip. n < j}"
  using assms
proof (induction k arbitrary: n m)
  case 0
  then have "{j \<in> mib_instances mode ip. n < j} = {}" using finite_mib_instances by simp
  then show ?case by (simp del: Collect_empty_eq)
next
  case (Suc k)
  let ?S = "mib_instances mode ip"
  obtain access name' namelen' out' m' where
    g: "getStatPtr (\<lambda>m. m) (snmp_vars_init mode []) n (length n) False 1 no_out m = (access, name', namelen', out', m')"
    by (metis prod_cases5)
  note nx = agent_mib.getStatPtr_next [OF Suc.prems(1) order.refl _ g, unfolded insts_eq]
  show ?case
  proof (cases access)
    case None
    with nx have none: "{j \<in> ?S. n < j} = {}" by auto
    show ?thesis unfolding none using g None by simp
  next
    case (Some a)
    with nx have l: "least_after n ?S (take namelen' name')" by simp
    have "ok_ip ip m'" using getStatPtr_ok [OF Suc.prems(1)] g Some by blast
    then have "mib_walk k mode (take namelen' name') m' = sorted_list_of_set {j \<in> ?S. take namelen' name' < j}"
      using Suc.IH Suc.prems(2) card_least [OF finite_mib_instances l] by simp
    then show ?thesis using g Some sorted_list_least [OF finite_mib_instances l] by simp
  qed
qed

section \<open>Claims\<close>

lemmas example_search = getStatPtr_def snmp_vars_init_tree groups_def mk_tree_def mib2_groups_def MIB_BASE_def
  system_variables_def scalar_find_def newname_at_length found_at_def not_found_def var_system_def ans_system_def
  set_name_def Let_def PS_WEBJETADMIN_ON_def

text \<open>C17: GETNEXT returns the lexicographically least name after the requested one for which a GET
  returns a value, over all registered tables; when there is none the request's name is put back
  and no value is returned.\<close>

theorem getnext_successor:
  assumes "length (BoxIPAddress (ee m)) = 4" "namelen \<le> length name" "view \<noteq> 0"
    and "getStatPtr trap (snmp_vars_init mode []) name namelen False view out m = (access, name', namelen', out', m')"
  shows "case access of
      Some a \<Rightarrow> least_after (take namelen name) {i. mib_get mode i m} (take namelen' name')
    | None \<Rightarrow> (\<forall>j. mib_get mode j m \<longrightarrow> \<not> take namelen name < j) \<and> take namelen' name' = take namelen name"
proof -
  have ok: "ok_ip (BoxIPAddress (ee m)) m" using assms(1) by (simp add: ok_ip_def)
  from agent_mib.getStatPtr_next [OF ok assms(2-4), unfolded insts_eq]
  show ?thesis by (simp add: mib_get_instances [OF ok] mib_get_iff [OF ok] Ball_def split: option.splits)
qed

theorem getnext_successor_witness:
  "least_after [1, 3, 6, 1, 2, 1, 1, 1, 0] {i. mib_get 0 i example_agent} [1, 3, 6, 1, 2, 1, 1, 2, 0]"
proof -
  have "\<exists>a out' m'. getStatPtr (\<lambda>m. m) (snmp_vars_init 0 []) [1, 3, 6, 1, 2, 1, 1, 1, 0] 9 False 1 no_out example_agent =
      (Some a, [1, 3, 6, 1, 2, 1, 1, 2, 0], 9, out', m')"
    by (simp add: example_search)
  then show ?thesis
    using getnext_successor [of example_agent 9 "[1, 3, 6, 1, 2, 1, 1, 1, 0]" 1 "\<lambda>m. m" 0 no_out]
    by (auto simp: example_defs)
qed

text \<open>C18: GET finds a value exactly when some registered variable has the requested instance, although
  the search ends early, and leaves the requested name as it was.\<close>

theorem get_exact_iff:
  assumes "length (BoxIPAddress (ee m)) = 4" "namelen \<le> length name" "view \<noteq> 0"
    and "getStatPtr trap (snmp_vars_init mode []) name namelen True view out m = (access, name', namelen', out', m')"
  shows "(access \<noteq> None \<longleftrightarrow> (\<exists>(F, v) \<in> set (paths (snmp_vars_init mode [])).
            f_access (findVar v F (magic v) (take namelen name) True m) \<noteq> None)) \<and>
         take namelen' name' = take namelen name"
proof -
  have ok: "ok_ip (BoxIPAddress (ee m)) m" using assms(1) by (simp add: ok_ip_def)
  have "take namelen name \<in> mib_instances mode (BoxIPAddress (ee m)) \<longleftrightarrow> (\<exists>(F, v) \<in> set (paths (snmp_vars_init mode [])).
            f_access (findVar v F (magic v) (take namelen name) True m) \<noteq> None)"
    unfolding mib_instances_def using agent_mib.exact_access [OF _ ok] by fastforce
  with agent_mib.getStatPtr_exact [OF ok assms(2-4), unfolded insts_eq] show ?thesis by blast
qed

theorem get_exact_iff_witness:
  "\<exists>(F, v) \<in> set (paths (snmp_vars_init 0 [])).
     f_access (findVar v F (magic v) [1, 3, 6, 1, 2, 1, 1, 5, 0] True example_agent) \<noteq> None"
proof -
  have ip: "length (BoxIPAddress (ee example_agent)) = 4" by (simp add: example_defs)
  obtain a name' k out' m' where
    "getStatPtr (\<lambda>m. m) (snmp_vars_init 0 []) [1, 3, 6, 1, 2, 1, 1, 5, 0] 9 True 1 no_out example_agent =
      (Some a, name', k, out', m')"
    by (simp add: example_search)
  from get_exact_iff [OF ip _ _ this] show ?thesis by simp
qed

text \<open>C19: A manager that walks the agent with GETNEXT, from the empty name on, sees every name that GET
  answers, each once and in ascending order, and the walk ends.\<close>

theorem mib_walk_all:
  assumes "length (BoxIPAddress (ee m)) = 4"
  shows "finite {i. mib_get mode i m} \<and>
    (\<forall>k \<ge> card {i. mib_get mode i m}. mib_walk k mode [] m = sorted_list_of_set {i. mib_get mode i m})"
proof -
  let ?S = "mib_instances mode (BoxIPAddress (ee m))"
  have ok: "ok_ip (BoxIPAddress (ee m)) m" using assms by (simp add: ok_ip_def)
  have "[] \<notin> ?S"
    unfolding mib_instances_def using agent_mib.inst_region [of _ _ mode "[]"] paths_nonempty by fastforce
  then have "{j \<in> ?S. [] < j} = ?S" by (metis (no_types, lifting) Collect_mem_eq Collect_cong neq_Nil_conv Nil_less_Cons)
  with mib_walk_after [OF ok, of mode "[]"] show ?thesis
    by (simp add: mib_get_instances [OF ok] finite_mib_instances)
qed

theorem mib_walk_all_witness:
  "finite {i. mib_get 4 i example_agent} \<and> (\<exists>k. mib_walk k 4 [] example_agent = sorted_list_of_set {i. mib_get 4 i example_agent})"
  using mib_walk_all [of example_agent 4] by (auto simp: example_defs)

end
