(* ===== verification/Mib_Frame.thy ===== *)
theory Mib_Frame
  imports Mib_Tree
begin

text \<open>
  What a search changes. \<open>settings\<close> is the state without the fields that hold answers and counters:
  \<open>long_return\<close>, \<open>return_buf\<close>, \<open>Snmp_ProtocolSet\<close>, which \<open>var_npctl\<close> sets to a constant, the printer's
  status, the statistics, the traps sent and their PDUs. No \<open>findVar\<close> function changes anything else.
\<close>

definition settings :: "agent \<Rightarrow> agent" where
  "settings m = m\<lparr>long_return := 0, return_buf := [], Snmp_ProtocolSet := 0, prn := prn example_agent, stats := (\<lambda>_. 0),
     events := [], live_pdus := 0, InitTrapSession := 0\<rparr>"

lemma settings_simps [simp]:
  "settings (m\<lparr>long_return := v\<rparr>) = settings m" "settings (m\<lparr>return_buf := b\<rparr>) = settings m"
  "settings (m\<lparr>Snmp_ProtocolSet := x\<rparr>) = settings m" "settings (m\<lparr>prn := p\<rparr>) = settings m"
  "settings (m\<lparr>stats := st\<rparr>) = settings m" "settings (m\<lparr>events := es\<rparr>) = settings m"
  "settings (m\<lparr>live_pdus := n\<rparr>) = settings m" "settings (m\<lparr>InitTrapSession := i\<rparr>) = settings m"
  by (simp_all add: settings_def)

lemma settings_count [simp]: "settings (count c m) = settings m"
  by (simp add: count_def)

lemma settings_sel [simp]:
  "ee (settings m) = ee m" "flash (settings m) = flash m" "Hostname (settings m) = Hostname m" "community (settings m) = community m"
  "community_len (settings m) = community_len m" "session_access (settings m) = session_access m" "PSMode2 (settings m) = PSMode2 m" "Snmp_Change_IP (settings m) = Snmp_Change_IP m"
  "Snmp_WriteDataTo_EEPROM (settings m) = Snmp_WriteDataTo_EEPROM m" "Snmp_Restart (settings m) = Snmp_Restart m" "net_ok (settings m) = net_ok m" "heap_ok (settings m) = heap_ok m"
  "msclock (settings m) = msclock m" "JetPort (settings m) = JetPort m" "SnmpCommunityAuth (settings m) = SnmpCommunityAuth m" "UsingSoftwareReset (settings m) = UsingSoftwareReset m"
  by (simp_all add: settings_def)

lemma settingsD:
  assumes "settings m' = settings m"
  shows "ee m' = ee m" "flash m' = flash m" "Hostname m' = Hostname m" "community m' = community m"
    "community_len m' = community_len m" "session_access m' = session_access m" "PSMode2 m' = PSMode2 m" "Snmp_Change_IP m' = Snmp_Change_IP m"
    "Snmp_WriteDataTo_EEPROM m' = Snmp_WriteDataTo_EEPROM m" "Snmp_Restart m' = Snmp_Restart m" "net_ok m' = net_ok m" "heap_ok m' = heap_ok m"
    "msclock m' = msclock m" "JetPort m' = JetPort m" "SnmpCommunityAuth m' = SnmpCommunityAuth m" "UsingSoftwareReset m' = UsingSoftwareReset m"
proof -
  show "ee m' = ee m" using arg_cong [OF assms, of ee] by simp
  show "flash m' = flash m" using arg_cong [OF assms, of flash] by simp
  show "Hostname m' = Hostname m" using arg_cong [OF assms, of Hostname] by simp
  show "community m' = community m" using arg_cong [OF assms, of community] by simp
  show "community_len m' = community_len m" using arg_cong [OF assms, of community_len] by simp
  show "session_access m' = session_access m" using arg_cong [OF assms, of session_access] by simp
  show "PSMode2 m' = PSMode2 m" using arg_cong [OF assms, of PSMode2] by simp
  show "Snmp_Change_IP m' = Snmp_Change_IP m" using arg_cong [OF assms, of Snmp_Change_IP] by simp
  show "Snmp_WriteDataTo_EEPROM m' = Snmp_WriteDataTo_EEPROM m" using arg_cong [OF assms, of Snmp_WriteDataTo_EEPROM] by simp
  show "Snmp_Restart m' = Snmp_Restart m" using arg_cong [OF assms, of Snmp_Restart] by simp
  show "net_ok m' = net_ok m" using arg_cong [OF assms, of net_ok] by simp
  show "heap_ok m' = heap_ok m" using arg_cong [OF assms, of heap_ok] by simp
  show "msclock m' = msclock m" using arg_cong [OF assms, of msclock] by simp
  show "JetPort m' = JetPort m" using arg_cong [OF assms, of JetPort] by simp
  show "SnmpCommunityAuth m' = SnmpCommunityAuth m" using arg_cong [OF assms, of SnmpCommunityAuth] by simp
  show "UsingSoftwareReset m' = UsingSoftwareReset m" using arg_cong [OF assms, of UsingSoftwareReset] by simp
qed

section \<open>The answers\<close>

definition frames :: "(u8 \<Rightarrow> agent \<Rightarrow> answer) \<Rightarrow> bool" where
  "frames ans \<longleftrightarrow> (\<forall>mg m. settings (snd (snd (ans mg m))) = settings m)"

lemma settings_ret [simp]:
  "settings (snd (snd (ret_null m))) = settings m" "settings (snd (snd (ret_long v w m))) = settings m"
  "settings (snd (snd (ret_stale_long m))) = settings m" "settings (snd (snd (ret_buf b n w m))) = settings m"
  "settings (snd (snd (ret_str s w m))) = settings m" "settings (snd (snd (kernel g c m))) = settings m"
  "settings (snd (snd (ret_empty m))) = settings m"
  by (simp_all add: ret_null_def ret_long_def ret_stale_long_def ret_buf_def ret_str_def kernel_def ret_empty_def Let_def)

lemma settings_ReadPrintStatus [simp]: "settings (snd (snmp_ReadPrintStatus p m)) = settings m"
  by (simp add: snmp_ReadPrintStatus_def Let_def split_def)

lemma settings_FrontPanel [simp]: "settings (snd (ReadDataFromFrontPanel p m)) = settings m"
  by (simp add: ReadDataFromFrontPanel_def snmp_ReadCardAndPeripheralStatus_def split_def)

lemma settings_password [simp]: "settings (snd (snd (ans_password m))) = settings m"
  by (simp add: ans_password_def Let_def)

lemma settings_line_state [simp]: "settings (snd (snd (ans_line_state m))) = settings m"
  by (simp add: ans_line_state_def split_def)

lemma settings_if:
  "settings (snd (snd A)) = s \<Longrightarrow> settings (snd (snd B)) = s \<Longrightarrow> settings (snd (snd (if c then A else B))) = s"
  by simp

lemma frames_system [simp]: "frames ans_system"
  by (simp add: frames_def ans_system_def)

lemma frames_ifEntry [simp]: "frames (ans_ifEntry i)"
  unfolding frames_def ans_ifEntry_def by (intro allI settings_if settings_ret) simp

lemma frames_ipAddr [simp]: "frames ans_ipAddr"
  by (simp add: frames_def ans_ipAddr_def)

lemma frames_npipxEntry [simp]: "frames ans_npipxEntry"
  by (simp add: frames_def ans_npipxEntry_def Let_def)

lemma frames_npcfg [simp]: "frames ans_npcfg"
  by (simp add: frames_def ans_npcfg_def Let_def)

lemma frames_devstatus [simp]: "frames ans_devstatus"
  by (simp add: frames_def ans_devstatus_def Let_def split_def)

lemma frames_gdstatus [simp]: "frames ans_gdstatusEntry"
  unfolding frames_def ans_gdstatusEntry_def split_def by (intro allI settings_if) simp_all

lemma frames_npipx [simp]: "frames ans_npipx"
  unfolding frames_def ans_npipx_def Let_def split_def by (intro allI settings_if) simp_all

lemma frames_kernel [simp]: "frames (kernel g)"
  by (simp add: frames_def)

section \<open>The functions\<close>

lemma frames_found: "frames ans \<Longrightarrow> settings (f_state (found_at n (ans mg m))) = settings m"
  by (simp add: frames_def found_at_def split: prod.split) (metis snd_conv)

lemma settings_not_found [simp]: "settings (f_state (not_found n m)) = settings m"
  by (simp add: not_found_def)

lemma settings_scalar: "frames ans \<Longrightarrow> settings (f_state (scalar_find k ans vn mg n e m)) = settings m"
  by (simp add: scalar_find_def Let_def frames_found)

definition keeps_settings :: "agent find_fun \<Rightarrow> bool" where
  "keeps_settings f \<longleftrightarrow> (\<forall>vn mg n e m. settings (f_state (f vn mg n e m)) = settings m)"

lemma keeps_scalar: "frames ans \<Longrightarrow> keeps_settings (scalar_find k ans)"
  by (simp add: keeps_settings_def settings_scalar)

lemma keeps_scalar_vars [simp]:
  "keeps_settings var_system"
  "keeps_settings var_ip"
  "keeps_settings var_icmp"
  "keeps_settings var_devstatus"
  "keeps_settings var_gdstatusEntry"
  "keeps_settings var_npsys"
  "keeps_settings var_npconns"
  "keeps_settings var_nptcp"
  "keeps_settings var_npctl"
  "keeps_settings var_npipx"
  "keeps_settings var_npipxEntry"
  "keeps_settings var_npcard11"
  "keeps_settings var_npcard12"
  "keeps_settings var_npcard13"
  "keeps_settings var_npcard17"
proof -
  show "keeps_settings var_system" "keeps_settings var_devstatus" "keeps_settings var_gdstatusEntry" "keeps_settings var_npipx" "keeps_settings var_npipxEntry"
    by (simp_all add: var_system_def var_devstatus_def var_gdstatusEntry_def var_npipx_def var_npipxEntry_def keeps_scalar)
  show "keeps_settings var_ip" "keeps_settings var_icmp" "keeps_settings var_npsys" "keeps_settings var_npconns" "keeps_settings var_nptcp" "keeps_settings var_npctl" "keeps_settings var_npcard11" "keeps_settings var_npcard12" "keeps_settings var_npcard13" "keeps_settings var_npcard17"
    by (simp_all add: var_ip_def var_icmp_def var_npsys_def var_npconns_def var_nptcp_def var_npctl_def var_npcard11_def var_npcard12_def var_npcard13_def var_npcard17_def keeps_scalar frames_def)
qed

lemma keeps_other_vars [simp]:
  "keeps_settings var_ifEntry" "keeps_settings var_atEntry" "keeps_settings var_ipAddrEntry" "keeps_settings var_tcp"
  "keeps_settings var_udp" "keeps_settings var_npcfg" "keeps_settings var_npnpi"
proof -
  have tcp: "frames (\<lambda>mg m. if 1 \<le> mg then kernel K_tcp mg m else ret_null m)" by (simp add: frames_def)
  have npi: "frames (\<lambda>mg m. ret_null m)" "frames (\<lambda>mg m. if mg = 32 \<or> mg = 33 then ret_long 0 None m else if mg = 38 then ret_long 1 None m
      else if mg = 42 then ret_long 3 None m else ret_null m)" by (simp_all add: frames_def)
  show "keeps_settings var_ifEntry"
    by (auto simp: keeps_settings_def var_ifEntry_def Let_def frames_found split: option.split)
  show "keeps_settings var_atEntry" "keeps_settings var_ipAddrEntry" "keeps_settings var_udp" "keeps_settings var_npcfg"
    by (simp_all add: keeps_settings_def var_atEntry_def var_ipAddrEntry_def var_udp_def var_npcfg_def Let_def
        frames_found settings_scalar)
  show "keeps_settings var_tcp" "keeps_settings var_npnpi"
    using settings_scalar [OF tcp] settings_scalar [OF npi(1)] settings_scalar [OF npi(2)]
    by (simp_all add: keeps_settings_def var_tcp_def var_npnpi_def)
qed

lemma tables_keep:
  "(b, vs) \<in> set (mib2_groups @ enterprise_groups) \<Longrightarrow> v \<in> set vs \<Longrightarrow> keeps_settings (findVar v)"
  by (auto simp: mib2_groups_def enterprise_groups_def table_defs)

section \<open>The search\<close>

fun scan_state :: "'m scan \<Rightarrow> 'm" where
  "scan_state (Hit v a n k out m) = m"
| "scan_state (Stop n k out m) = m"
| "scan_state (Miss n k out m) = m"

lemma scan_vars_settings:
  "\<forall>v \<in> set vs. keeps_settings (findVar v) \<Longrightarrow>
   settings (scan_state (scan_vars exact tn k result vs name namelen out m)) = settings m"
proof (induction vs arbitrary: exact result name namelen out m)
  case (Cons v vs)
  have "settings (f_state (findVar v (tn @ vname v) (magic v) (take namelen name) e m)) = settings m" for e
    using Cons.prems by (simp add: keeps_settings_def)
  with Cons.prems show ?case by (simp add: Let_def Cons.IH split: option.split)
qed simp

lemma scan_trees_settings:
  "\<forall>t \<in> set ts. \<forall>v \<in> set (t_variables t). keeps_settings (findVar v) \<Longrightarrow>
   settings (scan_state (scan_trees exact ts name namelen out m)) = settings m"
proof (induction ts arbitrary: exact name namelen out m)
  case (Cons t ts)
  have s: "settings (scan_state (scan_vars exact (t_name t) k r (t_variables t) name namelen out m)) = settings m" for exact k r
    using Cons.prems by (intro scan_vars_settings) simp
  then show ?case using Cons.prems
    by (auto simp: Let_def Cons.IH split: scan.split) (metis scan_state.simps)+
qed simp

lemma tree_keeps: "\<forall>t \<in> set (snmp_vars_init mode []). \<forall>v \<in> set (t_variables t). keeps_settings (findVar v)"
  unfolding snmp_vars_init_tree using tables_keep
  by (fastforce simp: groups_def mk_tree_def split: if_splits)

lemma getStatPtr_settings:
  assumes "getStatPtr trap (snmp_vars_init mode []) name namelen exact view out m = (a, name', namelen', out', m')"
    and "view = 0 \<Longrightarrow> settings (trap m) = settings m"
  shows "settings m' = settings m"
  using assms scan_trees_settings [OF tree_keeps, of exact mode name namelen "out\<lparr>o_write := None\<rparr>" m]
  by (auto simp: getStatPtr_def split: if_splits scan.splits)

end
