(* ===== verification/Snmp_Msg.thy ===== *)
theory Snmp_Msg
  imports Snmp_State
begin

text \<open>
  The parts of an SNMP message: the variable bindings of \<open>src/apps/snmp/src/snmp.c\<close>, and the
  authentication header and the trap message of \<open>snmp_api.c\<close>, in the configuration with \<open>WEBADMIN\<close>.

  A position is an integer where the code may step backwards: the length of a value comes from the
  message and is added to the position as a signed number. As in the coder an outer \<open>None\<close> is an
  encoder that does not end.
\<close>

section \<open>Constants\<close>

definition SNMP_MAX_NAME_LEN :: nat where "SNMP_MAX_NAME_LEN = 32"
definition SNMP_MAX_LEN :: nat where "SNMP_MAX_LEN = 768"
definition SNMP_MAX_TRAP_LEN :: nat where "SNMP_MAX_TRAP_LEN = 256"
definition COMMUNITY_MAX_LEN :: nat where "COMMUNITY_MAX_LEN = 80"
definition SNMP_VERSION_1 :: u32 where "SNMP_VERSION_1 = 0"
definition GET_REQ_MSG :: u8 where "GET_REQ_MSG = 0xA0"
definition GETNEXT_REQ_MSG :: u8 where "GETNEXT_REQ_MSG = 0xA1"
definition GET_RSP_MSG :: u8 where "GET_RSP_MSG = 0xA2"
definition SET_REQ_MSG :: u8 where "SET_REQ_MSG = 0xA3"
definition TRP_REQ_MSG :: u8 where "TRP_REQ_MSG = 0xA4"
definition SNMP_NOSUCHOBJECT :: u8 where "SNMP_NOSUCHOBJECT = 0x80"
definition SNMP_NOSUCHINSTANCE :: u8 where "SNMP_NOSUCHINSTANCE = 0x81"
definition SNMP_ENDOFMIBVIEW :: u8 where "SNMP_ENDOFMIBVIEW = 0x82"

lemmas msg_consts = SNMP_MAX_NAME_LEN_def SNMP_MAX_LEN_def SNMP_MAX_TRAP_LEN_def COMMUNITY_MAX_LEN_def
  SNMP_VERSION_1_def GET_REQ_MSG_def GETNEXT_REQ_MSG_def GET_RSP_MSG_def SET_REQ_MSG_def TRP_REQ_MSG_def
  SNMP_NOSUCHOBJECT_def SNMP_NOSUCHINSTANCE_def SNMP_ENDOFMIBVIEW_def

definition bindO :: "('e + 'a) option \<Rightarrow> ('a \<Rightarrow> ('e + 'b) option) \<Rightarrow> ('e + 'b) option" where
  "bindO r f = (case r of None \<Rightarrow> None | Some (Inl e) \<Rightarrow> Some (Inl e) | Some (Inr x) \<Rightarrow> f x)"

section \<open>Variable bindings (\<open>snmp.c\<close>)\<close>

text \<open>
  The name, the type, length and position of the value, the new position and the bytes left. \<open>stale\<close>
  is what \<open>var_name[1]\<close> holds before.
\<close>

definition snmp_parse_var_op ::
  "u8 list \<Rightarrow> int \<Rightarrow> u16 \<Rightarrow> int \<Rightarrow> int \<Rightarrow> asn_error + (oid \<times> u8 \<times> int \<times> nat \<times> int \<times> int)" where
  "snmp_parse_var_op mem start stale var_name_len listlength =
     (if start < 0 then Inl OutOfBounds
      else bindE (asn_parse_header mem (nat start) listlength) (\<lambda>(var_op_type, data, var_op_len).
        if var_op_type \<noteq> SEQUENCE then Inl Failed
        else bindE (asn_parse_objid mem data var_op_len stale var_name_len) (\<lambda>(ty, var_name, var_val, var_op_len).
          if ty \<noteq> OBJID then Inl Failed
          else bindE (asn_parse_header mem var_val var_op_len) (\<lambda>(var_val_type, data, var_val_len).
            let end_pos = int data + var_val_len
            in Inr (var_name, var_val_type, var_val_len, var_val, end_pos, s32 (listlength - (end_pos - start)))))))"

definition build_value ::
  "u8 list \<Rightarrow> nat \<Rightarrow> int \<Rightarrow> u8 \<Rightarrow> u8 list \<Rightarrow> (asn_error + (u8 list \<times> nat \<times> int)) option" where
  "build_value mem data listlength ty val =
     (if ty = INTEGER then Some (asn_build_int mem data listlength ty (long_of val) (int (length val)))
      else if ty = GAUGE \<or> ty = COUNTER \<or> ty = TIMETICKS \<or> ty = UINTEGER
      then Some (asn_build_unsigned_int mem data listlength ty (long_of val) (int (length val)))
      else if ty = STRING \<or> ty = IPADDRESS \<or> ty = OPAQUE \<or> ty = NSAP
      then Some (asn_build_string mem data listlength ty val)
      else if ty = OBJID then asn_build_objid mem data listlength ty (oid_of val)
      else if ty = ASN_NULL then Some (asn_build_null mem data listlength ty)
      else if ty = ASN_BIT_STRING then Some (asn_build_bitstring mem data listlength ty val)
      else if ty = SNMP_NOSUCHOBJECT \<or> ty = SNMP_NOSUCHINSTANCE \<or> ty = SNMP_ENDOFMIBVIEW
      then Some (asn_build_null mem data listlength ty)
      else Some (Inl Failed))"

definition snmp_build_var_op ::
  "u8 list \<Rightarrow> nat \<Rightarrow> oid \<Rightarrow> u8 \<Rightarrow> u8 list \<Rightarrow> int \<Rightarrow> (asn_error + (u8 list \<times> nat \<times> int)) option" where
  "snmp_build_var_op mem dataPtr var_name ty val listlength =
     (if listlength - 4 < 0 then Some (Inl Failed)
      else bindO (asn_build_objid mem (dataPtr + 4) (listlength - 4) OBJID var_name) (\<lambda>(mem1, p1, l1).
        bindO (build_value mem1 p1 l1 ty val) (\<lambda>(mem2, p2, l2).
          bindO (Some (asn_build_sequence mem2 dataPtr (int (p2 - dataPtr)) SEQUENCE (int (p2 - dataPtr) - 4)))
            (\<lambda>(mem3, p3, l3). Some (Inr (mem3, p3, l2 + (int p2 - int p3)))))))"

section \<open>The authentication header (\<open>snmp_api.c\<close>)\<close>

text \<open>The version, the community name, the new position and the bytes left.\<close>

definition snmp_parse_auth ::
  "u8 list \<Rightarrow> nat \<Rightarrow> int \<Rightarrow> int \<Rightarrow> asn_error + (u32 \<times> u8 list \<times> nat \<times> int)" where
  "snmp_parse_auth mem data len clen =
     bindE (asn_parse_header mem data len) (\<lambda>(ty, p1, l1).
       if ty \<noteq> SEQUENCE then Inl Failed
       else bindE (asn_parse_int mem p1 l1 sizeof_long) (\<lambda>(ty2, version, p2, l2).
         bindE (asn_parse_string mem p2 l2 clen) (\<lambda>(ty3, name, p3, l3).
           Inr (version, name, p3, l3))))"

definition snmp_build_auth ::
  "u8 list \<Rightarrow> nat \<Rightarrow> int \<Rightarrow> u8 list \<Rightarrow> u32 \<Rightarrow> int \<Rightarrow> asn_error + (u8 list \<times> nat \<times> int)" where
  "snmp_build_auth mem outdata outlength name version messagelen =
     bindE (asn_build_sequence mem outdata outlength SEQUENCE 0) (\<lambda>(mem1, p1, l1).
       bindE (asn_build_int mem1 p1 l1 INTEGER version sizeof_long) (\<lambda>(mem2, p2, l2).
         bindE (asn_build_string mem2 p2 l2 STRING name) (\<lambda>(mem3, p3, l3).
           if messagelen \<noteq> 0
           then bindE (asn_build_sequence mem3 outdata (l3 + (int (length name) + 5 + 4)) SEQUENCE
                         (messagelen + int (length name) + 5)) (\<lambda>(mem4, p4, l4). Inr (mem4, p4, l3))
           else Inr (mem3, p3, l3))))"

section \<open>Traps\<close>

record snmp_pdu =
  command :: u8
  reqid :: u32
  errstatus :: u32
  errindex :: u32
  agent_addr :: u32
  generic_trap :: u32
  specific_trap :: u32
  time_stamp :: u32
  variables :: "(oid \<times> u8 \<times> u8 list) list"

fun build_trap_vars ::
  "u8 list \<Rightarrow> nat \<Rightarrow> (oid \<times> u8 \<times> u8 list) list \<Rightarrow> int \<Rightarrow> (asn_error + (u8 list \<times> nat)) option" where
  "build_trap_vars packet cp [] len = Some (Inr (packet, cp))"
| "build_trap_vars packet cp ((name, ty, val) # vs) len =
     bindO (snmp_build_var_op packet cp name ty val len) (\<lambda>(packet', cp', len'). build_trap_vars packet' cp' vs len')"

text \<open>The fields before the variable bindings: those of a request, or those of a trap.\<close>

definition build_trap_fields ::
  "snmp_pdu \<Rightarrow> u8 list \<Rightarrow> int \<Rightarrow> (asn_error + (u8 list \<times> nat \<times> int)) option" where
  "build_trap_fields pdu packet out_length =
     (if command pdu \<noteq> TRP_REQ_MSG
      then Some (bindE (asn_build_int packet 0 out_length INTEGER (reqid pdu) sizeof_long) (\<lambda>(m1, p1, l1).
             bindE (asn_build_int m1 p1 l1 INTEGER (errstatus pdu) sizeof_long) (\<lambda>(m2, p2, l2).
               asn_build_int m2 p2 l2 INTEGER (errindex pdu) sizeof_long)))
      else bindO (asn_build_objid packet 0 out_length OBJID SnmpVersionID) (\<lambda>(m1, p1, l1).
             Some (bindE (asn_build_string m1 p1 l1 IPADDRESS (long_bytes (agent_addr pdu))) (\<lambda>(m2, p2, l2).
               bindE (asn_build_int m2 p2 l2 INTEGER (generic_trap pdu) sizeof_long) (\<lambda>(m3, p3, l3).
                 bindE (asn_build_int m3 p3 l3 INTEGER (specific_trap pdu) sizeof_long) (\<lambda>(m4, p4, l4).
                   asn_build_int m4 p4 l4 TIMETICKS (time_stamp pdu) sizeof_long))))))"

text \<open>
  \<open>packet0\<close> and \<open>buf0\<close> are the contents of the two buffers before the call. The null pointer of a
  failed \<open>snmp_build_auth\<close> is tested only after the length was subtracted from it, so that the
  message is then copied to a wild address.
\<close>

definition null_auth :: "asn_error + 'a \<Rightarrow> asn_error + 'a" where
  "null_auth r = (case r of Inl e \<Rightarrow> Inl OutOfBounds | Inr x \<Rightarrow> Inr x)"

definition snmp_build_trap ::
  "u8 list \<Rightarrow> snmp_pdu \<Rightarrow> u8 list \<Rightarrow> u8 list \<Rightarrow> int \<Rightarrow> (asn_error + u8 list) option" where
  "snmp_build_trap name pdu packet0 buf0 out_length =
     bindO (build_trap_vars packet0 0 (variables pdu) out_length) (\<lambda>(packet1, n1).
     bindO (Some (asn_build_header buf0 0 (int SNMP_MAX_TRAP_LEN) SEQUENCE (int n1))) (\<lambda>(buf1, c1, l1).
     bindO (Some (wr buf1 c1 (take n1 packet1))) (\<lambda>buf2.
     bindO (build_trap_fields pdu packet1 out_length) (\<lambda>(packet2, c2, l2).
       if l2 < int (n1 + c1) then Some (Inl Failed)
       else
     bindO (Some (wr packet2 c2 (take (n1 + c1) buf2))) (\<lambda>packet3.
       let n3 = n1 + c1 + c2 in
     bindO (Some (asn_build_header buf2 0 (int SNMP_MAX_TRAP_LEN) (command pdu) (int n3))) (\<lambda>(buf3, c3, l3).
       if l3 < int n3 then Some (Inl Failed)
       else
     bindO (Some (wr buf3 c3 (take n3 packet3))) (\<lambda>buf4.
       let n4 = n3 + c3 in
     bindO (Some (null_auth (snmp_build_auth packet3 0 out_length name SNMP_VERSION_1 (int n4)))) (\<lambda>(packet4, c4, l4).
       let cp = int c4 - int n4 in
       if out_length - cp < int n4 then Some (Inl Failed)
       else if cp < 0 then Some (Inl OutOfBounds)
       else
     bindO (Some (wr packet4 (nat cp) (take n4 buf4))) (\<lambda>packet5.
       Some (Inr (take (nat cp + n4) packet5)))))))))))"

end
