(* ===== verification/Snmp_Trap.thy ===== *)
theory Snmp_Trap
  imports Snmp_Msg Mib_Handlers
begin

text \<open>
  Sending traps: \<open>free_pdu\<close> and \<open>snmp_send_trap\<close> of \<open>src/apps/snmp/src/snmp_api.c\<close>, \<open>SendTrap\<close> of
  \<open>snmptrap.c\<close>, and \<open>init_snmp_variable\<close> and the loop of \<open>SnmpCheckPrintStatus\<close> of \<open>snmpd.c\<close>.

  Of the PDUs only their number is kept, and of the list of outstanding requests, which nothing
  reads, nothing.
\<close>

definition SNMP_TRAP_ENTERPRISESPECIFIC :: int where "SNMP_TRAP_ENTERPRISESPECIFIC = 6"
definition SNMP_TRAP_COLDSTART :: int where "SNMP_TRAP_COLDSTART = 0"
definition SNMP_TRAP_SPEC_PAPER_OUT :: int where "SNMP_TRAP_SPEC_PAPER_OUT = 100"
definition SNMP_TRAP_SPEC_OFF_LINE :: int where "SNMP_TRAP_SPEC_OFF_LINE = 101"
definition NUM_OF_SNMP_TRAP_IP :: nat where "NUM_OF_SNMP_TRAP_IP = 2"
definition SNMP_AUTH_FAIL :: "u8 list" where "SNMP_AUTH_FAIL = cstr ''Authentication Failure''"

definition free_pdu :: "agent \<Rightarrow> agent" where
  "free_pdu m = m\<lparr>live_pdus := live_pdus m - 1\<rparr>"

text \<open>The uninitialised local buffers of \<open>snmp_send_trap\<close> and \<open>snmp_build_trap\<close>.\<close>

definition stack_trap :: "agent \<Rightarrow> u8 list" where
  "stack_trap m = take SNMP_MAX_TRAP_LEN (junk_buf m @ replicate SNMP_MAX_TRAP_LEN 0)"

definition out_counter :: "u8 \<Rightarrow> agent \<Rightarrow> agent" where
  "out_counter cmd m =
     (if cmd = GET_REQ_MSG then count ''snmp_outgetrequests'' m
      else if cmd = GETNEXT_REQ_MSG then count ''snmp_outgetnexts'' m
      else if cmd = SET_REQ_MSG then count ''snmp_outsetrequests'' m
      else if cmd = GET_RSP_MSG then count ''snmp_outgetresponses'' m
      else if cmd = TRP_REQ_MSG then count ''snmp_outtraps'' m
      else m)"

text \<open>The request id, or nothing when the message is not sent: \<open>calloc\<close> failed or the command is unknown.\<close>

definition assign_reqid :: "snmp_pdu \<Rightarrow> agent \<Rightarrow> (snmp_pdu \<times> agent) option \<times> agent" where
  "assign_reqid pdu m =
     (if command pdu = GET_REQ_MSG \<or> command pdu = GETNEXT_REQ_MSG \<or> command pdu = SET_REQ_MSG
      then let m1 = (if reqid pdu = 0 then m\<lparr>Reqid := Reqid m + 1\<rparr> else m);
               pdu1 = (if reqid pdu = 0 then pdu\<lparr>reqid := Reqid m + 1\<rparr> else pdu)
           in (if heap_ok m then Some (pdu1, m1) else None, m1)
      else if command pdu = GET_RSP_MSG then (Some (pdu, m), m)
      else if command pdu = TRP_REQ_MSG then (Some (pdu\<lparr>reqid := 1\<rparr>, m), m)
      else (None, m))"

text \<open>
  \<open>addr\<close> is \<open>session->r_addr.sin_addr.s_addr\<close>, \<open>pdu_addr\<close> that of the PDU.
\<close>

definition snmp_send_trap ::
  "u8 list \<Rightarrow> u32 \<Rightarrow> u32 \<Rightarrow> snmp_pdu \<Rightarrow> agent \<Rightarrow> (asn_error + (bool \<times> agent)) option" where
  "snmp_send_trap name addr pdu_addr pdu m =
     (if pdu_addr = 0 \<and> addr = 0 then Some (Inr (False, m))
      else case assign_reqid pdu (out_counter (command pdu) m) of
             (None, m1) \<Rightarrow> Some (Inr (False, m1))
           | (Some (pdu1, m1), _) \<Rightarrow>
               (case snmp_build_trap name pdu1 (stack_trap m) (stack_trap m) (int SNMP_MAX_TRAP_LEN) of
                  None \<Rightarrow> None
                | Some (Inl OutOfBounds) \<Rightarrow> Some (Inl OutOfBounds)
                | Some (Inl e) \<Rightarrow> Some (Inr (False, m1))
                | Some (Inr packet) \<Rightarrow>
                    (let m2 = count ''snmp_outpkts'' m1
                     in if \<not> net_ok m2 then Some (Inr (False, m2))
                        else let m3 = m2\<lparr>events := events m2 @ [SentTrap (long_bytes addr) packet]\<rparr>
                             in Some (Inr (True, if command pdu = GET_RSP_MSG \<or> command pdu = TRP_REQ_MSG
                                                 then free_pdu m3 else m3)))))"

section \<open>\<open>SendTrap\<close>\<close>

definition trap_community :: "u8 list" where "trap_community = cstr ''public''"

definition trap_pdu :: "int \<Rightarrow> int \<Rightarrow> u8 list \<Rightarrow> agent \<Rightarrow> snmp_pdu" where
  "trap_pdu generic specific description m =
     \<lparr>command = TRP_REQ_MSG, reqid = 0, errstatus = 0, errindex = 0, agent_addr = NGET32 (BoxIPAddress (ee m)),
      generic_trap = word_of_int generic, specific_trap = word_of_int specific, time_stamp = msclock m div 10,
      variables = [(SnmpVersionID, STRING, description)]\<rparr>"

fun send_traps ::
  "int \<Rightarrow> int \<Rightarrow> u8 list \<Rightarrow> u8 list list \<Rightarrow> agent \<Rightarrow> (asn_error + agent) option" where
  "send_traps generic specific description [] m = Some (Inr m)"
| "send_traps generic specific description (ip # ips) m =
     (let addr = NGET32 ip
      in if addr = 0 then send_traps generic specific description ips m
         else if \<not> heap_ok m then Some (Inr m)
         else bindO (snmp_send_trap trap_community addr 0 (trap_pdu generic specific description m)
                       (m\<lparr>live_pdus := live_pdus m + 1\<rparr>)) (\<lambda>(sent, m').
                send_traps generic specific description ips m'))"

definition SendTrap :: "int \<Rightarrow> int \<Rightarrow> u8 list \<Rightarrow> agent \<Rightarrow> (asn_error + agent) option" where
  "SendTrap generic specific description m =
     (let m1 = (if InitTrapSession m = 0 then m\<lparr>InitTrapSession := 1\<rparr> else m)
      in if SnmpTrapEnable (ee m1) \<noteq> 0
         then send_traps generic specific description (take NUM_OF_SNMP_TRAP_IP (SnmpTrapTargetIP (ee m1))) m1
         else Some (Inr m1))"

text \<open>A trap from inside a function that goes on afterwards; \<open>SendTrap\<close> always returns.\<close>

definition send_trap :: "int \<Rightarrow> int \<Rightarrow> u8 list \<Rightarrow> agent \<Rightarrow> agent" where
  "send_trap generic specific description m =
     (case SendTrap generic specific description m of Some (Inr m') \<Rightarrow> m' | _ \<Rightarrow> m)"

definition SendAuthFailTrap :: "agent \<Rightarrow> agent" where
  "SendAuthFailTrap m = send_trap SNMP_TRAP_AUTHFAIL SNMP_TRAP_AUTHFAIL SNMP_AUTH_FAIL m"

text \<open>The test that \<open>getStatPtr\<close> and \<open>community_auth\<close> make before.\<close>

definition auth_fail :: "agent \<Rightarrow> agent" where
  "auth_fail m =
     (if SnmpTrapEnable (ee m) = SNMP_TRAP_ENABLE \<and> SnmpAuthenTrap (ee m) = SNMP_TRAP_AUTH_ENABLE
      then SendAuthFailTrap m else m)"

section \<open>\<open>snmpd.c\<close>\<close>

definition init_snmp_variable :: "agent \<Rightarrow> agent" where
  "init_snmp_variable m =
     m\<lparr>SnmpCommunityAuth := [(0, SnmpComm0AccessMode (ee m)), (1, SnmpComm1AccessMode (ee m))]\<rparr>"

definition port_digit :: "nat \<Rightarrow> u8" where "port_digit i = of_nat i + 0x31"

definition PaperOutMessage :: "nat \<Rightarrow> u8 list" where
  "PaperOutMessage i = (cstr ''Port 1 Paper Out'')[5 := port_digit i]"

definition OffLineMessage :: "nat \<Rightarrow> u8 list" where
  "OffLineMessage i = (cstr ''Port 1 Off Line'')[5 := port_digit i]"

definition port_status_of :: "u8 \<Rightarrow> nat \<Rightarrow> u8" where
  "port_status_of st i = drop_bit (2 * i) (st AND push_bit (2 * i) 3)"

definition check_port :: "u8 \<Rightarrow> u8 \<Rightarrow> nat \<Rightarrow> agent \<Rightarrow> agent" where
  "check_port cur prev i m =
     (let CurPortStatus = port_status_of cur i; LastPortStatus = port_status_of prev i
      in if LastPortStatus = 0 \<or> LastPortStatus = 3
         then let m1 = (if adjPortType (prn m) ! i = PORT_PAPER_OUT
                        then send_trap SNMP_TRAP_ENTERPRISESPECIFIC SNMP_TRAP_SPEC_PAPER_OUT (PaperOutMessage i) m
                        else m);
                  m2 = (if CurPortStatus = 1
                        then send_trap SNMP_TRAP_ENTERPRISESPECIFIC SNMP_TRAP_SPEC_PAPER_OUT (PaperOutMessage i) m1
                        else m1)
              in if CurPortStatus = 2
                 then send_trap SNMP_TRAP_ENTERPRISESPECIFIC SNMP_TRAP_SPEC_OFF_LINE (OffLineMessage i) m2
                 else m2
         else m)"

text \<open>One pass of the loop: the new \<open>LastPrnStatus\<close>.\<close>

definition SnmpCheckPrintStatus :: "u8 \<Rightarrow> agent \<Rightarrow> u8 \<times> agent" where
  "SnmpCheckPrintStatus LastPrnStatus m =
     (case ReadPrintStatus (sp (prn m)) of
        (CurPrnStatus, s) \<Rightarrow>
          (CurPrnStatus, fold (check_port CurPrnStatus LastPrnStatus) [0..<NUM_OF_PRN_PORT]
                           (m\<lparr>prn := (prn m)\<lparr>sp := s\<rparr>\<rparr>)))"

end
