(* ===== verification/Snmp_Agent.thy ===== *)
theory Snmp_Agent
  imports Snmp_Trap
begin

text \<open>
  The SNMP agent, \<open>src/apps/snmp/src/snmpaget.c\<close>: the access rights of a community, the loop over
  the variable bindings, the answer, and one pass of the agent's thread (\<open>snmp_read\<close>).

  A result is an option, \<open>None\<close> for a loop that does not end within the fuel, of a sum, \<open>Inl
  OutOfBounds\<close> for an access outside a buffer. The locals \<open>var_name\<close>, \<open>acl\<close> and \<open>write_method\<close> of
  \<open>parse_var_op_list\<close> are not initialised and keep their values from one binding to the next; \<open>junk\<close>
  gives their first values for each action.
\<close>

section \<open>Constants and locals\<close>

definition RESERVE1 :: int where "RESERVE1 = 0"
definition RESERVE2 :: int where "RESERVE2 = 1"
definition ACTION :: int where "ACTION = 3"
definition COMM_FREE :: int where "COMM_FREE = 4"
definition PARSE_ERROR :: int where "PARSE_ERROR = - 1"
definition BUILD_ERROR :: int where "BUILD_ERROR = - 2"
definition SNMP_ACCESS_READ :: u8 where "SNMP_ACCESS_READ = 1"
definition SNMP_ACCESS_WRITE :: u8 where "SNMP_ACCESS_WRITE = 2"
definition SNMP_ACCESS_RW :: u8 where "SNMP_ACCESS_RW = 3"

lemmas agent_consts = RESERVE1_def RESERVE2_def ACTION_def COMM_FREE_def PARSE_ERROR_def BUILD_ERROR_def
  SNMP_ACCESS_READ_def SNMP_ACCESS_WRITE_def SNMP_ACCESS_RW_def

record locals =
  var_name :: oid
  l_out :: "agent stat_out"

section \<open>Access rights\<close>

text \<open>The names the agent knows of itself for JetAdmin: the access they add and the port.\<close>

definition jet_community :: "u8 list \<Rightarrow> (u8 \<times> u8) option" where
  "jet_community c =
     (if c = cstr ''internal3'' \<or> c = cstr ''internal.3'' then Some (SNMP_ACCESS_RW, 3)
      else if c = cstr ''internal2'' \<or> c = cstr ''internal.2'' then Some (SNMP_ACCESS_RW, 2)
      else if c = cstr ''internal'' then Some (SNMP_ACCESS_RW, 1)
      else if c = cstr ''public3'' \<or> c = cstr ''public.3'' then Some (SNMP_ACCESS_READ, 3)
      else if c = cstr ''public2'' \<or> c = cstr ''public.2'' then Some (SNMP_ACCESS_READ, 2)
      else if c = cstr ''public'' then Some (SNMP_ACCESS_READ, 1)
      else None)"

definition community_auth :: "agent \<Rightarrow> bool \<times> agent" where
  "community_auth m =
     (let c = cstring (community m);
          (access, port) = (if PSMode2 m AND PS_WEBJETADMIN_ON \<noteq> 0
                            then case jet_community c of Some ap \<Rightarrow> ap | None \<Rightarrow> (0, 1) else (0, 1))
      in case find (\<lambda>(i, am). c = cstring (SnmpCommunityAuthName (ee m) ! i)) (SnmpCommunityAuth m) of
           Some (i, am) \<Rightarrow> (True, m\<lparr>session_access := access OR am, JetPort := port\<rparr>)
         | None \<Rightarrow>
             (let m1 = m\<lparr>session_access := access, JetPort := port\<rparr>
              in if access \<noteq> 0 then (True, m1) else (False, auth_fail m1)))"

section \<open>Setting a variable without a write method\<close>

definition goodValue :: "u8 \<Rightarrow> int \<Rightarrow> u8 \<Rightarrow> int \<Rightarrow> bool" where
  "goodValue inType inLen actualType actualLen \<longleftrightarrow> inLen \<le> actualLen \<and> inType = actualType"

definition keep_going :: "asn_error + 'a \<Rightarrow> agent \<Rightarrow> ('a \<Rightarrow> agent) \<Rightarrow> asn_error + agent" where
  "keep_going r m f =
     (case r of Inr x \<Rightarrow> Inr (f x) | Inl OutOfBounds \<Rightarrow> Inl OutOfBounds | Inl e \<Rightarrow> Inr (perr e m))"

text \<open>\<open>statP\<close> is the value pointer: the bytes it points to and the effect of storing through it.\<close>

definition setVariable ::
  "u8 list \<Rightarrow> nat \<Rightarrow> u8 \<Rightarrow> u8 list \<times> (u8 list \<Rightarrow> agent \<Rightarrow> agent) \<Rightarrow> agent \<Rightarrow> asn_error + agent" where
  "setVariable mem var_val ty statP m =
     (let statLen = int (length (fst statP))
      in if ty = INTEGER \<or> ty = COUNTER \<or> ty = GAUGE \<or> ty = TIMETICKS
         then keep_going (asn_parse_int mem var_val 1000 statLen) m (\<lambda>(t, v, p, l). snd statP (long_bytes v) m)
         else if ty = STRING \<or> ty = IPADDRESS \<or> ty = OPAQUE
         then keep_going (asn_parse_string mem var_val 1000 statLen) m (\<lambda>(t, s, p, l). snd statP s m)
         else if ty = OBJID
         then keep_going (asn_parse_objid mem var_val 1000 (oid_of (fst statP) ! 1) statLen) m
                (\<lambda>(t, os, p, l). snd statP (oid_bytes os) m)
         else Inr m)"

section \<open>The variable bindings\<close>

text \<open>The SNMPv2 error codes as SNMPv1 codes (RFC 2089).\<close>

definition v1_error :: "int \<Rightarrow> int" where
  "v1_error err =
     (if err = SNMP_ERR_NOERROR then SNMP_ERR_NOERROR
      else if err \<in> {SNMP_ERR_WRONGVALUE, SNMP_ERR_WRONGENCODING, SNMP_ERR_WRONGTYPE, SNMP_ERR_WRONGLENGTH,
                     SNMP_ERR_INCONSISTENTVALUE} then SNMP_ERR_BADVALUE
      else if err \<in> {SNMP_ERR_NOACCESS, SNMP_ERR_NOTWRITABLE, SNMP_ERR_NOCREATION, SNMP_ERR_INCONSISTENTNAME,
                     SNMP_ERR_AUTHORIZATIONERROR} then SNMP_ERR_NOSUCHNAME
      else SNMP_ERR_GENERR)"

text \<open>
  One binding of a SET request, after the search: the error code and the state.
\<close>

definition set_binding ::
  "int \<Rightarrow> u8 list \<Rightarrow> nat \<Rightarrow> u8 \<Rightarrow> int \<Rightarrow> oid \<Rightarrow> (u8 list \<times> (u8 list \<Rightarrow> agent \<Rightarrow> agent)) option \<Rightarrow>
   agent stat_out \<Rightarrow> agent \<Rightarrow> asn_error + (int \<times> agent)" where
  "set_binding action mem var_val ty n name statP out m =
     (if o_acl out \<noteq> RWRITE then Inr (SNMP_ERR_READONLY, m)
      else case o_write out of
             Some w \<Rightarrow>
               bindE (w action mem var_val ty n name m) (\<lambda>(err, m1).
                 let e = v1_error err
                 in Inr (e, if e \<noteq> SNMP_ERR_NOERROR then count ''snmp_inbadvalues'' m1 else m1))
           | None \<Rightarrow>
               (case statP of
                  None \<Rightarrow> Inr (SNMP_ERR_NOSUCHNAME, m)
                | Some p \<Rightarrow>
                    if \<not> goodValue ty n (o_type out) (int (length (fst p)))
                    then Inr (SNMP_ERR_BADVALUE, count ''snmp_inbadvalues'' m)
                    else if action = COMMIT then bindE (setVariable mem var_val ty p m) (\<lambda>m1. Inr (SNMP_ERR_NOERROR, m1))
                    else Inr (SNMP_ERR_NOERROR, m)))"

text \<open>The result of \<open>parse_var_op_list\<close>: the code, \<open>*index\<close>, the output buffer, \<open>packet_end\<close>, the state.\<close>

record vresult =
  r_code :: int
  r_index :: nat
  r_out :: "u8 list"
  r_end :: nat
  r_state :: agent

definition vres :: "int \<Rightarrow> nat \<Rightarrow> u8 list \<Rightarrow> nat \<Rightarrow> agent \<Rightarrow> vresult" where
  "vres code index out pend m = \<lparr>r_code = code, r_index = index, r_out = out, r_end = pend, r_state = m\<rparr>"

definition view_of :: "u8 \<Rightarrow> agent \<Rightarrow> u8" where
  "view_of msgtype m =
     session_access m AND (if msgtype = SET_REQ_MSG then SNMP_ACCESS_WRITE else SNMP_ACCESS_READ)"

definition agent_tree :: "agent \<Rightarrow> agent subtree list" where
  "agent_tree m = snmp_vars_init (PSMode2 m) []"

definition no_value :: "bool \<Rightarrow> bool \<Rightarrow> u8" where
  "no_value exact noSuchObject =
     (if exact then if noSuchObject then SNMP_NOSUCHOBJECT else SNMP_NOSUCHINSTANCE else SNMP_ENDOFMIBVIEW)"

text \<open>
  The loop over the bindings. \<open>pend\<close> is the global \<open>packet_end\<close>. The value's type and length for
  GET are those the search found.
\<close>

fun var_op_loop ::
  "nat \<Rightarrow> u8 \<Rightarrow> int \<Rightarrow> u8 list \<Rightarrow> int \<Rightarrow> int \<Rightarrow> u8 list \<Rightarrow> nat \<Rightarrow> int \<Rightarrow> nat \<Rightarrow> nat \<Rightarrow> locals \<Rightarrow> agent \<Rightarrow>
   (asn_error + (bool \<times> nat \<times> vresult)) option" where
  "var_op_loop fuel msgtype action mem data len out out_data out_length index pend l m =
     (if len \<le> 0 then Some (Inr (True, out_data, vres SNMP_ERR_NOERROR index out pend m))
      else case fuel of 0 \<Rightarrow> None | Suc k \<Rightarrow>
        (case snmp_parse_var_op mem data (var_name l ! 1) (int SNMP_MAX_NAME_LEN) len of
           Inl OutOfBounds \<Rightarrow> Some (Inl OutOfBounds)
         | Inl e \<Rightarrow> Some (Inr (False, out_data, vres PARSE_ERROR index out pend (perr e m)))
         | Inr (objs, ty, n, var_val, data', len') \<Rightarrow>
             (case getStatPtr auth_fail (agent_tree m) (set_name (var_name l) objs) (length objs)
                     (msgtype \<noteq> GETNEXT_REQ_MSG) (view_of msgtype m) (l_out l) m of
                (statP, name, namelen, o', m1) \<Rightarrow>
                  let l' = \<lparr>var_name = name, l_out = o'\<rparr>
                  in if Option.is_none statP \<and> (msgtype \<noteq> SET_REQ_MSG \<or> Option.is_none (o_write o'))
                     then Some (Inr (False, out_data, vres SNMP_ERR_NOSUCHNAME index out pend m1))
                     else if msgtype = SET_REQ_MSG
                     then (case set_binding action mem var_val ty n name statP o' m1 of
                             Inl e \<Rightarrow> Some (Inl e)
                           | Inr (err, m2) \<Rightarrow>
                               if err \<noteq> SNMP_ERR_NOERROR
                               then Some (Inr (False, out_data, vres err index out pend m2))
                               else var_op_loop k msgtype action mem data' len' out out_data out_length (index + 1) pend l' m2)
                     else let (vty, val) = (case statP of
                                              None \<Rightarrow> (no_value (msgtype \<noteq> GETNEXT_REQ_MSG) (o_noSuchObject o'), [])
                                            | Some p \<Rightarrow> (o_type o', fst p))
                          in (case snmp_build_var_op out out_data (take namelen name) vty val out_length of
                                None \<Rightarrow> None
                              | Some (Inl OutOfBounds) \<Rightarrow> Some (Inl OutOfBounds)
                              | Some (Inl e) \<Rightarrow> Some (Inr (False, out_data, vres SNMP_ERR_TOOBIG index out pend m1))
                              | Some (Inr (out', out_data', out_length')) \<Rightarrow>
                                  var_op_loop k msgtype action mem data' len' out' out_data' out_length' (index + 1) pend l' m1))))"

declare var_op_loop.simps [simp del]

text \<open>
  After the loop the length of the list is known; its header is written again and the bindings are
  moved up to it.
\<close>

definition finish_list ::
  "u8 \<Rightarrow> nat \<Rightarrow> nat \<Rightarrow> bool \<times> nat \<times> vresult \<Rightarrow> asn_error + vresult" where
  "finish_list msgtype headerP var_list_start r =
     (case r of (complete, out_data, v) \<Rightarrow>
        if \<not> complete then Inr v
        else if msgtype \<noteq> SET_REQ_MSG
        then bindE (null_auth (asn_build_sequence (r_out v) headerP (int (out_data - headerP)) SEQUENCE
                                 (int (out_data - var_list_start)))) (\<lambda>(out', newpacket_end, l).
               Inr (v\<lparr>r_out := out', r_end := newpacket_end, r_index := 0\<rparr>))
        else Inr (v\<lparr>r_index := 0\<rparr>))"

definition parse_var_op_list ::
  "nat \<Rightarrow> u8 list \<Rightarrow> nat \<Rightarrow> int \<Rightarrow> u8 list \<Rightarrow> nat \<Rightarrow> int \<Rightarrow> nat \<Rightarrow> nat \<Rightarrow> u8 \<Rightarrow> int \<Rightarrow> locals \<Rightarrow> agent \<Rightarrow>
   (asn_error + vresult) option" where
  "parse_var_op_list fuel mem data len out out_data out_length index pend msgtype action l m =
     (case asn_parse_header mem data len of
        Inl OutOfBounds \<Rightarrow> Some (Inl OutOfBounds)
      | Inl e \<Rightarrow> Some (Inr (vres PARSE_ERROR index out pend (perr e m)))
      | Inr (ty, data1, len1) \<Rightarrow>
          if ty \<noteq> SEQUENCE then Some (Inr (vres PARSE_ERROR index out pend m))
          else (case asn_build_sequence out out_data out_length SEQUENCE 0 of
                  Inl OutOfBounds \<Rightarrow> Some (Inl OutOfBounds)
                | Inl e \<Rightarrow> Some (Inr (vres BUILD_ERROR index out pend m))
                | Inr (out1, p1, l1) \<Rightarrow>
                    bindO (var_op_loop fuel msgtype action mem (int data1) len1 out1 p1 l1 1 pend l m) (\<lambda>r.
                      Some (finish_list msgtype out_data p1 r))))"

section \<open>The answer that repeats the request\<close>

definition store_community :: "u8 list \<Rightarrow> agent \<Rightarrow> agent" where
  "store_community name m = m\<lparr>community := overwrite (community m) 0 (name @ [0]), community_len := int (length name)\<rparr>"

text \<open>
  A failed parse ends the request without an answer; an access outside a buffer ends the model.
\<close>

definition or_quit ::
  "(agent \<Rightarrow> agent) \<Rightarrow> asn_error + 'a \<Rightarrow> agent \<Rightarrow> ('a \<Rightarrow> asn_error + ('b option \<times> agent)) \<Rightarrow> asn_error + ('b option \<times> agent)" where
  "or_quit note_it r m f =
     (case r of Inr x \<Rightarrow> f x
      | Inl OutOfBounds \<Rightarrow> Inl OutOfBounds
      | Inl e \<Rightarrow> Inr (None, note_it (perr e m)))"

definition create_identical ::
  "u8 list \<Rightarrow> u8 list \<Rightarrow> nat \<Rightarrow> u32 \<Rightarrow> u32 \<Rightarrow> agent \<Rightarrow> asn_error + (u8 list option \<times> agent)" where
  "create_identical snmp_in snmp_out n es ei m =
     (let out0 = overwrite snmp_out 0 (take n snmp_in);
          close = (\<lambda>m. m\<lparr>community := (community m)[nat (community_len m) := 0]\<rparr>)
      in or_quit close (snmp_parse_auth out0 0 (int n) (community_len m)) m (\<lambda>(version, name, headerPtr, l0).
         let m1 = close (store_community name m) in
         or_quit (\<lambda>m. m) (asn_parse_header out0 headerPtr l0) m1 (\<lambda>(ty, reqidPtr, l1).
         or_quit (\<lambda>m. m) (asn_parse_int out0 reqidPtr l1 sizeof_long) m1 (\<lambda>(t1, v1, errstatPtr, l2).
         or_quit (\<lambda>m. m) (asn_parse_int out0 errstatPtr l2 sizeof_long) m1 (\<lambda>(t2, v2, errindexPtr, l3).
         or_quit (\<lambda>m. m) (asn_parse_int out0 errindexPtr l3 sizeof_long) m1 (\<lambda>(t3, v3, varListPtr, l4).
         let out1 = out0[headerPtr := GET_RSP_MSG] in
         or_quit (\<lambda>m. m) (asn_build_int out1 errstatPtr (int n) INTEGER es sizeof_long) m1 (\<lambda>(out2, p2, k2).
           if p2 \<noteq> errindexPtr then Inr (None, m1)
           else
         or_quit (\<lambda>m. m) (asn_build_int out2 errindexPtr k2 INTEGER ei sizeof_long) m1 (\<lambda>(out3, p3, k3).
           if p3 \<noteq> varListPtr then Inr (None, m1) else Inr (Some (take n out3), m1)))))))))"

section \<open>One request\<close>

record request =
  rq_type :: u8
  rq_reqid :: u32
  rq_pos :: nat
  rq_len :: int

text \<open>Everything before the variable bindings.\<close>

definition parse_pdu :: "u8 list \<Rightarrow> nat \<Rightarrow> int \<Rightarrow> agent \<Rightarrow> asn_error + (request option \<times> agent)" where
  "parse_pdu mem pos len m =
     or_quit (\<lambda>m. m) (asn_parse_header mem pos len) m (\<lambda>(msgtype, p1, l1).
       let m0 = count ''snmp_intotalreqvars'' m in
       if msgtype \<noteq> GET_REQ_MSG \<and> msgtype \<noteq> GETNEXT_REQ_MSG \<and> msgtype \<noteq> SET_REQ_MSG then Inr (None, m0)
       else
       let m1 = count (if msgtype = GET_REQ_MSG then ''snmp_ingetrequests''
                       else if msgtype = GETNEXT_REQ_MSG then ''snmp_ingetnexts'' else ''snmp_insetrequests'') m0 in
       or_quit (\<lambda>m. m) (asn_parse_int mem p1 l1 sizeof_long) m1 (\<lambda>(t2, rid, p2, l2).
       or_quit (count ''snmp_inasnparseerrors'') (asn_parse_int mem p2 l2 sizeof_long) m1 (\<lambda>(t3, es, p3, l3).
       or_quit (\<lambda>m. m) (asn_parse_int mem p3 l3 sizeof_long) m1 (\<lambda>(t4, ei, p4, l4).
         Inr (Some \<lparr>rq_type = msgtype, rq_reqid = rid, rq_pos = p4, rq_len = l4\<rparr>, m1)))))"

definition parse_request :: "u8 list \<Rightarrow> nat \<Rightarrow> agent \<Rightarrow> asn_error + (request option \<times> agent)" where
  "parse_request mem inlength m0 =
     (let m = m0\<lparr>community_len := int COMMUNITY_MAX_LEN\<rparr>
      in or_quit (\<lambda>m. m) (snmp_parse_auth mem 0 (int inlength) (community_len m)) m (\<lambda>(version, name, pos, len).
           let m1 = store_community name m in
           if version \<noteq> SNMP_VERSION_1 then Inr (None, count ''snmp_inbadversions'' m1)
           else case community_auth m1 of
                  (False, m2) \<Rightarrow> Inr (None, m2)
                | (True, m2) \<Rightarrow> parse_pdu mem pos len m2))"

definition session_community :: "agent \<Rightarrow> u8 list" where
  "session_community m = take (nat (community_len m)) (community m)"

text \<open>The beginning of the answer: the buffer, \<open>out_header\<close>, \<open>out_reqid\<close>, the end and the room left.\<close>

definition start_response :: "u8 list \<Rightarrow> nat \<Rightarrow> int \<Rightarrow> u32 \<Rightarrow> asn_error + (u8 list \<times> nat \<times> nat \<times> int)" where
  "start_response out out_header l0 rid =
     bindE (asn_build_sequence out out_header l0 GET_RSP_MSG 0) (\<lambda>(o1, out_reqid, l1).
     bindE (asn_build_int o1 out_reqid l1 INTEGER rid sizeof_long) (\<lambda>(o2, p2, l2).
     bindE (asn_build_int o2 p2 l2 INTEGER 0 sizeof_long) (\<lambda>(o3, p3, l3).
     bindE (asn_build_int o3 p3 l3 INTEGER 0 sizeof_long) (\<lambda>(o4, p4, l4).
       Inr (o4, out_reqid, p4, l4)))))"

text \<open>The headers with the real lengths, innermost first; each step moves what it encloses.\<close>

definition finish_response ::
  "u8 list \<Rightarrow> nat \<Rightarrow> nat \<Rightarrow> nat \<Rightarrow> u8 list \<Rightarrow> asn_error + u8 list option" where
  "finish_response out out_header out_reqid pend name =
     bindE (null_auth (asn_build_sequence out out_header (int pend - int out_header) GET_RSP_MSG
                         (int pend - int out_reqid))) (\<lambda>(o1, pend1, l1).
       let shift = int pend - int pend1; n = int pend - int out_reqid
       in if int pend1 - n \<noteq> int out_reqid - shift then Inr None
          else bindE (null_auth (snmp_build_auth o1 0 (int pend1) name SNMP_VERSION_1 (int pend1 - int out_header)))
                 (\<lambda>(o2, pend2, l2). Inr (Some (take pend2 o2))))"

definition error_answer ::
  "u8 list \<Rightarrow> nat \<Rightarrow> u8 list \<Rightarrow> int \<Rightarrow> nat \<Rightarrow> agent \<Rightarrow> asn_error + (u8 list option \<times> agent)" where
  "error_answer mem inlength out code index m =
     (if 1 \<le> code \<and> code \<le> 18
      then create_identical mem out inlength (word_of_int code) (of_nat index)
             (if code = SNMP_ERR_TOOBIG then count ''snmp_intoobigs'' m else m)
      else Inr (None, m))"

text \<open>
  The passes of a SET request: \<open>RESERVE1\<close> and \<open>RESERVE2\<close> check, \<open>COMMIT\<close> sets, and the codes of
  \<open>COMMIT\<close> and \<open>ACTION\<close> are ignored.
\<close>

definition answer_set ::
  "(int \<Rightarrow> u8 list \<Rightarrow> nat \<Rightarrow> nat \<Rightarrow> agent \<Rightarrow> (asn_error + vresult) option) \<Rightarrow> u8 list \<Rightarrow> nat \<Rightarrow> u8 list \<Rightarrow> agent \<Rightarrow>
   (asn_error + (u8 list option \<times> agent)) option" where
  "answer_set pass mem inlength out m =
     bindO (pass RESERVE1 out 0 0 m) (\<lambda>r1.
     bindO (if r_code r1 = SNMP_ERR_NOERROR then pass RESERVE2 (r_out r1) (r_index r1) (r_end r1) (r_state r1)
            else Some (Inr r1)) (\<lambda>r2.
       if r_code r2 = SNMP_ERR_NOERROR
       then bindO (pass COMMIT (r_out r2) 0 (r_end r2) (r_state r2)) (\<lambda>r3.
            bindO (pass ACTION (r_out r3) 0 (r_end r3) (r_state r3)) (\<lambda>r4.
              Some (create_identical mem (r_out r4) inlength 0 0 (r_state r4))))
       else bindO (pass COMM_FREE (r_out r2) 0 (r_end r2) (r_state r2)) (\<lambda>r3.
              Some (error_answer mem inlength (r_out r3) (r_code r2) (r_index r2) (r_state r3)))))"

definition answer_get ::
  "(int \<Rightarrow> u8 list \<Rightarrow> nat \<Rightarrow> nat \<Rightarrow> agent \<Rightarrow> (asn_error + vresult) option) \<Rightarrow> u8 list \<Rightarrow> nat \<Rightarrow> u8 list \<Rightarrow> nat \<Rightarrow> nat \<Rightarrow>
   agent \<Rightarrow> (asn_error + (u8 list option \<times> agent)) option" where
  "answer_get pass mem inlength out out_header out_reqid m =
     bindO (pass RESERVE1 out 0 0 m) (\<lambda>r.
       if r_code r = SNMP_ERR_NOERROR
       then Some (bindE (finish_response (r_out r) out_header out_reqid (r_end r) (session_community (r_state r)))
                    (\<lambda>a. Inr (a, r_state r)))
       else Some (error_answer mem inlength (r_out r) (r_code r) (r_index r) (r_state r)))"

definition snmp_agent_parse ::
  "nat \<Rightarrow> (int \<Rightarrow> locals) \<Rightarrow> u8 list \<Rightarrow> nat \<Rightarrow> u8 list \<Rightarrow> agent \<Rightarrow> (asn_error + (u8 list option \<times> agent)) option" where
  "snmp_agent_parse fuel junk mem inlength out m0 =
     bindO (Some (parse_request mem inlength m0)) (\<lambda>(rq, m).
       case rq of
         None \<Rightarrow> Some (Inr (None, m))
       | Some q \<Rightarrow>
           (case snmp_build_auth out 0 (int SNMP_MAX_LEN) (session_community m) SNMP_VERSION_1 0 of
              Inl OutOfBounds \<Rightarrow> Some (Inl OutOfBounds)
            | Inl e \<Rightarrow> Some (Inr (None, count ''snmp_inasnparseerrors'' m))
            | Inr (o1, out_header, l1) \<Rightarrow>
                (case start_response o1 out_header l1 (rq_reqid q) of
                   Inl OutOfBounds \<Rightarrow> Some (Inl OutOfBounds)
                 | Inl e \<Rightarrow> Some (Inr (None, m))
                 | Inr (o2, out_reqid, outdata, l2) \<Rightarrow>
                     let pass = (\<lambda>action out index pend m.
                           parse_var_op_list fuel mem (rq_pos q) (rq_len q) out outdata l2 index pend (rq_type q) action
                             (junk action) m)
                     in if rq_type q = SET_REQ_MSG then answer_set pass mem inlength o2 m
                        else answer_get pass mem inlength o2 out_header out_reqid m)))"

section \<open>The agent's thread\<close>

definition RunChangeIPAddress :: "agent \<Rightarrow> agent" where
  "RunChangeIPAddress m =
     (if Snmp_Change_IP m \<noteq> 0 then m\<lparr>events := events m @ [UseEEPROMIP], Snmp_Change_IP := 0\<rparr> else m)"

definition RunRestart :: "agent \<Rightarrow> agent" where
  "RunRestart m = (if Snmp_Restart m \<noteq> 0 then m\<lparr>Snmp_Restart := 0, events := events m @ [Reset]\<rparr> else m)"

definition RunWriteDataToEEPROM :: "agent \<Rightarrow> agent" where
  "RunWriteDataToEEPROM m =
     (if Snmp_WriteDataTo_EEPROM m \<noteq> 0 then RunRestart ((WriteToEEPROM m)\<lparr>Snmp_WriteDataTo_EEPROM := 0\<rparr>) else m)"

text \<open>
  \<open>received\<close> is what \<open>recvfrom\<close> returns, at most \<open>SNMP_MAX_LEN\<close> bytes; \<open>inpacket\<close> and \<open>outpacket\<close>
  are the contents of the local buffers before.
\<close>

definition snmp_read ::
  "nat \<Rightarrow> (int \<Rightarrow> locals) \<Rightarrow> u8 list \<Rightarrow> u8 list \<Rightarrow> u8 list option \<Rightarrow> agent \<Rightarrow> (asn_error + agent) option" where
  "snmp_read fuel junk inpacket outpacket received m =
     (case received of
        None \<Rightarrow> Some (Inr m)
      | Some bs \<Rightarrow>
          bindO (snmp_agent_parse fuel junk (overwrite inpacket 0 bs) (length bs) outpacket (count ''snmp_inpkts'' m))
            (\<lambda>(answer, m1).
              case answer of
                None \<Rightarrow> Some (Inr m1)
              | Some packet \<Rightarrow>
                  if \<not> net_ok m1 then Some (Inr m1)
                  else let m2 = count ''snmp_outpkts'' (m1\<lparr>events := events m1 @ [SentPacket packet]\<rparr>)
                       in Some (Inr (RunWriteDataToEEPROM (RunChangeIPAddress m2)))))"

end
