(* ===== verification/Snmp_Frame.thy ===== *)
theory Snmp_Frame
  imports Mib_Frame Snmp_Agent Asn1_Props
begin

text \<open>
  What a request changes: a write method changes the settings in the \<open>COMMIT\<close> pass only, and so does
  the loop over the bindings.
\<close>

section \<open>Traps\<close>

lemma settings_send_trap_pdu:
  "command pdu = TRP_REQ_MSG \<Longrightarrow> snmp_send_trap c addr x pdu m = Some (Inr (b, m')) \<Longrightarrow> settings m' = settings m"
  by (auto simp: snmp_send_trap_def assign_reqid_def out_counter_def msg_consts free_pdu_def Let_def
      split: if_splits option.splits sum.splits asn_error.splits)

lemma settings_send_traps:
  "send_traps g s d ips m = Some (Inr m') \<Longrightarrow> settings m' = settings m"
proof (induction ips arbitrary: m)
  case (Cons ip ips)
  then show ?case
    by (auto simp: Let_def bindO_def trap_pdu_def split: if_splits option.splits sum.splits)
      (metis settings_send_trap_pdu settings_simps(7) snmp_pdu.select_convs(1))+
qed simp

lemma settings_SendTrap: "SendTrap g s d m = Some (Inr m') \<Longrightarrow> settings m' = settings m"
  by (auto simp: SendTrap_def Let_def dest: settings_send_traps split: if_splits)

lemma settings_auth_fail [simp]: "settings (auth_fail m) = settings m"
  by (auto simp: auth_fail_def SendAuthFailTrap_def send_trap_def settings_SendTrap split: option.split sum.split)

section \<open>Write methods\<close>

lemma settings_perr [simp]: "settings (perr e m) = settings m"
  by (simp add: perr_def)

lemma read_string_settings: "read_string cap mem pos m = Inr (b, n, m') \<Longrightarrow> settings m' = settings m"
  by (auto simp: read_string_def split: sum.splits if_splits)

lemma read_value_settings: "read_value ip mem pos ty m = Inr (v, n, b, m') \<Longrightarrow> settings m' = settings m"
  by (auto simp: read_value_def bindE_eq_Inr dest: read_string_settings split: sum.splits if_splits)

definition checks_only :: "agent write_fun \<Rightarrow> bool" where
  "checks_only w \<longleftrightarrow> (\<forall>action mem pos ty n name m e m'. action \<noteq> COMMIT \<longrightarrow>
     w action mem pos ty n name m = Inr (e, m') \<longrightarrow> settings m' = settings m)"

lemma checks_only_methods [simp]:
  "checks_only writeSystem" "checks_only EnableAuthenTraps" "checks_only writeDeviceMib" "checks_only writeNpCardMib"
proof -
  show "checks_only writeSystem"
    by (auto simp: checks_only_def writeSystem_def bindE_eq_Inr Let_def dest: read_string_settings split: if_splits)
  show "checks_only EnableAuthenTraps"
    by (auto simp: checks_only_def EnableAuthenTraps_def Let_def split: if_splits sum.splits asn_error.splits)
  show "checks_only writeDeviceMib"
    by (auto simp: checks_only_def writeDeviceMib_def bindE_eq_Inr Let_def dest: read_value_settings split: if_splits)
  show "checks_only writeNpCardMib"
    by (auto simp: checks_only_def writeNpCardMib_def bindE_eq_Inr Let_def dest: read_value_settings split: if_splits)
qed

text \<open>The write methods the variables name.\<close>

definition wok :: "agent write_fun option \<Rightarrow> bool" where
  "wok w \<longleftrightarrow> (case w of None \<Rightarrow> True | Some w \<Rightarrow> checks_only w)"

lemma wok_simps [simp]: "wok None" "wok (Some w) = checks_only w"
  by (simp_all add: wok_def)

definition writes_ok :: "(u8 \<Rightarrow> agent \<Rightarrow> answer) \<Rightarrow> bool" where
  "writes_ok ans \<longleftrightarrow> (\<forall>mg m. wok (fst (snd (ans mg m))))"

lemma wok_ret [simp]:
  "wok (fst (snd (ret_null m)))" "wok (fst (snd (ret_long v w m))) = wok w" "wok (fst (snd (ret_stale_long m)))"
  "wok (fst (snd (ret_buf b n w m))) = wok w" "wok (fst (snd (ret_str s w m))) = wok w" "wok (fst (snd (kernel g c m)))"
  "wok (fst (snd (ret_empty m)))"
  by (simp_all add: ret_null_def ret_long_def ret_stale_long_def ret_buf_def ret_str_def kernel_def ret_empty_def Let_def)

lemma wok_if: "wok (fst (snd A)) \<Longrightarrow> wok (fst (snd B)) \<Longrightarrow> wok (fst (snd (if c then A else B)))"
  by simp

lemma writes_ok_ans [simp]:
  "writes_ok ans_system" "writes_ok (ans_ifEntry i)" "writes_ok ans_ipAddr" "writes_ok ans_devstatus"
  "writes_ok ans_gdstatusEntry" "writes_ok ans_npcfg" "writes_ok ans_npipx" "writes_ok ans_npipxEntry" "writes_ok (kernel g)"
  unfolding writes_ok_def ans_system_def ans_ifEntry_def ans_ipAddr_def ans_devstatus_def ans_gdstatusEntry_def ans_npcfg_def
    ans_npipx_def ans_npipxEntry_def ans_line_state_def ans_password_def Let_def split_def
  by (intro allI wok_if; simp)+

definition finds_ok :: "agent find_fun \<Rightarrow> bool" where
  "finds_ok f \<longleftrightarrow> (\<forall>vn mg n e m. wok (f_write (f vn mg n e m)))"

lemma wok_found: "writes_ok ans \<Longrightarrow> wok (f_write (found_at n (ans mg m)))"
  by (simp add: writes_ok_def found_at_def split: prod.split) (metis fst_conv snd_conv)

lemma wok_not_found [simp]: "wok (f_write (not_found n m))"
  by (simp add: not_found_def)

lemma wok_scalar: "writes_ok ans \<Longrightarrow> wok (f_write (scalar_find k ans vn mg n e m))"
  by (simp add: scalar_find_def Let_def wok_found)

lemma finds_ok_scalar: "writes_ok ans \<Longrightarrow> finds_ok (scalar_find k ans)"
  by (simp add: finds_ok_def wok_scalar)

lemma finds_ok_scalar_vars [simp]:
  "finds_ok var_system"
  "finds_ok var_devstatus"
  "finds_ok var_gdstatusEntry"
  "finds_ok var_npipx"
  "finds_ok var_npipxEntry"
  "finds_ok var_ip"
  "finds_ok var_icmp"
  "finds_ok var_npsys"
  "finds_ok var_npconns"
  "finds_ok var_nptcp"
  "finds_ok var_npctl"
  "finds_ok var_npcard11"
  "finds_ok var_npcard12"
  "finds_ok var_npcard13"
  "finds_ok var_npcard17"
proof -
  show "finds_ok var_system" "finds_ok var_devstatus" "finds_ok var_gdstatusEntry" "finds_ok var_npipx" "finds_ok var_npipxEntry"
    by (simp_all add: var_system_def var_devstatus_def var_gdstatusEntry_def var_npipx_def var_npipxEntry_def finds_ok_scalar)
  show "finds_ok var_ip" "finds_ok var_icmp" "finds_ok var_npsys" "finds_ok var_npconns" "finds_ok var_nptcp" "finds_ok var_npctl" "finds_ok var_npcard11" "finds_ok var_npcard12" "finds_ok var_npcard13" "finds_ok var_npcard17"
    by (simp_all add: var_ip_def var_icmp_def var_npsys_def var_npconns_def var_nptcp_def var_npctl_def var_npcard11_def var_npcard12_def var_npcard13_def var_npcard17_def finds_ok_scalar writes_ok_def)
qed

lemma finds_ok_other_vars [simp]:
  "finds_ok var_ifEntry" "finds_ok var_atEntry" "finds_ok var_ipAddrEntry" "finds_ok var_tcp"
  "finds_ok var_udp" "finds_ok var_npcfg" "finds_ok var_npnpi"
proof -
  have tcp: "writes_ok (\<lambda>mg m. if 1 \<le> mg then kernel K_tcp mg m else ret_null m)" by (simp add: writes_ok_def)
  have npi: "writes_ok (\<lambda>mg m. ret_null m)" "writes_ok (\<lambda>mg m. if mg = 32 \<or> mg = 33 then ret_long 0 None m else if mg = 38 then ret_long 1 None m
      else if mg = 42 then ret_long 3 None m else ret_null m)" by (simp_all add: writes_ok_def)
  show "finds_ok var_ifEntry"
    by (auto simp: finds_ok_def var_ifEntry_def Let_def wok_found split: option.split)
  show "finds_ok var_atEntry" "finds_ok var_ipAddrEntry" "finds_ok var_udp" "finds_ok var_npcfg"
    by (simp_all add: finds_ok_def var_atEntry_def var_ipAddrEntry_def var_udp_def var_npcfg_def Let_def wok_found wok_scalar)
  show "finds_ok var_tcp" "finds_ok var_npnpi"
    using wok_scalar [OF tcp] wok_scalar [OF npi(1)] wok_scalar [OF npi(2)]
    by (simp_all add: finds_ok_def var_tcp_def var_npnpi_def)
qed

lemma tables_finds_ok:
  "(b, vs) \<in> set (mib2_groups @ enterprise_groups) \<Longrightarrow> v \<in> set vs \<Longrightarrow> finds_ok (findVar v)"
  by (auto simp: mib2_groups_def enterprise_groups_def table_defs)

lemma tree_finds_ok: "\<forall>t \<in> set (snmp_vars_init mode []). \<forall>v \<in> set (t_variables t). finds_ok (findVar v)"
  unfolding snmp_vars_init_tree using tables_finds_ok
  by (fastforce simp: groups_def mk_tree_def split: if_splits)

fun scan_write :: "agent scan \<Rightarrow> agent write_fun option" where
  "scan_write (Hit v a n k out m) = o_write out"
| "scan_write (Stop n k out m) = o_write out"
| "scan_write (Miss n k out m) = o_write out"

lemma scan_vars_write:
  "\<forall>v \<in> set vs. finds_ok (findVar v) \<Longrightarrow> wok (o_write out) \<Longrightarrow>
   wok (scan_write (scan_vars exact tn k result vs name namelen out m))"
proof (induction vs arbitrary: exact result name namelen out m)
  case (Cons v vs)
  have "wok (f_write (findVar v (tn @ vname v) (magic v) (take namelen name) e m))" for e
    using Cons.prems by (simp add: finds_ok_def)
  with Cons.prems show ?case by (simp add: Let_def Cons.IH split: option.split)
qed simp

lemma scan_trees_write:
  "\<forall>t \<in> set ts. \<forall>v \<in> set (t_variables t). finds_ok (findVar v) \<Longrightarrow> wok (o_write out) \<Longrightarrow>
   wok (scan_write (scan_trees exact ts name namelen out m))"
proof (induction ts arbitrary: exact name namelen out m)
  case (Cons t ts)
  have s: "wok (scan_write (scan_vars exact (t_name t) k r (t_variables t) name namelen out m))" for exact k r
    using Cons.prems by (intro scan_vars_write) simp_all
  show ?case
  proof (cases "scan_vars exact (t_name t) (namelen - length (t_name t)) (compare_tree (take namelen name) (t_name t)) (t_variables t) name namelen out m")
    case (Miss name' k' out' m')
    with s [of exact "namelen - length (t_name t)" "compare_tree (take namelen name) (t_name t)"] have "wok (o_write out')" by simp
    with Miss Cons.prems show ?thesis by (auto simp: Let_def Cons.IH)
  qed (use s [of exact "namelen - length (t_name t)" "compare_tree (take namelen name) (t_name t)"] Cons.prems in \<open>auto simp: Let_def Cons.IH\<close>)
qed simp

lemma getStatPtr_write:
  assumes "getStatPtr trap (snmp_vars_init mode []) name namelen exact view out m = (a, name', namelen', out', m')"
    and "view \<noteq> 0 \<or> wok (o_write out)"
  shows "wok (o_write out')"
  using assms scan_trees_write [OF tree_finds_ok, of "out\<lparr>o_write := None\<rparr>" exact mode name namelen m]
  by (auto simp: getStatPtr_def split: if_splits scan.splits)

section \<open>The loop over the bindings\<close>

lemma agent_tree_cong: "settings m' = settings m \<Longrightarrow> agent_tree m' = agent_tree m"
  using settingsD(7) [of m' m] by (simp add: agent_tree_def)

lemma view_of_cong: "settings m' = settings m \<Longrightarrow> view_of mt m' = view_of mt m"
  using settingsD(6) [of m' m] by (simp add: view_of_def)

lemma search_settings:
  "getStatPtr auth_fail (agent_tree m) name k exact view out m = (a, name', k', out', m') \<Longrightarrow> settings m' = settings m"
  unfolding agent_tree_def by (erule getStatPtr_settings) simp

lemma set_binding_settings:
  assumes "action \<noteq> COMMIT" "wok (o_write out)" "set_binding action mem vv ty n name statP out m = Inr (e, m')"
  shows "settings m' = settings m"
proof (cases "o_write out")
  case None
  with assms show ?thesis by (auto simp: set_binding_def split: if_splits option.splits)
next
  case (Some w)
  then have "checks_only w" using assms(2) by simp
  then have w: "w action mem vv ty n name m = Inr (err, m1) \<Longrightarrow> settings m1 = settings m" for err m1
    using assms(1) unfolding checks_only_def by blast
  with Some assms(3) show ?thesis
    by (auto simp: set_binding_def bindE_eq_Inr Let_def split: if_splits dest: w)
qed

text \<open>The steps of one pass of the loop, for the inductions over it.\<close>

lemma var_op_loop_step:
  assumes "var_op_loop fuel mt action mem data len out od ol index pend l m = Some (Inr (b, p, v))" "0 < len"
  obtains (stop) "r_state v = m \<or> (\<exists>e. r_state v = perr e m)" "r_code v = PARSE_ERROR" "\<not> b"
  | (search) k objs ty n vv data' len' statP name nl o' m1
      where "fuel = Suc k" "snmp_parse_var_op mem data (var_name l ! 1) (int SNMP_MAX_NAME_LEN) len = Inr (objs, ty, n, vv, data', len')"
        "getStatPtr auth_fail (agent_tree m) (set_name (var_name l) objs) (length objs) (mt \<noteq> GETNEXT_REQ_MSG) (view_of mt m) (l_out l) m =
          (statP, name, nl, o', m1)"
        "r_state v = m1 \<and> r_code v \<noteq> SNMP_ERR_NOERROR \<and> \<not> b \<or>
         mt = SET_REQ_MSG \<and> \<not> (statP = None \<and> o_write o' = None) \<and>
           (\<exists>e m2. set_binding action mem vv ty n name statP o' m1 = Inr (e, m2) \<and>
             (if e = SNMP_ERR_NOERROR
              then var_op_loop k mt action mem data' len' out od ol (index + 1) pend \<lparr>var_name = name, l_out = o'\<rparr> m2 = Some (Inr (b, p, v))
              else r_state v = m2 \<and> r_code v = e \<and> \<not> b)) \<or>
         mt \<noteq> SET_REQ_MSG \<and> statP \<noteq> None \<and>
           (\<exists>out1 od1 ol1. snmp_build_var_op out od (take nl name) (o_type o') (fst (the statP)) ol = Some (Inr (out1, od1, ol1)) \<and>
             var_op_loop k mt action mem data' len' out1 od1 ol1 (index + 1) pend \<lparr>var_name = name, l_out = o'\<rparr> m1 = Some (Inr (b, p, v)))"
proof -
  obtain k where k: "fuel = Suc k" using assms by (cases fuel) (simp_all add: var_op_loop.simps)
  note eq = assms(1) [unfolded k var_op_loop.simps [of "Suc k"]]
  show ?thesis
  proof (cases "snmp_parse_var_op mem data (var_name l ! 1) (int SNMP_MAX_NAME_LEN) len")
    case (Inl e)
    then show ?thesis using eq assms(2) by (intro stop) (auto simp: vres_def split: asn_error.splits)
  next
    case (Inr x)
    obtain objs ty n vv data' len' where x: "x = (objs, ty, n, vv, data', len')" by (metis prod_cases6)
    obtain statP name nl o' m1 where g: "getStatPtr auth_fail (agent_tree m) (set_name (var_name l) objs) (length objs)
        (mt \<noteq> GETNEXT_REQ_MSG) (view_of mt m) (l_out l) m = (statP, name, nl, o', m1)" by (metis prod_cases5)
    note S = search [OF k Inr [unfolded x] g]
    have len: "\<not> len \<le> 0" using assms(2) by simp
    note eq1 = eq [unfolded Inr x sum.case prod.case g Let_def if_not_P [OF len] nat.case Option.is_none_def]
    show ?thesis
    proof (cases "statP = None \<and> (mt \<noteq> SET_REQ_MSG \<or> o_write o' = None)")
      case True
      then have "r_state v = m1" "r_code v = SNMP_ERR_NOSUCHNAME" "\<not> b" using eq1 by (auto simp: vres_def)
      then show ?thesis by (intro S disjI1) (simp add: snmp_errs)
    next
      case False
      note eq2 = eq1 [unfolded if_not_P [OF False]]
      show ?thesis
      proof (cases "mt = SET_REQ_MSG")
        case True
        note eq3 = eq2 [unfolded if_P [OF True]]
        obtain e m2 where s: "set_binding action mem vv ty n name statP o' m1 = Inr (e, m2)"
          using eq3 by (cases "set_binding action mem vv ty n name statP o' m1") auto
        have "if e = SNMP_ERR_NOERROR
            then var_op_loop k mt action mem data' len' out od ol (index + 1) pend \<lparr>var_name = name, l_out = o'\<rparr> m2 = Some (Inr (b, p, v))
            else r_state v = m2 \<and> r_code v = e \<and> \<not> b"
          using eq3 s by (auto simp: vres_def split: if_splits)
        with s True False show ?thesis by (intro S disjI2 disjI1) auto
      next
        case get: False
        note eq3 = eq2 [unfolded if_not_P [OF get]]
        obtain q where q: "statP = Some q" using False get by (cases statP) auto
        show ?thesis
        proof (cases "snmp_build_var_op out od (take nl name) (o_type o') (fst q) ol")
          case None
          then show ?thesis using eq3 q by simp
        next
          case (Some r)
          show ?thesis
          proof (cases r)
            case (Inl e)
            then have "(False, od, vres SNMP_ERR_TOOBIG index out pend m1) = (b, p, v)"
              using eq3 q Some by (cases e) simp_all
            then have "r_state v = m1" "r_code v = SNMP_ERR_TOOBIG" "\<not> b" by (auto simp: vres_def)
            then show ?thesis by (intro S disjI1) (simp add: snmp_errs)
          next
            case (Inr y)
            then show ?thesis using eq3 q Some get by (intro S disjI2) (cases y; simp)
          qed
        qed
      qed
    qed
  qed
qed

lemma var_op_loop_settings:
  assumes "action \<noteq> COMMIT"
  shows "var_op_loop fuel mt action mem data len out od ol index pend l m = Some (Inr (b, p, v)) \<Longrightarrow>
    view_of mt m \<noteq> 0 \<or> wok (o_write (l_out l)) \<Longrightarrow> settings (r_state v) = settings m"
proof (induction fuel arbitrary: data len out od ol index l m)
  case 0
  then show ?case by (auto simp: var_op_loop.simps vres_def split: if_splits)
next
  case (Suc fuel)
  show ?case
  proof (cases "0 < len")
    case False
    then show ?thesis using Suc.prems by (auto simp: var_op_loop.simps vres_def)
  next
    case True
    from Suc.prems(1) True show ?thesis
    proof (cases rule: var_op_loop_step)
      case stop
      then show ?thesis by auto
    next
      case (search k objs ty n vv data' len' statP name nl o' m1)
      then have m1: "settings m1 = settings m" and k: "k = fuel" by (auto dest: search_settings)
      have w: "wok (o_write o')" using getStatPtr_write [OF search(3) [unfolded agent_tree_def]] Suc.prems(2) by auto
      from search(4) show ?thesis
      proof (elim disjE conjE exE)
        fix e m2
        assume s: "set_binding action mem vv ty n name statP o' m1 = Inr (e, m2)"
          and r: "if e = SNMP_ERR_NOERROR
              then var_op_loop k mt action mem data' len' out od ol (index + 1) pend \<lparr>var_name = name, l_out = o'\<rparr> m2 = Some (Inr (b, p, v))
              else r_state v = m2 \<and> r_code v = e \<and> \<not> b"
        have m2: "settings m2 = settings m" using set_binding_settings [OF assms w s] m1 by simp
        show ?thesis
        proof (cases "e = SNMP_ERR_NOERROR")
          case True
          then have "settings (r_state v) = settings m2" using r w by (intro Suc.IH [of data' len' out od ol "index + 1" "\<lparr>var_name = name, l_out = o'\<rparr>"]) (auto simp: k)
          with m2 show ?thesis by simp
        qed (use r m2 in auto)
      next
        fix out1 od1 ol1
        assume "var_op_loop k mt action mem data' len' out1 od1 ol1 (index + 1) pend \<lparr>var_name = name, l_out = o'\<rparr> m1 = Some (Inr (b, p, v))"
        then have "settings (r_state v) = settings m1" using w by (intro Suc.IH [of data' len' out1 od1 ol1 "index + 1" "\<lparr>var_name = name, l_out = o'\<rparr>"]) (auto simp: k)
        with m1 show ?thesis by simp
      qed (use m1 in auto)
    qed
  qed
qed

end
