(* ===== verification/Snmp_Codec.thy ===== *)
theory Snmp_Codec
  imports Snmp_Msg Asn1_Props
begin

text \<open>
  The encoding of messages as nested objects, and that the builders of \<open>Snmp_Msg\<close> write it and its
  parsers read it.

  What a builder has written so far is a prefix of the buffer. \<open>built r pre N dl\<close>: the builder has
  succeeded, the buffer of \<open>N\<close> bytes now begins with \<open>pre\<close>, the position is behind it and \<open>dl\<close> is
  the room left.
\<close>

section \<open>Builders\<close>

definition built :: "asn_error + (u8 list \<times> nat \<times> int) \<Rightarrow> u8 list \<Rightarrow> nat \<Rightarrow> int \<Rightarrow> bool" where
  "built r pre N dl \<longleftrightarrow> (\<exists>mem. r = Inr (mem, length pre, dl) \<and> prefix pre mem \<and> length mem = N)"

lemma builtI: "r = Inr (mem, length pre, dl) \<Longrightarrow> prefix pre mem \<Longrightarrow> length mem = N \<Longrightarrow> built r pre N dl"
  by (auto simp: built_def)

lemma builtE:
  assumes "built r pre N dl"
  obtains mem where "r = Inr (mem, length pre, dl)" "prefix pre mem" "length mem = N"
  using assms by (auto simp: built_def)

lemma built_bind:
  assumes "built r pre N dl"
    and "\<And>mem. prefix pre mem \<Longrightarrow> length mem = N \<Longrightarrow> built (f (mem, length pre, dl)) pre' N dl'"
  shows "built (bindE r f) pre' N dl'"
  using assms by (auto simp: built_def)

lemma bindO_simps [simp]:
  "bindO None f = None" "bindO (Some (Inl e)) f = Some (Inl e)" "bindO (Some (Inr x)) f = f x"
  by (simp_all add: bindO_def)

lemma prefix_overwrite:
  "prefix pre mem \<Longrightarrow> length pre + length obj \<le> length mem \<Longrightarrow> prefix (pre @ obj) (overwrite mem (length pre) obj)"
  by (auto simp: prefix_def overwrite_def)

lemma length_bytes_ge: "1 \<le> length (length_bytes n)" "length (length_bytes n) \<le> 3"
  using length_bytes_len [of n] by auto

lemma object_length_ge: "2 + length bs \<le> length (object_bytes ty bs)" "length (object_bytes ty bs) \<le> 4 + length bs"
  using length_bytes_ge [of "int (length bs)"] by (simp_all add: object_len)

lemma built_object:
  assumes "prefix pre mem" "length (pre @ object_bytes ty bs) \<le> length mem" "int (length (object_bytes ty bs)) \<le> dl"
  shows "built (put_contents bs (asn_build_header mem (length pre) dl ty (int (length bs))))
    (pre @ object_bytes ty bs) (length mem) (dl - int (length (object_bytes ty bs)))"
  using assms build_object_fits [of "length pre" ty bs mem dl] prefix_overwrite [of pre mem "object_bytes ty bs"]
  by (intro builtI [of _ "overwrite mem (length pre) (object_bytes ty bs)"]) simp_all

lemma built_int:
  assumes "prefix pre mem" "length (pre @ object_bytes ty (int_contents v)) \<le> length mem"
    and "int (length (object_bytes ty (int_contents v))) \<le> dl"
  shows "built (asn_build_int mem (length pre) dl ty v sizeof_long) (pre @ object_bytes ty (int_contents v))
    (length mem) (dl - int (length (object_bytes ty (int_contents v))))"
  using assms asn_build_int_object [of "length pre" ty v mem dl]
    prefix_overwrite [of pre mem "object_bytes ty (int_contents v)"]
  by (intro builtI [of _ "overwrite mem (length pre) (object_bytes ty (int_contents v))"]) (simp_all add: sizeof_long_def)

lemma built_string:
  assumes "prefix pre mem" "length (pre @ object_bytes ty bs) \<le> length mem" "int (length (object_bytes ty bs)) \<le> dl"
  shows "built (asn_build_string mem (length pre) dl ty bs) (pre @ object_bytes ty bs) (length mem)
    (dl - int (length (object_bytes ty bs)))"
  unfolding asn_build_string_def using assms by (rule built_object)

definition reserved :: "u8 \<Rightarrow> u8 list" where
  "reserved ty = [ty, 0x02 OR ASN_LONG_LENGTH, 0, 0]"

lemma length_reserved [simp]: "length (reserved ty) = 4"
  by (simp add: reserved_def)

lemma built_reserve:
  assumes "prefix pre mem" "length pre + 4 \<le> length mem" "4 \<le> dl"
  shows "built (asn_build_sequence mem (length pre) dl ty 0) (pre @ reserved ty) (length mem) (dl - 4)"
proof (rule builtI)
  show "asn_build_sequence mem (length pre) dl ty 0 =
      Inr (overwrite mem (length pre) (reserved ty), length (pre @ reserved ty), dl - 4)"
    using assms wr_fits [of "length pre" "reserved ty" mem] by (simp add: asn_build_sequence_def reserved_def)
  show "prefix (pre @ reserved ty) (overwrite mem (length pre) (reserved ty))"
    using assms by (intro prefix_overwrite) simp_all
qed (use assms in simp)

lemma length_bytes_hdr:
  "1 + length (length_bytes n) = (if n < 0x80 then 2 else if n \<le> 0xFF then 3 else 4)"
  by (simp add: length_bytes_def)

text \<open>The header with the final length, and the contents moved up to it.\<close>

lemma built_sequence:
  assumes "prefix (pre @ h @ bs) mem" "length h = 4" "bs \<noteq> []" "4 \<le> dl" "length bs = n"
  shows "built (asn_build_sequence mem (length pre) dl ty (int n)) (pre @ object_bytes ty bs) (length mem)
    (dl - int (1 + length (length_bytes (int n))))"
proof (rule builtI)
  let ?k = "length_bytes (int (length bs))" and ?d = "length pre"
  let ?m = "overwrite mem ?d (ty # ?k)"
  have l: "length pre + 4 + length bs \<le> length mem" using assms(1,2) by (auto simp: prefix_def)
  note k = length_bytes_ge [of "int (length bs)"]
  have p: "prefix pre mem" using assms(1) by (rule append_prefixD)
  have w1: "wr mem ?d [ty] = Inr (overwrite mem ?d [ty])" using l by (intro wr_fits) simp
  have w2: "wr (overwrite mem ?d [ty]) ?d (ty # ?k) = Inr ?m"
    using l k overwrite_same [of ?d "ty # ?k" mem "[ty]"] by (subst wr_fits) simp_all
  have "drop (?d + 4) ?m = drop (?d + 4) mem"
    using l k by (simp add: overwrite_def drop_Cons' min_def add.commute)
  then have rd: "rd_n ?m (?d + 4) (length bs) = Inr bs"
    using assms(1,2) l k by (auto simp: rd_n_def prefix_def)
  have o2: "overwrite ?m (?d + (1 + length ?k)) bs = overwrite mem ?d (object_bytes ty bs)"
    using overwrite_twice [of ?d "ty # ?k" bs mem] l k by (simp add: object_bytes_def)
  have hdr: "(if int (length bs) < 0x80 then 2 else if int (length bs) \<le> 0xFF then 3 else 4) = 1 + length ?k"
    by (rule length_bytes_hdr [symmetric])
  have "int (1 + length ?k) \<le> dl" using assms(4) k by linarith
  then show "asn_build_sequence mem ?d dl ty (int n) =
      Inr (overwrite mem ?d (object_bytes ty bs), length (pre @ object_bytes ty bs),
        dl - int (1 + length (length_bytes (int n))))"
    unfolding asn_build_sequence_def assms(5) [symmetric] w1 bindE_simps Let_def hdr w2 nat_int rd o2
    using assms(3) by (simp add: object_len)
  show "prefix (pre @ object_bytes ty bs) (overwrite mem ?d (object_bytes ty bs))"
    using p l object_length_ge(2) [of ty bs] by (intro prefix_overwrite) auto
  show "length (overwrite mem ?d (object_bytes ty bs)) = length mem"
    using l object_length_ge(2) [of ty bs] by (intro overwrite_length) auto
qed

section \<open>Object identifiers\<close>

definition objid_contents :: "oid \<Rightarrow> u8 list" where
  "objid_contents name = the (subids_bytes (merge_first name))"

definition small_oid :: "oid \<Rightarrow> bool" where
  "small_oid name \<longleftrightarrow> length name \<le> MAX_OID_LEN \<and> length (objid_contents name) \<le> MAX_OID_LEN"

lemma built_objid:
  assumes "prefix pre mem" "length (pre @ object_bytes ty (objid_contents name)) \<le> length mem"
    and "int (length (object_bytes ty (objid_contents name))) \<le> dl" "small_oid name"
  obtains r where "asn_build_objid mem (length pre) dl ty name = Some r"
    "built r (pre @ object_bytes ty (objid_contents name)) (length mem) (dl - int (length (object_bytes ty (objid_contents name))))"
proof -
  have s: "subids_bytes (merge_first name) = Some (objid_contents name)"
    unfolding objid_contents_def by (rule subids_bytes_some)
  from built_object [OF assms(1-3)] show ?thesis
    by (rule that [rotated]) (use assms(4) s in \<open>simp add: asn_build_objid_def small_oid_def\<close>)
qed

section \<open>Parsing\<close>

lemma prefix_holds: "prefix (pre @ bs @ post) mem \<Longrightarrow> holds mem (length pre) bs"
  by (auto simp: holds_def prefix_def)

lemma parse_header_object:
  assumes h: "holds mem data (object_bytes ty bs)" and n: "length bs \<le> 0xFFFF"
    and dl: "int (length (object_bytes ty bs)) \<le> dl" "dl < 2 ^ 31"
    and ty: "ty AND ASN_EXTENSION_ID \<noteq> ASN_EXTENSION_ID"
  shows "asn_parse_header mem data dl = Inr (ty, data + 1 + length (length_bytes (int (length bs))), int (length bs))"
    "holds mem (data + 1 + length (length_bytes (int (length bs)))) bs"
proof -
  note p = parse_object_length [OF h n]
  let ?h = "1 + length (length_bytes (int (length bs)))"
  have c: "int (?h + length bs) \<le> dl" using dl(1) by (simp add: object_len)
  note lc = length_check [OF c dl(2)]
  have e: "data + 1 + length (length_bytes (int (length bs))) - data = ?h" by simp
  show "asn_parse_header mem data dl = Inr (ty, data + 1 + length (length_bytes (int (length bs))), int (length bs))"
    unfolding asn_parse_header_def p(1) bindE_simps p(2) prod.case e using lc ty by simp
qed (rule parse_object_length [OF h n])

section \<open>Variable bindings\<close>

definition null_types :: "u8 set" where
  "null_types = {ASN_NULL, SNMP_NOSUCHOBJECT, SNMP_NOSUCHINSTANCE, SNMP_ENDOFMIBVIEW}"

definition unsigned_types :: "u8 set" where
  "unsigned_types = {GAUGE, COUNTER, TIMETICKS, UINTEGER}"

definition string_types :: "u8 set" where
  "string_types = {STRING, IPADDRESS, OPAQUE, NSAP}"

text \<open>The contents of the value's object, and the values that have one.\<close>

definition val_contents :: "u8 \<Rightarrow> u8 list \<Rightarrow> u8 list" where
  "val_contents ty val =
     (if ty = INTEGER then int_contents (long_of val)
      else if ty \<in> unsigned_types then unsigned_contents (long_of val)
      else if ty = OBJID then objid_contents (oid_of val)
      else if ty \<in> null_types then [] else val)"

definition val_ok :: "u8 \<Rightarrow> u8 list \<Rightarrow> bool" where
  "val_ok ty val \<longleftrightarrow>
     (if ty = INTEGER \<or> ty \<in> unsigned_types then length val = 4
      else if ty = OBJID then small_oid (oid_of val)
      else ty \<in> string_types \<or> ty \<in> null_types)"

lemmas val_types = null_types_def unsigned_types_def string_types_def

lemma built_null:
  assumes "prefix pre mem" "length (pre @ object_bytes ty []) \<le> length mem" "int (length (object_bytes ty [])) \<le> dl"
  shows "built (asn_build_null mem (length pre) dl ty) (pre @ object_bytes ty []) (length mem)
    (dl - int (length (object_bytes ty [])))"
  using assms build_header_fits [of "length pre" 0 mem dl ty] prefix_overwrite [of pre mem "object_bytes ty []"]
  by (intro builtI [of _ "overwrite mem (length pre) (object_bytes ty [])"])
    (simp_all add: asn_build_null_def object_bytes_def)

lemma built_unsigned:
  assumes "prefix pre mem" "length (pre @ object_bytes ty (unsigned_contents v)) \<le> length mem"
    and "int (length (object_bytes ty (unsigned_contents v))) \<le> dl"
  shows "built (asn_build_unsigned_int mem (length pre) dl ty v sizeof_long) (pre @ object_bytes ty (unsigned_contents v))
    (length mem) (dl - int (length (object_bytes ty (unsigned_contents v))))"
  using built_object [OF assms] by (simp add: asn_build_unsigned_int_def Let_def)

lemma built_value:
  assumes "prefix pre mem" "length (pre @ object_bytes ty (val_contents ty val)) \<le> length mem"
    and "int (length (object_bytes ty (val_contents ty val))) \<le> dl" "val_ok ty val"
  obtains r where "build_value mem (length pre) dl ty val = Some r"
    "built r (pre @ object_bytes ty (val_contents ty val)) (length mem) (dl - int (length (object_bytes ty (val_contents ty val))))"
proof -
  consider (int) "ty = INTEGER" | (uns) "ty \<in> unsigned_types" | (oid) "ty = OBJID" | (null) "ty \<in> null_types"
    | (str) "ty \<in> string_types"
    using assms(4) by (auto simp: val_ok_def split: if_splits)
  then show ?thesis
  proof cases
    case int
    then have "val_contents ty val = int_contents (long_of val)" "length val = 4"
      using assms(4) by (simp_all add: val_contents_def val_ok_def)
    then show ?thesis
      using that [of "asn_build_int mem (length pre) dl ty (long_of val) sizeof_long"] built_int [of pre mem ty "long_of val" dl] assms int
      by (simp add: build_value_def sizeof_long_def)
  next
    case uns
    then have "ty \<noteq> INTEGER" by (auto simp: val_types asn_types)
    with uns have "val_contents ty val = unsigned_contents (long_of val)" "length val = 4"
      using assms(4) by (simp_all add: val_contents_def val_ok_def)
    then show ?thesis
      using that [of "asn_build_unsigned_int mem (length pre) dl ty (long_of val) sizeof_long"]
        built_unsigned [of pre mem ty "long_of val" dl] assms uns \<open>ty \<noteq> INTEGER\<close>
      by (auto simp: build_value_def sizeof_long_def unsigned_types_def)
  next
    case oid
    then have c: "val_contents ty val = objid_contents (oid_of val)" "small_oid (oid_of val)"
      using assms(4) by (simp_all add: val_contents_def val_ok_def val_types asn_types)
    have "build_value mem (length pre) dl ty val = asn_build_objid mem (length pre) dl ty (oid_of val)"
      using oid by (simp add: build_value_def asn_types)
    then show ?thesis using built_objid [OF assms(1) _ _ c(2), of ty dl] assms(2,3) that unfolding c(1) by metis
  next
    case null
    then have c: "val_contents ty val = []" by (auto simp: val_contents_def val_types asn_types msg_consts)
    have "build_value mem (length pre) dl ty val = Some (asn_build_null mem (length pre) dl ty)"
      using null by (auto simp: build_value_def val_types asn_types msg_consts)
    then show ?thesis using built_null [OF assms(1), of ty dl] assms(2,3) that unfolding c by metis
  next
    case str
    then have c: "val_contents ty val = val" by (auto simp: val_contents_def val_types asn_types msg_consts)
    have "build_value mem (length pre) dl ty val = Some (asn_build_string mem (length pre) dl ty val)"
      using str by (auto simp: build_value_def val_types asn_types)
    then show ?thesis using built_string [OF assms(1), of ty val dl] assms(2,3) that unfolding c by metis
  qed
qed

definition var_op_contents :: "oid \<Rightarrow> u8 \<Rightarrow> u8 list \<Rightarrow> u8 list" where
  "var_op_contents name ty c = object_bytes OBJID (objid_contents name) @ object_bytes ty c"

definition var_op_bytes :: "oid \<Rightarrow> u8 \<Rightarrow> u8 list \<Rightarrow> u8 list" where
  "var_op_bytes name ty c = object_bytes SEQUENCE (var_op_contents name ty c)"

lemma var_op_contents_nonempty [simp]: "var_op_contents name ty c \<noteq> []"
  by (simp add: var_op_contents_def object_bytes_def)

lemma built_var_op:
  assumes "prefix pre mem" "length pre + 4 + length (var_op_contents name ty (val_contents ty val)) \<le> length mem"
    and "4 + int (length (var_op_contents name ty (val_contents ty val))) \<le> dl" "small_oid name" "val_ok ty val"
  obtains r where "snmp_build_var_op mem (length pre) name ty val dl = Some r"
    "built r (pre @ var_op_bytes name ty (val_contents ty val)) (length mem)
      (dl - int (length (var_op_bytes name ty (val_contents ty val))))"
proof -
  let ?n = "object_bytes OBJID (objid_contents name)" and ?c = "val_contents ty val"
  let ?v = "object_bytes ty ?c" and ?op = "var_op_contents name ty ?c"
  define h where "h = take 4 (drop (length pre) mem)"
  have h: "prefix (pre @ h) mem" "length h = 4" "length (pre @ h) = length pre + 4"
    using assms(1,2) by (auto simp: h_def prefix_def) (metis append_take_drop_id)
  have len: "length ?op = length ?n + length ?v" by (simp add: var_op_contents_def)
  obtain r1 where r1: "asn_build_objid mem (length (pre @ h)) (dl - 4) OBJID name = Some r1"
    "built r1 ((pre @ h) @ ?n) (length mem) (dl - 4 - int (length ?n))"
    by (rule built_objid [OF h(1), of OBJID name "dl - 4"]) (use assms h len in auto)
  obtain mem1 where mem1: "r1 = Inr (mem1, length ((pre @ h) @ ?n), dl - 4 - int (length ?n))"
    "prefix ((pre @ h) @ ?n) mem1" "length mem1 = length mem" by (rule builtE [OF r1(2)])
  obtain r2 where r2: "build_value mem1 (length ((pre @ h) @ ?n)) (dl - 4 - int (length ?n)) ty val = Some r2"
    "built r2 (((pre @ h) @ ?n) @ ?v) (length mem1) (dl - 4 - int (length ?n) - int (length ?v))"
    by (rule built_value [OF mem1(2), of ty val "dl - 4 - int (length ?n)"]) (use assms h len mem1(3) in auto)
  obtain mem2 where mem2: "r2 = Inr (mem2, length (((pre @ h) @ ?n) @ ?v), dl - 4 - int (length ?n) - int (length ?v))"
    "prefix (((pre @ h) @ ?n) @ ?v) mem2" "length mem2 = length mem1" by (rule builtE [OF r2(2)])
  have p2: "length (((pre @ h) @ ?n) @ ?v) - length pre = 4 + length ?op" using h len by simp
  have "prefix (pre @ h @ ?op) mem2" using mem2(2) by (simp add: var_op_contents_def)
  from built_sequence [OF this h(2) var_op_contents_nonempty, of "int (4 + length ?op)" "length ?op" SEQUENCE]
  obtain mem3 where mem3: "asn_build_sequence mem2 (length pre) (int (4 + length ?op)) SEQUENCE (int (length ?op)) =
      Inr (mem3, length (pre @ var_op_bytes name ty ?c), int (4 + length ?op) - int (1 + length (length_bytes (int (length ?op)))))"
    "prefix (pre @ var_op_bytes name ty ?c) mem3" "length mem3 = length mem2"
    by (auto simp: built_def var_op_bytes_def)
  have "snmp_build_var_op mem (length pre) name ty val dl =
      Some (Inr (mem3, length (pre @ var_op_bytes name ty ?c), dl - int (length (var_op_bytes name ty ?c))))"
    unfolding snmp_build_var_op_def h(3) [symmetric]
    using assms(3) h len r1(1) mem1(1) r2(1) mem2(1) mem3(1) p2 by simp
  then show ?thesis by (rule that) (use mem1 mem2 mem3 in \<open>auto simp: built_def\<close>)
qed

text \<open>The names a request can carry without loss.\<close>

definition wire_oid :: "oid \<Rightarrow> bool" where
  "wire_oid name \<longleftrightarrow>
     (case name of x # y # vs \<Rightarrow> unat x < 256 \<and> unat y < 40 \<and> unat x * 40 + unat y < 2 ^ 16 \<and> length name \<le> SNMP_MAX_NAME_LEN
      | _ \<Rightarrow> False)"

lemma parse_objid_wire:
  assumes "wire_oid name" "holds mem data (object_bytes ty (objid_contents name))"
    and "int (length (object_bytes ty (objid_contents name))) \<le> dl" "dl < 2 ^ 31"
  shows "asn_parse_objid mem data dl stale (int SNMP_MAX_NAME_LEN) =
    Inr (ty, name, data + length (object_bytes ty (objid_contents name)), dl - int (length (object_bytes ty (objid_contents name))))"
proof -
  obtain x y vs where n: "name = x # y # vs" and xy: "unat x < 256" "unat y < 40" "unat x * 40 + unat y < 2 ^ 16"
    and len: "length vs + 2 \<le> SNMP_MAX_NAME_LEN"
    using assms(1) by (auto simp: wire_oid_def split: list.splits)
  obtain bs where bs: "subids_bytes ((y + x * 40) # vs) = Some bs" "length bs \<le> 3 * length ((y + x * 40) # vs)"
    "\<And>k rest. length ((y + x * 40) # vs) \<le> k \<Longrightarrow>
      parse_subids k (int (length bs)) (bs @ rest) = Inr ((y + x * 40) # vs, length bs)"
    by (rule subids_roundtrip [of "(y + x * 40) # vs"]) blast
  have c: "objid_contents name = bs" using bs(1) by (simp add: objid_contents_def n merge_first_def)
  have "length bs \<le> 0xFFFF" using bs(2) len by (simp add: SNMP_MAX_NAME_LEN_def)
  from asn_parse_objid_object [OF bs(3) assms(2) [unfolded c] this assms(3) [unfolded c] assms(4), of "int SNMP_MAX_NAME_LEN" stale]
  show ?thesis unfolding c using len split_merge_first [OF xy] by (simp add: n)
qed

lemma parse_var_op_wire:
  assumes "wire_oid name" "holds mem start (var_op_bytes name ty c)" "ty AND ASN_EXTENSION_ID \<noteq> ASN_EXTENSION_ID"
    and "length (var_op_contents name ty c) \<le> 0xFFFF" "int (length (var_op_bytes name ty c)) \<le> len" "len < 2 ^ 31"
  obtains var_val where "snmp_parse_var_op mem (int start) stale (int SNMP_MAX_NAME_LEN) len =
      Inr (name, ty, int (length c), var_val, int (start + length (var_op_bytes name ty c)),
        len - int (length (var_op_bytes name ty c)))"
    "holds mem var_val (object_bytes ty c)"
proof -
  let ?n = "object_bytes OBJID (objid_contents name)" and ?op = "var_op_contents name ty c"
  define p where "p = start + 1 + length (length_bytes (int (length ?op)))"
  define q where "q = p + length ?n + 1 + length (length_bytes (int (length c)))"
  have seq: "SEQUENCE AND ASN_EXTENSION_ID \<noteq> ASN_EXTENSION_ID" by (simp add: asn_types asn_consts)
  note h = parse_header_object [OF assms(2) [unfolded var_op_bytes_def] assms(4) assms(5) [unfolded var_op_bytes_def] assms(6) seq,
      folded p_def]
  have hn: "holds mem p ?n" "holds mem (p + length ?n) (object_bytes ty c)"
    using h(2) by (simp_all add: var_op_contents_def holds_append)
  have l: "length ?op = length ?n + length (object_bytes ty c)" by (simp add: var_op_contents_def)
  have o1: "asn_parse_objid mem p (int (length ?op)) stale (int SNMP_MAX_NAME_LEN) =
      Inr (OBJID, name, p + length ?n, int (length ?op) - int (length ?n))"
    using parse_objid_wire [OF assms(1) hn(1), of "int (length ?op)" stale] l assms(4) by simp
  have "length c \<le> 0xFFFF" "int (length (object_bytes ty c)) \<le> int (length ?op) - int (length ?n)"
    "int (length ?op) - int (length ?n) < 2 ^ 31"
    using l assms(4) object_length_ge(1) [of c ty] by simp_all
  note v = parse_header_object(1) [OF hn(2) this assms(3), folded q_def]
  have tot: "int q + int (length c) = int start + int (length (var_op_bytes name ty c))"
    using l by (simp add: var_op_bytes_def object_len p_def q_def)
  have s: "s32 (len - int (length (var_op_bytes name ty c))) = len - int (length (var_op_bytes name ty c))"
    using assms(5,6) by (intro s32_small) simp_all
  have "snmp_parse_var_op mem (int start) stale (int SNMP_MAX_NAME_LEN) len =
      Inr (name, ty, int (length c), p + length ?n, int (start + length (var_op_bytes name ty c)),
        len - int (length (var_op_bytes name ty c)))"
    unfolding snmp_parse_var_op_def by (simp add: h(1) o1 v tot s Let_def)
  then show ?thesis using hn(2) by (rule that)
qed

section \<open>The authentication header\<close>

definition version_object :: "u8 list" where "version_object = object_bytes INTEGER (int_contents SNMP_VERSION_1)"

lemma version_object_eq: "version_object = [0x02, 0x01, 0x00]"
proof -
  have "trunc_int 4 0 = (1, 0)" by (simp add: trunc_int.simps)
  then show ?thesis
    by (simp add: version_object_def int_contents_def SNMP_VERSION_1_def object_bytes_def length_bytes_def asn_types)
qed

lemma length_version_object [simp]: "length version_object = 3"
  by (simp add: version_object_eq)

definition auth_prefix :: "u8 list \<Rightarrow> u8 list" where
  "auth_prefix c = reserved SEQUENCE @ version_object @ object_bytes STRING c"

definition message_bytes :: "u8 list \<Rightarrow> u8 list \<Rightarrow> u8 list" where
  "message_bytes c body = object_bytes SEQUENCE (version_object @ object_bytes STRING c @ body)"

lemma short_object: "length c < 0x80 \<Longrightarrow> object_bytes ty c = ty # of_nat (length c) # c"
  by (simp add: object_bytes_def length_bytes_def)

lemma length_auth_prefix: "length c < 0x80 \<Longrightarrow> length (auth_prefix c) = 9 + length c"
  by (simp add: auth_prefix_def version_object_eq short_object)

lemma build_auth_start:
  assumes "length c < 0x80" "9 + length c \<le> length mem" "int (9 + length c) \<le> dl"
  shows "snmp_build_auth mem 0 dl c SNMP_VERSION_1 ml =
    (let mem' = overwrite mem 0 (auth_prefix c); dl' = dl - int (9 + length c)
     in if ml = 0 then Inr (mem', 9 + length c, dl')
        else bindE (asn_build_sequence mem' 0 dl SEQUENCE (ml + int (length c) + 5)) (\<lambda>(m4, p4, l4). Inr (m4, p4, dl')))"
proof -
  let ?m1 = "overwrite mem 0 (reserved SEQUENCE)"
  let ?m2 = "overwrite ?m1 4 version_object"
  have s1: "asn_build_sequence mem 0 dl SEQUENCE 0 = Inr (?m1, 4, dl - 4)"
    using assms wr_fits [of 0 "reserved SEQUENCE" mem] by (simp add: asn_build_sequence_def reserved_def)
  have l1: "length ?m1 = length mem" using assms by simp
  have s2: "asn_build_int ?m1 4 (dl - 4) INTEGER SNMP_VERSION_1 sizeof_long = Inr (?m2, 7, dl - 7)"
    using asn_build_int_object [of 4 INTEGER SNMP_VERSION_1 ?m1 "dl - 4"] assms l1
    by (simp add: version_object_def [symmetric] version_object_eq sizeof_long_def)
  have l2: "length ?m2 = length mem" using assms l1 by (subst overwrite_length) (simp_all add: version_object_eq)
  have "length (object_bytes STRING c) = 2 + length c" using assms(1) by (simp add: short_object)
  then have s3: "asn_build_string ?m2 7 (dl - 7) STRING c =
      Inr (overwrite ?m2 7 (object_bytes STRING c), 9 + length c, dl - int (9 + length c))"
    using build_object_fits [of 7 STRING c ?m2 "dl - 7"] assms l2 by (simp add: asn_build_string_def)
  have "overwrite ?m2 7 (object_bytes STRING c) = overwrite mem 0 (auth_prefix c)"
    using overwrite_twice [of 0 "reserved SEQUENCE" version_object mem]
      overwrite_twice [of 0 "reserved SEQUENCE @ version_object" "object_bytes STRING c" mem] assms
    by (simp add: auth_prefix_def version_object_eq short_object)
  then show ?thesis unfolding snmp_build_auth_def s1 bindE_simps prod.case s2 s3 by (simp add: Let_def)
qed

lemma built_auth_start:
  assumes "length c < 0x80" "9 + length c \<le> length mem" "int (9 + length c) \<le> dl"
  shows "built (snmp_build_auth mem 0 dl c SNMP_VERSION_1 0) (auth_prefix c) (length mem) (dl - int (9 + length c))"
  using build_auth_start [OF assms, of 0] prefix_overwrite [of "[]" mem "auth_prefix c"] assms
  by (intro builtI [of _ "overwrite mem 0 (auth_prefix c)"]) (simp_all add: Let_def length_auth_prefix)

lemma prefix_overwrite_start:
  "prefix (a @ b) mem \<Longrightarrow> length a' = length a \<Longrightarrow> prefix (a' @ b) (overwrite mem 0 a')"
  by (auto simp: prefix_def overwrite_def)

text \<open>The second call encloses what was written behind the reserved header.\<close>

lemma built_auth:
  assumes "length c < 0x80" "prefix (a @ body) mem" "length a = 9 + length c" "body \<noteq> []" "int (length (a @ body)) \<le> dl"
  shows "built (snmp_build_auth mem 0 dl c SNMP_VERSION_1 (int (length body))) (message_bytes c body) (length mem)
    (dl - int (9 + length c))"
proof -
  let ?m = "overwrite mem 0 (auth_prefix c)" and ?bs = "version_object @ object_bytes STRING c @ body"
  have l: "9 + length c \<le> length mem" using assms(2,3) by (auto simp: prefix_def)
  have p: "prefix ([] @ reserved SEQUENCE @ ?bs) ?m"
    using prefix_overwrite_start [OF assms(2), of "auth_prefix c"] assms(1,3)
    by (simp add: length_auth_prefix) (simp add: auth_prefix_def)
  have n: "length ?bs = length body + length c + 5" using assms(1) by (simp add: version_object_eq short_object)
  have lm: "length ?m = length mem" using l assms(1) by (simp add: length_auth_prefix)
  have "built (asn_build_sequence ?m (length ([] :: u8 list)) dl SEQUENCE (int (length ?bs))) ([] @ object_bytes SEQUENCE ?bs)
      (length ?m) (dl - int (1 + length (length_bytes (int (length ?bs)))))"
    by (rule built_sequence [of "[]" "reserved SEQUENCE" ?bs ?m dl "length ?bs" SEQUENCE])
      (use p assms in \<open>auto simp: version_object_eq\<close>)
  then obtain m4 where m4: "asn_build_sequence ?m 0 dl SEQUENCE (int (length body) + int (length c) + 5) =
      Inr (m4, length (message_bytes c body), dl - int (1 + length (length_bytes (int (length ?bs)))))"
    "prefix (message_bytes c body) m4" "length m4 = length mem"
    unfolding n by (auto simp: built_def message_bytes_def lm n add.commute)
  have "snmp_build_auth mem 0 dl c SNMP_VERSION_1 (int (length body)) =
      Inr (m4, length (message_bytes c body), dl - int (9 + length c))"
    using build_auth_start [OF assms(1) l, of dl "int (length body)"] assms(3,4,5) m4(1) by (simp add: Let_def)
  then show ?thesis using m4(2,3) by (rule builtI)
qed

lemma parse_auth_message:
  assumes "holds mem 0 (message_bytes c body)" "length (message_bytes c body) \<le> 0xFFFF"
    and "int (length (message_bytes c body)) \<le> len" "len < 2 ^ 31" "int (length c) \<le> clen" "clen < 2 ^ 31"
  obtains pos where "snmp_parse_auth mem 0 len clen = Inr (SNMP_VERSION_1, c, pos, int (length body))"
    "holds mem pos body" "pos + length body = length (message_bytes c body)"
proof -
  let ?bs = "version_object @ object_bytes STRING c @ body"
  define p where "p = 1 + length (length_bytes (int (length ?bs)))"
  have seq: "SEQUENCE AND ASN_EXTENSION_ID \<noteq> ASN_EXTENSION_ID" by (simp add: asn_types asn_consts)
  have n: "length ?bs \<le> 0xFFFF" using assms(2) object_length_ge(1) [of ?bs SEQUENCE] by (simp add: message_bytes_def)
  note h = parse_header_object [OF assms(1) [unfolded message_bytes_def] n assms(3) [unfolded message_bytes_def] assms(4) seq]
  have hh: "holds mem p version_object" "holds mem (p + 3) (object_bytes STRING c)"
    "holds mem (p + 3 + length (object_bytes STRING c)) body"
    using h(2) unfolding add_0 p_def [symmetric] holds_append length_version_object by simp_all
  have s2: "asn_parse_int mem p (int (length ?bs)) sizeof_long = Inr (INTEGER, SNMP_VERSION_1, p + 3, int (length ?bs) - 3)"
    using asn_parse_int_object [OF hh(1) [unfolded version_object_def], of "int (length ?bs)"] n
    by (simp add: version_object_def [symmetric] version_object_eq sizeof_long_def)
  have "length c \<le> 0xFFFF" using n object_length_ge(1) [of c STRING] by simp
  then have s3: "asn_parse_string mem (p + 3) (int (length ?bs) - 3) clen =
      Inr (STRING, c, p + 3 + length (object_bytes STRING c), int (length body))"
    using asn_parse_string_object [OF hh(2), of "int (length ?bs) - 3" clen] n assms(5,6)
    by (simp add: version_object_eq)
  have "snmp_parse_auth mem 0 len clen = Inr (SNMP_VERSION_1, c, p + 3 + length (object_bytes STRING c), int (length body))"
    unfolding snmp_parse_auth_def h(1) [unfolded add_0, folded p_def] bindE_simps prod.case s2 s3 by simp
  then show ?thesis using hh(3) by (rule that) (simp add: message_bytes_def object_len p_def version_object_eq)
qed

end
