(* ===== verification/Snmp_Get.thy ===== *)
theory Snmp_Get
  imports Snmp_Agent Snmp_Codec
begin

text \<open>
  The answer to GET and GETNEXT, from the bytes of the request to the bytes of the response.

  \<open>lookups\<close> is the specification of what is asked for: the searches for the names in order, on the
  state each leaves behind. The theorem says that the agent answers a well-formed request with the
  message that holds exactly what they find.
\<close>

section \<open>Messages\<close>

definition pdu_fields :: "u32 \<Rightarrow> u32 \<Rightarrow> u32 \<Rightarrow> u8 list" where
  "pdu_fields rid es ei = object_bytes INTEGER (int_contents rid) @ object_bytes INTEGER (int_contents es) @
     object_bytes INTEGER (int_contents ei)"

definition pdu_message :: "u8 list \<Rightarrow> u8 \<Rightarrow> u32 \<Rightarrow> u32 \<Rightarrow> u32 \<Rightarrow> u8 list \<Rightarrow> u8 list" where
  "pdu_message c ty rid es ei ops =
     message_bytes c (object_bytes ty (pdu_fields rid es ei @ object_bytes SEQUENCE ops))"

definition ops_bytes :: "(oid \<times> u8 \<times> u8 list) list \<Rightarrow> u8 list" where
  "ops_bytes bs = concat (map (\<lambda>(name, ty, c). var_op_bytes name ty c) bs)"

definition request_bytes :: "u8 list \<Rightarrow> u8 \<Rightarrow> u32 \<Rightarrow> (oid \<times> u8 \<times> u8 list) list \<Rightarrow> u8 list" where
  "request_bytes c ty rid binds = pdu_message c ty rid 0 0 (ops_bytes binds)"

definition encode_results :: "(oid \<times> u8 \<times> u8 list) list \<Rightarrow> (oid \<times> u8 \<times> u8 list) list" where
  "encode_results rs = map (\<lambda>(name, ty, val). (name, ty, val_contents ty val)) rs"

definition response_bytes :: "u8 list \<Rightarrow> u32 \<Rightarrow> (oid \<times> u8 \<times> u8 list) list \<Rightarrow> u8 list" where
  "response_bytes c rid rs = pdu_message c GET_RSP_MSG rid 0 0 (ops_bytes (encode_results rs))"

lemma ops_bytes_simps [simp]:
  "ops_bytes [] = []" "ops_bytes ((name, ty, c) # bs) = var_op_bytes name ty c @ ops_bytes bs"
  by (simp_all add: ops_bytes_def)

lemma encode_results_simps [simp]:
  "encode_results [] = []" "encode_results ((name, ty, v) # rs) = (name, ty, val_contents ty v) # encode_results rs"
  by (simp_all add: encode_results_def)

lemma length_var_op: "2 + length (var_op_contents name ty c) \<le> length (var_op_bytes name ty c)"
  unfolding var_op_bytes_def by (rule object_length_ge)

section \<open>The specification\<close>

fun lookups :: "u8 \<Rightarrow> oid list \<Rightarrow> locals \<Rightarrow> agent \<Rightarrow> ((oid \<times> u8 \<times> u8 list) list \<times> locals \<times> agent) option" where
  "lookups mt [] l m = Some ([], l, m)"
| "lookups mt (n # ns) l m =
     (case getStatPtr auth_fail (agent_tree m) (set_name (var_name l) n) (length n) (mt \<noteq> GETNEXT_REQ_MSG)
             (view_of mt m) (l_out l) m of
        (None, _) \<Rightarrow> None
      | (Some p, name, namelen, o', m1) \<Rightarrow>
          map_option (\<lambda>(rs, r). ((take namelen name, o_type o', fst p) # rs, r))
            (lookups mt ns \<lparr>var_name = name, l_out = o'\<rparr> m1))"

definition wire_binding :: "oid \<times> u8 \<times> u8 list \<Rightarrow> bool" where
  "wire_binding b \<longleftrightarrow> (case b of (name, ty, c) \<Rightarrow> wire_oid name \<and> ty AND ASN_EXTENSION_ID \<noteq> ASN_EXTENSION_ID)"

definition good_result :: "oid \<times> u8 \<times> u8 list \<Rightarrow> bool" where
  "good_result r \<longleftrightarrow> (case r of (name, ty, val) \<Rightarrow> small_oid name \<and> val_ok ty val)"

section \<open>The loop over the bindings\<close>

text \<open>The bindings that are found, in front of others.\<close>

lemma var_op_loop_found:
  assumes "mt \<noteq> SET_REQ_MSG" "lookups mt (map fst binds) l m = Some (rs, l', m')"
    and "\<forall>b \<in> set binds. wire_binding b" "\<forall>r \<in> set rs. good_result r"
    and "holds mem data (ops_bytes binds)" "length (ops_bytes binds) + t \<le> 0xFFFF"
    and "prefix pre out" "length pre + length (ops_bytes (encode_results rs)) + 2 \<le> length out"
    and "int (length (ops_bytes (encode_results rs))) + 2 \<le> out_length"
  shows "\<exists>out'. (\<forall>k. var_op_loop (length binds + k) mt action mem (int data) (int (length (ops_bytes binds) + t)) out (length pre) out_length index pend l m =
      var_op_loop k mt action mem (int (data + length (ops_bytes binds))) (int t) out' (length (pre @ ops_bytes (encode_results rs)))
        (out_length - int (length (ops_bytes (encode_results rs)))) (index + length binds) pend l' m') \<and>
    prefix (pre @ ops_bytes (encode_results rs)) out' \<and> length out' = length out"
  using assms(2-)
proof (induction binds arbitrary: l m rs data pre out out_length index)
  case Nil
  then show ?case by auto
next
  case (Cons b binds)
  obtain name ty c where b: "b = (name, ty, c)" by (cases b)
  obtain p nm nl o' m1 rs' where
    g: "getStatPtr auth_fail (agent_tree m) (set_name (var_name l) name) (length name) (mt \<noteq> GETNEXT_REQ_MSG)
          (view_of mt m) (l_out l) m = (Some p, nm, nl, o', m1)"
    and rs': "lookups mt (map fst binds) \<lparr>var_name = nm, l_out = o'\<rparr> m1 = Some (rs', l', m')"
    and rs: "rs = (take nl nm, o_type o', fst p) # rs'"
    using Cons.prems(1) by (auto simp: b split: option.splits prod.splits)
  let ?op = "var_op_bytes name ty c" and ?len = "int (length (ops_bytes (b # binds)) + t)"
  have wb: "wire_oid name" "ty AND ASN_EXTENSION_ID \<noteq> ASN_EXTENSION_ID"
    using Cons.prems(2) by (simp_all add: b wire_binding_def)
  have h: "holds mem data ?op" "holds mem (data + length ?op) (ops_bytes binds)"
    using Cons.prems(4) by (simp_all add: b holds_append)
  have tl: "?len - int (length ?op) = int (length (ops_bytes binds) + t)" by (simp add: b)
  obtain vv where pv: "snmp_parse_var_op mem (int data) (var_name l ! 1) (int SNMP_MAX_NAME_LEN) ?len =
      Inr (name, ty, int (length c), vv, int (data + length ?op), int (length (ops_bytes binds) + t))"
    unfolding tl [symmetric]
    by (rule parse_var_op_wire [OF wb(1) h(1) wb(2), of ?len "var_name l ! 1"])
      (use Cons.prems(5) length_var_op [of name ty c] in \<open>auto simp: b\<close>)
  let ?vc = "val_contents (o_type o') (fst p)" and ?nm = "take nl nm"
  let ?rop = "var_op_bytes ?nm (o_type o') ?vc"
  have gr: "small_oid ?nm" "val_ok (o_type o') (fst p)" using Cons.prems(3) by (simp_all add: rs good_result_def)
  obtain r where r: "snmp_build_var_op out (length pre) ?nm (o_type o') (fst p) out_length = Some r"
    "built r (pre @ ?rop) (length out) (out_length - int (length ?rop))"
    by (rule built_var_op [OF Cons.prems(6), of ?nm "o_type o'" "fst p" out_length])
      (use Cons.prems(7,8) gr length_var_op [of ?nm "o_type o'" ?vc] in \<open>auto simp: rs\<close>)
  obtain out1 where o1: "r = Inr (out1, length (pre @ ?rop), out_length - int (length ?rop))" "prefix (pre @ ?rop) out1"
    "length out1 = length out" by (rule builtE [OF r(2)])
  have ih: "\<exists>out'. (\<forall>k. var_op_loop (length binds + k) mt action mem (int (data + length ?op)) (int (length (ops_bytes binds) + t)) out1
        (length (pre @ ?rop)) (out_length - int (length ?rop)) (index + 1) pend \<lparr>var_name = nm, l_out = o'\<rparr> m1 =
      var_op_loop k mt action mem (int (data + length ?op + length (ops_bytes binds))) (int t) out'
        (length ((pre @ ?rop) @ ops_bytes (encode_results rs'))) (out_length - int (length ?rop) - int (length (ops_bytes (encode_results rs'))))
        (index + 1 + length binds) pend l' m') \<and>
    prefix ((pre @ ?rop) @ ops_bytes (encode_results rs')) out' \<and> length out' = length out1"
    by (rule Cons.IH [OF rs' _ _ h(2) _ o1(2)])
      (use Cons.prems(2,3,5,7,8) o1(3) in \<open>auto simp: b rs\<close>)
  have pos: "\<not> ?len \<le> 0" using length_var_op [of name ty c] by (simp add: b)
  have step: "var_op_loop (length (b # binds) + k) mt action mem (int data) ?len out (length pre) out_length index pend l m =
      var_op_loop (length binds + k) mt action mem (int (data + length ?op)) (int (length (ops_bytes binds) + t)) out1 (length (pre @ ?rop))
        (out_length - int (length ?rop)) (index + 1) pend \<lparr>var_name = nm, l_out = o'\<rparr> m1" for k
    using pos pv g r(1) o1(1) assms(1) by (subst var_op_loop.simps) (simp add: Let_def)
  show ?case unfolding step using ih o1(3) by (simp add: rs b algebra_simps)
qed

lemma var_op_loop_end: "var_op_loop k mt action mem data 0 out od ol index pend l m = Some (Inr (True, od, vres SNMP_ERR_NOERROR index out pend m))"
  by (simp add: var_op_loop.simps)

lemma seq_tag: "SEQUENCE AND ASN_EXTENSION_ID \<noteq> ASN_EXTENSION_ID"
  by (simp add: asn_types asn_consts)

lemma parse_list_get:
  assumes "mt \<noteq> SET_REQ_MSG" "lookups mt (map fst binds) l m = Some (rs, l', m')" "length binds \<le> fuel" "rs \<noteq> []"
    and "\<forall>b \<in> set binds. wire_binding b" "\<forall>r \<in> set rs. good_result r"
    and "holds mem data (object_bytes SEQUENCE (ops_bytes binds))" "length (ops_bytes binds) \<le> 0xFFFF"
    and "prefix pre out" "length pre + length (ops_bytes (encode_results rs)) + 6 \<le> length out"
    and "int (length (ops_bytes (encode_results rs))) + 6 \<le> out_length"
  shows "\<exists>out'. parse_var_op_list fuel mem data (int (length (object_bytes SEQUENCE (ops_bytes binds)))) out (length pre)
        out_length index pend mt action l m =
      Some (Inr (vres SNMP_ERR_NOERROR 0 out' (length (pre @ object_bytes SEQUENCE (ops_bytes (encode_results rs)))) m')) \<and>
    prefix (pre @ object_bytes SEQUENCE (ops_bytes (encode_results rs))) out' \<and> length out' = length out"
proof -
  let ?ops = "ops_bytes binds" and ?rops = "ops_bytes (encode_results rs)"
  define d1 where "d1 = data + 1 + length (length_bytes (int (length ?ops)))"
  have l: "int (length (object_bytes SEQUENCE ?ops)) < 2 ^ 31" using object_length_ge(2) [of SEQUENCE ?ops] assms(8) by simp
  note hd = parse_header_object [OF assms(7,8) order.refl l seq_tag, folded d1_def]
  obtain out1 where o1: "asn_build_sequence out (length pre) out_length SEQUENCE 0 =
      Inr (out1, length (pre @ reserved SEQUENCE), out_length - 4)" "prefix (pre @ reserved SEQUENCE) out1" "length out1 = length out"
    by (rule builtE [OF built_reserve [OF assms(9), of out_length SEQUENCE]]) (use assms(10,11) in auto)
  have "\<exists>out2. var_op_loop fuel mt action mem (int d1) (int (length ?ops)) out1 (length (pre @ reserved SEQUENCE)) (out_length - 4) 1 pend l m =
      Some (Inr (True, length ((pre @ reserved SEQUENCE) @ ?rops), vres SNMP_ERR_NOERROR (1 + length binds) out2 pend m')) \<and>
    prefix ((pre @ reserved SEQUENCE) @ ?rops) out2 \<and> length out2 = length out1"
    using var_op_loop_found [OF assms(1,2,5,6) hd(2), of 0 "pre @ reserved SEQUENCE" out1 "out_length - 4" action 1 pend]
      assms(8,10,11) o1(2,3) le_add_diff_inverse [OF assms(3)]
    by (auto simp: var_op_loop_end) metis
  then obtain out2 where o2: "var_op_loop fuel mt action mem (int d1) (int (length ?ops)) out1 (length (pre @ reserved SEQUENCE)) (out_length - 4) 1 pend l m =
      Some (Inr (True, length ((pre @ reserved SEQUENCE) @ ?rops), vres SNMP_ERR_NOERROR (1 + length binds) out2 pend m'))"
    "prefix (pre @ reserved SEQUENCE @ ?rops) out2" "length out2 = length out" using o1(3) by auto
  have ne: "?rops \<noteq> []" using assms(4) length_var_op by (cases rs) (fastforce simp: var_op_bytes_def object_bytes_def)+
  obtain out3 where o3: "asn_build_sequence out2 (length pre) (int (4 + length ?rops)) SEQUENCE (int (length ?rops)) =
      Inr (out3, length (pre @ object_bytes SEQUENCE ?rops), int (4 + length ?rops) - int (1 + length (length_bytes (int (length ?rops)))))"
    "prefix (pre @ object_bytes SEQUENCE ?rops) out3" "length out3 = length out2"
    by (rule builtE [OF built_sequence [OF o2(2), of "int (4 + length ?rops)" "length ?rops" SEQUENCE]]) (use ne in auto)
  have "length ((pre @ reserved SEQUENCE) @ ?rops) - length pre = 4 + length ?rops"
    "length ((pre @ reserved SEQUENCE) @ ?rops) - length (pre @ reserved SEQUENCE) = length ?rops" by simp_all
  then have "finish_list mt (length pre) (length (pre @ reserved SEQUENCE))
      (True, length ((pre @ reserved SEQUENCE) @ ?rops), vres SNMP_ERR_NOERROR (1 + length binds) out2 pend m') =
      Inr (vres SNMP_ERR_NOERROR 0 out3 (length (pre @ object_bytes SEQUENCE ?rops)) m')"
    unfolding finish_list_def prod.case using assms(1) o3(1) by (simp only: null_auth_def) (simp add: vres_def)
  then show ?thesis
    unfolding parse_var_op_list_def hd(1) sum.case prod.case o1(1) o2(1) bindO_simps
    using o3(2,3) o2(3) by auto
qed

section \<open>The frame of the response\<close>

lemma length_pdu_fields: "9 \<le> length (pdu_fields rid es ei)" "length (pdu_fields rid es ei) \<le> 18"
  using int_contents_len [of rid] int_contents_len [of es] int_contents_len [of ei]
  by (simp_all add: pdu_fields_def int_object_len)

lemma start_response_built:
  assumes "prefix pre out" "length pre + 22 \<le> length out" "22 \<le> dl"
  shows "\<exists>out'. start_response out (length pre) dl rid =
      Inr (out', length (pre @ reserved GET_RSP_MSG), length (pre @ reserved GET_RSP_MSG @ pdu_fields rid 0 0),
        dl - 4 - int (length (pdu_fields rid 0 0))) \<and>
    prefix (pre @ reserved GET_RSP_MSG @ pdu_fields rid 0 0) out' \<and> length out' = length out"
proof -
  let ?R = "reserved GET_RSP_MSG" and ?I = "\<lambda>v. object_bytes INTEGER (int_contents v)"
  have i: "length (?I v) \<le> 6" for v using int_contents_len [of v] by (simp add: int_object_len)
  obtain o1 where o1: "asn_build_sequence out (length pre) dl GET_RSP_MSG 0 = Inr (o1, length (pre @ ?R), dl - 4)"
    "prefix (pre @ ?R) o1" "length o1 = length out"
    by (rule builtE [OF built_reserve [OF assms(1), of dl GET_RSP_MSG]]) (use assms in auto)
  obtain o2 where o2: "asn_build_int o1 (length (pre @ ?R)) (dl - 4) INTEGER rid sizeof_long =
      Inr (o2, length ((pre @ ?R) @ ?I rid), dl - 4 - int (length (?I rid)))" "prefix ((pre @ ?R) @ ?I rid) o2" "length o2 = length out"
    by (rule builtE [OF built_int [OF o1(2), of INTEGER rid "dl - 4"]]) (use assms i [of rid] o1(3) in auto)
  obtain o3 where o3: "asn_build_int o2 (length ((pre @ ?R) @ ?I rid)) (dl - 4 - int (length (?I rid))) INTEGER 0 sizeof_long =
      Inr (o3, length (((pre @ ?R) @ ?I rid) @ ?I 0), dl - 4 - int (length (?I rid)) - int (length (?I 0)))"
    "prefix (((pre @ ?R) @ ?I rid) @ ?I 0) o3" "length o3 = length out"
    by (rule builtE [OF built_int [OF o2(2), of INTEGER 0 "dl - 4 - int (length (?I rid))"]])
      (use assms i [of rid] i [of 0] o2(3) in auto)
  obtain o4 where o4: "asn_build_int o3 (length (((pre @ ?R) @ ?I rid) @ ?I 0)) (dl - 4 - int (length (?I rid)) - int (length (?I 0)))
        INTEGER 0 sizeof_long =
      Inr (o4, length ((((pre @ ?R) @ ?I rid) @ ?I 0) @ ?I 0), dl - 4 - int (length (?I rid)) - int (length (?I 0)) - int (length (?I 0)))"
    "prefix ((((pre @ ?R) @ ?I rid) @ ?I 0) @ ?I 0) o4" "length o4 = length out"
    by (rule builtE [OF built_int [OF o3(2), of INTEGER 0 "dl - 4 - int (length (?I rid)) - int (length (?I 0))"]])
      (use assms i [of rid] i [of 0] o3(3) in auto)
  have "start_response out (length pre) dl rid =
      Inr (o4, length (pre @ ?R), length ((((pre @ ?R) @ ?I rid) @ ?I 0) @ ?I 0), dl - 4 - int (length (?I rid)) - int (length (?I 0)) - int (length (?I 0)))"
    unfolding start_response_def o1(1) bindE_simps prod.case o2(1) o3(1) o4(1) ..
  with o4 show ?thesis by (auto simp: pdu_fields_def algebra_simps)
qed

lemma finish_response_built:
  assumes "length c \<le> 80" "prefix (auth_prefix c @ reserved GET_RSP_MSG @ body) out" "body \<noteq> []"
  shows "finish_response out (length (auth_prefix c)) (length (auth_prefix c @ reserved GET_RSP_MSG))
      (length (auth_prefix c @ reserved GET_RSP_MSG @ body)) c = Inr (Some (message_bytes c (object_bytes GET_RSP_MSG body)))"
proof -
  let ?A = "auth_prefix c" and ?B = "object_bytes GET_RSP_MSG body"
  have c: "length c < 0x80" using assms(1) by simp
  have lens: "int (length (?A @ reserved GET_RSP_MSG @ body)) - int (length ?A) = int (4 + length body)"
    "int (length (?A @ reserved GET_RSP_MSG @ body)) - int (length (?A @ reserved GET_RSP_MSG)) = int (length body)" by simp_all
  obtain o1 where o1: "asn_build_sequence out (length ?A) (int (4 + length body)) GET_RSP_MSG (int (length body)) =
      Inr (o1, length (?A @ ?B), int (4 + length body) - int (1 + length (length_bytes (int (length body)))))"
    "prefix (?A @ ?B) o1" "length o1 = length out"
    by (rule builtE [OF built_sequence [OF assms(2), of "int (4 + length body)" "length body" GET_RSP_MSG]]) (use assms(3) in auto)
  have lb: "int (length (?A @ ?B)) - int (length ?A) = int (length ?B)" by simp
  obtain o2 where o2: "snmp_build_auth o1 0 (int (length (?A @ ?B))) c SNMP_VERSION_1 (int (length ?B)) =
      Inr (o2, length (message_bytes c ?B), int (length (?A @ ?B)) - int (9 + length c))" "prefix (message_bytes c ?B) o2"
    by (rule builtE [OF built_auth [OF c o1(2), of "int (length (?A @ ?B))"]]) (use c in \<open>auto simp: length_auth_prefix object_bytes_def\<close>)
  have "int (length (?A @ ?B)) - int (length body) = int (length (?A @ reserved GET_RSP_MSG)) -
      (int (length (?A @ reserved GET_RSP_MSG @ body)) - int (length (?A @ ?B)))" by simp
  then have "finish_response out (length ?A) (length (?A @ reserved GET_RSP_MSG)) (length (?A @ reserved GET_RSP_MSG @ body)) c =
      Inr (Some (take (length (message_bytes c ?B)) o2))"
    unfolding finish_response_def lens o1(1) null_auth_def sum.case bindE_simps prod.case Let_def lb o2(1) by simp
  then show ?thesis using o2(2) by (auto simp: prefix_def)
qed

section \<open>The request\<close>

definition count_request :: "u8 \<Rightarrow> agent \<Rightarrow> agent" where
  "count_request mt m =
     count (if mt = GET_REQ_MSG then ''snmp_ingetrequests'' else if mt = GETNEXT_REQ_MSG then ''snmp_ingetnexts''
            else ''snmp_insetrequests'') (count ''snmp_intotalreqvars'' m)"

definition request_types :: "u8 set" where "request_types = {GET_REQ_MSG, GETNEXT_REQ_MSG, SET_REQ_MSG}"

lemma or_quit_Inr [simp]: "or_quit g (Inr x) m f = f x"
  by (simp add: or_quit_def)

lemma parse_int_object:
  assumes "holds mem data (object_bytes ty (int_contents v))" "int (length (object_bytes ty (int_contents v))) \<le> dl" "dl < 2 ^ 31"
  shows "asn_parse_int mem data dl sizeof_long =
    Inr (ty, v, data + length (object_bytes ty (int_contents v)), dl - int (length (object_bytes ty (int_contents v))))"
  using asn_parse_int_object [OF assms] by (simp add: sizeof_long_def)

text \<open>The three integers before the bindings.\<close>

lemma parse_fields:
  assumes "holds mem p (pdu_fields rid es ei @ rest)" "length rest \<le> 0xFFFF"
  defines "n1 \<equiv> length (object_bytes INTEGER (int_contents rid))" and "n2 \<equiv> length (object_bytes INTEGER (int_contents es))"
    and "n3 \<equiv> length (object_bytes INTEGER (int_contents ei))"
  shows "asn_parse_int mem p (int (n1 + n2 + n3 + length rest)) sizeof_long = Inr (INTEGER, rid, p + n1, int (n2 + n3 + length rest))"
    "asn_parse_int mem (p + n1) (int (n2 + n3 + length rest)) sizeof_long = Inr (INTEGER, es, p + n1 + n2, int (n3 + length rest))"
    "asn_parse_int mem (p + n1 + n2) (int (n3 + length rest)) sizeof_long = Inr (INTEGER, ei, p + n1 + n2 + n3, int (length rest))"
    "holds mem (p + n1 + n2 + n3) rest" "length (pdu_fields rid es ei @ rest) = n1 + n2 + n3 + length rest"
proof -
  have h: "holds mem p (object_bytes INTEGER (int_contents rid))" "holds mem (p + n1) (object_bytes INTEGER (int_contents es))"
    "holds mem (p + n1 + n2) (object_bytes INTEGER (int_contents ei))" "holds mem (p + n1 + n2 + n3) rest"
    using assms(1) by (simp_all add: pdu_fields_def holds_append n1_def n2_def n3_def add.assoc)
  have n: "n1 \<le> 6" "n2 \<le> 6" "n3 \<le> 6"
    using int_contents_len [of rid] int_contents_len [of es] int_contents_len [of ei]
    by (simp_all add: n1_def n2_def n3_def int_object_len)
  show "asn_parse_int mem p (int (n1 + n2 + n3 + length rest)) sizeof_long = Inr (INTEGER, rid, p + n1, int (n2 + n3 + length rest))"
    using parse_int_object [OF h(1), of "int (n1 + n2 + n3 + length rest)"] n assms(2) by (simp add: n1_def [symmetric])
  show "asn_parse_int mem (p + n1) (int (n2 + n3 + length rest)) sizeof_long = Inr (INTEGER, es, p + n1 + n2, int (n3 + length rest))"
    using parse_int_object [OF h(2), of "int (n2 + n3 + length rest)"] n assms(2) by (simp add: n2_def [symmetric])
  show "asn_parse_int mem (p + n1 + n2) (int (n3 + length rest)) sizeof_long = Inr (INTEGER, ei, p + n1 + n2 + n3, int (length rest))"
    using parse_int_object [OF h(3), of "int (n3 + length rest)"] n assms(2) by (simp add: n3_def [symmetric])
  show "holds mem (p + n1 + n2 + n3) rest" by (rule h(4))
  show "length (pdu_fields rid es ei @ rest) = n1 + n2 + n3 + length rest" by (simp add: pdu_fields_def n1_def n2_def n3_def)
qed

lemma request_tag: "mt \<in> request_types \<Longrightarrow> mt AND ASN_EXTENSION_ID \<noteq> ASN_EXTENSION_ID"
  by (auto simp: request_types_def msg_consts asn_consts)

lemma parse_pdu_wire:
  assumes "mt \<in> request_types" "holds mem pos (object_bytes mt (pdu_fields rid es ei @ rest))"
    and "length (pdu_fields rid es ei @ rest) \<le> 0xFFFF"
  obtains q where "parse_pdu mem pos (int (length (object_bytes mt (pdu_fields rid es ei @ rest)))) m =
      Inr (Some \<lparr>rq_type = mt, rq_reqid = rid, rq_pos = q, rq_len = int (length rest)\<rparr>, count_request mt m)"
    "holds mem q rest"
proof -
  let ?b = "pdu_fields rid es ei @ rest"
  define p where "p = pos + 1 + length (length_bytes (int (length ?b)))"
  have l: "int (length (object_bytes mt ?b)) < 2 ^ 31" using object_length_ge(2) [of mt ?b] assms(3) by simp
  note h = parse_header_object [OF assms(2,3) order.refl l request_tag [OF assms(1)], folded p_def]
  have r: "length rest \<le> 0xFFFF" using assms(3) by simp
  note f = parse_fields [OF h(2) r]
  have mt: "\<not> (mt \<noteq> GET_REQ_MSG \<and> mt \<noteq> GETNEXT_REQ_MSG \<and> mt \<noteq> SET_REQ_MSG)" using assms(1) by (auto simp: request_types_def)
  show ?thesis
    by (rule that [OF _ f(4)])
      (unfold parse_pdu_def h(1) or_quit_Inr prod.case Let_def f(5) f(1-3) count_request_def, use mt in simp)
qed

lemma session_community_stored: "length c = nat (community_len m) \<Longrightarrow> community m = overwrite xs 0 (c @ [0]) \<Longrightarrow> session_community m = c"
  by (simp add: session_community_def overwrite_def)

text \<open>What \<open>community_auth\<close> changes is not the community.\<close>

lemma auth_community: "community_auth (store_community c m) = (True, m') \<Longrightarrow> session_community m' = c"
  by (intro session_community_stored [where xs = "community m"])
    (auto simp: community_auth_def store_community_def Let_def split: prod.splits option.splits if_splits)

lemma count_request_simps [simp]:
  "community (count_request mt m) = community m" "community_len (count_request mt m) = community_len m"
  "session_community (count_request mt m) = session_community m"
  by (simp_all add: count_request_def count_def session_community_def)

lemma parse_request_wire:
  assumes "mt \<in> request_types" "length c \<le> 80" "length (pdu_message c mt rid es ei ops) \<le> SNMP_MAX_LEN"
    and "community_auth (store_community c (m\<lparr>community_len := 80\<rparr>)) = (True, m1)"
  obtains q where "parse_request (pdu_message c mt rid es ei ops @ rest) (length (pdu_message c mt rid es ei ops)) m =
      Inr (Some \<lparr>rq_type = mt, rq_reqid = rid, rq_pos = q, rq_len = int (length (object_bytes SEQUENCE ops))\<rparr>, count_request mt m1)"
    "holds (pdu_message c mt rid es ei ops @ rest) q (object_bytes SEQUENCE ops)"
proof -
  let ?b = "object_bytes mt (pdu_fields rid es ei @ object_bytes SEQUENCE ops)" and ?msg = "pdu_message c mt rid es ei ops"
  have h: "holds (?msg @ rest) 0 (message_bytes c ?b)" by (simp add: holds_def pdu_message_def)
  have n: "length (message_bytes c ?b) \<le> 768" using assms(3) by (simp add: pdu_message_def SNMP_MAX_LEN_def)
  obtain pos where pos: "snmp_parse_auth (?msg @ rest) 0 (int (length ?msg)) 80 = Inr (SNMP_VERSION_1, c, pos, int (length ?b))"
    "holds (?msg @ rest) pos ?b" "pos + length ?b = length (message_bytes c ?b)"
    by (rule parse_auth_message [OF h, of "int (length ?msg)" 80]) (use n assms(2) in \<open>auto simp: pdu_message_def\<close>)
  have "length (pdu_fields rid es ei @ object_bytes SEQUENCE ops) \<le> 0xFFFF"
    using pos(3) n object_length_ge(1) [of "pdu_fields rid es ei @ object_bytes SEQUENCE ops" mt] by linarith
  then obtain q where q: "parse_pdu (?msg @ rest) pos (int (length ?b)) m1 =
      Inr (Some \<lparr>rq_type = mt, rq_reqid = rid, rq_pos = q, rq_len = int (length (object_bytes SEQUENCE ops))\<rparr>, count_request mt m1)"
    "holds (?msg @ rest) q (object_bytes SEQUENCE ops)"
    by (rule parse_pdu_wire [OF assms(1) pos(2), of m1])
  show ?thesis
    by (rule that [OF _ q(2)]) (simp add: parse_request_def COMMUNITY_MAX_LEN_def pos(1) Let_def assms(4) q(1))
qed

end
