(* ===== verification/Snmp_Answer.thy ===== *)
theory Snmp_Answer
  imports Snmp_Frame Snmp_Get
begin

text \<open>
  The messages the agent answers with: the values that were asked for, or the request again with an
  error status.
\<close>

section \<open>The answer that holds values\<close>

lemma lookups_settings: "lookups mt ns l m = Some (rs, l', m') \<Longrightarrow> settings m' = settings m"
proof (induction ns arbitrary: l m rs)
  case (Cons n ns)
  then show ?case
    by (auto split: prod.splits option.splits dest!: search_settings Cons.IH)
qed simp

lemma lookups_community: "lookups mt ns l m = Some (rs, l', m') \<Longrightarrow> session_community m' = session_community m"
  using settingsD(4,5) [OF lookups_settings] by (simp add: session_community_def)

lemma request_bytes_length: "length (ops_bytes binds) + 9 \<le> length (request_bytes c mt rid binds)"
  using length_pdu_fields(1) [of rid 0 0]
  by (simp add: request_bytes_def pdu_message_def message_bytes_def object_bytes_def)

lemma auth_community_len: "community_auth (store_community c m) = (True, m') \<Longrightarrow> community_len m' = int (length c)"
  by (auto simp: community_auth_def store_community_def Let_def split: prod.splits option.splits if_splits)

lemma answer_get_built:
  assumes "pass RESERVE1 out 0 0 m = Some (Inr (vres SNMP_ERR_NOERROR 0 out' pe m'))"
    and "finish_response out' h r pe (session_community m') = Inr a"
  shows "answer_get pass mem n out h r m = Some (Inr (a, m'))"
  by (simp add: answer_get_def assms(1)) (simp add: vres_def assms(2))

lemma answer_get_echo:
  assumes "pass RESERVE1 out 0 0 m = Some (Inr (vres SNMP_ERR_NOSUCHNAME i out' pe m'))"
    and "create_identical mem out' n 2 (of_nat i) m' = Inr (a, m'')"
  shows "answer_get pass mem n out h r m = Some (Inr (a, m''))"
  by (simp add: answer_get_def assms(1)) (simp add: vres_def error_answer_def snmp_errs assms(2))

text \<open>One pass over the bindings of a request that was accepted, and the parts before it.\<close>

definition agent_pass ::
  "nat \<Rightarrow> (int \<Rightarrow> locals) \<Rightarrow> u8 list \<Rightarrow> request \<Rightarrow> nat \<Rightarrow> int \<Rightarrow> int \<Rightarrow> u8 list \<Rightarrow> nat \<Rightarrow> nat \<Rightarrow> agent \<Rightarrow> (asn_error + vresult) option" where
  "agent_pass fuel junk mem q od ol = (\<lambda>action out index pend m.
     parse_var_op_list fuel mem (rq_pos q) (rq_len q) out od ol index pend (rq_type q) action (junk action) m)"

abbreviation response_start :: "u8 list \<Rightarrow> u32 \<Rightarrow> u8 list" where
  "response_start c rid \<equiv> auth_prefix c @ reserved GET_RSP_MSG @ pdu_fields rid 0 0"

lemma agent_parse_built:
  assumes rq: "parse_request mem n m = Inr (Some q, m2)"
    and c: "session_community m2 = c" "length c \<le> 80" and out: "length out = SNMP_MAX_LEN"
  shows "\<exists>o2. prefix (response_start c (rq_reqid q)) o2 \<and> length o2 = SNMP_MAX_LEN \<and>
    snmp_agent_parse fuel junk mem n out m =
      (if rq_type q = SET_REQ_MSG
       then answer_set (agent_pass fuel junk mem q (length (response_start c (rq_reqid q)))
              (int SNMP_MAX_LEN - int (length (response_start c (rq_reqid q))))) mem n o2 m2
       else answer_get (agent_pass fuel junk mem q (length (response_start c (rq_reqid q)))
              (int SNMP_MAX_LEN - int (length (response_start c (rq_reqid q))))) mem n o2
              (length (auth_prefix c)) (length (auth_prefix c @ reserved GET_RSP_MSG)) m2)"
proof -
  have k: "length c < 0x80" "9 + length c \<le> length out" "int (9 + length c) \<le> int SNMP_MAX_LEN"
    using c(2) out by (simp_all add: SNMP_MAX_LEN_def)
  obtain o1 where o1: "snmp_build_auth out 0 (int SNMP_MAX_LEN) c SNMP_VERSION_1 0 =
      Inr (o1, length (auth_prefix c), int SNMP_MAX_LEN - int (9 + length c))" "prefix (auth_prefix c) o1" "length o1 = SNMP_MAX_LEN"
    by (rule builtE [OF built_auth_start [OF k]]) (use out in auto)
  define l where "l = int SNMP_MAX_LEN - int (9 + length c) - 4 - int (length (pdu_fields (rq_reqid q) 0 0))"
  have l: "l = int SNMP_MAX_LEN - int (length (response_start c (rq_reqid q)))"
    by (simp add: l_def length_auth_prefix [OF k(1)])
  obtain o2 where o2: "start_response o1 (length (auth_prefix c)) (int SNMP_MAX_LEN - int (9 + length c)) (rq_reqid q) =
      Inr (o2, length (auth_prefix c @ reserved GET_RSP_MSG), length (response_start c (rq_reqid q)), l)"
    "prefix (response_start c (rq_reqid q)) o2" "length o2 = SNMP_MAX_LEN"
    using start_response_built [OF o1(2), of "int SNMP_MAX_LEN - int (9 + length c)" "rq_reqid q", folded l_def] o1(3) c(2)
    by (auto simp: length_auth_prefix [OF k(1)] SNMP_MAX_LEN_def)
  show ?thesis
    by (intro exI [of _ o2] conjI o2(2,3))
      (unfold snmp_agent_parse_def rq bindO_simps prod.case option.case c(1) o1(1) o2(1) sum.case Let_def l agent_pass_def, rule refl)
qed

section \<open>The answer that repeats the request\<close>

lemma overwrite_mid: "length new = length old \<Longrightarrow> overwrite (a @ old @ b) (length a) new = a @ new @ b"
  by (simp add: overwrite_def)

lemma put_int_mid:
  assumes "length (int_contents v) = length (int_contents v0)" "6 \<le> dl"
  shows "asn_build_int (a @ object_bytes INTEGER (int_contents v0) @ b) (length a) dl INTEGER v sizeof_long =
    Inr (a @ object_bytes INTEGER (int_contents v) @ b, length a + length (object_bytes INTEGER (int_contents v)),
      dl - int (length (object_bytes INTEGER (int_contents v))))"
proof -
  have l: "length (object_bytes INTEGER (int_contents v)) = length (object_bytes INTEGER (int_contents v0))"
    "length (object_bytes INTEGER (int_contents v)) \<le> 6"
    using assms(1) int_contents_len [of v] by (simp_all add: int_object_len)
  show ?thesis
    using asn_build_int_object [of "length a" INTEGER v "a @ object_bytes INTEGER (int_contents v0) @ b" dl] l assms(2)
    by (simp add: overwrite_mid sizeof_long_def)
qed

lemma store_community_closed:
  "(store_community c m)\<lparr>community := (community (store_community c m))[nat (community_len (store_community c m)) := 0]\<rparr> = store_community c m"
  by (simp add: store_community_def overwrite_def)

text \<open>The echo of a message: its type, error status and error index are overwritten in place.\<close>

lemma create_identical_wire:
  assumes "mt \<in> request_types" "int (length c) \<le> community_len m" "community_len m < 2 ^ 31"
    and "length (int_contents es) = length (int_contents es0)" "length (int_contents ei) = length (int_contents ei0)"
    and "length (pdu_message c mt rid es0 ei0 ops) \<le> SNMP_MAX_LEN"
  shows "create_identical (pdu_message c mt rid es0 ei0 ops @ rest) out (length (pdu_message c mt rid es0 ei0 ops)) es ei m =
    Inr (Some (pdu_message c GET_RSP_MSG rid es ei ops), store_community c m)"
proof -
  let ?I = "\<lambda>v. object_bytes INTEGER (int_contents v)" and ?O = "object_bytes SEQUENCE ops"
  let ?msg = "pdu_message c mt rid es0 ei0 ops"
  define X where "X = pdu_fields rid es0 ei0 @ ?O"
  define L where "L = length_bytes (int (length X))"
  define A where "A = SEQUENCE # length_bytes (int (length (version_object @ object_bytes STRING c @ object_bytes mt X))) @
    version_object @ object_bytes STRING c"
  define R where "R = drop (length ?msg) out"
  have msg: "?msg = A @ mt # L @ X" "?msg = message_bytes c (object_bytes mt X)"
    by (simp_all add: pdu_message_def message_bytes_def object_bytes_def A_def L_def X_def)
  have out0: "overwrite out 0 (take (length ?msg) (?msg @ rest)) = A @ mt # L @ ?I rid @ ?I es0 @ ?I ei0 @ ?O @ R"
    by (simp add: overwrite_def R_def) (simp add: msg(1) X_def pdu_fields_def)
  let ?out0 = "A @ mt # L @ ?I rid @ ?I es0 @ ?I ei0 @ ?O @ R"
  have n: "length ?msg \<le> 768" using assms(6) by (simp add: SNMP_MAX_LEN_def)
  have h: "holds ?out0 0 (message_bytes c (object_bytes mt X))"
    unfolding msg(2) [symmetric] msg(1) by (simp add: holds_def X_def pdu_fields_def)
  obtain pos where pos: "snmp_parse_auth ?out0 0 (int (length ?msg)) (community_len m) = Inr (SNMP_VERSION_1, c, pos, int (length (object_bytes mt X)))"
    "holds ?out0 pos (object_bytes mt X)" "pos + length (object_bytes mt X) = length (message_bytes c (object_bytes mt X))"
    by (rule parse_auth_message [OF h, of "int (length ?msg)" "community_len m"]) (use n assms(2,3) in \<open>auto simp: msg(2) [symmetric]\<close>)
  have posA: "pos = length A" using pos(3) unfolding msg(2) [symmetric] msg(1) by (simp add: object_bytes_def L_def)
  have "length (object_bytes mt X) \<le> 768" "length X \<le> 768"
    using n pos(3) object_length_ge(1) [of X mt] unfolding msg(2) [symmetric] by linarith+
  then have nX: "length X \<le> 0xFFFF" "int (length (object_bytes mt X)) < 2 ^ 31" by simp_all
  note hd = parse_header_object [OF pos(2) nX(1) order.refl nX(2) request_tag [OF assms(1)], folded L_def, unfolded posA]
  have nO: "length ?O \<le> 0xFFFF" using nX(1) by (simp add: X_def)
  note f = parse_fields [OF hd(2) [unfolded X_def] nO]
  define p1 where "p1 = length A + 1 + length L"
  define p2 where "p2 = p1 + length (?I rid)"
  define p3 where "p3 = p2 + length (?I es0)"
  define p4 where "p4 = p3 + length (?I ei0)"
  note f = f [folded p1_def, folded p2_def, folded p3_def, folded p4_def]
  have nm: "18 \<le> int (length ?msg)"
    using length_pdu_fields(1) [of rid es0 ei0] object_length_ge(1) [of ops SEQUENCE] object_length_ge(1) [of c STRING] by (simp add: msg(1) X_def A_def version_object_eq)
  have set_type: "?out0[length A := GET_RSP_MSG] = A @ GET_RSP_MSG # L @ ?I rid @ ?I es0 @ ?I ei0 @ ?O @ R" by simp
  have b1: "asn_build_int (A @ GET_RSP_MSG # L @ ?I rid @ ?I es0 @ ?I ei0 @ ?O @ R) p2 (int (length ?msg)) INTEGER es sizeof_long =
      Inr (A @ GET_RSP_MSG # L @ ?I rid @ ?I es @ ?I ei0 @ ?O @ R, p3, int (length ?msg) - int (length (?I es)))"
    using put_int_mid [OF assms(4), of "int (length ?msg)" "A @ GET_RSP_MSG # L @ ?I rid" "?I ei0 @ ?O @ R"] nm assms(4)
    by (simp add: p1_def p2_def p3_def int_object_len add.assoc)
  have b2: "asn_build_int (A @ GET_RSP_MSG # L @ ?I rid @ ?I es @ ?I ei0 @ ?O @ R) p3 (int (length ?msg) - int (length (?I es))) INTEGER ei sizeof_long =
      Inr (A @ GET_RSP_MSG # L @ ?I rid @ ?I es @ ?I ei @ ?O @ R, p4, int (length ?msg) - int (length (?I es)) - int (length (?I ei)))"
    using put_int_mid [OF assms(5), of "int (length ?msg) - int (length (?I es))" "A @ GET_RSP_MSG # L @ ?I rid @ ?I es" "?O @ R"]
      nm assms(4,5) int_contents_len(2) [of es]
    by (simp add: p1_def p2_def p3_def p4_def int_object_len add.assoc)
  define M where "M = A @ GET_RSP_MSG # L @ ?I rid @ ?I es @ ?I ei @ ?O"
  have lX: "length (pdu_fields rid es ei @ ?O) = length X"
    using assms(4,5) by (simp add: X_def pdu_fields_def int_object_len)
  have lM: "length M = length ?msg" using assms(4,5) by (simp add: msg(1) M_def X_def pdu_fields_def int_object_len)
  have M: "M = pdu_message c GET_RSP_MSG rid es ei ops"
  proof -
    have "object_bytes GET_RSP_MSG (pdu_fields rid es ei @ ?O) = GET_RSP_MSG # L @ pdu_fields rid es ei @ ?O"
      unfolding object_bytes_def [of GET_RSP_MSG] lX L_def ..
    moreover have "length (GET_RSP_MSG # L @ pdu_fields rid es ei @ ?O) = length (object_bytes mt X)"
      using lX by (simp add: object_bytes_def [of mt X] L_def)
    ultimately show ?thesis
      by (simp add: pdu_message_def message_bytes_def object_bytes_def [of SEQUENCE "version_object @ y" for y] M_def A_def pdu_fields_def)
  qed
  have res: "take (length ?msg) (A @ GET_RSP_MSG # L @ ?I rid @ ?I es @ ?I ei @ ?O @ R) = pdu_message c GET_RSP_MSG rid es ei ops"
  proof -
    have e: "A @ GET_RSP_MSG # L @ ?I rid @ ?I es @ ?I ei @ ?O @ R = M @ R" by (simp add: M_def)
    show ?thesis unfolding e lM [symmetric] M [symmetric] by simp
  qed
  show ?thesis
    unfolding create_identical_def out0 Let_def pos(1) or_quit_Inr prod.case posA hd(1) store_community_closed
    unfolding p1_def [symmetric] X_def f(1-3,5) or_quit_Inr prod.case set_type b1 b2 res
    by simp
qed

lemma short_int:
  assumes "v < 0x80"
  shows "length (int_contents v) = 1"
proof -
  have "uint v < 128" using assms by (simp add: word_less_def)
  moreover have "- (2 ^ 31) \<le> uint v" by (rule order_trans [of _ 0]) simp_all
  ultimately have "- (2 ^ 31) \<le> uint v" "uint v < 2 ^ 31" by simp_all
  then have "sint v = uint v" by (simp add: sint_uint signed_take_bit_int_eq_self)
  moreover have "- (2 ^ (8 * 1 - 1)) \<le> uint v" by (rule order_trans [of _ 0]) simp_all
  ultimately have "- (2 ^ (8 * 1 - 1)) \<le> sint v \<and> sint v < 2 ^ (8 * 1 - 1)" using \<open>uint v < 128\<close> by simp
  then show ?thesis using int_contents_minimal [of 1 v] int_contents_len(1) [of v] by fastforce
qed

lemma small_word: "k < 128 \<Longrightarrow> (of_nat k :: u32) < 0x80"
  by (simp add: word_less_nat_alt unsigned_of_nat take_bit_nat_def)

lemma ops_bytes_count: "6 * length binds \<le> length (ops_bytes binds)"
proof (induction binds)
  case (Cons b bs)
  obtain name ty c where b: "b = (name, ty, c)" by (cases b)
  have "4 \<le> length (var_op_contents name ty c)"
    using object_length_ge(1) [of "objid_contents name" OBJID] object_length_ge(1) [of c ty] by (simp add: var_op_contents_def)
  then show ?case using Cons length_var_op [of name ty c] by (simp add: b)
qed simp

section \<open>The pass that meets a missing variable\<close>

lemma parse_list_missing:
  assumes "mt \<noteq> SET_REQ_MSG" "lookups mt (map fst bs) l m = Some (rs, l2, m2)"
    and "getStatPtr auth_fail (agent_tree m2) (set_name (var_name l2) name) (length name) (mt \<noteq> GETNEXT_REQ_MSG) (view_of mt m2)
           (l_out l2) m2 = (None, nm, nl, o', m3)"
    and "\<forall>r \<in> set rs. good_result r" "\<forall>b \<in> set (bs @ [(name, ty, v)]). wire_binding b" "length bs < fuel"
    and "holds mem data (object_bytes SEQUENCE (ops_bytes (bs @ (name, ty, v) # others)))"
    and "length (ops_bytes (bs @ (name, ty, v) # others)) \<le> 0xFFFF" "prefix pre out"
    and "length pre + length (ops_bytes (encode_results rs)) + 6 \<le> length out"
    and "int (length (ops_bytes (encode_results rs))) + 6 \<le> out_length"
  shows "\<exists>out' . parse_var_op_list fuel mem data (int (length (object_bytes SEQUENCE (ops_bytes (bs @ (name, ty, v) # others))))) out (length pre)
        out_length index pend mt action l m = Some (Inr (vres SNMP_ERR_NOSUCHNAME (length bs + 1) out' pend m3))"
proof -
  let ?ops = "ops_bytes (bs @ (name, ty, v) # others)" and ?tail = "var_op_bytes name ty v @ ops_bytes others"
  let ?rops = "ops_bytes (encode_results rs)"
  have ops: "?ops = ops_bytes bs @ ?tail" by (simp add: ops_bytes_def)
  define d1 where "d1 = data + 1 + length (length_bytes (int (length ?ops)))"
  have l: "int (length (object_bytes SEQUENCE ?ops)) < 2 ^ 31" using object_length_ge(2) [of SEQUENCE ?ops] assms(8) by simp
  note hd = parse_header_object [OF assms(7,8) order.refl l seq_tag, folded d1_def]
  have h: "holds mem d1 (ops_bytes bs)" "holds mem (d1 + length (ops_bytes bs)) (var_op_bytes name ty v)"
    using hd(2) unfolding ops holds_append by simp_all
  obtain out1 where o1: "asn_build_sequence out (length pre) out_length SEQUENCE 0 =
      Inr (out1, length (pre @ reserved SEQUENCE), out_length - 4)" "prefix (pre @ reserved SEQUENCE) out1" "length out1 = length out"
    by (rule builtE [OF built_reserve [OF assms(9), of out_length SEQUENCE]]) (use assms(10,11) in auto)
  have wb: "\<forall>b \<in> set bs. wire_binding b" "wire_oid name" "ty AND ASN_EXTENSION_ID \<noteq> ASN_EXTENSION_ID"
    using assms(5) by (simp_all add: wire_binding_def)
  have len: "int (length ?ops) = int (length (ops_bytes bs) + length ?tail)" "length (ops_bytes bs) + length ?tail \<le> 0xFFFF"
    using assms(8) by (simp_all add: ops)
  have room: "length (pre @ reserved SEQUENCE) + length ?rops + 2 \<le> length out1" "int (length ?rops) + 2 \<le> out_length - 4"
    using assms(10,11) o1(3) by simp_all
  obtain out2 where o2: "\<And>k. var_op_loop (length bs + k) mt action mem (int d1) (int (length ?ops)) out1 (length (pre @ reserved SEQUENCE))
        (out_length - 4) 1 pend l m =
      var_op_loop k mt action mem (int (d1 + length (ops_bytes bs))) (int (length ?tail)) out2 (length ((pre @ reserved SEQUENCE) @ ?rops))
        (out_length - 4 - int (length ?rops)) (1 + length bs) pend l2 m2"
    using var_op_loop_found [OF assms(1,2) wb(1) assms(4) h(1) len(2) o1(2) room, of action 1 pend] unfolding len(1) by blast
  obtain k where k: "fuel = length bs + Suc k" using assms(6) less_iff_Suc_add by auto
  have tl: "\<not> int (length ?tail) \<le> 0" using length_var_op [of name ty v] by simp
  obtain vv where pv: "snmp_parse_var_op mem (int (d1 + length (ops_bytes bs))) (var_name l2 ! 1) (int SNMP_MAX_NAME_LEN) (int (length ?tail)) =
      Inr (name, ty, int (length v), vv, int (d1 + length (ops_bytes bs) + length (var_op_bytes name ty v)),
        int (length ?tail) - int (length (var_op_bytes name ty v)))"
    by (rule parse_var_op_wire [OF wb(2) h(2) wb(3), of "int (length ?tail)" "var_name l2 ! 1"])
      (use assms(8) length_var_op [of name ty v] in \<open>auto simp: ops\<close>)
  have "\<exists>e. var_op_loop (Suc k) mt action mem (int (d1 + length (ops_bytes bs))) (int (length ?tail)) out2 (length ((pre @ reserved SEQUENCE) @ ?rops))
        (out_length - 4 - int (length ?rops)) (1 + length bs) pend l2 m2 = Some (Inr (False, e, vres SNMP_ERR_NOSUCHNAME (1 + length bs) out2 pend m3))"
    using tl assms(1) by (subst var_op_loop.simps) (simp only: if_False nat.case pv sum.case prod.case assms(3) Let_def, simp)
  then show ?thesis
    unfolding parse_var_op_list_def hd(1) sum.case prod.case o1(1) k o2
    by (auto simp: finish_list_def)
qed

section \<open>A request\<close>

definition example_locals :: locals where
  "example_locals = \<lparr>var_name = replicate 32 0, l_out = \<lparr>o_type = 0, o_acl = 0, o_write = None, o_noSuchObject = False\<rparr>\<rparr>"

definition example_auth :: "bool \<times> agent" where
  "example_auth = community_auth (store_community (cstr ''public'') (example_agent\<lparr>community_len := 80\<rparr>))"

lemma example_auth_ok: "fst example_auth" by code_simp

lemma example_lookups:
  "map_option fst (lookups GET_REQ_MSG [[1, 3, 6, 1, 2, 1, 1, 7, 0]] example_locals (count_request GET_REQ_MSG (snd example_auth))) =
    Some [([1, 3, 6, 1, 2, 1, 1, 7, 0], INTEGER, [79, 0, 0, 0])]"
  by code_simp

lemma example_missing:
  "fst (getStatPtr auth_fail (agent_tree (count_request GET_REQ_MSG (snd example_auth))) (set_name (var_name example_locals) [1, 3, 6, 1, 2, 1, 1, 9, 0]) 9
     True (view_of GET_REQ_MSG (count_request GET_REQ_MSG (snd example_auth))) (l_out example_locals) (count_request GET_REQ_MSG (snd example_auth))) = None"
  by code_simp

text \<open>A request for \<open>sysServices\<close>, and one for a name that does not exist.\<close>

definition example_get :: "(oid \<times> u8 \<times> u8 list) list" where
  "example_get = [([1, 3, 6, 1, 2, 1, 1, 7, 0], ASN_NULL, [])]"

definition example_absent :: "(oid \<times> u8 \<times> u8 list) list" where
  "example_absent = [([1, 3, 6, 1, 2, 1, 1, 9, 0], ASN_NULL, [])]"

definition example_results :: "(oid \<times> u8 \<times> u8 list) list" where
  "example_results = [([1, 3, 6, 1, 2, 1, 1, 7, 0], INTEGER, [79, 0, 0, 0])]"

lemma example_lengths:
  "length (request_bytes (cstr ''public'') GET_REQ_MSG 1 example_get) = 40"
  "length (request_bytes (cstr ''public'') GET_REQ_MSG 1 example_absent) = 40"
  "length (ops_bytes (encode_results example_results)) = 15" "length (cstr ''public'') = 6"
  by code_simp+

lemma example_bindings:
  "\<forall>b \<in> set example_get. wire_binding b" "\<forall>b \<in> set example_absent. wire_binding b"
  by (simp_all add: example_get_def example_absent_def wire_binding_def wire_oid_def SNMP_MAX_NAME_LEN_def asn_types asn_consts)

lemma example_good: "\<forall>r \<in> set example_results. good_result r"
  unfolding example_results_def by code_simp

lemma get_exact: "(GET_REQ_MSG \<noteq> GETNEXT_REQ_MSG) = True"
  by (simp add: msg_consts)

lemma example_len: "length ([1, 3, 6, 1, 2, 1, 1, 9, 0] :: oid) = 9"
  by simp

section \<open>Claims\<close>

text \<open>C22: A GET or GETNEXT request whose variables all exist is answered with exactly their names,
  types and values, in the order of the request, under the request's id and community and with error
  status 0, in one well-formed message, from the bytes that came in to the bytes that go out.\<close>

theorem get_response:
  assumes "mt \<in> {GET_REQ_MSG, GETNEXT_REQ_MSG}" "length c \<le> 80" "\<forall>b \<in> set binds. wire_binding b"
    and "community_auth (store_community c (m\<lparr>community_len := 80\<rparr>)) = (True, m1)"
    and "lookups mt (map fst binds) (junk RESERVE1) (count_request mt m1) = Some (rs, l2, m2)" "rs \<noteq> []"
    and "\<forall>r \<in> set rs. good_result r" "length (request_bytes c mt rid binds) \<le> SNMP_MAX_LEN"
    and "length (ops_bytes (encode_results rs)) + length c + 37 \<le> SNMP_MAX_LEN" "length out = SNMP_MAX_LEN" "length binds \<le> fuel"
  shows "snmp_agent_parse fuel junk (request_bytes c mt rid binds @ rest) (length (request_bytes c mt rid binds)) out m =
    Some (Inr (Some (response_bytes c rid rs), m2))"
proof -
  let ?msg = "request_bytes c mt rid binds" and ?O = "object_bytes SEQUENCE (ops_bytes (encode_results rs))"
  let ?B = "object_bytes SEQUENCE (ops_bytes binds)" and ?pre = "response_start c rid"
  have mt: "mt \<in> request_types" "mt \<noteq> SET_REQ_MSG" using assms(1) by (auto simp: request_types_def msg_consts)
  obtain p where q: "parse_request (?msg @ rest) (length ?msg) m =
      Inr (Some \<lparr>rq_type = mt, rq_reqid = rid, rq_pos = p, rq_len = int (length ?B)\<rparr>, count_request mt m1)"
    "holds (?msg @ rest) p ?B"
    using parse_request_wire [OF mt(1) assms(2) assms(8) [unfolded request_bytes_def] assms(4)] unfolding request_bytes_def by blast
  have c: "session_community (count_request mt m1) = c" using auth_community assms(4) by (simp add: store_community_def)
  obtain o2 where o2: "prefix ?pre o2" "length o2 = SNMP_MAX_LEN"
    and go: "snmp_agent_parse fuel junk (?msg @ rest) (length ?msg) out m =
        answer_get (agent_pass fuel junk (?msg @ rest) \<lparr>rq_type = mt, rq_reqid = rid, rq_pos = p, rq_len = int (length ?B)\<rparr>
            (length ?pre) (int SNMP_MAX_LEN - int (length ?pre))) (?msg @ rest) (length ?msg) o2
          (length (auth_prefix c)) (length (auth_prefix c @ reserved GET_RSP_MSG)) (count_request mt m1)"
    using agent_parse_built [OF q(1) c assms(2,10), of fuel junk]
    unfolding request.simps if_not_P [OF mt(2)] by blast
  have pre: "length ?pre \<le> 31 + length c" using length_pdu_fields(2) [of rid 0 0] assms(2) by (simp add: length_auth_prefix)
  have small: "length (ops_bytes binds) \<le> 0xFFFF"
    using assms(8) request_bytes_length [of binds c mt rid] by (simp add: SNMP_MAX_LEN_def)
  have room: "length ?pre + length (ops_bytes (encode_results rs)) + 6 \<le> length o2"
    "int (length (ops_bytes (encode_results rs))) + 6 \<le> int SNMP_MAX_LEN - int (length ?pre)"
    using pre o2(2) assms(9) by linarith+
  obtain out' where p: "parse_var_op_list fuel (?msg @ rest) p (int (length ?B)) o2 (length ?pre)
        (int SNMP_MAX_LEN - int (length ?pre)) 0 0 mt RESERVE1 (junk RESERVE1) (count_request mt m1) =
      Some (Inr (vres SNMP_ERR_NOERROR 0 out' (length (?pre @ ?O)) m2))" "prefix (?pre @ ?O) out'"
    using parse_list_get [OF mt(2) assms(5,11,6,3,7) q(2) small o2(1) room, of 0 0 RESERVE1] by blast
  have pf: "prefix (auth_prefix c @ reserved GET_RSP_MSG @ (pdu_fields rid 0 0 @ ?O)) out'" using p(2) by simp
  have "finish_response out' (length (auth_prefix c)) (length (auth_prefix c @ reserved GET_RSP_MSG)) (length (?pre @ ?O)) (session_community m2) =
      Inr (Some (response_bytes c rid rs))"
    using finish_response_built [OF assms(2) pf] c lookups_community [OF assms(5)]
    by (simp add: response_bytes_def pdu_message_def object_bytes_def)
  note a = answer_get_built [OF _ this]
  show ?thesis
    unfolding go by (rule a) (unfold agent_pass_def request.simps, rule p(1))
qed


theorem get_response_witness:
  "map_option (map_sum id fst) (snmp_agent_parse 1 (\<lambda>_. example_locals) (request_bytes (cstr ''public'') GET_REQ_MSG 1 example_get @ [])
      (length (request_bytes (cstr ''public'') GET_REQ_MSG 1 example_get)) (replicate SNMP_MAX_LEN 0) example_agent) =
    Some (Inr (Some (response_bytes (cstr ''public'') 1 example_results)))"
proof -
  obtain m1 where m1: "community_auth (store_community (cstr ''public'') (example_agent\<lparr>community_len := 80\<rparr>)) = (True, m1)"
    "snd example_auth = m1"
    using example_auth_ok unfolding example_auth_def by (metis (full_types) prod.collapse)
  obtain l2 m2 where l: "lookups GET_REQ_MSG (map fst example_get) example_locals (count_request GET_REQ_MSG m1) = Some (example_results, l2, m2)"
    using example_lookups unfolding m1(2) example_get_def example_results_def by auto
  have sizes: "length (cstr ''public'') \<le> 80" "example_results \<noteq> []" "length (request_bytes (cstr ''public'') GET_REQ_MSG 1 example_get) \<le> SNMP_MAX_LEN"
    "length (ops_bytes (encode_results example_results)) + length (cstr ''public'') + 37 \<le> SNMP_MAX_LEN" "length example_get \<le> 1"
    by (simp_all only: example_lengths SNMP_MAX_LEN_def) (simp_all add: example_results_def example_get_def)
  have "snmp_agent_parse 1 (\<lambda>_. example_locals) (request_bytes (cstr ''public'') GET_REQ_MSG 1 example_get @ [])
      (length (request_bytes (cstr ''public'') GET_REQ_MSG 1 example_get)) (replicate SNMP_MAX_LEN 0) example_agent =
    Some (Inr (Some (response_bytes (cstr ''public'') 1 example_results), m2))"
    by (rule get_response [OF _ sizes(1) example_bindings(1) m1(1) l sizes(2) example_good sizes(3,4) _ sizes(5)]) simp_all
  then show ?thesis by simp
qed

text \<open>C23: When a requested variable does not exist, or GETNEXT reaches the end of the MIB, the agent
  answers with the request itself, in which only the type, the error status \<open>noSuchName\<close> and the
  index of that variable are new: no value is returned, also not those found before it.\<close>

theorem get_missing:
  assumes "mt \<in> {GET_REQ_MSG, GETNEXT_REQ_MSG}" "length c \<le> 80" "\<forall>b \<in> set (bs @ [(name, ty, v)]). wire_binding b"
    and "community_auth (store_community c (m\<lparr>community_len := 80\<rparr>)) = (True, m1)"
    and "lookups mt (map fst bs) (junk RESERVE1) (count_request mt m1) = Some (rs, l2, m2)"
    and "getStatPtr auth_fail (agent_tree m2) (set_name (var_name l2) name) (length name) (mt \<noteq> GETNEXT_REQ_MSG) (view_of mt m2)
           (l_out l2) m2 = (None, nm, nl, o', m3)"
    and "\<forall>r \<in> set rs. good_result r" "length (request_bytes c mt rid (bs @ (name, ty, v) # others)) \<le> SNMP_MAX_LEN"
    and "length (ops_bytes (encode_results rs)) + length c + 37 \<le> SNMP_MAX_LEN" "length out = SNMP_MAX_LEN" "length bs < fuel"
  shows "snmp_agent_parse fuel junk (request_bytes c mt rid (bs @ (name, ty, v) # others) @ rest)
      (length (request_bytes c mt rid (bs @ (name, ty, v) # others))) out m =
    Some (Inr (Some (pdu_message c GET_RSP_MSG rid 2 (of_nat (length bs + 1)) (ops_bytes (bs @ (name, ty, v) # others))), store_community c m3))"
proof -
  let ?binds = "bs @ (name, ty, v) # others" and ?O = "ops_bytes (encode_results rs)" and ?pre = "response_start c rid"
  let ?msg = "request_bytes c mt rid ?binds" and ?B = "object_bytes SEQUENCE (ops_bytes ?binds)"
  have mt: "mt \<in> request_types" "mt \<noteq> SET_REQ_MSG" using assms(1) by (auto simp: request_types_def msg_consts)
  obtain p where q: "parse_request (?msg @ rest) (length ?msg) m =
      Inr (Some \<lparr>rq_type = mt, rq_reqid = rid, rq_pos = p, rq_len = int (length ?B)\<rparr>, count_request mt m1)"
    "holds (?msg @ rest) p ?B"
    using parse_request_wire [OF mt(1) assms(2) assms(8) [unfolded request_bytes_def] assms(4)] unfolding request_bytes_def by blast
  have c: "session_community (count_request mt m1) = c" using auth_community assms(4) by (simp add: store_community_def)
  obtain o2 where o2: "prefix ?pre o2" "length o2 = SNMP_MAX_LEN"
    and go: "snmp_agent_parse fuel junk (?msg @ rest) (length ?msg) out m =
        answer_get (agent_pass fuel junk (?msg @ rest) \<lparr>rq_type = mt, rq_reqid = rid, rq_pos = p, rq_len = int (length ?B)\<rparr>
            (length ?pre) (int SNMP_MAX_LEN - int (length ?pre))) (?msg @ rest) (length ?msg) o2
          (length (auth_prefix c)) (length (auth_prefix c @ reserved GET_RSP_MSG)) (count_request mt m1)"
    using agent_parse_built [OF q(1) c assms(2,10), of fuel junk]
    unfolding request.simps if_not_P [OF mt(2)] by blast
  have pre: "length ?pre \<le> 31 + length c" using length_pdu_fields(2) [of rid 0 0] assms(2) by (simp add: length_auth_prefix)
  have n: "length (ops_bytes ?binds) \<le> 759" "6 * length ?binds \<le> 759"
    using assms(8) request_bytes_length [of ?binds c mt rid] ops_bytes_count [of ?binds] by (simp_all add: SNMP_MAX_LEN_def)
  have room: "length ?pre + length ?O + 6 \<le> length o2" "int (length ?O) + 6 \<le> int SNMP_MAX_LEN - int (length ?pre)"
    using pre o2(2) assms(9) by linarith+
  have n': "length (ops_bytes ?binds) \<le> 0xFFFF" using n(1) by simp
  obtain out' where p: "parse_var_op_list fuel (?msg @ rest) p (int (length ?B)) o2 (length ?pre)
        (int SNMP_MAX_LEN - int (length ?pre)) 0 0 mt RESERVE1 (junk RESERVE1) (count_request mt m1) =
      Some (Inr (vres SNMP_ERR_NOSUCHNAME (length bs + 1) out' 0 m3))"
    using parse_list_missing [OF mt(2) assms(5,6,7) assms(3,11) q(2) n' o2(1) room, of 0 0 RESERVE1] by blast
  have "settings m3 = settings (count_request mt m1)"
    using search_settings [OF assms(6)] lookups_settings [OF assms(5)] by simp
  then have cl: "int (length c) \<le> community_len m3" "community_len m3 < 2 ^ 31"
    using settingsD(5) [of m3 "count_request mt m1"] auth_community_len assms(2,4) by (simp_all add: store_community_def)
  have "length bs + 1 < 128" using n(2) by simp
  then have "(of_nat (length bs + 1) :: u32) < 0x80" by (rule small_word)
  then have "create_identical (?msg @ rest) out' (length ?msg) 2 (of_nat (length bs + 1)) m3 =
      Inr (Some (pdu_message c GET_RSP_MSG rid 2 (of_nat (length bs + 1)) (ops_bytes ?binds)), store_community c m3)"
    unfolding request_bytes_def
    by (intro create_identical_wire mt cl) (use assms(8) in \<open>simp_all add: short_int request_bytes_def\<close>)
  note a = answer_get_echo [OF _ this]
  show ?thesis unfolding go by (rule a) (unfold agent_pass_def request.simps, rule p(1))
qed

theorem get_missing_witness:
  "map_option (map_sum id fst) (snmp_agent_parse 1 (\<lambda>_. example_locals) (request_bytes (cstr ''public'') GET_REQ_MSG 1 example_absent @ [])
      (length (request_bytes (cstr ''public'') GET_REQ_MSG 1 example_absent)) (replicate SNMP_MAX_LEN 0) example_agent) =
    Some (Inr (Some (pdu_message (cstr ''public'') GET_RSP_MSG 1 2 1 (ops_bytes example_absent))))"
proof -
  obtain m1 where m1: "community_auth (store_community (cstr ''public'') (example_agent\<lparr>community_len := 80\<rparr>)) = (True, m1)"
    "snd example_auth = m1"
    using example_auth_ok unfolding example_auth_def by (metis (full_types) prod.collapse)
  let ?G = "getStatPtr auth_fail (agent_tree (count_request GET_REQ_MSG m1)) (set_name (var_name example_locals) [1, 3, 6, 1, 2, 1, 1, 9, 0])
      (length ([1, 3, 6, 1, 2, 1, 1, 9, 0] :: oid)) (GET_REQ_MSG \<noteq> GETNEXT_REQ_MSG) (view_of GET_REQ_MSG (count_request GET_REQ_MSG m1))
      (l_out example_locals) (count_request GET_REQ_MSG m1)"
  have "fst ?G = None" using example_missing unfolding m1(2) get_exact example_len .
  then obtain nm nl o' m3 where g: "?G = (None, nm, nl, o', m3)" by (metis prod.collapse)
  have e: "example_absent = [] @ ([1, 3, 6, 1, 2, 1, 1, 9, 0], ASN_NULL, []) # []" by (simp add: example_absent_def)
  have "snmp_agent_parse 1 (\<lambda>_. example_locals) (request_bytes (cstr ''public'') GET_REQ_MSG 1 example_absent @ [])
      (length (request_bytes (cstr ''public'') GET_REQ_MSG 1 example_absent)) (replicate SNMP_MAX_LEN 0) example_agent =
    Some (Inr (Some (pdu_message (cstr ''public'') GET_RSP_MSG 1 2 (of_nat (length ([] :: (oid \<times> u8 \<times> u8 list) list) + 1)) (ops_bytes example_absent)),
      store_community (cstr ''public'') m3))"
    unfolding e by (rule get_missing [OF _ _ _ m1(1) _ g, where rs = "[]"])
      (use example_bindings(2) example_lengths(2,4) in \<open>simp_all add: example_absent_def SNMP_MAX_LEN_def encode_results_def\<close>)
  then show ?thesis by simp
qed

end
