(* ===== verification/Snmp_Trap_Props.thy ===== *)
theory Snmp_Trap_Props
  imports Snmp_Trap Snmp_Codec
begin

text \<open>
  What a trap looks like on the wire, that \<open>SendTrap\<close> always returns, and what happens to the PDUs.
\<close>

section \<open>The message\<close>

definition enterprise_object :: "u8 list" where
  "enterprise_object = object_bytes OBJID (objid_contents SnmpVersionID)"

definition trap_fields :: "snmp_pdu \<Rightarrow> u8 list" where
  "trap_fields pdu = enterprise_object @ object_bytes IPADDRESS (long_bytes (agent_addr pdu)) @
     object_bytes INTEGER (int_contents (generic_trap pdu)) @ object_bytes INTEGER (int_contents (specific_trap pdu)) @
     object_bytes TIMETICKS (int_contents (time_stamp pdu))"

definition trap_list :: "u8 list \<Rightarrow> u8 list" where
  "trap_list d = object_bytes SEQUENCE (var_op_bytes SnmpVersionID STRING d)"

definition trap_message :: "u8 list \<Rightarrow> snmp_pdu \<Rightarrow> u8 list \<Rightarrow> u8 list" where
  "trap_message c pdu d = message_bytes c (object_bytes TRP_REQ_MSG (trap_fields pdu @ trap_list d))"

lemma enterprise_contents: "objid_contents SnmpVersionID = [43, 6, 1, 4, 1, 11, 2, 3, 9, 1]"
  unfolding objid_contents_def by code_simp

lemma enterprise_small [simp]: "small_oid SnmpVersionID"
  by (simp add: small_oid_def enterprise_contents MAX_OID_LEN_def) (simp add: SnmpVersionID_def)

lemma enterprise_object_eq: "enterprise_object = [0x06, 0x0A, 43, 6, 1, 4, 1, 11, 2, 3, 9, 1]"
  by (simp add: enterprise_object_def enterprise_contents object_bytes_def length_bytes_def asn_types)

lemma trap_lengths:
  assumes "length d \<le> 60"
  shows "length (trap_fields pdu) \<le> 36" "length (var_op_bytes SnmpVersionID STRING d) = 16 + length d"
    "length (trap_list d) = 18 + length d" "length (var_op_contents SnmpVersionID STRING d) = 14 + length d"
proof -
  have i: "length (object_bytes ty (int_contents v)) \<le> 6" for ty v
    using int_contents_len [of v] by (simp add: int_object_len)
  have "length (object_bytes IPADDRESS (long_bytes (agent_addr pdu))) = 6" by (simp add: short_object)
  then show "length (trap_fields pdu) \<le> 36"
    using i [of INTEGER "generic_trap pdu"] i [of INTEGER "specific_trap pdu"] i [of TIMETICKS "time_stamp pdu"]
    by (simp add: trap_fields_def enterprise_object_eq)
  show c: "length (var_op_contents SnmpVersionID STRING d) = 14 + length d"
    using assms by (simp add: var_op_contents_def enterprise_object_def [symmetric] enterprise_object_eq short_object)
  then show o: "length (var_op_bytes SnmpVersionID STRING d) = 16 + length d"
    using assms by (simp add: var_op_bytes_def short_object)
  then show "length (trap_list d) = 18 + length d" using assms by (simp add: trap_list_def short_object)
qed

lemma build_fields:
  assumes "command pdu = TRP_REQ_MSG" "36 \<le> length mem" "length (trap_fields pdu) \<le> 36"
  obtains r where "build_trap_fields pdu mem (int SNMP_MAX_TRAP_LEN) = Some r"
    "built r (trap_fields pdu) (length mem) (256 - int (length (trap_fields pdu)))"
proof -
  let ?E = enterprise_object and ?A = "object_bytes IPADDRESS (long_bytes (agent_addr pdu))"
  let ?G = "object_bytes INTEGER (int_contents (generic_trap pdu))"
  let ?S = "object_bytes INTEGER (int_contents (specific_trap pdu))"
  let ?T = "object_bytes TIMETICKS (int_contents (time_stamp pdu))"
  have tf: "length ?E + length ?A + length ?G + length ?S + length ?T \<le> 36" using assms(3) by (simp add: trap_fields_def)
  obtain r1 where r1: "asn_build_objid mem (length ([] :: u8 list)) 256 OBJID SnmpVersionID = Some r1"
    "built r1 ([] @ ?E) (length mem) (256 - int (length ?E))"
    by (rule built_objid [of "[]" mem OBJID SnmpVersionID 256])
      (use assms(2) tf in \<open>auto simp: enterprise_object_def [symmetric]\<close>)
  obtain m1 where m1: "r1 = Inr (m1, length ?E, 256 - int (length ?E))" "prefix ?E m1" "length m1 = length mem"
    using r1(2) by (auto elim: builtE)
  obtain m2 where m2: "asn_build_string m1 (length ?E) (256 - int (length ?E)) IPADDRESS (long_bytes (agent_addr pdu)) =
      Inr (m2, length (?E @ ?A), 256 - int (length ?E) - int (length ?A))" "prefix (?E @ ?A) m2" "length m2 = length mem"
    using builtE [OF built_string [OF m1(2)], of IPADDRESS "long_bytes (agent_addr pdu)" "256 - int (length ?E)"] tf assms(2) m1(3) by auto
  obtain m3 where m3: "asn_build_int m2 (length (?E @ ?A)) (256 - int (length ?E) - int (length ?A)) INTEGER (generic_trap pdu) sizeof_long =
      Inr (m3, length ((?E @ ?A) @ ?G), 256 - int (length ?E) - int (length ?A) - int (length ?G))"
    "prefix ((?E @ ?A) @ ?G) m3" "length m3 = length mem"
    using builtE [OF built_int [OF m2(2)], of INTEGER "generic_trap pdu" "256 - int (length ?E) - int (length ?A)"] tf assms(2) m2(3) by auto
  obtain m4 where m4: "asn_build_int m3 (length ((?E @ ?A) @ ?G)) (256 - int (length ?E) - int (length ?A) - int (length ?G))
        INTEGER (specific_trap pdu) sizeof_long =
      Inr (m4, length (((?E @ ?A) @ ?G) @ ?S), 256 - int (length ?E) - int (length ?A) - int (length ?G) - int (length ?S))"
    "prefix (((?E @ ?A) @ ?G) @ ?S) m4" "length m4 = length mem"
    using builtE [OF built_int [OF m3(2)], of INTEGER "specific_trap pdu" "256 - int (length ?E) - int (length ?A) - int (length ?G)"] tf assms(2) m3(3) by auto
  have "built (asn_build_int m4 (length (((?E @ ?A) @ ?G) @ ?S)) (256 - int (length ?E) - int (length ?A) - int (length ?G) - int (length ?S))
        TIMETICKS (time_stamp pdu) sizeof_long) (trap_fields pdu) (length mem) (256 - int (length (trap_fields pdu)))"
    using built_int [OF m4(2), of TIMETICKS "time_stamp pdu" "256 - int (length ?E) - int (length ?A) - int (length ?G) - int (length ?S)"] tf assms(2) m4(3) by (simp add: trap_fields_def algebra_simps)
  moreover have "build_trap_fields pdu mem (int SNMP_MAX_TRAP_LEN) = Some (asn_build_int m4 (length (((?E @ ?A) @ ?G) @ ?S))
      (256 - int (length ?E) - int (length ?A) - int (length ?G) - int (length ?S)) TIMETICKS (time_stamp pdu) sizeof_long)"
    using r1(1) m1(1) m2(1) m3(1) m4(1) assms(1) by (simp add: build_trap_fields_def SNMP_MAX_TRAP_LEN_def)
  ultimately show ?thesis by (intro that) simp_all
qed

lemma wr_prefix:
  assumes "prefix pre mem" "length pre + length bs \<le> length mem"
  obtains mem' where "wr mem (length pre) bs = Inr mem'" "prefix (pre @ bs) mem'" "length mem' = length mem"
  using that [of "overwrite mem (length pre) bs"] assms prefix_overwrite [of pre mem bs] by (simp add: wr_fits)

lemma built_header:
  assumes "length (length_bytes (int n)) + 1 \<le> length mem" "length (length_bytes (int n)) + 1 \<le> N"
  obtains mem' where "asn_build_header mem 0 (int N) ty (int n) =
      Inr (mem', length (ty # length_bytes (int n)), int N - int (length (ty # length_bytes (int n))))"
    "prefix (ty # length_bytes (int n)) mem'" "length mem' = length mem"
proof (rule that)
  show "asn_build_header mem 0 (int N) ty (int n) = Inr (overwrite mem 0 (ty # length_bytes (int n)),
      length (ty # length_bytes (int n)), int N - int (length (ty # length_bytes (int n))))"
    using build_header_fits [of 0 "int n" mem "int N" ty] assms by simp
  show "prefix (ty # length_bytes (int n)) (overwrite mem 0 (ty # length_bytes (int n)))"
    using prefix_overwrite [of "[]" mem "ty # length_bytes (int n)"] assms by simp
qed (use assms in simp)

text \<open>An object around bytes that lie in another buffer.\<close>

lemma copy_object:
  assumes "prefix bs src" "length (object_bytes ty bs) \<le> length mem" "length (object_bytes ty bs) \<le> N" "length bs = n"
  obtains mem1 mem2 c where "asn_build_header mem 0 (int N) ty (int n) = Inr (mem1, c, int N - int c)"
    "wr mem1 c (take n src) = Inr mem2" "prefix (object_bytes ty bs) mem2" "length mem2 = length mem"
    "n + c = length (object_bytes ty bs)"
proof -
  let ?h = "ty # length_bytes (int n)"
  have o: "object_bytes ty bs = ?h @ bs" using assms(4) by (simp add: object_bytes_def)
  have t: "take n src = bs" using assms(1,4) by (auto simp: prefix_def)
  obtain mem1 where m1: "asn_build_header mem 0 (int N) ty (int n) = Inr (mem1, length ?h, int N - int (length ?h))"
    "prefix ?h mem1" "length mem1 = length mem"
    by (rule built_header [of n mem N ty]) (use assms o in auto)
  obtain mem2 where "wr mem1 (length ?h) bs = Inr mem2" "prefix (?h @ bs) mem2" "length mem2 = length mem1"
    by (rule wr_prefix [OF m1(2), of bs]) (use assms o m1(3) in auto)
  with m1 t o assms(4) show ?thesis by (intro that [where ?mem1.0 = mem1 and ?mem2.0 = mem2 and c = "length ?h"]) auto
qed

lemma snmp_build_trap_bytes:
  assumes "command pdu = TRP_REQ_MSG" "variables pdu = [(SnmpVersionID, STRING, d)]" "length d \<le> 60" "length c \<le> 80"
    and "length packet0 = 256" "length buf0 = 256"
  shows "snmp_build_trap c pdu packet0 buf0 (int SNMP_MAX_TRAP_LEN) = Some (Inr (trap_message c pdu d))"
proof -
  let ?op = "var_op_bytes SnmpVersionID STRING d" and ?F = "trap_fields pdu"
  note len = trap_lengths(1) [OF assms(3), of pdu] trap_lengths(2-4) [OF assms(3)]
  have c: "val_contents STRING d = d" "val_ok STRING d"
    by (simp_all add: val_contents_def val_ok_def val_types asn_types msg_consts)
  obtain r1 where r1: "snmp_build_var_op packet0 (length ([] :: u8 list)) SnmpVersionID STRING d 256 = Some r1"
    "built r1 ([] @ var_op_bytes SnmpVersionID STRING (val_contents STRING d)) (length packet0)
      (256 - int (length (var_op_bytes SnmpVersionID STRING (val_contents STRING d))))"
    by (rule built_var_op [of "[]" packet0 SnmpVersionID STRING d 256]) (use assms len c in auto)
  obtain packet1 where p1: "r1 = Inr (packet1, length ?op, 256 - int (length ?op))" "prefix ?op packet1" "length packet1 = 256"
    using r1(2) c assms(5) by (auto elim: builtE)
  have v: "build_trap_vars packet0 0 (variables pdu) 256 = Some (Inr (packet1, length ?op))"
    using r1(1) p1(1) assms(2) by simp
  obtain buf1 buf2 c1 where b2: "asn_build_header buf0 0 (int 256) SEQUENCE (int (length ?op)) = Inr (buf1, c1, int 256 - int c1)"
    "wr buf1 c1 (take (length ?op) packet1) = Inr buf2" "prefix (trap_list d) buf2" "length buf2 = 256"
    "length ?op + c1 = length (trap_list d)"
    by (rule copy_object [OF p1(2), of SEQUENCE buf0 256 "length ?op"]) (use assms len in \<open>auto simp: trap_list_def\<close>)
  obtain r2 where r2: "build_trap_fields pdu packet1 (int SNMP_MAX_TRAP_LEN) = Some r2"
    "built r2 ?F (length packet1) (256 - int (length ?F))"
    by (rule build_fields [OF assms(1), of packet1]) (use p1 len in auto)
  obtain packet2 where p2: "r2 = Inr (packet2, length ?F, 256 - int (length ?F))" "prefix ?F packet2" "length packet2 = 256"
    using r2(2) p1(3) by (auto elim: builtE)
  have tl: "take (length ?op + c1) buf2 = trap_list d" using b2(3,5) by (auto simp: prefix_def)
  obtain packet3 where p3: "wr packet2 (length ?F) (trap_list d) = Inr packet3" "prefix (?F @ trap_list d) packet3" "length packet3 = 256"
    by (rule wr_prefix [OF p2(2), of "trap_list d"]) (use p2(3) len assms(3) in auto)
  let ?B = "?F @ trap_list d" let ?P = "object_bytes TRP_REQ_MSG ?B"
  have lB: "length ?B \<le> 114" using len assms(3) by simp
  have lP: "length ?P = 2 + length ?B" using lB by (simp only: short_object) (simp add: short_object)
  obtain buf3 buf4 c3 where b4: "asn_build_header buf2 0 (int 256) TRP_REQ_MSG (int (length ?B)) = Inr (buf3, c3, int 256 - int c3)"
    "wr buf3 c3 (take (length ?B) packet3) = Inr buf4" "prefix ?P buf4" "length buf4 = 256" "length ?B + c3 = length ?P"
    by (rule copy_object [OF p3(2), of TRP_REQ_MSG buf2 256 "length ?B"]) (use b2(4) lP lB in auto)
  define a where "a = take (9 + length c) packet3"
  define body where "body = take (length ?P) (drop (9 + length c) packet3)"
  have ab: "prefix (a @ body) packet3" "length a = 9 + length c" "length body = length ?P" "body \<noteq> []"
    using p3(3) lP lB assms(4) unfolding a_def body_def
    by (auto simp: take_is_prefix simp flip: take_add)
  have "length c < 0x80" using assms(4) by simp
  from built_auth [OF this ab(1,2,4), of 256]
  obtain packet4 where p4: "snmp_build_auth packet3 0 256 c SNMP_VERSION_1 (int (length ?P)) =
      Inr (packet4, length (message_bytes c body), 256 - int (9 + length c))"
    "prefix (message_bytes c body) packet4" "length packet4 = 256"
    using ab p3(3) lP lB assms(4) by (auto elim: builtE)
  define h where "h = SEQUENCE # length_bytes (int (8 - 3 + length c + length ?P)) @ version_object @ object_bytes STRING c"
  have mb: "message_bytes c x = h @ x" if "length x = length ?P" for x
    using that assms(4) by (simp add: message_bytes_def object_bytes_def h_def short_object add.commute add.left_commute length_bytes_def)
  have lh: "length h \<le> 89"
    using assms(4) length_bytes_ge(2) [of "int (8 - 3 + length c + length ?P)"] by (simp add: h_def short_object)
  obtain packet5 where p5: "wr packet4 (length h) ?P = Inr packet5" "prefix (h @ ?P) packet5" "length packet5 = length packet4"
    by (rule wr_prefix [of h packet4 ?P]) (use p4 mb [OF ab(3)] lh lP lB in \<open>auto dest: append_prefixD\<close>)
  have M: "int SNMP_MAX_TRAP_LEN = 256" by (simp add: SNMP_MAX_TRAP_LEN_def)
  have n3: "length ?op + c1 + length ?F = length ?B" using b2(5) by simp
  have lm: "length (message_bytes c body) = length h + length ?P" using mb [OF ab(3)] ab(3) by simp
  have room: "\<not> 256 - int (length ?F) < int (length ?op + c1)" "\<not> 256 - int c3 < int (length ?B)"
    "\<not> 256 - int (length h) < int (length ?P)"
    using len b2(5) b4(5) lP lB lh assms(3) by linarith+
  have t5: "take (length h + length ?P) packet5 = trap_message c pdu d"
    using p5(2) mb [of ?P] by (auto simp: prefix_def trap_message_def)
  have "snmp_build_trap c pdu packet0 buf0 256 = bindO (Some (wr packet4 (length h) (take (length ?P) buf4)))
      (\<lambda>packet5. Some (Inr (take (length h + length ?P) packet5)))"
    unfolding snmp_build_trap_def M v bindO_simps prod.case b2(1) [unfolded of_nat_numeral] b2(2) r2(1) [unfolded M] p2(1) tl p3(1) Let_def n3
      assms(1) b4(1) [unfolded of_nat_numeral] b4(2) b4(5) p4(1)
    using room lm by (simp add: null_auth_def)
  also have "take (length ?P) buf4 = ?P" using b4(3) by (auto simp: prefix_def)
  finally show ?thesis unfolding M using p5(1) t5 by simp
qed

section \<open>Sending\<close>

lemma long_bytes_long_of: "length bs = 4 \<Longrightarrow> long_bytes (long_of bs) = bs"
proof -
  assume "length bs = 4"
  then obtain a b c d where bs: "bs = [a, b, c, d]"
    by (auto simp: length_Suc_conv numeral_eq_Suc)
  have "ucast (long_of bs) = a" "ucast (drop_bit 8 (long_of bs)) = b" "ucast (drop_bit 16 (long_of bs)) = c"
    "ucast (drop_bit 24 (long_of bs)) = d"
    unfolding bs long_of_def by (rule bit_eqI; auto simp: bit_simps dest: bit_imp_le_length)+
  then show ?thesis by (simp add: long_bytes_def bs)
qed

lemma long_of_zero: "length bs = 4 \<Longrightarrow> long_of bs = 0 \<longleftrightarrow> bs = [0, 0, 0, 0]"
proof -
  assume l: "length bs = 4"
  have z: "long_bytes 0 = [0, 0, 0, 0]" by (simp add: long_bytes_def)
  show ?thesis using long_bytes_long_of [OF l] z by (metis long_of_long_bytes)
qed

lemma trap_message_reqid [simp]: "trap_message c (pdu\<lparr>reqid := x\<rparr>) d = trap_message c pdu d"
  by (simp add: trap_message_def trap_fields_def)

definition sent_counts :: "agent \<Rightarrow> agent" where
  "sent_counts m = count ''snmp_outpkts'' (count ''snmp_outtraps'' m)"

lemma sent_counts_simps [simp]:
  "ee (sent_counts m) = ee m" "events (sent_counts m) = events m" "live_pdus (sent_counts m) = live_pdus m"
  "net_ok (sent_counts m) = net_ok m" "heap_ok (sent_counts m) = heap_ok m" "msclock (sent_counts m) = msclock m"
  by (simp_all add: sent_counts_def count_def)

lemma snmp_send_trap_eq:
  assumes "length d \<le> 60" "addr \<noteq> 0" "command pdu = TRP_REQ_MSG" "variables pdu = [(SnmpVersionID, STRING, d)]"
  shows "snmp_send_trap trap_community addr 0 pdu m =
    Some (Inr (net_ok m,
      if net_ok m
      then free_pdu ((sent_counts m)\<lparr>events := events m @ [SentTrap (long_bytes addr) (trap_message trap_community pdu d)]\<rparr>)
      else sent_counts m))"
proof -
  have st: "length (stack_trap m) = 256" by (simp add: stack_trap_def SNMP_MAX_TRAP_LEN_def)
  have "snmp_build_trap trap_community (pdu\<lparr>reqid := 1\<rparr>) (stack_trap m) (stack_trap m) (int SNMP_MAX_TRAP_LEN) =
      Some (Inr (trap_message trap_community pdu d))"
    using snmp_build_trap_bytes [of "pdu\<lparr>reqid := 1\<rparr>" d trap_community "stack_trap m" "stack_trap m"] assms(1,3,4) st
    by (simp add: trap_community_def cstr_def)
  then show ?thesis
    using assms(2,3)
    by (simp add: snmp_send_trap_def assign_reqid_def out_counter_def msg_consts sent_counts_def count_def Let_def)
qed

lemma trap_pdu_fields [simp]:
  "command (trap_pdu g s d m) = TRP_REQ_MSG" "variables (trap_pdu g s d m) = [(SnmpVersionID, STRING, d)]"
  by (simp_all add: trap_pdu_def)

lemma trap_pdu_cong: "ee m' = ee m \<Longrightarrow> msclock m' = msclock m \<Longrightarrow> trap_pdu g s d m' = trap_pdu g s d m"
  by (simp add: trap_pdu_def)

definition targets :: "u8 list list \<Rightarrow> u8 list list" where
  "targets ips = filter (\<lambda>ip. ip \<noteq> [0, 0, 0, 0]) ips"

lemma send_traps_net:
  assumes "length d \<le> 60" "\<forall>ip \<in> set ips. length ip = 4" "heap_ok m"
  shows "\<exists>m'. send_traps g s d ips m = Some (Inr m') \<and> ee m' = ee m \<and> net_ok m' = net_ok m \<and> heap_ok m' \<and>
    msclock m' = msclock m \<and>
    (if net_ok m
     then events m' = events m @ map (\<lambda>ip. SentTrap ip (trap_message trap_community (trap_pdu g s d m) d)) (targets ips) \<and>
       live_pdus m' = live_pdus m
     else events m' = events m \<and> live_pdus m' = live_pdus m + length (targets ips))"
  using assms(2,3)
proof (induction ips arbitrary: m)
  case Nil
  then show ?case by (simp add: targets_def)
next
  case (Cons ip ips)
  then have l: "length ip = 4" by simp
  show ?case
  proof (cases "ip = [0, 0, 0, 0]")
    case True
    then have "targets (ip # ips) = targets ips" "send_traps g s d (ip # ips) m = send_traps g s d ips m"
      using long_of_zero [OF l] by (simp_all add: NGET32_def targets_def)
    moreover have "\<forall>ip\<in>set ips. length ip = 4" using Cons.prems(1) by simp
    ultimately show ?thesis using Cons.IH [of m] Cons.prems(2) by presburger
  next
    case False
    then have a: "NGET32 ip \<noteq> 0" "long_bytes (NGET32 ip) = ip"
      using long_of_zero [OF l] long_bytes_long_of [OF l] by (simp_all add: NGET32_def)
    define m1 where "m1 = m\<lparr>live_pdus := Suc (live_pdus m)\<rparr>"
    define m2 where "m2 = (if net_ok m1
      then free_pdu ((sent_counts m1)\<lparr>events := events m1 @ [SentTrap ip (trap_message trap_community (trap_pdu g s d m) d)]\<rparr>)
      else sent_counts m1)"
    have m2: "ee m2 = ee m" "net_ok m2 = net_ok m" "heap_ok m2 = heap_ok m" "msclock m2 = msclock m"
      "events m2 = (if net_ok m then events m @ [SentTrap ip (trap_message trap_community (trap_pdu g s d m) d)] else events m)"
      "live_pdus m2 = (if net_ok m then live_pdus m else live_pdus m + 1)"
      by (simp_all add: m2_def m1_def free_pdu_def)
    have st: "send_traps g s d (ip # ips) m = send_traps g s d ips m2"
      using a Cons.prems(2) snmp_send_trap_eq [OF assms(1) a(1), of "trap_pdu g s d m" m1]
      by (simp add: Let_def m1_def [symmetric] m2_def)
    show ?thesis unfolding st
      using Cons.IH [of m2] Cons.prems False m2 trap_pdu_cong [OF m2(1,4), of g s d] by (auto simp: targets_def)
  qed
qed

section \<open>Claims\<close>

text \<open>C20: With traps enabled and the network up, \<open>SendTrap\<close> sends to every configured target, in order,
  one well-formed SNMPv1 trap message: version 0, the community, the enterprise, the device's
  address, the generic and specific trap numbers, the time and one variable binding with the
  description. Nothing else is sent, and no PDU stays allocated.\<close>

theorem trap_delivery:
  assumes "SnmpTrapEnable (ee m) \<noteq> 0" "net_ok m" "heap_ok m" "length d \<le> 60"
    and "length (SnmpTrapTargetIP (ee m)) = 2" "\<forall>ip \<in> set (SnmpTrapTargetIP (ee m)). length ip = 4"
  shows "\<exists>m'. SendTrap g s d m = Some (Inr m') \<and>
    events m' = events m @ map (\<lambda>ip. SentTrap ip (message_bytes (cstr ''public'') (object_bytes TRP_REQ_MSG
        (object_bytes OBJID (objid_contents SnmpVersionID) @ object_bytes IPADDRESS (long_bytes (NGET32 (BoxIPAddress (ee m)))) @
         object_bytes INTEGER (int_contents (word_of_int g)) @ object_bytes INTEGER (int_contents (word_of_int s)) @
         object_bytes TIMETICKS (int_contents (msclock m div 10)) @
         object_bytes SEQUENCE (var_op_bytes SnmpVersionID STRING d)))))
      (filter (\<lambda>ip. ip \<noteq> [0, 0, 0, 0]) (SnmpTrapTargetIP (ee m))) \<and>
    live_pdus m' = live_pdus m \<and> ee m' = ee m"
proof -
  define m1 where "m1 = (if InitTrapSession m = 0 then m\<lparr>InitTrapSession := 1\<rparr> else m)"
  have m1: "ee m1 = ee m" "net_ok m1" "heap_ok m1" "events m1 = events m" "live_pdus m1 = live_pdus m" "msclock m1 = msclock m"
    using assms(2,3) by (simp_all add: m1_def)
  have "SendTrap g s d m = send_traps g s d (SnmpTrapTargetIP (ee m)) m1"
    using assms(1,5) m1(1) by (simp add: SendTrap_def m1_def [symmetric] Let_def NUM_OF_SNMP_TRAP_IP_def)
  then show ?thesis
    using send_traps_net [OF assms(4,6) m1(3), of g s] m1
    by (auto simp: targets_def trap_message_def trap_fields_def enterprise_object_def trap_list_def trap_pdu_def trap_community_def)
qed

theorem trap_delivery_witness:
  "\<exists>m'. SendTrap 6 100 (PaperOutMessage 0) example_agent = Some (Inr m') \<and> length (events m') = 1 \<and> live_pdus m' = 0"
proof -
  have d: "length (PaperOutMessage 0) \<le> 60" by (simp add: PaperOutMessage_def cstr_def)
  have e: "SnmpTrapTargetIP (ee example_agent) = [[192, 168, 1, 9], [0, 0, 0, 0]]" "SnmpTrapEnable (ee example_agent) = 1"
    "net_ok example_agent" "heap_ok example_agent" "events example_agent = []" "live_pdus example_agent = 0"
    by (simp_all add: example_defs)
  show ?thesis using trap_delivery [of example_agent "PaperOutMessage 0" 6 100] d e by auto
qed

text \<open>C21: When the network is down, each target costs a PDU: \<open>snmp_send_trap\<close> frees the PDU only after a
  successful send, and \<open>SendTrap\<close> forgets it.\<close>

theorem trap_leak:
  assumes "SnmpTrapEnable (ee m) \<noteq> 0" "\<not> net_ok m" "heap_ok m" "length d \<le> 60"
    and "length (SnmpTrapTargetIP (ee m)) = 2" "\<forall>ip \<in> set (SnmpTrapTargetIP (ee m)). length ip = 4"
  shows "\<exists>m'. SendTrap g s d m = Some (Inr m') \<and> events m' = events m \<and>
    live_pdus m' = live_pdus m + length (filter (\<lambda>ip. ip \<noteq> [0, 0, 0, 0]) (SnmpTrapTargetIP (ee m)))"
proof -
  define m1 where "m1 = (if InitTrapSession m = 0 then m\<lparr>InitTrapSession := 1\<rparr> else m)"
  have m1: "ee m1 = ee m" "\<not> net_ok m1" "heap_ok m1" "events m1 = events m" "live_pdus m1 = live_pdus m"
    using assms(2,3) by (simp_all add: m1_def)
  have "SendTrap g s d m = send_traps g s d (SnmpTrapTargetIP (ee m)) m1"
    using assms(1,5) m1(1) by (simp add: SendTrap_def m1_def [symmetric] Let_def NUM_OF_SNMP_TRAP_IP_def)
  then show ?thesis using send_traps_net [OF assms(4,6) m1(3), of g s] m1 by (auto simp: targets_def)
qed

theorem trap_leak_witness:
  "\<exists>m'. SendTrap 0 0 (cstr ''Cold Start'') (example_agent\<lparr>net_ok := False\<rparr>) = Some (Inr m') \<and> live_pdus m' = 1"
proof -
  let ?m = "example_agent\<lparr>net_ok := False\<rparr>"
  have e: "SnmpTrapTargetIP (ee ?m) = [[192, 168, 1, 9], [0, 0, 0, 0]]" "SnmpTrapEnable (ee ?m) = 1"
    "\<not> net_ok ?m" "heap_ok ?m" "live_pdus ?m = 0"
    by (simp_all add: example_defs)
  show ?thesis using trap_leak [of ?m "cstr ''Cold Start''" 0 0] e by (auto simp: cstr_def)
qed

end
