(* ===== verification/Snmp_Props.thy ===== *)
theory Snmp_Props
  imports Snmp_Answer Snmp_Trap_Props
begin

text \<open>
  Properties of the SNMP agent: the answers to GET and GETNEXT, who may change what with SET, which
  requests are answered at all, and where the code goes wrong.
\<close>

section \<open>What a request changes\<close>

text \<open>\<open>config\<close> is the state without what every request changes: the community and its rights.\<close>

definition config :: "agent \<Rightarrow> agent" where
  "config m = (settings m)\<lparr>community := [], community_len := 0, session_access := 0, JetPort := 0\<rparr>"

lemma config_settings: "settings m' = settings m \<Longrightarrow> config m' = config m"
  by (simp add: config_def)

lemma config_simps [simp]:
  "config (m\<lparr>community := c\<rparr>) = config m" "config (m\<lparr>community_len := n\<rparr>) = config m"
  "config (m\<lparr>session_access := a\<rparr>) = config m" "config (m\<lparr>JetPort := p\<rparr>) = config m"
  "config (count x m) = config m" "config (perr e m) = config m" "config (auth_fail m) = config m"
  "config (store_community c m) = config m"
  by (simp_all add: config_def settings_def count_def perr_def store_community_def)
    (use settings_auth_fail [of m] in \<open>simp add: settings_def\<close>)

lemma config_community_auth: "community_auth m = (b, m') \<Longrightarrow> config m' = config m"
  by (auto simp: community_auth_def Let_def split: prod.splits option.splits if_splits)

lemma config_or_quit:
  assumes "or_quit g r m f = Inr (x, m')" "\<And>m. config (g m) = config m" "\<And>y. r = Inr y \<Longrightarrow> f y = Inr (x, m') \<Longrightarrow> config m' = config m"
  shows "config m' = config m"
  using assms by (auto simp: or_quit_def split: sum.splits asn_error.splits)

lemma config_parse_pdu: "parse_pdu mem pos len m = Inr (q, m') \<Longrightarrow> config m' = config m"
  unfolding parse_pdu_def
  by (auto simp: or_quit_def Let_def split: sum.splits asn_error.splits prod.splits if_splits)

lemma config_parse_request: "parse_request mem n m = Inr (q, m') \<Longrightarrow> config m' = config m"
  unfolding parse_request_def
  by (auto simp: or_quit_def Let_def config_community_auth split: sum.splits asn_error.splits prod.splits if_splits bool.splits
      dest!: config_parse_pdu config_community_auth)

lemma config_create_identical: "create_identical mem out n es ei m = Inr (a, m') \<Longrightarrow> config m' = config m"
  unfolding create_identical_def Let_def
  by (auto simp: or_quit_def Let_def split: sum.splits asn_error.splits prod.splits if_splits)

lemma config_error_answer: "error_answer mem n out code index m = Inr (a, m') \<Longrightarrow> config m' = config m"
  by (auto simp: error_answer_def dest!: config_create_identical split: if_splits)

lemma finish_list_state: "finish_list mt h s (b, p, v) = Inr v' \<Longrightarrow> r_state v' = r_state v \<and> (b \<or> r_code v' = r_code v)"
  by (auto simp: finish_list_def bindE_eq_Inr split: if_splits)

lemma parse_list_loop:
  assumes "parse_var_op_list fuel mem data len out od ol index pend mt action l m = Some (Inr v)"
  obtains e where "r_state v = m \<or> r_state v = perr e m"
  | out1 p1 l1 data1 len1 b p v1 where
      "var_op_loop fuel mt action mem (int data1) len1 out1 p1 l1 1 pend l m = Some (Inr (b, p, v1))" "r_state v = r_state v1"
proof -
  show ?thesis
  proof (cases "asn_parse_header mem data len")
    case (Inl e)
    then show ?thesis using assms that(1) [of e]
      by (auto simp: parse_var_op_list_def vres_def split: asn_error.splits)
  next
    case (Inr x)
    obtain ty data1 len1 where x: "x = (ty, data1, len1)" by (metis prod_cases3)
    show ?thesis
    proof (cases "ty = SEQUENCE")
      case False
      then show ?thesis using assms Inr x that(1) by (auto simp: parse_var_op_list_def vres_def)
    next
      case True
      show ?thesis
      proof (cases "asn_build_sequence out od ol SEQUENCE 0")
        case (Inl e)
        then show ?thesis using assms Inr x True that(1) [of e]
          by (auto simp: parse_var_op_list_def vres_def split: asn_error.splits)
      next
        case s: (Inr y)
        obtain out1 p1 l1 where y: "y = (out1, p1, l1)" by (metis prod_cases3)
        obtain b p v1 where l: "var_op_loop fuel mt action mem (int data1) len1 out1 p1 l1 1 pend l m = Some (Inr (b, p, v1))"
          and f: "finish_list mt od p1 (b, p, v1) = Inr v"
          using assms Inr x True s y by (auto simp: parse_var_op_list_def bindO_def split: option.splits sum.splits)
        show ?thesis using that(2) [OF l] finish_list_state [OF f] by blast
      qed
    qed
  qed
qed

lemma parse_list_settings:
  assumes "parse_var_op_list fuel mem data len out od ol index pend mt action l m = Some (Inr v)"
    and "action \<noteq> COMMIT" "view_of mt m \<noteq> 0 \<or> wok (o_write (l_out l))"
  shows "settings (r_state v) = settings m"
  using assms(1)
proof (cases rule: parse_list_loop)
  case (2 out1 p1 l1 data1 len1 b p v1)
  then show ?thesis using var_op_loop_settings [OF assms(2) 2(1) assms(3)] by simp
qed auto

text \<open>Without write access the first binding ends a SET request in every pass.\<close>

lemma var_op_loop_no_write:
  assumes "var_op_loop fuel SET_REQ_MSG action mem data len out od ol index pend l m = Some (Inr (b, p, v))"
    and "view_of SET_REQ_MSG m = 0" "o_write (l_out l) = None"
  shows "settings (r_state v) = settings m"
proof (cases "0 < len")
  case False
  then show ?thesis using assms(1) by (auto simp: var_op_loop.simps vres_def)
next
  case True
  from assms(1) True show ?thesis
  proof (cases rule: var_op_loop_step)
    case stop
    then show ?thesis by auto
  next
    case (search k objs ty n vv data' len' statP name nl o' m1)
    have "statP = None" "o' = l_out l" "settings m1 = settings m"
      using search(3) assms(2) search_settings [OF search(3)] by (auto simp: getStatPtr_def)
    with search(4) assms(3) show ?thesis by auto
  qed
qed

lemma parse_list_no_write:
  assumes "parse_var_op_list fuel mem data len out od ol index pend SET_REQ_MSG action l m = Some (Inr v)"
    and "view_of SET_REQ_MSG m = 0" "o_write (l_out l) = None"
  shows "settings (r_state v) = settings m"
  using assms(1)
proof (cases rule: parse_list_loop)
  case (2 out1 p1 l1 data1 len1 b p v1)
  then show ?thesis using var_op_loop_no_write [OF 2(1) assms(2,3)] by simp
qed auto

section \<open>SET requests\<close>

lemma bindO_Some_Inr: "bindO r f = Some (Inr y) \<longleftrightarrow> (\<exists>x. r = Some (Inr x) \<and> f x = Some (Inr y))"
  by (auto simp: bindO_def split: option.splits sum.splits)

lemma reserve_not_commit: "RESERVE1 \<noteq> COMMIT" "RESERVE2 \<noteq> COMMIT" "ACTION \<noteq> COMMIT" "COMM_FREE \<noteq> COMMIT"
  by (simp_all add: agent_consts COMMIT_def)

text \<open>Either nothing changed, or both checking passes succeeded, the other two were made, and the answer repeats the request.\<close>

definition set_done ::
  "(int \<Rightarrow> u8 list \<Rightarrow> nat \<Rightarrow> nat \<Rightarrow> agent \<Rightarrow> (asn_error + vresult) option) \<Rightarrow> u8 list \<Rightarrow> nat \<Rightarrow> u8 list \<Rightarrow> agent \<Rightarrow>
   vresult \<Rightarrow> vresult \<Rightarrow> vresult \<Rightarrow> vresult \<Rightarrow> u8 list option \<Rightarrow> agent \<Rightarrow> bool" where
  "set_done pass mem n out m r1 r2 r3 r4 answer m' \<longleftrightarrow>
     pass RESERVE1 out 0 0 m = Some (Inr r1) \<and> r_code r1 = SNMP_ERR_NOERROR \<and>
     pass RESERVE2 (r_out r1) (r_index r1) (r_end r1) (r_state r1) = Some (Inr r2) \<and> r_code r2 = SNMP_ERR_NOERROR \<and>
     pass COMMIT (r_out r2) 0 (r_end r2) (r_state r2) = Some (Inr r3) \<and>
     pass ACTION (r_out r3) 0 (r_end r3) (r_state r3) = Some (Inr r4) \<and>
     create_identical mem (r_out r4) n 0 0 (r_state r4) = Inr (answer, m')"

lemma answer_set_config:
  assumes "answer_set pass mem n out m = Some (Inr (a, m'))"
    and frame: "\<And>action out index pend m v. pass action out index pend m = Some (Inr v) \<Longrightarrow>
      action \<noteq> COMMIT \<Longrightarrow> settings (r_state v) = settings m"
    and "config m' \<noteq> config m"
  obtains r1 r2 r3 r4 where "set_done pass mem n out m r1 r2 r3 r4 a m'"
    "settings (r_state r2) = settings m" "settings (r_state r3) \<noteq> settings (r_state r2)"
proof -
  from assms(1) obtain r1 r2 where r1: "pass RESERVE1 out 0 0 m = Some (Inr r1)"
    and r2: "(if r_code r1 = SNMP_ERR_NOERROR then pass RESERVE2 (r_out r1) (r_index r1) (r_end r1) (r_state r1)
       else Some (Inr r1)) = Some (Inr r2)"
    and rest: "(if r_code r2 = SNMP_ERR_NOERROR
       then bindO (pass COMMIT (r_out r2) 0 (r_end r2) (r_state r2)) (\<lambda>r3.
            bindO (pass ACTION (r_out r3) 0 (r_end r3) (r_state r3)) (\<lambda>r4.
              Some (create_identical mem (r_out r4) n 0 0 (r_state r4))))
       else bindO (pass COMM_FREE (r_out r2) 0 (r_end r2) (r_state r2)) (\<lambda>r3.
              Some (error_answer mem n (r_out r3) (r_code r2) (r_index r2) (r_state r3)))) = Some (Inr (a, m'))"
    by (auto simp: answer_set_def bindO_Some_Inr)
  have s2: "settings (r_state r2) = settings m"
    using frame [OF r1] frame [of RESERVE2] r2 by (auto simp: reserve_not_commit split: if_splits)
  show ?thesis
  proof (cases "r_code r2 = SNMP_ERR_NOERROR")
    case True
    then obtain r3 r4 where r3: "pass COMMIT (r_out r2) 0 (r_end r2) (r_state r2) = Some (Inr r3)"
      and r4: "pass ACTION (r_out r3) 0 (r_end r3) (r_state r3) = Some (Inr r4)"
      and c: "create_identical mem (r_out r4) n 0 0 (r_state r4) = Inr (a, m')"
      using rest by (auto simp: bindO_Some_Inr)
    have "r_code r1 = SNMP_ERR_NOERROR" using True r2 by (auto split: if_splits)
    then have d: "set_done pass mem n out m r1 r2 r3 r4 a m'" using r1 r2 r3 r4 c True by (simp add: set_done_def)
    have "settings (r_state r4) = settings (r_state r3)" using frame [OF r4] by (simp add: reserve_not_commit)
    then have "settings (r_state r3) \<noteq> settings (r_state r2)"
      using s2 assms(3) config_create_identical [OF c] config_settings by metis
    from that [OF d s2 this] show ?thesis .
  next
    case False
    then obtain r3 where r3: "pass COMM_FREE (r_out r2) 0 (r_end r2) (r_state r2) = Some (Inr r3)"
      and c: "error_answer mem n (r_out r3) (r_code r2) (r_index r2) (r_state r3) = Inr (a, m')"
      using rest by (auto simp: bindO_Some_Inr)
    have "settings (r_state r3) = settings m" using frame [OF r3] s2 by (simp add: reserve_not_commit)
    then show ?thesis using config_error_answer [OF c] config_settings assms(3) by metis
  qed
qed

lemma answer_get_config:
  assumes "answer_get pass mem n out h q m = Some (Inr (a, m'))"
    and "\<And>out index pend m v. pass RESERVE1 out index pend m = Some (Inr v) \<Longrightarrow> settings (r_state v) = settings m"
  shows "config m' = config m"
proof -
  from assms(1) obtain r where r: "pass RESERVE1 out 0 0 m = Some (Inr r)"
    and e: "(if r_code r = SNMP_ERR_NOERROR
       then Some (bindE (finish_response (r_out r) h q (r_end r) (session_community (r_state r))) (\<lambda>a. Inr (a, r_state r)))
       else Some (error_answer mem n (r_out r) (r_code r) (r_index r) (r_state r))) = Some (Inr (a, m'))"
    by (auto simp: answer_get_def bindO_Some_Inr)
  have "config m' = config (r_state r)"
    using e by (auto simp: bindE_eq_Inr dest: config_error_answer split: if_splits)
  then show ?thesis using assms(2) [OF r] config_settings by metis
qed

text \<open>The parts of \<open>snmp_agent_parse\<close> for a request that is answered.\<close>

lemma agent_parse_cases:
  assumes "snmp_agent_parse fuel junk mem n out m = Some (Inr (a, m'))"
  obtains (quit) rq m1 where "parse_request mem n m = Inr (rq, m1)" "a = None" "m' = m1 \<or> (\<exists>c. m' = count c m1)"
  | (go) q m1 o1 l1 o2 h r od l2 where "parse_request mem n m = Inr (Some q, m1)"
      "snmp_build_auth out 0 (int SNMP_MAX_LEN) (session_community m1) SNMP_VERSION_1 0 = Inr (o1, h, l1)"
      "start_response o1 h l1 (rq_reqid q) = Inr (o2, r, od, l2)"
      "(if rq_type q = SET_REQ_MSG then answer_set (agent_pass fuel junk mem q od l2) mem n o2 m1
        else answer_get (agent_pass fuel junk mem q od l2) mem n o2 h r m1) = Some (Inr (a, m'))"
proof -
  obtain rq m1 where rq: "parse_request mem n m = Inr (rq, m1)"
    using assms by (auto simp: snmp_agent_parse_def bindO_Some_Inr)
  note eq = assms [unfolded snmp_agent_parse_def rq bindO_simps prod.case]
  show ?thesis
  proof (cases rq)
    case None
    then show ?thesis using eq quit [OF rq] by simp
  next
    case (Some q)
    note eq = eq [unfolded Some option.case]
    show ?thesis
    proof (cases "snmp_build_auth out 0 (int SNMP_MAX_LEN) (session_community m1) SNMP_VERSION_1 0")
      case (Inl e)
      then show ?thesis using eq quit [OF rq] by (cases e) auto
    next
      case (Inr x)
      obtain o1 h l1 where x: "x = (o1, h, l1)" by (metis prod_cases3)
      note eq = eq [unfolded Inr x sum.case prod.case]
      show ?thesis
      proof (cases "start_response o1 h l1 (rq_reqid q)")
        case (Inl e)
        then show ?thesis using eq quit [OF rq] by (cases e) auto
      next
        case s: (Inr y)
        obtain o2 r od l2 where y: "y = (o2, r, od, l2)" by (metis prod_cases4)
        note go' = go [OF rq [unfolded Some] Inr [unfolded x] s [unfolded y], unfolded agent_pass_def]
        show ?thesis by (rule go', rule eq [unfolded s y sum.case prod.case Let_def])
      qed
    qed
  qed
qed

text \<open>C24: Only a SET request changes the configuration, from a community with write access, and only when
  both checking passes over its bindings, RESERVE1 and RESERVE2, end without an error; COMMIT and ACTION follow, and
  the answer repeats the request with the error status 0. A
  request that is refused leaves the EEPROM data, its copy in the flash, the host name and the flags
  as they were; only counters, answer buffers and the session's community change. This relies on
  the uninitialised \<open>write_method\<close> being NULL at the start of every pass.\<close>

theorem set_all_or_nothing:
  assumes "\<forall>action. o_write (l_out (junk action)) = None"
    and "snmp_agent_parse fuel junk mem n out m = Some (Inr (answer, m'))" "config m' \<noteq> config m"
  shows "\<exists>q m1 o1 h l1 o2 r od l2. parse_request mem n m = Inr (Some q, m1) \<and> rq_type q = SET_REQ_MSG \<and>
    session_access m1 AND SNMP_ACCESS_WRITE \<noteq> 0 \<and>
    snmp_build_auth out 0 (int SNMP_MAX_LEN) (session_community m1) SNMP_VERSION_1 0 = Inr (o1, h, l1) \<and>
    start_response o1 h l1 (rq_reqid q) = Inr (o2, r, od, l2) \<and>
    (\<exists>r1 r2 r3 r4. set_done (agent_pass fuel junk mem q od l2) mem n o2 m1 r1 r2 r3 r4 answer m')"
  using assms(2)
proof (cases rule: agent_parse_cases)
  case (quit rq m1)
  then show ?thesis using config_parse_request [OF quit(1)] assms(3) by auto
next
  case (go q m1 o1 l1 o2 h r od l2)
  note c1 = config_parse_request [OF go(1)]
  let ?pass = "agent_pass fuel junk mem q od l2"
  have frame: "settings (r_state v) = settings m" if "?pass action out index pend m = Some (Inr v)" "action \<noteq> COMMIT"
    for action out index pend m v
    using that unfolding agent_pass_def by (intro parse_list_settings [OF that(1) [unfolded agent_pass_def]]) (simp_all add: assms(1))
  show ?thesis
  proof (cases "rq_type q = SET_REQ_MSG")
    case False
    then have "answer_get ?pass mem n o2 h r m1 = Some (Inr (answer, m'))" using go(4) by simp
    then have "config m' = config m1" by (rule answer_get_config) (rule frame [OF _ reserve_not_commit(1)])
    with c1 assms(3) show ?thesis by simp
  next
    case True
    then have a: "answer_set ?pass mem n o2 m1 = Some (Inr (answer, m'))" using go(4) by simp
    have ne: "config m' \<noteq> config m1" using c1 assms(3) by simp
    obtain r1 r2 r3 r4 where d: "set_done ?pass mem n o2 m1 r1 r2 r3 r4 answer m'"
      "settings (r_state r2) = settings m1" "settings (r_state r3) \<noteq> settings (r_state r2)"
      by (rule answer_set_config [OF a frame ne])
    have "view_of SET_REQ_MSG (r_state r2) \<noteq> 0"
    proof
      assume "view_of SET_REQ_MSG (r_state r2) = 0"
      moreover have "?pass COMMIT (r_out r2) 0 (r_end r2) (r_state r2) = Some (Inr r3)" using d(1) by (simp add: set_done_def)
      ultimately show False
        using parse_list_no_write [of fuel mem "rq_pos q" "rq_len q" "r_out r2" od l2 0 "r_end r2" COMMIT "junk COMMIT" "r_state r2" r3]
          d(3) True assms(1) by (simp add: agent_pass_def)
    qed
    then have "session_access m1 AND SNMP_ACCESS_WRITE \<noteq> 0"
      using settingsD(6) [OF d(2)] by (simp add: view_of_def)
    with go(1-3) True d(1) show ?thesis by blast
  qed
qed

text \<open>A SET of \<open>sysContact\<close> to ``me'' from the community with write access, and from the other one.\<close>

definition set_bytes :: "u8 list \<Rightarrow> u8 list" where
  "set_bytes c = [48, 34 + of_nat (length c), 2, 1, 0, 4, of_nat (length c)] @ c @
     [163, 27, 2, 1, 7, 2, 1, 0, 2, 1, 0, 48, 16, 48, 14, 6, 8, 43, 6, 1, 2, 1, 1, 4, 0, 4, 2, 109, 101]"

lemma example_set:
  "map_option (map_sum id (\<lambda>(a, m). (a, take 3 (SnmpSysContact (ee m)), take 3 (SnmpSysContact (flash m)))))
     (snmp_agent_parse 1 (\<lambda>_. example_locals) (set_bytes (cstr ''private'')) 43 (replicate 48 0) example_agent) =
   Some (Inr (Some ((set_bytes (cstr ''private''))[14 := 162]), [109, 101, 0], [109, 101, 0]))"
  by code_simp

lemma config_ee: "config m' = config m \<Longrightarrow> ee m' = ee m"
proof -
  have "ee (config m) = ee m" for m by (simp add: config_def settings_def)
  then show "config m' = config m \<Longrightarrow> ee m' = ee m" by metis
qed

lemma map_sum_Inr: "map_sum id f x = Inr y \<longleftrightarrow> (\<exists>z. x = Inr z \<and> f z = y)"
  by (cases x) auto

theorem set_all_or_nothing_witness:
  "\<exists>answer m' q m1 o2 od l2 r1 r2 r3 r4.
    snmp_agent_parse 1 (\<lambda>_. example_locals) (set_bytes (cstr ''private'')) 43 (replicate 48 0) example_agent =
      Some (Inr (answer, m')) \<and> config m' \<noteq> config example_agent \<and>
    parse_request (set_bytes (cstr ''private'')) 43 example_agent = Inr (Some q, m1) \<and> session_access m1 AND SNMP_ACCESS_WRITE \<noteq> 0 \<and>
    set_done (agent_pass 1 (\<lambda>_. example_locals) (set_bytes (cstr ''private'')) q od l2) (set_bytes (cstr ''private'')) 43 o2 m1
      r1 r2 r3 r4 answer m'"
proof -
  obtain answer m' where m': "snmp_agent_parse 1 (\<lambda>_. example_locals) (set_bytes (cstr ''private'')) 43 (replicate 48 0) example_agent =
      Some (Inr (answer, m'))" "take 3 (SnmpSysContact (ee m')) = [109, 101, 0]"
    using example_set by (auto simp: map_sum_Inr)
  have "take 3 (SnmpSysContact (ee example_agent)) = [0, 0, 0]" by (simp add: example_defs numeral_3_eq_3)
  then have ne: "config m' \<noteq> config example_agent" using config_ee [of m' example_agent] m'(2) by auto
  have "\<forall>action. o_write (l_out ((\<lambda>_ :: int. example_locals) action)) = None" by (simp add: example_locals_def)
  from set_all_or_nothing [OF this m'(1) ne] m'(1) ne show ?thesis by blast
qed

end
