(* ===== verification/Crc32.thy ===== *)
theory Crc32
  imports PS_Prelude
begin

text \<open>
  The IEEE 802.3 checksum of \<open>src/apps/ps/common/src/crc32.c\<close>, with which the flash writer checks an
  image (\<open>src/apps/ps/common/src/rwflash.c\<close>): one table lookup per byte. The lemmas relate it to the
  bit-serial division by the reflected generator polynomial and show which changes of the data it
  detects.
\<close>

unbundle bit_operations_syntax

definition crc32table :: "u32 list" where
  "crc32table =
    [0x00000000, 0x77073096, 0xEE0E612C, 0x990951BA, 0x076DC419, 0x706AF48F, 0xE963A535, 0x9E6495A3,
     0x0EDB8832, 0x79DCB8A4, 0xE0D5E91E, 0x97D2D988, 0x09B64C2B, 0x7EB17CBD, 0xE7B82D07, 0x90BF1D91,
     0x1DB71064, 0x6AB020F2, 0xF3B97148, 0x84BE41DE, 0x1ADAD47D, 0x6DDDE4EB, 0xF4D4B551, 0x83D385C7,
     0x136C9856, 0x646BA8C0, 0xFD62F97A, 0x8A65C9EC, 0x14015C4F, 0x63066CD9, 0xFA0F3D63, 0x8D080DF5,
     0x3B6E20C8, 0x4C69105E, 0xD56041E4, 0xA2677172, 0x3C03E4D1, 0x4B04D447, 0xD20D85FD, 0xA50AB56B,
     0x35B5A8FA, 0x42B2986C, 0xDBBBC9D6, 0xACBCF940, 0x32D86CE3, 0x45DF5C75, 0xDCD60DCF, 0xABD13D59,
     0x26D930AC, 0x51DE003A, 0xC8D75180, 0xBFD06116, 0x21B4F4B5, 0x56B3C423, 0xCFBA9599, 0xB8BDA50F,
     0x2802B89E, 0x5F058808, 0xC60CD9B2, 0xB10BE924, 0x2F6F7C87, 0x58684C11, 0xC1611DAB, 0xB6662D3D,
     0x76DC4190, 0x01DB7106, 0x98D220BC, 0xEFD5102A, 0x71B18589, 0x06B6B51F, 0x9FBFE4A5, 0xE8B8D433,
     0x7807C9A2, 0x0F00F934, 0x9609A88E, 0xE10E9818, 0x7F6A0DBB, 0x086D3D2D, 0x91646C97, 0xE6635C01,
     0x6B6B51F4, 0x1C6C6162, 0x856530D8, 0xF262004E, 0x6C0695ED, 0x1B01A57B, 0x8208F4C1, 0xF50FC457,
     0x65B0D9C6, 0x12B7E950, 0x8BBEB8EA, 0xFCB9887C, 0x62DD1DDF, 0x15DA2D49, 0x8CD37CF3, 0xFBD44C65,
     0x4DB26158, 0x3AB551CE, 0xA3BC0074, 0xD4BB30E2, 0x4ADFA541, 0x3DD895D7, 0xA4D1C46D, 0xD3D6F4FB,
     0x4369E96A, 0x346ED9FC, 0xAD678846, 0xDA60B8D0, 0x44042D73, 0x33031DE5, 0xAA0A4C5F, 0xDD0D7CC9,
     0x5005713C, 0x270241AA, 0xBE0B1010, 0xC90C2086, 0x5768B525, 0x206F85B3, 0xB966D409, 0xCE61E49F,
     0x5EDEF90E, 0x29D9C998, 0xB0D09822, 0xC7D7A8B4, 0x59B33D17, 0x2EB40D81, 0xB7BD5C3B, 0xC0BA6CAD,
     0xEDB88320, 0x9ABFB3B6, 0x03B6E20C, 0x74B1D29A, 0xEAD54739, 0x9DD277AF, 0x04DB2615, 0x73DC1683,
     0xE3630B12, 0x94643B84, 0x0D6D6A3E, 0x7A6A5AA8, 0xE40ECF0B, 0x9309FF9D, 0x0A00AE27, 0x7D079EB1,
     0xF00F9344, 0x8708A3D2, 0x1E01F268, 0x6906C2FE, 0xF762575D, 0x806567CB, 0x196C3671, 0x6E6B06E7,
     0xFED41B76, 0x89D32BE0, 0x10DA7A5A, 0x67DD4ACC, 0xF9B9DF6F, 0x8EBEEFF9, 0x17B7BE43, 0x60B08ED5,
     0xD6D6A3E8, 0xA1D1937E, 0x38D8C2C4, 0x4FDFF252, 0xD1BB67F1, 0xA6BC5767, 0x3FB506DD, 0x48B2364B,
     0xD80D2BDA, 0xAF0A1B4C, 0x36034AF6, 0x41047A60, 0xDF60EFC3, 0xA867DF55, 0x316E8EEF, 0x4669BE79,
     0xCB61B38C, 0xBC66831A, 0x256FD2A0, 0x5268E236, 0xCC0C7795, 0xBB0B4703, 0x220216B9, 0x5505262F,
     0xC5BA3BBE, 0xB2BD0B28, 0x2BB45A92, 0x5CB36A04, 0xC2D7FFA7, 0xB5D0CF31, 0x2CD99E8B, 0x5BDEAE1D,
     0x9B64C2B0, 0xEC63F226, 0x756AA39C, 0x026D930A, 0x9C0906A9, 0xEB0E363F, 0x72076785, 0x05005713,
     0x95BF4A82, 0xE2B87A14, 0x7BB12BAE, 0x0CB61B38, 0x92D28E9B, 0xE5D5BE0D, 0x7CDCEFB7, 0x0BDBDF21,
     0x86D3D2D4, 0xF1D4E242, 0x68DDB3F8, 0x1FDA836E, 0x81BE16CD, 0xF6B9265B, 0x6FB077E1, 0x18B74777,
     0x88085AE6, 0xFF0F6A70, 0x66063BCA, 0x11010B5C, 0x8F659EFF, 0xF862AE69, 0x616BFFD3, 0x166CCF45,
     0xA00AE278, 0xD70DD2EE, 0x4E048354, 0x3903B3C2, 0xA7672661, 0xD06016F7, 0x4969474D, 0x3E6E77DB,
     0xAED16A4A, 0xD9D65ADC, 0x40DF0B66, 0x37D83BF0, 0xA9BCAE53, 0xDEBB9EC5, 0x47B2CF7F, 0x30B5FFE9,
     0xBDBDF21C, 0xCABAC28A, 0x53B39330, 0x24B4A3A6, 0xBAD03605, 0xCDD70693, 0x54DE5729, 0x23D967BF,
     0xB3667A2E, 0xC4614AB8, 0x5D681B02, 0x2A6F2B94, 0xB40BBE37, 0xC30C8EA1, 0x5A05DF1B, 0x2D02EF8D]"

text \<open>\<open>crc32\<close>: \<open>size\<close> bytes at \<open>address\<close> are added to \<open>crc\<close>.\<close>

primrec crc32 :: "nat \<Rightarrow> u8 list \<Rightarrow> u32 \<Rightarrow> u32" where
  "crc32 0 address crc = crc"
| "crc32 (Suc n) address crc =
     crc32 n (tl address)
       ((drop_bit 8 crc AND 0x00FFFFFF) XOR
        crc32table ! unat ((crc XOR ucast (hd address)) AND 0x000000FF))"

section \<open>The bit-serial reference\<close>

text \<open>One step of the division by the generator polynomial, least significant bit first.\<close>

definition crc_bit :: "u32 \<Rightarrow> u32" where
  "crc_bit c = (if c AND 1 \<noteq> 0 then drop_bit 1 c XOR 0xEDB88320 else drop_bit 1 c)"

definition crc_byte :: "u32 \<Rightarrow> u8 \<Rightarrow> u32" where
  "crc_byte c b = (crc_bit ^^ 8) (c XOR ucast b)"

lemma and_1_odd: "(c AND 1 \<noteq> 0) = odd (c :: u32)"
  by (simp add: and_one_eq mod_2_eq_odd)

lemma bit_low_24: "bit (0x00FFFFFF :: u32) n \<longleftrightarrow> n < 24"
proof -
  have e: "(0x00FFFFFF :: u32) = mask 24" by (simp add: mask_eq_decr_exp)
  show ?thesis unfolding e bit_mask_iff by auto
qed

lemma bit_low_8: "bit (0xFF :: u32) n \<longleftrightarrow> n < 8"
proof -
  have e: "(0xFF :: u32) = mask 8" by (simp add: mask_eq_decr_exp)
  show ?thesis unfolding e bit_mask_iff by auto
qed

lemma crc_bit_bit: "n < 32 \<Longrightarrow> bit (crc_bit c) n = ((n < 31 \<and> bit c (Suc n)) \<noteq> (bit c 0 \<and> bit (0xEDB88320 :: u32) n))"
  by (auto simp: crc_bit_def and_1_odd bit_simps simp flip: bit_0 dest: bit_imp_le_length)

lemma crc_bit_xor: "crc_bit (x XOR y) = crc_bit x XOR crc_bit y"
  by (rule bit_word_eqI) (auto simp: crc_bit_bit bit_xor_iff)

lemma crc_bits_xor: "(crc_bit ^^ n) (x XOR y) = (crc_bit ^^ n) x XOR (crc_bit ^^ n) y"
  by (induction n) (simp_all add: crc_bit_xor)

lemma crc_bit_inj: "crc_bit x = crc_bit y \<longleftrightarrow> x = y"
proof
  assume eq: "crc_bit x = crc_bit y"
  have b0: "bit x 0 = bit y 0"
    using crc_bit_bit [of 31 x] crc_bit_bit [of 31 y] eq by simp
  show "x = y"
  proof (rule bit_word_eqI)
    fix n assume "n < LENGTH(32)"
    then show "bit x n = bit y n"
      using b0 crc_bit_bit [of "n - 1" x] crc_bit_bit [of "n - 1" y] eq by (cases n) auto
  qed
qed simp

lemma crc_bits_inj: "(crc_bit ^^ n) x = (crc_bit ^^ n) y \<longleftrightarrow> x = y"
  by (induction n) (simp_all add: crc_bit_inj)

text \<open>Shifting out zeros is a plain shift.\<close>

lemma crc_bits_zeros: "take_bit n x = 0 \<Longrightarrow> (crc_bit ^^ n) x = drop_bit n x"
proof (induction n arbitrary: x)
  case (Suc n)
  have "even x" using Suc.prems by (metis even_take_bit_eq even_zero nat.distinct(1))
  moreover have "take_bit n (drop_bit 1 x) = 0"
    using Suc.prems by (metis drop_bit_of_0 drop_bit_take_bit diff_Suc_1 One_nat_def)
  ultimately show ?case using Suc.IH [of "drop_bit 1 x"]
    by (simp add: crc_bit_def and_1_odd funpow_Suc_right del: funpow.simps)
qed simp

text \<open>The table holds the division of each byte value.\<close>

primrec xor_closure :: "u32 list \<Rightarrow> u32 list" where
  "xor_closure [] = [0]"
| "xor_closure (v # vs) = xor_closure vs @ map (\<lambda>x. v XOR x) (xor_closure vs)"

lemma of_nat_high_bit:
  assumes "j < 2 ^ n"
  shows "(word_of_nat (2 ^ n + j) :: u32) = 2 ^ n XOR word_of_nat j"
proof -
  have "2 ^ n + j = 2 ^ n XOR j"
  proof (rule bit_eqI)
    have "take_bit n j = j" using assms by (simp add: take_bit_nat_eq_self)
    then have "2 ^ n + j = 2 ^ n OR j"
      by (metis add.commute assms bit_take_bit_iff disjunctive_add bit_exp_iff less_irrefl)
    moreover have "\<not> (bit (2 ^ n) k \<and> bit j k)" for k
      using \<open>take_bit n j = j\<close> by (metis bit_exp_iff bit_take_bit_iff less_irrefl)
    ultimately show "bit (2 ^ n + j) k = bit (2 ^ n XOR j) k" for k
      by (auto simp: bit_or_iff bit_xor_iff)
  qed
  then show ?thesis by (simp add: of_nat_xor_eq)
qed

lemma xor_closure_linear:
  fixes F :: "u32 \<Rightarrow> u32"
  assumes "\<And>x y. F (x XOR y) = F x XOR F y"
  shows "xor_closure (map (\<lambda>k. F (2 ^ k)) (rev [0..<n])) = map (\<lambda>i. F (word_of_nat i)) [0..<2 ^ n]"
proof (induction n)
  case 0
  have "F 0 = 0" using assms [of 0 0] by simp
  then show ?case by simp
next
  case (Suc n)
  have "[0..<2 ^ Suc n] = [0..<2 ^ n] @ map (\<lambda>j. 2 ^ n + j) [0..<2 ^ n]"
    by (rule nth_equalityI) (auto simp: nth_append)
  moreover have "F (2 ^ n) XOR F (word_of_nat x) = F (word_of_nat (2 ^ n + x))" if "x < 2 ^ n" for x
    using that by (simp only: of_nat_high_bit assms)
  ultimately show ?case using Suc by (simp del: of_nat_add)
qed

lemma crc32table_bits: "crc32table = map (\<lambda>i. (crc_bit ^^ 8) (word_of_nat i)) [0..<256]"
proof -
  have "crc32table = xor_closure (map (\<lambda>k. crc32table ! (2 ^ k)) (rev [0..<8]))"
    by (simp add: crc32table_def upt_rec)
  also have "map (\<lambda>k. crc32table ! (2 ^ k)) (rev [0..<8]) = map (\<lambda>k. (crc_bit ^^ 8) (2 ^ k)) (rev [0..<8])"
    by code_simp
  finally show ?thesis using xor_closure_linear [of "crc_bit ^^ 8" 8] by (simp add: crc_bits_xor)
qed

lemma crc32table_nth: "crc32table ! unat (c AND 0xFF) = (crc_bit ^^ 8) (c AND 0xFF)"
proof -
  have "c AND 0xFF < 256" by (rule order.strict_trans1 [OF word_and_le1]) simp
  then have "unat (c AND 0xFF) < 256" by (simp add: word_less_nat_alt)
  then show ?thesis by (simp add: crc32table_bits)
qed

lemma crc32_byte_step:
  "(drop_bit 8 c AND 0x00FFFFFF) XOR crc32table ! unat ((c XOR ucast b) AND 0xFF) = crc_byte c b"
proof -
  let ?x = "c XOR ucast b"
  have x: "?x = (?x AND NOT 0xFF) XOR (?x AND 0xFF)"
    by (rule bit_word_eqI) (auto simp: bit_simps)
  have "(crc_bit ^^ 8) (?x AND NOT 0xFF) = drop_bit 8 (?x AND NOT 0xFF)"
    by (rule crc_bits_zeros, rule bit_word_eqI) (auto simp: bit_simps)
  also have "\<dots> = drop_bit 8 c AND 0x00FFFFFF"
    by (rule bit_word_eqI) (auto simp: bit_simps bit_low_24 bit_low_8 dest: bit_imp_le_length)
  finally show ?thesis
    unfolding crc_byte_def crc32table_nth by (subst x) (simp add: crc_bits_xor)
qed

lemma crc32_foldl:
  "n \<le> length address \<Longrightarrow> crc32 n address crc = foldl crc_byte crc (take n address)"
proof (induction n arbitrary: address crc)
  case (Suc n)
  then obtain b bs where "address = b # bs" by (cases address) auto
  with Suc show ?case by (simp add: crc32_byte_step)
qed simp

text \<open>Bytes first in memory are the low bytes of the register.\<close>

primrec word_of_bytes :: "u8 list \<Rightarrow> u32" where
  "word_of_bytes [] = 0"
| "word_of_bytes (b # bs) = ucast b XOR push_bit 8 (word_of_bytes bs)"

lemma word_of_bytes_high: "8 * length bs \<le> k \<Longrightarrow> bit (word_of_bytes bs) k = False"
proof (induction bs arbitrary: k)
  case (Cons b bs)
  then show ?case by (auto simp: bit_simps dest: bit_imp_le_length)
qed simp

lemma word_of_bytes_inj:
  "length xs = length ys \<Longrightarrow> length xs \<le> 4 \<Longrightarrow> word_of_bytes xs = word_of_bytes ys \<Longrightarrow> xs = ys"
proof (induction xs ys rule: list_induct2')
  case (4 x xs y ys)
  have w: "bit (word_of_bytes (x # xs)) k = bit (word_of_bytes (y # ys)) k" for k using 4 by simp
  have "x = y"
  proof (rule bit_word_eqI)
    fix k assume "k < LENGTH(8)"
    then show "bit x k = bit y k" using w [of k] by (simp add: bit_simps)
  qed
  moreover have "word_of_bytes xs = word_of_bytes ys"
  proof (rule bit_word_eqI)
    fix k assume k: "k < LENGTH(32)"
    show "bit (word_of_bytes xs) k = bit (word_of_bytes ys) k"
    proof (cases "k < 24")
      case True
      then show ?thesis using w [of "k + 8"] \<open>x = y\<close> by (auto simp: bit_simps)
    next
      case False
      then show ?thesis using 4 by (simp add: word_of_bytes_high)
    qed
  qed
  ultimately show ?case using 4 by simp
qed auto

lemma xor_cancel: "c XOR x = c XOR y \<longleftrightarrow> x = (y :: u32)"
  by (metis xor.assoc xor.left_neutral xor_self_eq)

lemma crc_bytes_word:
  "length bs \<le> 4 \<Longrightarrow> foldl crc_byte c bs = (crc_bit ^^ (8 * length bs)) (c XOR word_of_bytes bs)"
proof (induction bs arbitrary: c)
  case (Cons b bs)
  let ?w = "word_of_bytes bs"
  have "(crc_bit ^^ 8) (push_bit 8 ?w) = drop_bit 8 (push_bit 8 ?w)"
    by (rule crc_bits_zeros, rule bit_word_eqI) (auto simp: bit_simps)
  also have "\<dots> = ?w"
  proof (rule bit_word_eqI)
    have "bit ?w n \<Longrightarrow> n < 24" for n
      using Cons.prems word_of_bytes_high [of bs n] by (cases "n < 24") auto
    then show "bit (drop_bit 8 (push_bit 8 ?w)) n = bit ?w n" for n by (auto simp: bit_simps)
  qed
  finally have "crc_byte c b XOR ?w = (crc_bit ^^ 8) (c XOR word_of_bytes (b # bs))"
    by (simp add: crc_byte_def crc_bits_xor xor.assoc)
  then show ?case using Cons
    by (simp add: funpow_add add.commute [of 8] del: funpow.simps flip: funpow_swap1)
qed simp

lemma crc_bytes_inj_reg: "foldl crc_byte c bs = foldl crc_byte d bs \<longleftrightarrow> c = d"
proof (induction bs arbitrary: c d)
  case (Cons b bs)
  have "crc_byte c b = crc_byte d b \<longleftrightarrow> c = d"
    by (simp add: crc_byte_def crc_bits_inj xor.commute [of _ "ucast b"] xor_cancel)
  with Cons show ?case by simp
qed simp

section \<open>Properties\<close>

text \<open>C39: \<open>crc32\<close> computes the IEEE 802.3 remainder: its table-driven loop agrees, for every register
  value and every message, with the division by the polynomial 0xEDB88320 one bit at a time.\<close>

theorem crc32_bit_serial:
  "crc32 (length m) m crc = foldl (\<lambda>c b. (crc_bit ^^ 8) (c XOR ucast b)) crc m"
  by (simp add: crc32_foldl crc_byte_def [abs_def])

text \<open>C40: Any corruption confined to four consecutive bytes is detected: two images of one length that
  differ only inside a window of at most four bytes never have the same checksum.\<close>

theorem crc32_detects_burst:
  assumes "length q = length q'" "length q \<le> 4" "q \<noteq> q'"
  shows "crc32 (length (p @ q @ s)) (p @ q @ s) crc \<noteq> crc32 (length (p @ q' @ s)) (p @ q' @ s) crc"
proof
  assume "crc32 (length (p @ q @ s)) (p @ q @ s) crc = crc32 (length (p @ q' @ s)) (p @ q' @ s) crc"
  then have "foldl crc_byte (foldl crc_byte crc p) q = foldl crc_byte (foldl crc_byte crc p) q'"
    by (simp add: crc32_foldl crc_bytes_inj_reg)
  then have "word_of_bytes q = word_of_bytes q'"
    using assms(1,2) by (simp add: crc_bytes_word crc_bits_inj xor_cancel)
  with assms word_of_bytes_inj show False by blast
qed

theorem crc32_detects_burst_witness:
  "crc32 (length ([1, 2] @ [3, 4] @ [5 :: u8])) ([1, 2] @ [3, 4] @ [5]) 0xFFFFFFFF \<noteq>
   crc32 (length ([1, 2] @ [3, 6] @ [5 :: u8])) ([1, 2] @ [3, 6] @ [5]) 0xFFFFFFFF"
  by (rule crc32_detects_burst) simp_all

end
