(* ===== verification/Joblog.thy ===== *)
theory Joblog
  imports Spool_State
begin

text \<open>
  The job log, \<open>src/apps/ps/psutility/joblog.c\<close> and \<open>joblog.h\<close>: a ring of the last
  \<open>MAX_JOB_LIST\<close> jobs, filled by the print daemons and shown by the web pages.

  The entries are allocated once and never freed, so an entry pointer is the entry's place in
  \<open>JOBLIST\<close> and \<open>NULL\<close> is \<^const>\<open>None\<close>. The result \<^const>\<open>None\<close> of \<open>JL_PutList\<close> is a memory fault:
  \<open>malloc\<close> failed and \<open>memset\<close> writes through \<open>NULL\<close>, or \<open>pLen\<close> exceeds the 32 bytes of
  \<open>LoginUser\<close>. \<open>now\<close> is the clock \<open>msclock\<close> reads.
\<close>

definition MAX_JOB_LIST :: nat where "MAX_JOB_LIST = 20"

record JOB_LOG =
  JobID :: u32
  Protocol :: u8
  Port :: u8
  Status :: u8
  LoginUser :: "u8 list"
  StartTime :: u32
  EndTime :: u32
  ByteSize :: u32

record joblog =
  JOBCount :: "u32 list"
  CurOFTotal :: "u32 list"
  JobTotCount :: u32
  JOBLIST :: "JOB_LOG option list"

definition joblog_static :: joblog where
  "joblog_static = \<lparr>JOBCount = replicate NUM_OF_PRN_PORT 0, CurOFTotal = replicate NUM_OF_PRN_PORT 0,
     JobTotCount = 0, JOBLIST = replicate MAX_JOB_LIST None\<rparr>"

definition slot :: "u32 \<Rightarrow> nat" where
  "slot c = unat c mod MAX_JOB_LIST"

definition JL_PutList :: "u8 \<Rightarrow> nat \<Rightarrow> u8 list \<Rightarrow> nat \<Rightarrow> u32 \<Rightarrow> bool \<Rightarrow> joblog \<Rightarrow> joblog option" where
  "JL_PutList proto port person pLen now malloc_ok jl =
     (let k = slot (JobTotCount jl);
          n = JobTotCount jl + 1;
          tot = (if n = 0 then 1 else n)
      in if JOBLIST jl ! k = None \<and> \<not> malloc_ok \<or> 32 < pLen then None
         else Some (jl\<lparr>JobTotCount := tot,
                CurOFTotal := (CurOFTotal jl)[port := tot],
                JOBCount := (JOBCount jl)[port := JOBCount jl ! port + 1],
                JOBLIST := (JOBLIST jl)[k := Some
                  \<lparr>JobID = tot, Protocol = proto, Port = of_nat port + 1, Status = 1,
                   LoginUser = take pLen person @ replicate (32 - pLen) 0,
                   StartTime = now, EndTime = 0, ByteSize = 0\<rparr>]\<rparr>))"

definition upd_entry :: "nat \<Rightarrow> (JOB_LOG \<Rightarrow> JOB_LOG) \<Rightarrow> joblog \<Rightarrow> joblog" where
  "upd_entry port f jl =
     (let k = slot (CurOFTotal jl ! port - 1)
      in case JOBLIST jl ! k of None \<Rightarrow> jl | Some e \<Rightarrow> jl\<lparr>JOBLIST := (JOBLIST jl)[k := Some (f e)]\<rparr>)"

definition JL_AddSize :: "nat \<Rightarrow> u32 \<Rightarrow> joblog \<Rightarrow> joblog" where
  "JL_AddSize port sz = upd_entry port (\<lambda>e. e\<lparr>ByteSize := ByteSize e + sz\<rparr>)"

definition JL_EndList :: "nat \<Rightarrow> u8 \<Rightarrow> u32 \<Rightarrow> joblog \<Rightarrow> joblog" where
  "JL_EndList port st now = upd_entry port (\<lambda>e. e\<lparr>Status := st, EndTime := now\<rparr>)"

section \<open>The log as a history\<close>

text \<open>The calls of a daemon and the unbounded history of jobs they record; the newest job is last.\<close>

datatype jl_op = Put u8 "u8 list" nat u32 | Add u32 | Finish u8 u32

fun jl_step :: "jl_op \<Rightarrow> joblog \<Rightarrow> joblog option" where
  "jl_step (Put proto person n now) jl = JL_PutList proto 0 person n now True jl"
| "jl_step (Add sz) jl = Some (JL_AddSize 0 sz jl)"
| "jl_step (Finish st now) jl = Some (JL_EndList 0 st now jl)"

fun jl_run :: "jl_op list \<Rightarrow> joblog \<Rightarrow> joblog option" where
  "jl_run [] jl = Some jl"
| "jl_run (c # cs) jl = (case jl_step c jl of None \<Rightarrow> None | Some jl' \<Rightarrow> jl_run cs jl')"

definition upd_last :: "('a \<Rightarrow> 'a) \<Rightarrow> 'a list \<Rightarrow> 'a list" where
  "upd_last f h = (if h = [] then [] else h[length h - 1 := f (last h)])"

fun hist_step :: "jl_op \<Rightarrow> JOB_LOG list \<Rightarrow> JOB_LOG list" where
  "hist_step (Put proto person n now) h =
     h @ [\<lparr>JobID = of_nat (Suc (length h)), Protocol = proto, Port = 1, Status = 1,
           LoginUser = take n person @ replicate (32 - n) 0, StartTime = now, EndTime = 0, ByteSize = 0\<rparr>]"
| "hist_step (Add sz) h = upd_last (\<lambda>e. e\<lparr>ByteSize := ByteSize e + sz\<rparr>) h"
| "hist_step (Finish st now) h = upd_last (\<lambda>e. e\<lparr>Status := st, EndTime := now\<rparr>) h"

fun op_ok :: "jl_op \<Rightarrow> bool" where
  "op_ok (Put proto person n now) \<longleftrightarrow> n \<le> 32"
| "op_ok _ \<longleftrightarrow> True"

definition jl_rep :: "joblog \<Rightarrow> JOB_LOG list \<Rightarrow> bool" where
  "jl_rep jl h \<longleftrightarrow> length (JOBLIST jl) = MAX_JOB_LIST \<and> JobTotCount jl = of_nat (length h) \<and>
     CurOFTotal jl = [of_nat (length h)] \<and>
     (\<forall>k<length h. length h \<le> k + MAX_JOB_LIST \<longrightarrow> JOBLIST jl ! (k mod MAX_JOB_LIST) = Some (h ! k)) \<and>
     (\<forall>i<MAX_JOB_LIST. length h \<le> i \<longrightarrow> JOBLIST jl ! i = None)"

lemma slot_of_nat: "n < 2 ^ 32 \<Longrightarrow> slot (of_nat n) = n mod MAX_JOB_LIST"
  by (simp add: slot_def unat_of_nat)

lemma slot_lt [simp]: "slot c < MAX_JOB_LIST"
  by (simp add: slot_def MAX_JOB_LIST_def)

lemma mod_window:
  assumes "a mod m = b mod m" "a \<le> b" "b < a + (m :: nat)"
  shows "a = b"
proof -
  have "m dvd b - a" using assms(1,2) by (metis mod_eq_dvd_iff_nat)
  then show ?thesis using assms(2,3) by (auto dest: dvd_imp_le)
qed

lemma jl_rep_put:
  assumes r: "jl_rep jl h" and l: "Suc (length h) < 2 ^ 32" and n: "n \<le> 32"
  obtains jl' where "JL_PutList proto 0 person n now True jl = Some jl'"
    "jl_rep jl' (hist_step (Put proto person n now) h)"
proof -
  let ?k = "length h mod MAX_JOB_LIST" and ?h = "hist_step (Put proto person n now) h"
  from r have d: "length (JOBLIST jl) = MAX_JOB_LIST" "JobTotCount jl = of_nat (length h)"
    "CurOFTotal jl = [of_nat (length h)]" by (auto simp: jl_rep_def)
  have k: "slot (JobTotCount jl) = ?k" using l d by (simp add: slot_of_nat)
  have ne: "of_nat (Suc (length h)) \<noteq> (0 :: u32)"
  proof
    assume "of_nat (Suc (length h)) = (0 :: u32)"
    then have "unat (of_nat (Suc (length h)) :: u32) = 0" by (simp only: unat_0)
    then show False using l by (simp add: unat_of_nat del: of_nat_Suc)
  qed
  obtain jl' where jl': "JL_PutList proto 0 person n now True jl = Some jl'"
    "JOBLIST jl' = (JOBLIST jl)[?k := Some (last ?h)]" "JobTotCount jl' = of_nat (Suc (length h))"
    "CurOFTotal jl' = [of_nat (Suc (length h))]"
    using n d k ne by (auto simp: JL_PutList_def Let_def add.commute)
  have "JOBLIST jl' ! (j mod MAX_JOB_LIST) = Some (?h ! j)"
    if "j < length ?h" "length ?h \<le> j + MAX_JOB_LIST" for j
  proof (cases "j = length h")
    case True
    then show ?thesis using jl' d by (simp add: MAX_JOB_LIST_def nth_append)
  next
    case False
    then have j: "j < length h" "length h \<le> j + MAX_JOB_LIST" "length h < j + MAX_JOB_LIST"
      using that by auto
    then have "j mod MAX_JOB_LIST \<noteq> ?k" using mod_window [of j MAX_JOB_LIST "length h"] by auto
    with j r jl'(2) show ?thesis by (simp add: jl_rep_def nth_append)
  qed
  moreover have "JOBLIST jl' ! i = None" if "i < MAX_JOB_LIST" "length ?h \<le> i" for i
    using that r jl'(2) by (simp add: jl_rep_def)
  ultimately show ?thesis using that jl' d by (simp add: jl_rep_def)
qed

lemma jl_rep_upd:
  assumes r: "jl_rep jl h" and l: "length h < 2 ^ 32"
  shows "jl_rep (upd_entry 0 f jl) (upd_last f h)"
proof (cases "h = []")
  case True
  then show ?thesis using r by (auto simp: jl_rep_def upd_entry_def Let_def upd_last_def)
next
  case False
  let ?n = "length h - 1"
  have c: "CurOFTotal jl ! 0 - 1 = of_nat ?n" using r False by (cases h) (auto simp: jl_rep_def)
  then have k: "slot (CurOFTotal jl ! 0 - 1) = ?n mod MAX_JOB_LIST" using l by (simp add: slot_of_nat)
  have e: "JOBLIST jl ! (?n mod MAX_JOB_LIST) = Some (last h)"
    using r False by (simp add: jl_rep_def last_conv_nth MAX_JOB_LIST_def)
  have u: "upd_entry 0 f jl = jl\<lparr>JOBLIST := (JOBLIST jl)[?n mod MAX_JOB_LIST := Some (f (last h))]\<rparr>"
    unfolding upd_entry_def Let_def k e by simp
  have "JOBLIST (upd_entry 0 f jl) ! (j mod MAX_JOB_LIST) = Some (upd_last f h ! j)"
    if "j < length h" "length h \<le> j + MAX_JOB_LIST" for j
  proof (cases "j = ?n")
    case True
    then show ?thesis using u False r by (simp add: upd_last_def jl_rep_def MAX_JOB_LIST_def)
  next
    case False
    have "j \<le> ?n" "?n < j + MAX_JOB_LIST" using that by linarith+
    with False have "j mod MAX_JOB_LIST \<noteq> ?n mod MAX_JOB_LIST" using mod_window by blast
    then show ?thesis using u False that r by (simp add: upd_last_def jl_rep_def)
  qed
  moreover have "JOBLIST (upd_entry 0 f jl) ! i = None" if "i < MAX_JOB_LIST" "length h \<le> i" for i
  proof -
    have "?n mod MAX_JOB_LIST \<noteq> i" using that False by (cases h) auto
    then show ?thesis using u that r by (simp add: jl_rep_def)
  qed
  ultimately show ?thesis using r False u by (simp add: jl_rep_def upd_last_def)
qed

lemma jl_rep_static: "jl_rep joblog_static []"
  by (simp add: jl_rep_def joblog_static_def NUM_OF_PRN_PORT_def)

lemma jl_rep_step:
  assumes "jl_rep jl h" "op_ok c" "Suc (length h) < 2 ^ 32"
  shows "\<exists>jl'. jl_step c jl = Some jl' \<and> jl_rep jl' (hist_step c h)"
proof (cases c)
  case (Put proto person n now)
  with assms jl_rep_put [OF assms(1,3)] show ?thesis by (metis jl_step.simps(1) op_ok.simps(1))
qed (use assms jl_rep_upd [OF assms(1)] in \<open>simp_all add: JL_AddSize_def JL_EndList_def\<close>)

lemma hist_step_length: "length (hist_step c h) \<le> Suc (length h)"
  by (cases c) (simp_all add: upd_last_def)

lemma jl_run_rep:
  "jl_rep jl h \<Longrightarrow> \<forall>c\<in>set cs. op_ok c \<Longrightarrow> length h + length cs < 2 ^ 32 \<Longrightarrow>
   \<exists>jl'. jl_run cs jl = Some jl' \<and> jl_rep jl' (fold hist_step cs h)"
proof (induction cs arbitrary: jl h)
  case (Cons c cs)
  then obtain jl1 where j: "jl_step c jl = Some jl1" "jl_rep jl1 (hist_step c h)"
    using jl_rep_step [of jl h c] by auto
  have "length (hist_step c h) + length cs < 2 ^ 32" using Cons.prems(3) hist_step_length [of c h] by simp
  with Cons.IH [OF j(2)] Cons.prems(2) j(1) show ?case by auto
qed simp

text \<open>
  When the 32-bit job counter wraps, the new job goes to one entry and the port's current job is
  looked up in another.
\<close>

lemma job_log_wrap:
  assumes "JobTotCount jl = 0xFFFFFFFF" "CurOFTotal jl = [c]" "length (JOBLIST jl) = MAX_JOB_LIST"
    and "JOBLIST jl ! 0 = Some e" "n \<le> 32" "JL_PutList proto 0 person n now True jl = Some jl'"
  shows "JOBLIST (JL_AddSize 0 sz jl') ! 0 = Some (e\<lparr>ByteSize := ByteSize e + sz\<rparr>)"
    "\<exists>e'. JOBLIST (JL_AddSize 0 sz jl') ! 15 = Some e' \<and> JobID e' = 1 \<and> ByteSize e' = 0"
proof -
  have s: "slot 0xFFFFFFFF = 15" "slot 0 = 0" by (simp_all add: slot_def MAX_JOB_LIST_def)
  have "CurOFTotal jl' = [1]" "JOBLIST jl' ! 0 = Some e" "length (JOBLIST jl') = MAX_JOB_LIST"
    "\<exists>e'. JOBLIST jl' ! 15 = Some e' \<and> JobID e' = 1 \<and> ByteSize e' = 0"
    using assms s by (auto simp: JL_PutList_def Let_def MAX_JOB_LIST_def split: if_splits)
  then show "JOBLIST (JL_AddSize 0 sz jl') ! 0 = Some (e\<lparr>ByteSize := ByteSize e + sz\<rparr>)"
    "\<exists>e'. JOBLIST (JL_AddSize 0 sz jl') ! 15 = Some e' \<and> JobID e' = 1 \<and> ByteSize e' = 0"
    using s by (auto simp: JL_AddSize_def upd_entry_def Let_def MAX_JOB_LIST_def)
qed

section \<open>Properties\<close>

text \<open>C37: The ring is the end of the unbounded history: after any sequence of calls by the port's
  daemons (fewer than 2^32 of them, so that the job counter does not wrap) no call fails, the newest
  20 jobs of the history are in the ring with their numbers, users, times, sizes and status, job
  \<open>k\<close> in entry \<open>k mod 20\<close>, and the entries not yet used are empty.\<close>

theorem job_log_refines_history:
  assumes "\<forall>c\<in>set cs. op_ok c" "length cs < 2 ^ 32"
  shows "\<exists>jl. jl_run cs joblog_static = Some jl \<and> jl_rep jl (fold hist_step cs [])"
  using jl_run_rep [OF jl_rep_static] assms by simp

theorem job_log_refines_history_witness:
  "\<exists>jl. jl_run [Put 1 [65] 1 7, Add 100, Add 28, Finish 0 9] joblog_static = Some jl \<and>
    jl_rep jl [\<lparr>JobID = 1, Protocol = 1, Port = 1, Status = 0, LoginUser = 65 # replicate 31 0,
      StartTime = 7, EndTime = 9, ByteSize = 128\<rparr>]"
  using job_log_refines_history [of "[Put 1 [65] 1 7, Add 100, Add 28, Finish 0 9]"]
  by (simp add: upd_last_def)

end
