(* ===== verification/Ipp_State.thy ===== *)
theory Ipp_State
  imports Cstring
begin

text \<open>
  The data of the Internet printing server, \<open>src/apps/ps/ippd/incl/ippd.h\<close>: the object of a request
  or job (\<open>ipp_t\<close>) and the globals of \<open>ippd.c\<close>, for the one port of the configuration.

  Of the object, the fields its owner uses to read the request (the input half of the file \<open>network\<close>,
  \<open>ippreq\<close>, \<open>chunked\<close>, \<open>qsize\<close>) are a record of their own, \<open>ireq\<close>: no other thread touches them.
  The file's buffer \<open>ibuf_temp\<close> is \<open>ibuf\<close>, the pointer \<open>ibuf\<close> into it is \<open>ipos\<close>, \<open>ibuf_cnt\<close> is \<open>icnt\<close>.
\<close>

record ireq =
  ibuf :: "u8 list"
  ipos :: nat
  icnt :: int
  ippreq :: u8
  chunked :: bool
  qsize :: int

text \<open>A growing buffer, \<open>ippBuf\<close>: its contents and the size of its memory, \<open>pf_len\<close>.\<close>

record ippBuf =
  pf_data :: "u8 list"
  pf_len :: nat

record ipp_t =
  rd :: ireq
  DocType :: u8
  RetCode :: u16
  ID :: "u8 list"
  Language :: "u8 list option"
  Charset :: "u8 list option"
  UnSupportGroup :: ippBuf
  RespGroup :: ippBuf
  job_name :: "u8 list option"
  user_name :: "u8 list option"
  job_state :: u8
  job_id :: u16

text \<open>
  The globals. \<open>SysLocation\<close>, \<open>BoxAddr\<close> and the texts of the answer's header are the
  configuration \<open>EEPROM_Data.SnmpSysLocation\<close>, \<open>mib_DHCP_p->IPAddr\<close>, \<open>WebMsg_SYSTEM_TIME\<close> and the
  version in the \<open>Server:\<close> line. \<open>closed_jobs\<close> are the objects of other connections that were answered
  and closed, with what was sent on them.
\<close>

record ippq =
  ippProcessOn :: bool
  ippJobsNo :: u8
  ippJobID :: u16
  ippObjList :: "ipp_t list"
  SysLocation :: "u8 list"
  BoxAddr :: "u8 list"
  SYSTEM_TIME :: "u8 list"
  SERVER_VERSION :: "u8 list"
  closed_jobs :: "(ipp_t \<times> u8 list) list"

definition ippq_static :: ippq where
  "ippq_static = \<lparr>ippProcessOn = False, ippJobsNo = 0, ippJobID = 0, ippObjList = [], SysLocation = [],
     BoxAddr = [0, 0, 0, 0], SYSTEM_TIME = [], SERVER_VERSION = [], closed_jobs = []\<rparr>"

end
