(* ===== verification/Net_Conn.thy ===== *)
theory Net_Conn
  imports Print_System Joblog Ipp_State
begin

text \<open>
  What the print daemons see of the network and of the other threads: a TCP connection
  (\<open>lwip_recvfrom\<close>, \<open>lwip_send\<close>, \<open>get_socket_rcevent\<close>, \<open>sendack\<close> of \<open>src/apps/tcpip/src/sockets.c\<close>,
  \<open>netconn_recv\<close> of \<open>api_lib.c\<close>), the output file on it (\<open>zot_fputs\<close>, \<open>zot_fclose\<close> of
  \<open>src/apps/http_zot/src/httpd.c\<close>) and the points where a thread gives up the processor.

  The firmware's threads run at one priority and change only where a thread yields or waits. A
  daemon's run is therefore a function of its state (\<open>world\<close>) and of a schedule: the list of what
  the other threads and the network do at the successive points where the daemon lets them run. A
  run ends with a result, the rest of the schedule and the new state (\<open>Done\<close>), waits with nothing
  left to wake it (\<open>Blocked\<close>), or violates memory safety (\<open>Fault\<close>).
\<close>

section \<open>The state\<close>

text \<open>What the receive mailbox of a connection hands out: a segment's bytes, or a null pointer, which stands
  for the end of the connection or for a receive timeout.\<close>

datatype arrival = Netbuf "u8 list" | RxClosed | RxTimeout

record world =
  psy :: psys
  clk :: u32
  ms :: u32
  jlog :: joblog
  malloc_ok :: bool
  TimeOutValue :: u8
  HostName :: "u8 list"
  BoxName :: "u8 list"
  UnixHold :: u8
  ServiceProcIsBusy :: bool
  CurJobQueueID :: int
  HadLogged :: u8
  tbuffer :: "u8 list"
  buffercount :: nat
  tnext :: u8
  lpr_tasks :: "(int \<times> nat \<times> nat) list"
  mbox :: "arrival list"
  wire :: "u8 list"
  lastdata :: "u8 list"
  rxdead :: bool
  netbuf_ok :: bool
  api_msg_ok :: bool
  sent :: "u8 list"
  acks :: nat
  obuf :: "u8 list"
  fclosed :: bool
  ipp :: ippq

text \<open>
  \<open>tnext\<close> is the byte of memory after the array \<open>tbuffer\<close>; \<open>lpr_tasks\<close> are the entries \<open>num\<close>,
  \<open>flag\<close> and \<open>needrelase\<close> of \<open>LPRTaskInUse\<close>. The other fields are one connection's, or globals of
  the daemons: \<open>wire\<close> are the bytes the peer has sent that have not arrived; \<open>lastdata\<close> is the unread rest of the
  last segment, empty for a null pointer; \<open>rxdead\<close> says that \<open>netconn_recv\<close> gives no more: the mailbox was freed
  after the end of the connection (\<open>recvmbox\<close> is null), or the connection has failed (\<open>err\<close> is not
  \<open>ERR_OK\<close>: it was reset, or memory ran out), what the mailbox still holds being lost; \<open>netbuf_ok\<close> and
  \<open>api_msg_ok\<close> say that the pools \<open>MEMP_NETBUF\<close> and \<open>MEMP_API_MSG\<close> are not empty; \<open>sent\<close> the bytes handed to \<open>lwip_send\<close>; \<open>obuf\<close> the buffered output of the file,
  whose length is \<open>offset\<close>; \<open>ipp\<close> the printing server's globals.
\<close>

type_synonym sched = "(world \<Rightarrow> world) list"

datatype fault = Overflow | Overread | NullWrite | BadIndex | NullRead | BadFree | Dangling

datatype 'a run = Blocked world | Fault fault | Done 'a sched world

primrec run_bind :: "'a run \<Rightarrow> ('a \<Rightarrow> sched \<Rightarrow> world \<Rightarrow> 'b run) \<Rightarrow> 'b run" where
  "run_bind (Blocked w) k = Blocked w"
| "run_bind (Fault e) k = Fault e"
| "run_bind (Done a fs w) k = k a fs w"

lemma run_bind_cong [fundef_cong]:
  "m = m' \<Longrightarrow> (\<And>a fs w. m' = Done a fs w \<Longrightarrow> k a fs w = k' a fs w) \<Longrightarrow> run_bind m k = run_bind m' k'"
  by (cases m') auto

lemma run_bind_Done: "run_bind m k = Done x fs w \<longleftrightarrow>
  (\<exists>a fs1 w1. m = Done a fs1 w1 \<and> k a fs1 w1 = Done x fs w)"
  by (cases m) auto

text \<open>What holds where a run ends; the run may also wait or fail.\<close>

primrec ends_with :: "('a \<Rightarrow> sched \<Rightarrow> world \<Rightarrow> bool) \<Rightarrow> 'a run \<Rightarrow> bool" where
  "ends_with Q (Blocked w) = True"
| "ends_with Q (Fault e) = True"
| "ends_with Q (Done a fs w) = Q a fs w"

lemma ends_with_bind:
  "ends_with P m \<Longrightarrow> (\<And>a fs w. m = Done a fs w \<Longrightarrow> P a fs w \<Longrightarrow> ends_with Q (k a fs w)) \<Longrightarrow> ends_with Q (run_bind m k)"
  by (cases m) auto

lemma ends_withD: "ends_with Q m \<Longrightarrow> m = Done a fs w \<Longrightarrow> Q a fs w"
  by simp

text \<open>The spooler inside the state.\<close>

abbreviation spl :: "world \<Rightarrow> spool" where
  "spl w \<equiv> sp (psy w)"

definition set_sp :: "spool \<Rightarrow> world \<Rightarrow> world" where
  "set_sp s w = w\<lparr>psy := (psy w)\<lparr>sp := s\<rparr>\<rparr>"

text \<open>The largest segment, \<open>BLOCK_SIZE\<close> of both \<open>rawtcpd.c\<close> and \<open>lpd.c\<close>.\<close>

definition BLOCK_SIZE :: nat where "BLOCK_SIZE = 1460"

section \<open>The connection\<close>

text \<open>\<open>cyg_thread_yield\<close>: the next step of the others, if any.\<close>

definition yield :: "sched \<Rightarrow> world \<Rightarrow> unit run" where
  "yield fs w = (case fs of [] \<Rightarrow> Done () [] w | f # fs' \<Rightarrow> Done () fs' (f w))"

text \<open>Waiting for the mailbox, \<open>sys_my_mbox_fetch\<close>.\<close>

fun fetch :: "sched \<Rightarrow> world \<Rightarrow> arrival run" where
  "fetch fs w =
     (case mbox w of
        a # r \<Rightarrow> Done a fs (w\<lparr>mbox := r\<rparr>)
      | [] \<Rightarrow> (case fs of [] \<Rightarrow> Blocked w | f # fs' \<Rightarrow> fetch fs' (f w)))"

declare fetch.simps [simp del]

text \<open>
  A timeout of the mailbox gives the same null pointer as the end of the connection, and is taken for
  it. When the message that tells the stack of the data cannot be allocated, the connection
  fails after this segment.
\<close>

definition netconn_recv :: "sched \<Rightarrow> world \<Rightarrow> arrival run" where
  "netconn_recv fs w =
     (if rxdead w then Done RxClosed fs w
      else if \<not> netbuf_ok w then Done RxClosed fs (w\<lparr>rxdead := True\<rparr>)
      else run_bind (fetch fs w) (\<lambda>a fs w.
        case a of
          Netbuf bs \<Rightarrow> Done a fs (if api_msg_ok w then w else w\<lparr>rxdead := True\<rparr>)
        | _ \<Rightarrow> Done RxClosed fs (w\<lparr>rxdead := True\<rparr>)))"

text \<open>The bytes copied out and what is kept for the next call. \<open>lwip_recvfrom\<close> also tests for a pointer
  \<open>0xFFFFFFFF\<close>, which \<open>netconn_recv\<close> does not return.\<close>

definition take_data :: "nat \<Rightarrow> u8 list \<Rightarrow> sched \<Rightarrow> world \<Rightarrow> (int \<times> u8 list) run" where
  "take_data len bs fs w =
     Done (int (min len (length bs)), take len bs) fs (w\<lparr>lastdata := drop len bs\<rparr>)"

definition lwip_recv :: "nat \<Rightarrow> sched \<Rightarrow> world \<Rightarrow> (int \<times> u8 list) run" where
  "lwip_recv len fs w =
     (if lastdata w \<noteq> [] then take_data len (lastdata w) fs w
      else run_bind (netconn_recv fs w) (\<lambda>a fs w.
        case a of
          Netbuf bs \<Rightarrow> take_data len bs fs w
        | RxTimeout \<Rightarrow> Done (-2, []) fs w
        | RxClosed \<Rightarrow> Done (-1, []) fs w))"

definition get_socket_rcevent :: "world \<Rightarrow> nat" where
  "get_socket_rcevent w = length (filter (\<lambda>a. a \<noteq> RxTimeout) (mbox w))"

definition sendack :: "world \<Rightarrow> world" where
  "sendack w = w\<lparr>acks := Suc (acks w)\<rparr>"

definition lwip_send :: "u8 list \<Rightarrow> world \<Rightarrow> world" where
  "lwip_send bs w = w\<lparr>sent := sent w @ bs\<rparr>"

text \<open>Status responses of \<open>lp.h\<close>.\<close>

definition RESPOND_OK :: "world \<Rightarrow> world" where
  "RESPOND_OK = lwip_send [0]"

definition RESPOND_ERR :: "world \<Rightarrow> world" where
  "RESPOND_ERR = lwip_send [0xFF]"

section \<open>The output file\<close>

definition zot_fputs :: "u8 list \<Rightarrow> world \<Rightarrow> world" where
  "zot_fputs s w =
     (let bytes = 1536 - length (obuf w)
      in if bytes < length s
         then (lwip_send (obuf w @ take bytes s) w)\<lparr>obuf := drop bytes s\<rparr>
         else w\<lparr>obuf := obuf w @ s\<rparr>)"

definition zot_fclose :: "world \<Rightarrow> world" where
  "zot_fclose w = (if obuf w \<noteq> [] then lwip_send (obuf w) w else w)\<lparr>obuf := [], fclosed := True\<rparr>"

section \<open>Queue buffers\<close>

definition port_status :: "world \<Rightarrow> u8" where
  "port_status w = fst (ReadPortStatus 0 (spl w))"

definition status :: "world \<Rightarrow> u8" where
  "status w = PrnGetPrinterStatus 0 (spl w)"

definition set_in_use :: "u8 \<Rightarrow> world \<Rightarrow> world" where
  "set_in_use v w = set_sp (PrnSetQueueInUse 0 v (spl w)) w"

text \<open>Bytes stored at \<open>pbuf->data[off]\<close>, and \<open>pbuf->size\<close>.\<close>

definition put_data :: "nat \<Rightarrow> nat \<Rightarrow> u8 list \<Rightarrow> world \<Rightarrow> world" where
  "put_data b off bs w =
     set_sp ((spl w)\<lparr>qmem := mem_write (qmem (spl w)) (b_data (buf (PrinterList (spl w) ! 0) ! b) + off) bs\<rparr>) w"

definition get_data :: "nat \<Rightarrow> nat \<Rightarrow> nat \<Rightarrow> world \<Rightarrow> u8 list" where
  "get_data b off n w = mem_read (qmem (spl w)) (b_data (buf (PrinterList (spl w) ! 0) ! b) + off) n"

definition set_size :: "nat \<Rightarrow> int \<Rightarrow> world \<Rightarrow> world" where
  "set_size b n w = set_sp (set_b_size 0 b n (spl w)) w"

definition size_of :: "nat \<Rightarrow> world \<Rightarrow> int" where
  "size_of b w = b_size (buf (PrinterList (spl w) ! 0) ! b)"

definition put_out :: "nat \<Rightarrow> u8 \<Rightarrow> world \<Rightarrow> world" where
  "put_out b f w = set_sp (PrnPutOutQueueBuf 0 b f (spl w)) w"

definition put_in :: "nat \<Rightarrow> world \<Rightarrow> world" where
  "put_in b w = set_sp (PrnPutInQueueBuf 0 b (spl w)) w"

text \<open>
  Keeping a connection alive while waiting: when more than \<open>lim\<close> ticks have passed since
  \<open>startime\<close> an ACK is sent (\<open>always\<close>, or only when \<open>startime\<close> is not 0) and the clock is read
  again.
\<close>

definition keep_alive :: "u32 \<Rightarrow> bool \<Rightarrow> u32 \<Rightarrow> world \<Rightarrow> u32 \<times> world" where
  "keep_alive lim always startime w =
     (if clk w - startime > lim
      then (clk w, if always \<or> startime \<noteq> 0 then sendack w else w)
      else (startime, w))"

text \<open>The busy-wait of every daemon for a free buffer; returns the buffer and \<open>startime\<close>.\<close>

fun wait_in_buf :: "u32 \<Rightarrow> bool \<Rightarrow> u32 \<Rightarrow> sched \<Rightarrow> world \<Rightarrow> (nat \<times> u32) run" where
  "wait_in_buf lim always startime fs w =
     (case PrnGetInQueueBuf 0 (spl w) of
        (Some b, s) \<Rightarrow> Done (b, startime) fs (set_sp s w)
      | (None, _) \<Rightarrow>
          (let (st, w1) = keep_alive lim always startime w
           in case fs of [] \<Rightarrow> Blocked w1 | f # fs' \<Rightarrow> wait_in_buf lim always st fs' (f w1)))"

declare wait_in_buf.simps [simp del]

lemma wait_in_buf_some: "PrnGetInQueueBuf 0 (spl w) = (Some b, s) \<Longrightarrow>
  wait_in_buf lim always st fs w = Done (b, st) fs (set_sp s w)"
  by (subst wait_in_buf.simps) simp

lemma wait_in_buf_none:
  assumes "PrnGetInQueueBuf 0 (spl w) = (None, s)" "keep_alive lim always st w = (st', w')"
  shows "wait_in_buf lim always st [] w = Blocked w'"
    "wait_in_buf lim always st (f # fs) w = wait_in_buf lim always st' fs (f w')"
  using assms by (subst wait_in_buf.simps, simp)+

section \<open>Job log calls\<close>

definition log_put :: "u8 \<Rightarrow> u8 list \<Rightarrow> nat \<Rightarrow> sched \<Rightarrow> world \<Rightarrow> unit run" where
  "log_put proto person n fs w =
     (case JL_PutList proto 0 person n (ms w) (malloc_ok w) (jlog w) of
        None \<Rightarrow> Fault NullWrite
      | Some jl \<Rightarrow> Done () fs (w\<lparr>jlog := jl\<rparr>))"

definition log_add :: "int \<Rightarrow> world \<Rightarrow> world" where
  "log_add n w = w\<lparr>jlog := JL_AddSize 0 (word_of_int n) (jlog w)\<rparr>"

definition log_end :: "u8 \<Rightarrow> world \<Rightarrow> world" where
  "log_end st w = w\<lparr>jlog := JL_EndList 0 st (ms w) (jlog w)\<rparr>"

section \<open>Termination measures\<close>

fun arr_len :: "arrival \<Rightarrow> nat" where
  "arr_len (Netbuf bs) = Suc (length bs)"
| "arr_len _ = 1"

definition rx_left :: "world \<Rightarrow> nat" where
  "rx_left w = length (lastdata w) + sum_list (map arr_len (mbox w))"

definition pot :: "(sched \<times> world) rel" where
  "pot = measures [\<lambda>(fs, w). length fs, \<lambda>(fs, w). rx_left w]"

lemma wf_pot [simp]: "wf pot"
  by (simp add: pot_def)

lemma pot_iff: "((fs', w'), (fs, w)) \<in> pot \<longleftrightarrow>
  length fs' < length fs \<or> length fs' = length fs \<and> rx_left w' < rx_left w"
  by (auto simp: pot_def)

text \<open>What is left does not grow: the schedule gets shorter, or nothing was added to the mailbox.\<close>

definition pot_le :: "sched \<Rightarrow> world \<Rightarrow> sched \<Rightarrow> world \<Rightarrow> bool" where
  "pot_le fs' w' fs w \<longleftrightarrow> length fs' < length fs \<or> length fs' = length fs \<and> rx_left w' \<le> rx_left w"

lemma pot_le_refl [simp]: "pot_le fs w fs w"
  by (simp add: pot_le_def)

lemma pot_le_trans: "pot_le c w3 b w2 \<Longrightarrow> pot_le b w2 a w1 \<Longrightarrow> pot_le c w3 a w1"
  by (auto simp: pot_le_def)

lemma pot_le_less: "((c, w3), (b, w2)) \<in> pot \<Longrightarrow> pot_le b w2 a w1 \<Longrightarrow> ((c, w3), (a, w1)) \<in> pot"
  by (auto simp: pot_le_def pot_iff)

lemma pot_less_le: "pot_le c w3 b w2 \<Longrightarrow> ((b, w2), (a, w1)) \<in> pot \<Longrightarrow> ((c, w3), (a, w1)) \<in> pot"
  by (auto simp: pot_le_def pot_iff)

lemma set_sp_simps [simp]:
  "psy (set_sp s w) = (psy w)\<lparr>sp := s\<rparr>" "clk (set_sp s w) = clk w" "ms (set_sp s w) = ms w"
  "jlog (set_sp s w) = jlog w" "malloc_ok (set_sp s w) = malloc_ok w"
  "TimeOutValue (set_sp s w) = TimeOutValue w" "HostName (set_sp s w) = HostName w" "BoxName (set_sp s w) = BoxName w"
  "UnixHold (set_sp s w) = UnixHold w" "ServiceProcIsBusy (set_sp s w) = ServiceProcIsBusy w"
  "CurJobQueueID (set_sp s w) = CurJobQueueID w" "HadLogged (set_sp s w) = HadLogged w"
  "tbuffer (set_sp s w) = tbuffer w" "buffercount (set_sp s w) = buffercount w"
  "tnext (set_sp s w) = tnext w" "lpr_tasks (set_sp s w) = lpr_tasks w"
  "mbox (set_sp s w) = mbox w" "wire (set_sp s w) = wire w" "lastdata (set_sp s w) = lastdata w"
  "rxdead (set_sp s w) = rxdead w" "sent (set_sp s w) = sent w" "acks (set_sp s w) = acks w"
  "obuf (set_sp s w) = obuf w" "fclosed (set_sp s w) = fclosed w"
  "ipp (set_sp s w) = ipp w" "netbuf_ok (set_sp s w) = netbuf_ok w" "api_msg_ok (set_sp s w) = api_msg_ok w"
  by (simp_all add: set_sp_def)

lemma rx_left_cong: "lastdata w' = lastdata w \<Longrightarrow> mbox w' = mbox w \<Longrightarrow> rx_left w' = rx_left w"
  by (simp add: rx_left_def)

lemma rx_left_simps [simp]:
  "rx_left (set_sp s w) = rx_left w" "rx_left (put_data b off bs w) = rx_left w"
  "rx_left (set_size b n w) = rx_left w" "rx_left (put_out b f w) = rx_left w"
  "rx_left (put_in b w) = rx_left w" "rx_left (log_add n w) = rx_left w"
  "rx_left (sendack w) = rx_left w" "rx_left (set_in_use v w) = rx_left w"
  by (simp_all add: rx_left_def put_data_def set_size_def put_out_def put_in_def log_add_def sendack_def
      set_in_use_def)

lemma yield_pot: "yield fs w = Done u fs' w' \<Longrightarrow> pot_le fs' w' fs w"
  by (auto simp: yield_def pot_le_def split: list.splits)

lemma fetch_pot: "fetch fs w = Done a fs' w' \<Longrightarrow>
  length fs' < length fs \<or> fs' = fs \<and> (\<exists>r. mbox w = a # r \<and> w' = w\<lparr>mbox := r\<rparr>)"
proof (induction fs w rule: fetch.induct)
  case (1 fs w)
  show ?case
  proof (cases "mbox w")
    case Nil
    with 1 show ?thesis by (subst (asm) (2) fetch.simps) (auto split: list.splits)
  next
    case (Cons b r)
    with 1(2) show ?thesis by (subst (asm) fetch.simps) auto
  qed
qed

lemma wait_in_buf_pot:
  "wait_in_buf lim always st fs w = Done r fs' w' \<Longrightarrow> pot_le fs' w' fs w"
proof (induction fs arbitrary: st w)
  case Nil
  obtain ob s where g: "PrnGetInQueueBuf 0 (spl w) = (ob, s)" by fastforce
  obtain st1 w1 where k: "keep_alive lim always st w = (st1, w1)" by fastforce
  show ?case
    using Nil g wait_in_buf_none [OF _ k] wait_in_buf_some [of w] by (cases ob) (auto simp: pot_le_def)
next
  case (Cons f gs)
  obtain ob s where g: "PrnGetInQueueBuf 0 (spl w) = (ob, s)" by fastforce
  obtain st1 w1 where k: "keep_alive lim always st w = (st1, w1)" by fastforce
  show ?case
  proof (cases ob)
    case None
    with g Cons.prems wait_in_buf_none(2) [OF _ k]
    have "wait_in_buf lim always st1 gs (f w1) = Done r fs' w'" by simp
    from Cons.IH [OF this] show ?thesis by (auto simp: pot_le_def)
  next
    case (Some b)
    with g Cons.prems wait_in_buf_some [of w] show ?thesis by (auto simp: pot_le_def)
  qed
qed

text \<open>A receive takes an event from the mailbox, or finds the connection dead.\<close>

lemma netconn_recv_rx:
  assumes "netconn_recv fs w = Done a fs' w'"
  shows "a \<noteq> RxTimeout" "length fs' < length fs \<or> fs' = fs \<and> lastdata w' = lastdata w \<and>
    (mbox w' = mbox w \<and> a = RxClosed \<or> (\<exists>e. mbox w = e # mbox w' \<and> (a = RxClosed \<or> e = a)))"
proof -
  consider "rxdead w \<or> \<not> netbuf_ok w" | e fs1 w1 where "\<not> rxdead w" "netbuf_ok w" "fetch fs w = Done e fs1 w1"
    using assms by (cases "rxdead w \<or> \<not> netbuf_ok w"; cases "fetch fs w") (auto simp: netconn_recv_def)
  then have "a \<noteq> RxTimeout \<and> (length fs' < length fs \<or> fs' = fs \<and> lastdata w' = lastdata w \<and>
    (mbox w' = mbox w \<and> a = RxClosed \<or> (\<exists>e. mbox w = e # mbox w' \<and> (a = RxClosed \<or> e = a))))"
  proof cases
    case 1
    then show ?thesis using assms by (cases "rxdead w") (auto simp: netconn_recv_def)
  next
    case 2
    from fetch_pot [OF 2(3)] 2 assms show ?thesis
      by (cases e) (auto simp: netconn_recv_def)
  qed
  then show "a \<noteq> RxTimeout" "length fs' < length fs \<or> fs' = fs \<and> lastdata w' = lastdata w \<and>
    (mbox w' = mbox w \<and> a = RxClosed \<or> (\<exists>e. mbox w = e # mbox w' \<and> (a = RxClosed \<or> e = a)))" by auto
qed

lemma lwip_recv_rx:
  assumes "lwip_recv len fs w = Done (n, bs) fs' w'"
  shows "length fs' < length fs \<or> fs' = fs \<and> rx_left w' + nat n \<le> rx_left w \<and>
    (0 \<le> n \<longrightarrow> 0 < len \<or> 0 < n \<longrightarrow> rx_left w' < rx_left w)"
proof (cases "lastdata w = []")
  case False
  with assms show ?thesis by (auto simp: lwip_recv_def take_data_def rx_left_def)
next
  case True
  with assms obtain a w1 where r: "netconn_recv fs w = Done a fs' w1"
    and c: "case a of Netbuf xs \<Rightarrow> n = int (min len (length xs)) \<and> w' = w1\<lparr>lastdata := drop len xs\<rparr> | _ \<Rightarrow> n < 0 \<and> w' = w1"
    by (cases "netconn_recv fs w") (auto simp: lwip_recv_def take_data_def split: arrival.splits)
  note rx = netconn_recv_rx [OF r]
  show ?thesis using rx c True by (cases a) (auto simp: rx_left_def)
qed

lemma lwip_recv_pot:
  "lwip_recv len fs w = Done (r, bs) fs' w' \<Longrightarrow> 0 \<le> r \<Longrightarrow> 0 < len \<or> 0 < r \<Longrightarrow> ((fs', w'), (fs, w)) \<in> pot"
  using lwip_recv_rx by (fastforce simp: pot_iff)

end
