(* ===== verification/Net_Job.thy ===== *)
theory Net_Job
  imports Net_Conn
begin

text \<open>
  The contract between a print daemon and the threads that run while it waits, and the rules for
  the daemon's operations under it. \<open>holds m B Q\<close> says that the run \<open>m\<close> has no fault, that \<open>B\<close>
  holds where it is left waiting and \<open>Q\<close> where it ends.
\<close>

unbundle bit_operations_syntax

section \<open>Runs\<close>

primrec holds :: "'a run \<Rightarrow> (world \<Rightarrow> bool) \<Rightarrow> ('a \<Rightarrow> sched \<Rightarrow> world \<Rightarrow> bool) \<Rightarrow> bool" where
  "holds (Blocked w) B Q = B w"
| "holds (Fault e) B Q = False"
| "holds (Done a fs w) B Q = Q a fs w"

lemma holds_bind:
  "holds m B P \<Longrightarrow> (\<And>a fs w. P a fs w \<Longrightarrow> holds (k a fs w) B Q) \<Longrightarrow> holds (run_bind m k) B Q"
  by (cases m) auto

lemma holds_bind_eq:
  "holds m B P \<Longrightarrow> (\<And>a fs w. m = Done a fs w \<Longrightarrow> P a fs w \<Longrightarrow> holds (k a fs w) B Q) \<Longrightarrow>
   holds (run_bind m k) B Q"
  by (cases m) auto

lemma holds_mono:
  "holds m B P \<Longrightarrow> (\<And>w. B w \<Longrightarrow> B' w) \<Longrightarrow> (\<And>a fs w. P a fs w \<Longrightarrow> Q a fs w) \<Longrightarrow> holds m B' Q"
  by (cases m) auto

section \<open>The stream of a connection\<close>

fun data_of :: "arrival list \<Rightarrow> u8 list" where
  "data_of [] = []"
| "data_of (Netbuf bs # r) = bs @ data_of r"
| "data_of (_ # r) = data_of r"

definition stream :: "world \<Rightarrow> u8 list" where
  "stream w = lastdata w @ data_of (mbox w) @ wire w"

text \<open>Segments are not empty, there is no timeout, nothing follows the end of the connection, and there is
  memory to receive.\<close>

fun mbox_tidy :: "arrival list \<Rightarrow> bool" where
  "mbox_tidy [] = True"
| "mbox_tidy (Netbuf bs # r) \<longleftrightarrow> bs \<noteq> [] \<and> mbox_tidy r"
| "mbox_tidy (RxClosed # r) \<longleftrightarrow> r = []"
| "mbox_tidy (RxTimeout # r) = False"

definition tidy :: "world \<Rightarrow> bool" where
  "tidy w \<longleftrightarrow> mbox_tidy (mbox w) \<and> (RxClosed \<in> set (mbox w) \<longrightarrow> wire w = []) \<and>
     (rxdead w \<longrightarrow> mbox w = [] \<and> wire w = []) \<and> netbuf_ok w \<and> api_msg_ok w"

abbreviation memp_ok :: "world \<Rightarrow> bool" where
  "memp_ok w \<equiv> netbuf_ok w \<and> api_msg_ok w"

section \<open>The other threads\<close>

definition buf_area :: "nat \<Rightarrow> world \<Rightarrow> u8 list" where
  "buf_area b w = get_data b 0 (BLOCKSIZE + 20) w"

text \<open>What a daemon that holds the buffers \<open>H\<close> may rely on; \<open>frame\<close> is what belongs to its job alone.\<close>

definition frame :: "world \<Rightarrow> world \<Rightarrow> bool" where
  "frame w w' \<longleftrightarrow> sent w' = sent w \<and> obuf w' = obuf w \<and> fclosed w' = fclosed w \<and>
     HadLogged w' = HadLogged w \<and> tbuffer w' = tbuffer w \<and> buffercount w' = buffercount w \<and>
     CurJobQueueID w' = CurJobQueueID w \<and> malloc_ok w' = malloc_ok w"

definition same_job :: "nat set \<Rightarrow> world \<Rightarrow> world \<Rightarrow> bool" where
  "same_job H w w' \<longleftrightarrow>
     (\<forall>b\<in>H. size_of b w' = size_of b w \<and> buf_area b w' = buf_area b w) \<and>
     status w' = status w \<and> jlog w' = jlog w \<and> frame w w'"

lemma frame_refl [simp]: "frame w w"
  by (simp add: frame_def)

lemma frame_trans: "frame a b \<Longrightarrow> frame b c \<Longrightarrow> frame a c"
  by (simp add: frame_def)

lemma same_job_refl [simp]: "same_job H w w"
  by (simp add: same_job_def)

lemma same_job_trans: "same_job H a b \<Longrightarrow> same_job H b c \<Longrightarrow> same_job H a c"
  by (auto simp: same_job_def intro: frame_trans)

lemma same_job_mono: "same_job H a b \<Longrightarrow> H' \<subseteq> H \<Longrightarrow> same_job H' a b"
  by (auto simp: same_job_def)

text \<open>
  A step of another thread or of the network: it keeps the printing invariant, leaves the buffers
  the daemon holds and the owner of the port alone, and loses nothing of the connection's data: the
  connection does not fail (\<open>rxdead\<close> stays as it is) and memory to receive does not run out.
\<close>

locale other_thread =
  fixes act :: "world \<Rightarrow> world"
  assumes keeps_inv: "pp_inv (psy w) H sub \<Longrightarrow> pp_inv (psy (act w)) H sub"
    and keeps_job: "pp_inv (psy w) H sub \<Longrightarrow> same_job H w (act w)"
    and keeps_data: "stream (act w) = stream w" "lastdata (act w) = lastdata w" "rxdead (act w) = rxdead w"
    and keeps_tidy: "tidy w \<Longrightarrow> tidy (act w)"

text \<open>The invariant of a daemon's thread.\<close>

definition job_inv :: "nat set \<Rightarrow> u8 list \<Rightarrow> sched \<Rightarrow> world \<Rightarrow> bool" where
  "job_inv H sub fs w \<longleftrightarrow> pp_inv (psy w) H sub \<and> tidy w \<and> (\<forall>f\<in>set fs. other_thread f)"

context other_thread
begin

lemma act_job: "job_inv H sub (act # fs) w \<Longrightarrow>
  job_inv H sub fs (act w) \<and> same_job H w (act w) \<and> stream (act w) = stream w \<and>
  lastdata (act w) = lastdata w \<and> rxdead (act w) = rxdead w"
  by (auto simp: job_inv_def keeps_inv keeps_data keeps_tidy intro: keeps_job)

end

lemma job_inv_step:
  assumes "job_inv H sub (f # fs) w"
  shows "job_inv H sub fs (f w)" "same_job H w (f w)" "stream (f w) = stream w"
    "lastdata (f w) = lastdata w" "rxdead (f w) = rxdead w"
proof -
  have "other_thread f" using assms by (simp add: job_inv_def)
  from other_thread.act_job [OF this assms]
  show "job_inv H sub fs (f w)" "same_job H w (f w)" "stream (f w) = stream w"
    "lastdata (f w) = lastdata w" "rxdead (f w) = rxdead w" by simp_all
qed

lemma yield_job:
  assumes "job_inv H sub fs w"
  shows "holds (yield fs w) B (\<lambda>_ fs' w'. job_inv H sub fs' w' \<and> same_job H w w' \<and> stream w' = stream w)"
  using assms job_inv_step by (cases fs) (auto simp: yield_def)

section \<open>Receiving\<close>

lemma data_of_append [simp]: "data_of (a @ b) = data_of a @ data_of b"
  by (induction a rule: data_of.induct) auto

lemma stream_cong: "lastdata w' = lastdata w \<Longrightarrow> mbox w' = mbox w \<Longrightarrow> wire w' = wire w \<Longrightarrow> stream w' = stream w"
  by (simp add: stream_def)

lemma tidy_cong: "mbox w' = mbox w \<Longrightarrow> wire w' = wire w \<Longrightarrow> rxdead w' = rxdead w \<Longrightarrow>
  netbuf_ok w' = netbuf_ok w \<Longrightarrow> api_msg_ok w' = api_msg_ok w \<Longrightarrow> tidy w' = tidy w"
  by (simp add: tidy_def)

lemma conn_simps [simp]:
  "size_of b (w\<lparr>mbox := m\<rparr>) = size_of b w" "size_of b (w\<lparr>lastdata := d\<rparr>) = size_of b w"
  "size_of b (w\<lparr>rxdead := x\<rparr>) = size_of b w" "size_of b (sendack w) = size_of b w"
  "buf_area b (w\<lparr>mbox := m\<rparr>) = buf_area b w" "buf_area b (w\<lparr>lastdata := d\<rparr>) = buf_area b w"
  "buf_area b (w\<lparr>rxdead := x\<rparr>) = buf_area b w" "buf_area b (sendack w) = buf_area b w"
  "status (w\<lparr>mbox := m\<rparr>) = status w" "status (w\<lparr>lastdata := d\<rparr>) = status w"
  "status (w\<lparr>rxdead := x\<rparr>) = status w" "status (sendack w) = status w"
  "psy (sendack w) = psy w" "stream (sendack w) = stream w" "tidy (sendack w) = tidy w"
  "jlog (sendack w) = jlog w" "lastdata (sendack w) = lastdata w" "mbox (sendack w) = mbox w"
  "rxdead (sendack w) = rxdead w" "clk (sendack w) = clk w" "netbuf_ok (sendack w) = netbuf_ok w" "api_msg_ok (sendack w) = api_msg_ok w"
  by (simp_all add: size_of_def buf_area_def get_data_def status_def sendack_def stream_def tidy_def)

lemma fclosed_simps [simp]:
  "stream (w\<lparr>fclosed := c\<rparr>) = stream w" "status (w\<lparr>fclosed := c\<rparr>) = status w"
  by (simp_all add: stream_def status_def)

lemma same_job_simps [simp]:
  "same_job H w (w'\<lparr>mbox := m\<rparr>) = same_job H w w'" "same_job H w (w'\<lparr>lastdata := d\<rparr>) = same_job H w w'"
  "same_job H w (w'\<lparr>rxdead := x\<rparr>) = same_job H w w'" "same_job H w (sendack w') = same_job H w w'"
  by (simp_all add: same_job_def frame_def) (simp add: sendack_def)

lemma fetch_job:
  assumes "job_inv H sub fs w"
  shows "holds (fetch fs w)
    (\<lambda>w'. pp_inv (psy w') H sub \<and> tidy w' \<and> same_job H w w' \<and> stream w' = stream w \<and> mbox w' = [] \<and>
       lastdata w' = lastdata w \<and> rxdead w' = rxdead w)
    (\<lambda>a fs' w'. \<exists>w1. job_inv H sub fs' w1 \<and> same_job H w w1 \<and> stream w1 = stream w \<and>
       lastdata w1 = lastdata w \<and> rxdead w1 = rxdead w \<and>
       (\<exists>r. mbox w1 = a # r \<and> w' = w1\<lparr>mbox := r\<rparr>))"
  using assms
proof (induction fs w rule: fetch.induct)
  case (1 fs w)
  show ?case
  proof (cases "mbox w")
    case Nil
    show ?thesis
    proof (cases fs)
      case Nil
      with \<open>mbox w = []\<close> 1(2) show ?thesis by (subst fetch.simps) (simp add: job_inv_def)
    next
      case (Cons f gs)
      note st = job_inv_step [OF 1(2) [unfolded Cons]]
      have "fetch fs w = fetch gs (f w)" using Nil Cons by (subst fetch.simps) simp
      with 1(1) [OF Nil Cons st(1)] show ?thesis
        unfolding st(3-5) using same_job_trans [OF st(2)] by (auto elim!: holds_mono)
    qed
  next
    case (Cons a r)
    with Cons 1(2) show ?thesis by (subst fetch.simps) (auto intro!: exI [of _ w])
  qed
qed

text \<open>What \<open>recv\<close> returns: some bytes of the stream, or -1 when all of it was read and the peer closed.\<close>

definition recv_ok :: "nat \<Rightarrow> world \<Rightarrow> int \<Rightarrow> u8 list \<Rightarrow> world \<Rightarrow> bool" where
  "recv_ok len w r bs w' \<longleftrightarrow>
     bs \<noteq> [] \<and> r = int (length bs) \<and> length bs \<le> len \<and> stream w = bs @ stream w' \<or>
     bs = [] \<and> r = -1 \<and> stream w = [] \<and> stream w' = [] \<and> rxdead w'"

lemma recv_job:
  assumes inv: "job_inv H sub fs w" and len: "0 < len"
  shows "holds (lwip_recv len fs w)
    (\<lambda>w'. pp_inv (psy w') H sub \<and> same_job H w w' \<and> stream w' = stream w \<and> lastdata w' = [] \<and>
       mbox w' = [] \<and> \<not> rxdead w')
    (\<lambda>(r, bs) fs' w'. job_inv H sub fs' w' \<and> same_job H w w' \<and> recv_ok len w r bs w')"
proof (cases "lastdata w = []")
  case False
  let ?w = "w\<lparr>lastdata := drop len (lastdata w)\<rparr>"
  have "stream w = take len (lastdata w) @ stream ?w" by (simp add: stream_def)
  moreover have "job_inv H sub fs ?w" using inv tidy_cong [of ?w w] by (simp add: job_inv_def)
  ultimately show ?thesis using False len
    by (simp add: lwip_recv_def take_data_def recv_ok_def min.commute)
next
  case ld: True
  show ?thesis
  proof (cases "rxdead w")
    case True
    with inv ld have "stream w = []" by (simp add: job_inv_def tidy_def stream_def)
    with True ld inv show ?thesis by (simp add: lwip_recv_def netconn_recv_def recv_ok_def)
  next
    case False
    have got: "(case a of Netbuf bs \<Rightarrow> bs \<noteq> [] \<and> stream w = bs @ stream w'
          | RxClosed \<Rightarrow> stream w = [] \<and> stream (w'\<lparr>rxdead := True\<rparr>) = [] | RxTimeout \<Rightarrow> False) \<and>
        lastdata w' = [] \<and> job_inv H sub fs' (if a = RxClosed then w'\<lparr>rxdead := True\<rparr> else w') \<and>
        same_job H w w' \<and> api_msg_ok w'"
      if "job_inv H sub fs' w1" "same_job H w w1" "stream w1 = stream w" "lastdata w1 = lastdata w"
        "rxdead w1 = rxdead w" "mbox w1 = a # r" "w' = w1\<lparr>mbox := r\<rparr>" for a fs' w' w1 r
      using that ld False by (cases a) (auto simp: job_inv_def tidy_def stream_def)
    have nb: "\<not> \<not> netbuf_ok w" using inv by (simp add: job_inv_def tidy_def)
    have "holds (netconn_recv fs w)
      (\<lambda>w'. pp_inv (psy w') H sub \<and> same_job H w w' \<and> stream w' = stream w \<and> lastdata w' = [] \<and> mbox w' = [] \<and> \<not> rxdead w')
      (\<lambda>a fs' w'. job_inv H sub fs' w' \<and> same_job H w w' \<and> lastdata w' = [] \<and>
         (case a of Netbuf bs \<Rightarrow> bs \<noteq> [] \<and> stream w = bs @ stream w'
          | RxClosed \<Rightarrow> stream w = [] \<and> stream w' = [] \<and> rxdead w' | RxTimeout \<Rightarrow> False))"
      unfolding netconn_recv_def if_not_P [OF False] if_not_P [OF nb]
    proof (rule holds_bind [OF holds_mono [OF fetch_job [OF inv]]])
      fix a fs' w'
      assume "\<exists>w1. job_inv H sub fs' w1 \<and> same_job H w w1 \<and> stream w1 = stream w \<and>
        lastdata w1 = lastdata w \<and> rxdead w1 = rxdead w \<and> (\<exists>r. mbox w1 = a # r \<and> w' = w1\<lparr>mbox := r\<rparr>)"
      then show "(case a of Netbuf bs \<Rightarrow> bs \<noteq> [] \<and> stream w = bs @ stream w'
          | RxClosed \<Rightarrow> stream w = [] \<and> stream (w'\<lparr>rxdead := True\<rparr>) = [] | RxTimeout \<Rightarrow> False) \<and>
        lastdata w' = [] \<and> job_inv H sub fs' (if a = RxClosed then w'\<lparr>rxdead := True\<rparr> else w') \<and>
        same_job H w w' \<and> api_msg_ok w'"
        using got by blast
    qed (use ld False in \<open>auto split: arrival.splits\<close>)
    moreover have "job_inv H sub fs' (w'\<lparr>lastdata := d\<rparr>) = job_inv H sub fs' w'" for fs' w' d
      using tidy_cong [of "w'\<lparr>lastdata := d\<rparr>" w'] by (simp add: job_inv_def)
    moreover have "stream (w'\<lparr>lastdata := d\<rparr>) = d @ stream w'" if "lastdata w' = []" for w' d
      using that by (simp add: stream_def)
    ultimately show ?thesis
      unfolding lwip_recv_def using ld len
      by (auto simp: take_data_def recv_ok_def min.commute split: arrival.splits elim!: holds_bind)
  qed
qed

section \<open>Waiting\<close>

text \<open>
  Where a daemon may be left waiting: it wants the port (\<open>busy\<close>), a free buffer or more data. What it
  has submitted so far is the beginning of the job's output \<open>T\<close>.
\<close>

definition waits :: "(world \<Rightarrow> bool) \<Rightarrow> u8 list \<Rightarrow> u8 list \<Rightarrow> world \<Rightarrow> bool" where
  "waits busy sub T w \<longleftrightarrow>
     (busy w \<or> frees_of 0 (spl w) = [] \<or> mbox w = [] \<and> lastdata w = [] \<and> \<not> rxdead w) \<and>
     (\<exists>H d rest. pp_inv (psy w) H (sub @ d) \<and> T = d @ rest)"

lemma waits_shift: "waits busy (sub @ d) T' w \<Longrightarrow> T = d @ T' \<Longrightarrow> waits busy sub T w"
  unfolding waits_def by (metis append.assoc)

lemma waitsI:
  "busy w \<or> frees_of 0 (spl w) = [] \<or> mbox w = [] \<and> lastdata w = [] \<and> \<not> rxdead w \<Longrightarrow>
   pp_inv (psy w) H sub \<Longrightarrow> waits busy sub T w"
  unfolding waits_def by (metis append_Nil append_Nil2)

section \<open>Buffers\<close>

text \<open>A daemon's operation on the spooler that leaves the payload of the buffers alone.\<close>

lemma area_same_bufs:
  assumes "same_bufs 0 (spl w) s" "b < length (buf (PrinterList (spl w) ! 0))"
  shows "size_of b (set_sp s w) = size_of b w" "buf_area b (set_sp s w) = buf_area b w"
    "status (set_sp s w) = status w"
  using same_bufs_field [OF assms(1)] assms
  by (simp_all add: size_of_def buf_area_def get_data_def status_def PrnGetPrinterStatus_def same_bufs_def)

lemma stream_set_sp [simp]: "stream (set_sp s w) = stream w" "tidy (set_sp s w) = tidy w"
  by (simp_all add: stream_def tidy_def)

lemma job_inv_len: "job_inv H sub fs w \<Longrightarrow> length (buf (PrinterList (spl w) ! 0)) = PRNQUEUELEN"
  using pp_invD(2) spool_inv_len unfolding job_inv_def by blast

lemma job_inv_sub: "job_inv H sub fs w \<Longrightarrow> H \<subseteq> {..<PRNQUEUELEN}"
  using pp_invD(7) unfolding job_inv_def by blast

lemma set_sp_job:
  assumes inv: "job_inv H sub fs w" and pay: "same_bufs 0 (spl w) s" and "H' \<subseteq> H"
    and "pp_inv ((psy w)\<lparr>sp := s\<rparr>) H'' sub'"
  shows "job_inv H'' sub' fs (set_sp s w) \<and> same_job H' w (set_sp s w) \<and> stream (set_sp s w) = stream w"
proof -
  have "b < length (buf (PrinterList (spl w) ! 0))" if "b \<in> H'" for b
    using that assms(3) job_inv_len [OF inv] job_inv_sub [OF inv] by auto
  moreover have "status (set_sp s w) = status w"
    using pay by (simp add: status_def PrnGetPrinterStatus_def same_bufs_def)
  ultimately show ?thesis
    using area_same_bufs [OF pay] assms by (auto simp: job_inv_def same_job_def frame_def)
qed

lemma take_job:
  assumes inv: "job_inv H sub fs w" and g: "PrnGetInQueueBuf 0 (spl w) = (Some b, s)"
  shows "job_inv (insert b H) sub fs (set_sp s w) \<and> same_job H w (set_sp s w) \<and>
    stream (set_sp s w) = stream w \<and> b \<notin> H"
proof -
  have pi: "pp_inv (psy w) H sub" using inv by (simp add: job_inv_def)
  note d = pp_invD [OF pi]
  have "same_bufs 0 (spl w) s" using payload_get_in [OF d(3)] g by (auto intro: same_payload_bufs)
  from set_sp_job [OF inv this order_refl pp_inv_take [OF pi g]]
  have "job_inv (insert b H) sub fs (set_sp s w) \<and> same_job H w (set_sp s w) \<and> stream (set_sp s w) = stream w" .
  moreover have "b \<in> set (frees_of 0 (spl w))" using pq.get_in_SomeE [OF d(1) g] by (metis list.set_intros(1))
  then have "b \<notin> H" using d(6) by auto
  ultimately show ?thesis by blast
qed

lemma job_inv_ack [simp]: "job_inv H sub fs (sendack w) = job_inv H sub fs w"
  by (simp add: job_inv_def)

lemma wait_in_buf_job:
  assumes "job_inv H sub fs w"
  shows "holds (wait_in_buf lim always st fs w)
    (\<lambda>w'. pp_inv (psy w') H sub \<and> same_job H w w' \<and> stream w' = stream w \<and> frees_of 0 (spl w') = [])
    (\<lambda>(b, _) fs' w'. job_inv (insert b H) sub fs' w' \<and> same_job H w w' \<and> stream w' = stream w \<and> b \<notin> H)"
  using assms
proof (induction fs arbitrary: st w)
  case Nil
  obtain ob s where g: "PrnGetInQueueBuf 0 (spl w) = (ob, s)" by fastforce
  obtain st1 w1 where k: "keep_alive lim always st w = (st1, w1)" by fastforce
  have w1: "w1 = w \<or> w1 = sendack w" using k by (auto simp: keep_alive_def split: if_splits)
  show ?case
  proof (cases ob)
    case None
    have "port_inv 0 (spl w)" using Nil pp_invD(1) by (auto simp: job_inv_def)
    then have "frees_of 0 (spl w) = []"
      using g None pq.get_in_some by (cases "frees_of 0 (spl w)") fastforce+
    with None g wait_in_buf_none(1) [OF _ k] w1 Nil show ?thesis by (auto simp: job_inv_def)
  next
    case (Some b)
    with g take_job [OF Nil] show ?thesis by (simp add: wait_in_buf_some)
  qed
next
  case (Cons f fs)
  obtain ob s where g: "PrnGetInQueueBuf 0 (spl w) = (ob, s)" by fastforce
  obtain st1 w1 where k: "keep_alive lim always st w = (st1, w1)" by fastforce
  have w1: "w1 = w \<or> w1 = sendack w" using k by (auto simp: keep_alive_def split: if_splits)
  show ?case
  proof (cases ob)
    case None
    have i: "job_inv H sub (f # fs) w1" "same_job H w w1" "stream w1 = stream w" using w1 Cons.prems by auto
    note st = job_inv_step [OF i(1)]
    have "wait_in_buf lim always st (f # fs) w = wait_in_buf lim always st1 fs (f w1)"
      using g None wait_in_buf_none(2) [OF _ k] by simp
    with Cons.IH [OF st(1), of st1] show ?thesis
      using same_job_trans [OF i(2) same_job_trans [OF st(2)]] st(3) i(3) by (auto elim!: holds_mono)
  next
    case (Some b)
    with g take_job [OF Cons.prems] show ?thesis by (simp add: wait_in_buf_some)
  qed
qed

lemma wait_in_buf_waits:
  assumes "job_inv H sub fs w"
  shows "holds (wait_in_buf lim always st fs w) (waits busy sub T)
    (\<lambda>(b, _) fs' w'. job_inv (insert b H) sub fs' w' \<and> same_job H w w' \<and> stream w' = stream w \<and> b \<notin> H)"
  by (rule holds_mono [OF wait_in_buf_job [OF assms]]) (auto intro: waitsI)

lemma recv_waits:
  assumes "job_inv H sub fs w" "0 < len"
  shows "holds (lwip_recv len fs w) (waits busy sub T)
    (\<lambda>(r, bs) fs' w'. job_inv H sub fs' w' \<and> same_job H w w' \<and> recv_ok len w r bs w')"
  by (rule holds_mono [OF recv_job [OF assms]]) (auto intro: waitsI)

lemma put_out_job:
  assumes inv: "job_inv H sub fs w" and b: "b \<in> H"
  shows "job_inv (H - {b}) (sub @ take (nat (size_of b w)) (buf_area b w)) fs (put_out b f w) \<and>
    same_job (H - {b}) w (put_out b f w) \<and> stream (put_out b f w) = stream w"
proof -
  have pi: "pp_inv (psy w) H sub" using inv by (simp add: job_inv_def)
  note d = pp_invD [OF pi]
  have "sizes_ok 0 (spl w)" using pi by (rule pp_inv_sizes)
  then have sz: "nat (size_of b w) \<le> BLOCKSIZE + 20"
    using b d(7) by (auto simp: sizes_ok_def size_of_def)
  have "buf_bytes 0 b (spl w) = take (nat (size_of b w)) (buf_area b w)"
    using mem_read_append [of _ _ "nat (size_of b w)" "BLOCKSIZE + 20 - nat (size_of b w)"] sz
    by (simp add: buf_bytes_def Let_def size_of_def buf_area_def get_data_def)
  with set_sp_job [OF inv same_payload_bufs [OF payload_put_out [OF d(3)]] Diff_subset pp_inv_submit [OF pi b]]
  show ?thesis by (simp add: put_out_def)
qed

lemma put_in_job:
  assumes inv: "job_inv H sub fs w" and b: "b \<in> H"
  shows "job_inv (H - {b}) sub fs (put_in b w) \<and> same_job (H - {b}) w (put_in b w) \<and>
    stream (put_in b w) = stream w"
proof -
  have pi: "pp_inv (psy w) H sub" using inv by (simp add: job_inv_def)
  note d = pp_invD [OF pi]
  from set_sp_job [OF inv same_payload_bufs [OF payload_put_in [OF d(3)]] Diff_subset pp_inv_release [OF pi b]]
  show ?thesis by (simp add: put_in_def)
qed

text \<open>Writing into a held buffer is a \<^const>\<open>client_fill\<close> of what the buffer then contains.\<close>

lemma mem_write_read: "mem_write m a (mem_read m a n) = m"
  by (auto simp: mem_write_def mem_read_def fun_eq_iff)

lemma mem_write_within:
  assumes "off + length bs \<le> n"
  shows "mem_write m a (mem_read (mem_write m (a + off) bs) a n) = mem_write m (a + off) bs"
  using assms by (auto simp: mem_write_def mem_read_def fun_eq_iff)

lemma client_fill_size:
  assumes "0 \<le> n" "n = b_size (buf (PrinterList s ! 0) ! b)" "0 < length (PrinterList s)"
    "b < length (buf (PrinterList s ! 0))"
  shows "set_b_size 0 b n (set_b_size 0 b k (s\<lparr>qmem := m\<rparr>)) = s\<lparr>qmem := m\<rparr>"
proof -
  have e: "(buf (PrinterList s ! 0))[b := (buf (PrinterList s ! 0) ! b)\<lparr>b_size := n\<rparr>] = buf (PrinterList s ! 0)"
    using assms by (simp add: list_update_same_conv)
  have "(PrinterList s ! 0)\<lparr>buf := buf (PrinterList s ! 0)\<rparr> = PrinterList s ! 0" by simp
  with e assms show ?thesis
    by (simp add: set_b_size_def Let_def set_ps_def set_buf_def)
qed

lemma pp_inv_put:
  assumes inv: "job_inv H sub fs w" and b: "b \<in> H" and bs: "off + length bs \<le> BLOCKSIZE + 20"
  shows "pp_inv (psy (put_data b off bs w)) H sub"
proof -
  have pi: "pp_inv (psy w) H sub" using inv by (simp add: job_inv_def)
  note d = pp_invD [OF pi]
  let ?s = "spl w" and ?a = "b_data (buf (PrinterList (spl w) ! 0) ! b)" and ?n = "size_of b w"
  let ?m = "mem_write (qmem ?s) (?a + off) bs"
  define t where "t = client_fill b (mem_read ?m ?a (BLOCKSIZE + 20)) ?s"
  have "sizes_ok 0 ?s" using pi by (rule pp_inv_sizes)
  then have sz: "0 \<le> ?n" "?n \<le> int (BLOCKSIZE + 20)" using b d(7) by (auto simp: sizes_ok_def size_of_def)
  have bl: "b < length (buf (PrinterList ?s ! 0))" using b d(7) job_inv_len [OF inv] by auto
  have t: "t = set_b_size 0 b (int (BLOCKSIZE + 20)) (?s\<lparr>qmem := ?m\<rparr>)"
    unfolding t_def client_fill_def by (simp add: mem_write_within [OF bs])
  have qt: "qmem t = ?m" "b_data (buf (PrinterList t ! 0) ! b) = ?a"
    using d(3) bl by (simp_all add: t set_b_size_def Let_def)
  have "client_fill b (mem_read ?m ?a (nat ?n)) t = set_b_size 0 b ?n t"
    unfolding client_fill_def qt using sz(1) qt(1) [symmetric] by (simp add: mem_write_read)
  also have "\<dots> = ?s\<lparr>qmem := ?m\<rparr>"
    unfolding t by (rule client_fill_size) (use sz(1) d(3) bl in \<open>simp_all add: size_of_def\<close>)
  finally have e: "client_fill b (mem_read ?m ?a (nat ?n)) t = ?s\<lparr>qmem := ?m\<rparr>" .
  have "pp_inv ((psy w)\<lparr>sp := t\<rparr>) H sub"
    unfolding t_def by (rule pp_inv_fill [OF pi b]) simp
  from pp_inv_fill [OF this b, of "mem_read ?m ?a (nat ?n)"] sz e
  show ?thesis by (simp add: put_data_def nat_le_iff)
qed

lemma put_data_simps [simp]:
  "jlog (put_data b off bs w) = jlog w" "sent (put_data b off bs w) = sent w"
  "obuf (put_data b off bs w) = obuf w" "fclosed (put_data b off bs w) = fclosed w"
  "HadLogged (put_data b off bs w) = HadLogged w" "tbuffer (put_data b off bs w) = tbuffer w"
  "buffercount (put_data b off bs w) = buffercount w" "CurJobQueueID (put_data b off bs w) = CurJobQueueID w"
  "stream (put_data b off bs w) = stream w" "tidy (put_data b off bs w) = tidy w"
  "status (put_data b off bs w) = status w" "size_of c (put_data b off bs w) = size_of c w"
  "mbox (put_data b off bs w) = mbox w" "rxdead (put_data b off bs w) = rxdead w"
  "clk (put_data b off bs w) = clk w" "frame w (put_data b off bs w)"
  by (simp_all add: put_data_def frame_def status_def PrnGetPrinterStatus_def size_of_def)

lemma put_data_job:
  assumes inv: "job_inv H sub fs w" and b: "b \<in> H" and bs: "off + length bs \<le> BLOCKSIZE + 20"
  shows "job_inv H sub fs (put_data b off bs w)" "same_job (H - {b}) w (put_data b off bs w)"
    "take (off + length bs) (buf_area b (put_data b off bs w)) = take off (buf_area b w) @ bs"
proof -
  have pi: "pp_inv (psy w) H sub" using inv by (simp add: job_inv_def)
  let ?a = "\<lambda>c. b_data (buf (PrinterList (spl w) ! 0) ! c)"
  let ?m = "mem_write (qmem (spl w)) (?a b + off) bs"
  show "job_inv H sub fs (put_data b off bs w)"
    using pp_inv_put [OF assms] inv by (simp add: job_inv_def)
  have "buf_area c (put_data b off bs w) = buf_area c w" if "c \<in> H" "c \<noteq> b" for c
  proof -
    have "mem_read (mem_write (qmem (spl w)) (?a b) (mem_read ?m (?a b) (BLOCKSIZE + 20))) (?a c) (BLOCKSIZE + 20)
      = mem_read (qmem (spl w)) (?a c) (BLOCKSIZE + 20)"
      using pi b that pp_invD(7) [OF pi]
      by (intro client_fill_other_bytes) (auto simp: pp_inv_def path_inv_def)
    then show ?thesis
      by (simp add: mem_write_within [OF bs] buf_area_def get_data_def put_data_def)
  qed
  then show "same_job (H - {b}) w (put_data b off bs w)" by (simp add: same_job_def)
  have "mem_read ?m (?a b) (off + length bs) = mem_read (qmem (spl w)) (?a b) off @ bs"
    by (simp add: mem_read_append mem_read_write_same mem_read_write_other)
  moreover have "take k (mem_read m a (BLOCKSIZE + 20)) = mem_read m a k" if "k \<le> BLOCKSIZE + 20" for m a k
    using that mem_read_append [of m a k "BLOCKSIZE + 20 - k"] by simp
  ultimately show "take (off + length bs) (buf_area b (put_data b off bs w)) = take off (buf_area b w) @ bs"
    using bs by (simp add: buf_area_def get_data_def put_data_def)
qed

lemma set_size_job:
  assumes inv: "job_inv H sub fs w" and b: "b \<in> H" and n: "0 \<le> n" "n \<le> int (BLOCKSIZE + 20)"
  shows "job_inv H sub fs (set_size b n w)" "same_job (H - {b}) w (set_size b n w)"
    "size_of b (set_size b n w) = n" "\<And>c. buf_area c (set_size b n w) = buf_area c w"
    "stream (set_size b n w) = stream w" "status (set_size b n w) = status w"
proof -
  have pi: "pp_inv (psy w) H sub" using inv by (simp add: job_inv_def)
  note d = pp_invD [OF pi]
  have bl: "b < length (buf (PrinterList (spl w) ! 0))" using b d(7) job_inv_len [OF inv] by auto
  let ?a = "b_data (buf (PrinterList (spl w) ! 0) ! b)"
  have "client_fill b (mem_read (qmem (spl w)) ?a (nat n)) (spl w) = set_b_size 0 b n (spl w)"
    using n by (simp add: client_fill_def mem_write_read)
  with pp_inv_fill [OF pi b, of "mem_read (qmem (spl w)) ?a (nat n)"] n
  show "job_inv H sub fs (set_size b n w)" using inv by (simp add: set_size_def job_inv_def nat_le_iff)
  show "size_of b (set_size b n w) = n"
    using d(3) bl by (simp add: set_size_def size_of_def set_b_size_def Let_def)
  show area: "buf_area c (set_size b n w) = buf_area c w" for c
    using d(3) by (simp add: set_size_def buf_area_def get_data_def set_b_size_def Let_def nth_update_field)
  show "stream (set_size b n w) = stream w" by (simp add: set_size_def)
  show st: "status (set_size b n w) = status w"
    using d(3) by (simp add: set_size_def status_def PrnGetPrinterStatus_def set_b_size_def Let_def)
  show "same_job (H - {b}) w (set_size b n w)"
    using d(3) area st by (auto simp: same_job_def frame_def set_size_def size_of_def set_b_size_def Let_def nth_list_update)
qed

lemma set_in_use_job:
  assumes inv: "job_inv H sub fs w"
  shows "job_inv H sub fs (set_in_use v w)" "status (set_in_use v w) = v"
    "size_of b (set_in_use v w) = size_of b w" "buf_area b (set_in_use v w) = buf_area b w"
    "stream (set_in_use v w) = stream w" "frame w (set_in_use v w)" "jlog (set_in_use v w) = jlog w"
proof -
  have pi: "pp_inv (psy w) H sub" using inv by (simp add: job_inv_def)
  note d = pp_invD [OF pi]
  show "job_inv H sub fs (set_in_use v w)"
    using pp_inv_inuse [OF pi] inv by (simp add: job_inv_def set_in_use_def)
  show "status (set_in_use v w) = v" "size_of b (set_in_use v w) = size_of b w"
    "buf_area b (set_in_use v w) = buf_area b w"
    using d(3) by (simp_all add: set_in_use_def status_def PrnGetPrinterStatus_def size_of_def buf_area_def
      get_data_def PrnSetQueueInUse_def Let_def)
  show "stream (set_in_use v w) = stream w" "frame w (set_in_use v w)" "jlog (set_in_use v w) = jlog w"
    by (simp_all add: set_in_use_def frame_def)
qed

section \<open>The job log\<close>

lemma log_add_job [simp]:
  "job_inv H sub fs (log_add n w) = job_inv H sub fs w" "stream (log_add n w) = stream w"
  "status (log_add n w) = status w" "size_of b (log_add n w) = size_of b w"
  "buf_area b (log_add n w) = buf_area b w" "frame w (log_add n w)" "psy (log_add n w) = psy w"
  "jlog (log_add n w) = JL_AddSize 0 (word_of_int n) (jlog w)"
  by (simp_all add: log_add_def job_inv_def tidy_def stream_def status_def size_of_def buf_area_def
      get_data_def frame_def)

lemma log_end_job [simp]:
  "job_inv H sub fs (log_end v w) = job_inv H sub fs w" "stream (log_end v w) = stream w"
  "status (log_end v w) = status w" "frame w (log_end v w)" "psy (log_end v w) = psy w"
  "jlog (log_end v w) = JL_EndList 0 v (ms w) (jlog w)"
  by (simp_all add: log_end_def job_inv_def tidy_def stream_def status_def frame_def)

lemma JL_AddSize_0 [simp]: "JL_AddSize port 0 jl = jl"
  by (simp add: JL_AddSize_def upd_entry_def Let_def split: option.split) (metis list_update_id joblog.surjective
      joblog.update_convs(4))

lemma JL_AddSize_twice: "length (JOBLIST jl) = MAX_JOB_LIST \<Longrightarrow>
  JL_AddSize port a (JL_AddSize port b jl) = JL_AddSize port (b + a) jl"
  by (auto simp: JL_AddSize_def upd_entry_def Let_def add.assoc split: option.splits)

lemma JL_AddSize_length [simp]: "length (JOBLIST (JL_AddSize port a jl)) = length (JOBLIST jl)"
  by (simp add: JL_AddSize_def upd_entry_def Let_def split: option.split)

lemma log_put_job:
  assumes "malloc_ok w" "n \<le> 32"
  obtains jl where "JL_PutList proto 0 person n (ms w) True (jlog w) = Some jl"
    "log_put proto person n fs w = Done () fs (w\<lparr>jlog := jl\<rparr>)"
  using assms by (auto simp: log_put_def JL_PutList_def Let_def)

lemma set_jlog_job [simp]:
  "job_inv H sub fs (w\<lparr>jlog := jl\<rparr>) = job_inv H sub fs w" "stream (w\<lparr>jlog := jl\<rparr>) = stream w"
  "status (w\<lparr>jlog := jl\<rparr>) = status w" "frame w (w\<lparr>jlog := jl\<rparr>)"
  by (simp_all add: job_inv_def tidy_def stream_def status_def frame_def)

section \<open>Single steps\<close>

lemma lwip_recv_netbuf:
  "mbox w = Netbuf bs # r \<Longrightarrow> lastdata w = [] \<Longrightarrow> \<not> rxdead w \<Longrightarrow> memp_ok w \<Longrightarrow> length bs \<le> len \<Longrightarrow>
   lwip_recv len fs w = Done (int (length bs), bs) fs (w\<lparr>mbox := r\<rparr>)"
  by (simp add: lwip_recv_def netconn_recv_def fetch.simps take_data_def)

lemma lwip_recv_closed:
  "mbox w = RxClosed # r \<Longrightarrow> lastdata w = [] \<Longrightarrow> \<not> rxdead w \<Longrightarrow> netbuf_ok w \<Longrightarrow>
   lwip_recv len fs w = Done (-1, []) fs (w\<lparr>mbox := r, rxdead := True\<rparr>)"
  by (simp add: lwip_recv_def netconn_recv_def fetch.simps)

lemma job_inv_memp: "job_inv H sub fs w \<Longrightarrow> memp_ok w"
  by (simp add: job_inv_def tidy_def)

lemma wait_in_buf_free:
  assumes "job_inv H sub fs w" "frees_of 0 (spl w) = b # fr"
  obtains s where "wait_in_buf lim always st fs w = Done (b, st) fs (set_sp s w)"
    "job_inv (insert b H) sub fs (set_sp s w)" "same_job H w (set_sp s w)" "b \<notin> H" "frees_of 0 s = fr"
proof -
  have "port_inv 0 (spl w)" using assms(1) pp_invD(1) by (auto simp: job_inv_def)
  then obtain s where g: "PrnGetInQueueBuf 0 (spl w) = (Some b, s)" "frees_of 0 s = fr"
    using pq.get_in_some assms(2) by blast
  with take_job [OF assms(1) g(1)] show ?thesis by (intro that [of s]) (simp_all add: wait_in_buf_some)
qed

lemma op_simps [simp]:
  "mbox (set_size b n w) = mbox w" "mbox (put_out b f w) = mbox w" "mbox (put_in b w) = mbox w"
  "mbox (log_add k w) = mbox w" "mbox (set_in_use v w) = mbox w"
  "lastdata (set_size b n w) = lastdata w" "lastdata (put_out b f w) = lastdata w"
  "lastdata (put_data b off bs w) = lastdata w" "lastdata (log_add k w) = lastdata w"
  "lastdata (set_in_use v w) = lastdata w" "rxdead (set_size b n w) = rxdead w" "rxdead (put_out b f w) = rxdead w"
  "rxdead (log_add k w) = rxdead w" "rxdead (set_in_use v w) = rxdead w" "clk (set_size b n w) = clk w"
  "clk (put_out b f w) = clk w" "clk (log_add k w) = clk w" "clk (set_in_use v w) = clk w"
  "TimeOutValue (set_size b n w) = TimeOutValue w" "TimeOutValue (put_out b f w) = TimeOutValue w"
  "TimeOutValue (put_data b off bs w) = TimeOutValue w" "TimeOutValue (log_add k w) = TimeOutValue w"
  "TimeOutValue (set_in_use v w) = TimeOutValue w"
  "netbuf_ok (set_size b n w) = netbuf_ok w" "netbuf_ok (put_data b off bs w) = netbuf_ok w"
  "netbuf_ok (set_in_use v w) = netbuf_ok w" "netbuf_ok (put_out b f w) = netbuf_ok w" "netbuf_ok (log_add k w) = netbuf_ok w"
  "api_msg_ok (set_size b n w) = api_msg_ok w" "api_msg_ok (put_data b off bs w) = api_msg_ok w"
  "api_msg_ok (set_in_use v w) = api_msg_ok w" "api_msg_ok (put_out b f w) = api_msg_ok w" "api_msg_ok (log_add k w) = api_msg_ok w"
  by (simp_all add: set_size_def put_out_def put_in_def log_add_def set_in_use_def put_data_def)

lemma frees_set_in_use [simp]:
  "pp_inv (psy w) H sub \<Longrightarrow> frees_of 0 (spl (set_in_use v w)) = frees_of 0 (spl w)"
  using Prnqueue_Props.set_in_use_inv [OF pp_invD(1)] by (simp add: set_in_use_def)

end
