(* ===== verification/Eof_Page.thy ===== *)
theory Eof_Page
  imports Net_Job
begin

text \<open>
  The page the server prints after a job that timed out, \<open>SendEOF\<close> of
  \<open>src/apps/ps/novell/src/nps3.c\<close> (not the \<open>O_INTELB\<close> variant). A null \<open>Manufacture\<close> pointer is compared
  all the same; \<open>at_null\<close> are the bytes at address 0.
\<close>

definition TestPageUsed :: u8 where "TestPageUsed = 0x0B"

definition EPSON_String :: "u8 list" where
  "EPSON_String = [0x45, 0x50, 0x53, 0x4F, 0x4E]"

definition EPSONData :: "u8 list" where
  "EPSONData = [0, 0, 0, 0x1B, 1] @ cstr ''@EJL 1284.4'' @ [0x0A] @ cstr ''@EJL     '' @
     [0x0A, 0x1B, 0x40, 0x1B, 0x40, 0x1B]"

text \<open>The page: \<open>sprintf\<close> of \<open>SendEOFData\<close> with the device name, a carriage return and a form feed.\<close>

definition text_line :: "string \<Rightarrow> u8 list" where
  "text_line s = cstr s @ [0x0D, 0x0A]"

definition pad_right :: "nat \<Rightarrow> u8 list \<Rightarrow> u8 list" where
  "pad_right n s = s @ replicate (n - length s) 0x20"

definition SendEOFData :: "u8 list \<Rightarrow> u8 list" where
  "SendEOFData name =
     text_line ''                  *******************************************                  '' @
     text_line '''' @
     text_line '''' @
     cstr ''     Device Name: '' @ pad_right 19 name @ text_line ''                                                        '' @
     text_line '''' @
     text_line ''     The network is unstable.                                                  '' @
     text_line '''' @
     text_line ''     The print server cannot receive any printing data.                        '' @
     text_line '''' @
     text_line ''     Please check your network connection and the environment.                 '' @
     text_line '''' @
     [0x0D, 0x0C]"

fun take_buf :: "sched \<Rightarrow> world \<Rightarrow> nat run" where
  "take_buf fs w =
     (case PrnGetInQueueBuf 0 (spl w) of
        (Some b, s) \<Rightarrow> Done b fs (set_sp s w)
      | (None, _) \<Rightarrow> (case fs of [] \<Rightarrow> Blocked w | f # fs' \<Rightarrow> take_buf fs' (f w)))"

declare take_buf.simps [simp del]

definition is_epson :: "u8 list \<Rightarrow> world \<Rightarrow> bool" where
  "is_epson at_null w \<longleftrightarrow>
     take 5 (case Manufacture (PortIO (spl w) ! 0) of None \<Rightarrow> at_null | Some m \<Rightarrow> m @ [0]) = EPSON_String"

definition box_name :: "world \<Rightarrow> u8 list" where
  "box_name w = takeWhile (\<lambda>c. c \<noteq> 0) (take LENGTH_OF_BOX_NAME (BoxName w))"

definition SendEOF :: "u8 list \<Rightarrow> sched \<Rightarrow> world \<Rightarrow> unit run" where
  "SendEOF at_null fs w =
     (if fst (PrnReadPortStatus 0 (spl w)) = PORT_OFF_LINE then Done () fs w
      else run_bind (take_buf fs w) (\<lambda>b fs w.
        let w1 = (if status w = PrnNoUsed then set_in_use TestPageUsed w else w)
        in if \<not> malloc_ok w1 then Done () fs w1
           else let hdr = (if is_epson at_null w1 then EPSONData else []);
                    page = SendEOFData (box_name w1);
                    w2 = put_data b (length hdr) page (put_data b 0 hdr w1);
                    w3 = set_size b (int (length hdr + length page)) w2;
                    w4 = put_out b PRN_Q_NORMAL w3
                in Done () fs (if status w4 = TestPageUsed then set_in_use PrnNoUsed w4 else w4)))"

section \<open>Lemmas\<close>

lemma EPSONData_length [simp]: "length EPSONData = 32"
  by (simp add: EPSONData_def cstr_def)

lemma SendEOFData_length: "length name \<le> 19 \<Longrightarrow> length (SendEOFData name) \<le> 1000"
  by (simp add: SendEOFData_def text_line_def pad_right_def cstr_def)

lemma box_name_length [simp]: "length (box_name w) \<le> 18"
  using length_takeWhile_le [of "\<lambda>c. c \<noteq> 0" "take LENGTH_OF_BOX_NAME (BoxName w)"]
  by (simp add: box_name_def LENGTH_OF_BOX_NAME_def del: length_takeWhile_le)

lemma take_buf_job:
  "job_inv H sub fs w \<Longrightarrow> holds (take_buf fs w)
    (\<lambda>w'. pp_inv (psy w') H sub \<and> frees_of 0 (spl w') = [])
    (\<lambda>b fs' w'. job_inv (insert b H) sub fs' w' \<and> same_job H w w' \<and> stream w' = stream w \<and> b \<notin> H)"
proof (induction fs w rule: take_buf.induct)
  case (1 fs w)
  obtain ob s where g: "PrnGetInQueueBuf 0 (spl w) = (ob, s)" by fastforce
  show ?case
  proof (cases ob)
    case (Some b)
    with g take_job [OF 1(2)] show ?thesis by (subst take_buf.simps) simp
  next
    case None
    show ?thesis
    proof (cases fs)
      case Nil
      have "port_inv 0 (spl w)" using 1(2) pp_invD(1) by (auto simp: job_inv_def)
      then have "frees_of 0 (spl w) = []"
        using g None pq.get_in_some by (cases "frees_of 0 (spl w)") fastforce+
      with g None Nil 1(2) show ?thesis by (subst take_buf.simps) (simp add: job_inv_def)
    next
      case (Cons f gs)
      note st = job_inv_step [OF 1(2) [unfolded Cons]]
      have e: "take_buf fs w = take_buf gs (f w)" using g None Cons by (subst take_buf.simps) simp
      from 1(1) [OF g [unfolded None, symmetric] refl Cons st(1)] show ?thesis
        unfolding e using same_job_trans [OF st(2)] st(3) by (auto elim!: holds_mono)
    qed
  qed
qed

text \<open>What \<open>SendEOF\<close> may add to the print data: nothing, without a printer, or one page.\<close>

definition eof_page :: "u8 list \<Rightarrow> bool" where
  "eof_page page \<longleftrightarrow> page = [] \<or>
     (\<exists>hdr name. (hdr = [] \<or> hdr = EPSONData) \<and> length name \<le> 18 \<and> page = hdr @ SendEOFData name)"

lemma eof_pageI: "hdr = [] \<or> hdr = EPSONData \<Longrightarrow> length name \<le> 18 \<Longrightarrow> eof_page (hdr @ SendEOFData name)"
  unfolding eof_page_def by blast

lemma fill_submit_job:
  fixes f :: u8
  assumes inv: "job_inv H sub fs w" and b: "b \<in> H" and room: "length hdr + length page \<le> BLOCKSIZE + 20"
  defines "w4 \<equiv> put_out b f (set_size b (int (length hdr + length page)) (put_data b (length hdr) page (put_data b 0 hdr w)))"
  shows "job_inv (H - {b}) (sub @ hdr @ page) fs w4" "stream w4 = stream w" "status w4 = status w"
    "jlog w4 = jlog w" "frame w w4"
proof -
  define w1 where "w1 = put_data b 0 hdr w"
  define w2 where "w2 = put_data b (length hdr) page w1"
  define w3 where "w3 = set_size b (int (length hdr + length page)) w2"
  note j1 = put_data_job [OF inv b, of 0 hdr, folded w1_def]
  note j2 = put_data_job [OF j1(1) b room, folded w2_def]
  note j3 = set_size_job [OF j2(1) b, of "int (length hdr + length page)", folded w3_def]
  have a: "take (length hdr + length page) (buf_area b w3) = hdr @ page"
    using j1(3) j2(3) j3(4) room by simp
  have j3': "job_inv H sub fs w3" "size_of b w3 = int (length hdr + length page)" using j3(1,3) room by simp_all
  note po = put_out_job [OF j3'(1) b, of f, unfolded j3'(2) nat_int a, folded w4_def]
  have w4: "w4 = put_out b f w3" by (simp add: w4_def w3_def w2_def w1_def)
  show "job_inv (H - {b}) (sub @ hdr @ page) fs w4" using po by (simp add: w4)
  have "stream w3 = stream w" "status w3 = status w" using j3(5,6) room by (simp_all add: w2_def w1_def)
  moreover have "frame w w2" by (rule frame_trans [of _ w1]) (simp_all add: w1_def w2_def)
  then have "frame w w3" using j3(2) room by (auto simp: same_job_def intro: frame_trans)
  moreover have "jlog w3 = jlog w" using j3(2) room by (simp add: same_job_def w2_def w1_def)
  ultimately show "stream w4 = stream w" "status w4 = status w" "jlog w4 = jlog w" "frame w w4"
    using po by (auto simp: same_job_def w4 intro: frame_trans)
qed

lemma SendEOF_job:
  assumes inv: "job_inv H sub fs w" and m: "malloc_ok w" and st: "status w = PrnNoUsed"
  shows "holds (SendEOF at_null fs w) (\<lambda>w'. pp_inv (psy w') H sub \<and> frees_of 0 (spl w') = [])
    (\<lambda>_ fs' w'. \<exists>page. eof_page page \<and> job_inv H (sub @ page) fs' w' \<and> stream w' = stream w \<and>
       status w' = PrnNoUsed \<and> jlog w' = jlog w \<and> frame w w')"
proof (cases "fst (PrnReadPortStatus 0 (spl w)) = PORT_OFF_LINE")
  case True
  with assms show ?thesis by (auto simp: SendEOF_def eof_page_def intro: exI [of _ "[]"])
next
  case False
  show ?thesis
    unfolding SendEOF_def if_not_P [OF False]
  proof (rule holds_bind [OF take_buf_job [OF inv]])
    fix b fs1 w1
    assume g: "job_inv (insert b H) sub fs1 w1 \<and> same_job H w w1 \<and> stream w1 = stream w \<and> b \<notin> H"
    then have i1: "job_inv (insert b H) sub fs1 w1" and m1: "malloc_ok w1" "status w1 = PrnNoUsed" "jlog w1 = jlog w"
      "frame w w1" using m st by (auto simp: same_job_def frame_def)
    have Hb: "insert b H - {b} = H" using g by auto
    define w2 where "w2 = set_in_use TestPageUsed w1"
    note j2 = set_in_use_job [OF i1, where v = TestPageUsed, folded w2_def]
    define hdr where "hdr = (if is_epson at_null w2 then EPSONData else [])"
    define page where "page = SendEOFData (box_name w2)"
    define w4 where "w4 = put_out b PRN_Q_NORMAL (set_size b (int (length hdr + length page))
      (put_data b (length hdr) page (put_data b 0 hdr w2)))"
    have "length page \<le> 1000" unfolding page_def by (rule SendEOFData_length, rule order.trans [OF box_name_length]) simp
    moreover have "length hdr \<le> 32" by (simp add: hdr_def)
    ultimately have "length hdr + length page \<le> BLOCKSIZE + 20" by (simp add: BLOCKSIZE_def)
    note j4 = fill_submit_job [OF j2(1) insertI1 this, where f = PRN_Q_NORMAL, folded w4_def, unfolded Hb]
    note j5 = set_in_use_job [OF j4(1), where v = PrnNoUsed]
    have mw2: "malloc_ok w2" using m1(1) j2(6) by (simp add: frame_def)
    have "(let w1 = (if status w1 = PrnNoUsed then set_in_use TestPageUsed w1 else w1)
        in if \<not> malloc_ok w1 then Done () fs1 w1
           else let hdr = (if is_epson at_null w1 then EPSONData else []);
                    page = SendEOFData (box_name w1);
                    w2 = put_data b (length hdr) page (put_data b 0 hdr w1);
                    w3 = set_size b (int (length hdr + length page)) w2;
                    w4 = put_out b PRN_Q_NORMAL w3
                in Done () fs1 (if status w4 = TestPageUsed then set_in_use PrnNoUsed w4 else w4)) =
        Done () fs1 (set_in_use PrnNoUsed w4)"
      unfolding Let_def by (simp only: m1(2) w2_def [symmetric] hdr_def [symmetric] page_def [symmetric]
        w4_def [symmetric] mw2 j4(3) j2(2) if_True if_False not_True_eq_False refl)
    moreover have "eof_page (hdr @ page)" unfolding page_def by (rule eof_pageI) (simp_all add: hdr_def)
    moreover have "frame w (set_in_use PrnNoUsed w4)" using m1(4) j2(6) j4(5) j5(6) frame_trans by blast
    moreover have "stream w4 = stream w" "jlog w4 = jlog w" using g m1(3) j2(5,7) j4(2,4) by simp_all
    ultimately show "holds (let w1 = (if status w1 = PrnNoUsed then set_in_use TestPageUsed w1 else w1)
        in if \<not> malloc_ok w1 then Done () fs1 w1
           else let hdr = (if is_epson at_null w1 then EPSONData else []);
                    page = SendEOFData (box_name w1);
                    w2 = put_data b (length hdr) page (put_data b 0 hdr w1);
                    w3 = set_size b (int (length hdr + length page)) w2;
                    w4 = put_out b PRN_Q_NORMAL w3
                in Done () fs1 (if status w4 = TestPageUsed then set_in_use PrnNoUsed w4 else w4))
        (\<lambda>w'. pp_inv (psy w') H sub \<and> frees_of 0 (spl w') = [])
        (\<lambda>_ fs' w'. \<exists>page. eof_page page \<and> job_inv H (sub @ page) fs' w' \<and> stream w' = stream w \<and>
           status w' = PrnNoUsed \<and> jlog w' = jlog w \<and> frame w w')"
      using j5 by (simp only: holds.simps) (intro exI [of _ "hdr @ page"], simp)
  qed
qed

end
