(* ===== verification/Rawtcpd.thy ===== *)
theory Rawtcpd
  imports Eof_Page
begin

text \<open>
  The raw TCP print server, \<open>src/apps/ps/rawtcpd/rawtcpd.c\<close>: what \<open>rawtcpd\<close> does with one accepted
  connection (\<open>USE_PS_LIBS\<close> and with it \<open>NOVELL_PS\<close> defined, \<open>USB_ZERO_CPY\<close> not). \<open>lit\<close> are the 32 bytes of memory at the
  string constant \<open>"User"\<close>, all of which \<open>JL_PutList\<close> copies.
\<close>

text \<open>The port is taken when nobody uses it and it is ready, or still printing an earlier job.\<close>

definition rawtcp_busy :: "world \<Rightarrow> bool" where
  "rawtcp_busy w \<longleftrightarrow> (status w \<noteq> PrnNoUsed \<or> port_status w \<noteq> PORT_READY) \<and>
     \<not> (port_status w = PORT_PRINTING \<and> status w = PrnNoUsed)"

fun rawtcp_wait :: "u32 \<Rightarrow> sched \<Rightarrow> world \<Rightarrow> unit run" where
  "rawtcp_wait startime fs w =
     (if rawtcp_busy w
      then (let (st, w1) = keep_alive (TICKS_PER_SECOND * 10) True startime w
            in case fs of [] \<Rightarrow> Blocked w1 | f # fs' \<Rightarrow> rawtcp_wait st fs' (f w1))
      else Done () fs w)"

declare rawtcp_wait.simps [simp del]

text \<open>Receiving into one buffer until it is full, which queues it, or nothing more comes.\<close>

function rawtcp_fill :: "nat \<Rightarrow> sched \<Rightarrow> world \<Rightarrow> int run" where
  "rawtcp_fill b fs w =
     run_bind (lwip_recv BLOCK_SIZE fs w) (\<lambda>p fs w. case p of (bytes, bs) \<Rightarrow>
       if 0 < bytes
       then (let w1 = put_data b (nat (size_of b w)) bs w;
                 w2 = set_size b (size_of b w1 + bytes) w1;
                 w3 = log_add bytes w2
             in if size_of b w3 + int BLOCK_SIZE > int BLOCKSIZE
                then Done bytes fs (put_out b PRN_Q_NORMAL w3)
                else rawtcp_fill b fs w3)
       else Done bytes fs w)"
  by pat_completeness auto
termination
  by (relation "inv_image pot (\<lambda>(b, fs, w). (fs, w))") (auto dest!: lwip_recv_pot simp: pot_iff BLOCK_SIZE_def)

declare rawtcp_fill.simps [simp del]

lemma rawtcp_fill_pot:
  "rawtcp_fill b fs w = Done r fs' w' \<Longrightarrow> 0 < r \<Longrightarrow> ((fs', w'), (fs, w)) \<in> pot"
proof (induction b fs w arbitrary: fs' w' rule: rawtcp_fill.induct)
  case (1 b fs w)
  obtain bytes bs fs1 w1 where rc: "lwip_recv BLOCK_SIZE fs w = Done (bytes, bs) fs1 w1"
    using 1(2) by (subst (asm) rawtcp_fill.simps) (auto simp: run_bind_Done)
  have pos: "0 < bytes" using 1(2,3) rc by (subst (asm) rawtcp_fill.simps) (auto split: if_splits)
  have lt: "((fs1, w1), (fs, w)) \<in> pot" using lwip_recv_pot [OF rc] pos by (simp add: BLOCK_SIZE_def)
  show ?case
    using 1(1) [OF rc refl pos refl refl refl] 1(2,3) rc pos lt
    by (subst (asm) rawtcp_fill.simps) (auto simp: Let_def pot_iff split: if_splits)
qed

text \<open>The loop over buffers; the result tells whether the job ended by a timeout.\<close>

function rawtcp_data :: "sched \<Rightarrow> world \<Rightarrow> bool run" where
  "rawtcp_data fs w =
     run_bind (wait_in_buf (TICKS_PER_SECOND * 5) True (clk w) fs w) (\<lambda>p fs w. case p of (b, startime) \<Rightarrow>
     run_bind (rawtcp_fill b fs (set_size b 0 w)) (\<lambda>bytes fs w.
       if bytes \<le> 0
       then (let w1 = (if size_of b w \<noteq> 0 then put_out b PRN_Q_NORMAL w else put_in b w)
             in Done (clk w1 - startime > ucast (TimeOutValue w1) * 10) fs w1)
       else run_bind (yield fs w) (\<lambda>_ fs w. rawtcp_data fs w)))"
  by pat_completeness auto
termination
  by (relation pot) (auto dest!: wait_in_buf_pot rawtcp_fill_pot yield_pot simp: not_le pot_iff pot_le_def)

declare rawtcp_data.simps [simp del]

definition rawtcp_session :: "u8 list \<Rightarrow> u8 list \<Rightarrow> sched \<Rightarrow> world \<Rightarrow> unit run" where
  "rawtcp_session lit at_null fs w =
     (if port_status w \<noteq> PORT_OFF_LINE
      then run_bind (rawtcp_wait (clk w) fs w) (\<lambda>_ fs w.
           run_bind (log_put 4 lit 32 fs (set_in_use RawTcpUsed w)) (\<lambda>_ fs w.
           run_bind (rawtcp_data fs w) (\<lambda>btTimeout fs w.
           run_bind (if btTimeout
                     then SendEOF at_null fs (log_end 3 (set_in_use PrnNoUsed w))
                     else Done () fs (log_end 0 (set_in_use PrnNoUsed w))) (\<lambda>_ fs w.
             Done () fs (w\<lparr>fclosed := True\<rparr>)))))
      else Done () fs (w\<lparr>fclosed := True\<rparr>))"

end
