(* ===== verification/Net_Threads.thy ===== *)
theory Net_Threads
  imports Net_Job
begin

text \<open>
  The other threads a daemon meets while it waits: the spooler thread, the port writer, the USB thread, the clock,
  the arrival of the peer's data and the end of its connection. Each satisfies the contract
  \<^const>\<open>other_thread\<close>.
\<close>

definition set_psy :: "psys \<Rightarrow> world \<Rightarrow> world" where
  "set_psy y w = w\<lparr>psy := y\<rparr>"

definition spooler_act :: "world \<Rightarrow> world" where
  "spooler_act w = set_psy ((psy w)\<lparr>sp := PrnStartSpooler (spl w)\<rparr>) w"

text \<open>
  The port writer: it is woken, makes a pass over its loop, or leaves the loop, at any time, as its test looks at the clock
  only. A block it takes out of the queue and does not print is recorded as lost.
\<close>

definition wake_act :: "world \<Rightarrow> world" where
  "wake_act w = (if PNW_Statu (psy w) ! 0 = 0 \<and> SP_SIGNAL_PORT_1 (spl w) > 0 then set_psy (pnw_begin 0 (psy w)) w else w)"

definition writer_act :: "u32 \<Rightarrow> u32 \<Rightarrow> u32 \<Rightarrow> world \<Rightarrow> world" where
  "writer_act tw ts start w =
     (if PNW_Statu (psy w) ! 0 \<noteq> 0
      then (case pnw_pass 0 tw ts start (see_unplugged (psy w)) of None \<Rightarrow> w | Some (_, _, y) \<Rightarrow> set_psy y w) else w)"

definition leave_act :: "world \<Rightarrow> world" where
  "leave_act w =
     (if PNW_Statu (psy w) ! 0 \<noteq> 0 then set_psy (pnw_end 0 (note_lost (psy w))) w else w)"

text \<open>The printer is unplugged, or another plugged in.\<close>

definition unplug_act :: "nat \<Rightarrow> usblp \<Rightarrow> world \<Rightarrow> world" where
  "unplug_act minor d w =
     (case usbprn_unattach minor d (psy w) of None \<Rightarrow> w | Some (_, y) \<Rightarrow> set_psy y w)"

definition plug_act :: "(nat \<Rightarrow> bool) \<Rightarrow> nat \<Rightarrow> usblp \<Rightarrow> world \<Rightarrow> world" where
  "plug_act mok minor d w =
     (case usbprn_attach mok minor d (psy w) of None \<Rightarrow> w | Some (_, y) \<Rightarrow> set_psy y w)"

definition tick_act :: "world \<Rightarrow> world" where
  "tick_act w = w\<lparr>clk := clk w + 1, ms := ms w + 1\<rparr>"

text \<open>The next \<open>n\<close> bytes the peer sent arrive; the peer closes once they all have.\<close>

definition arrive_act :: "nat \<Rightarrow> world \<Rightarrow> world" where
  "arrive_act n w =
     (if n = 0 \<or> wire w = [] then w
      else w\<lparr>mbox := mbox w @ [Netbuf (take n (wire w))], wire := drop n (wire w)\<rparr>)"

definition close_act :: "world \<Rightarrow> world" where
  "close_act w =
     (if wire w = [] \<and> \<not> rxdead w \<and> RxClosed \<notin> set (mbox w) then w\<lparr>mbox := mbox w @ [RxClosed]\<rparr> else w)"

section \<open>Steps that change only the printing subsystem\<close>

lemma set_psy_simps [simp]:
  "psy (set_psy y w) = y" "stream (set_psy y w) = stream w" "lastdata (set_psy y w) = lastdata w"
  "rxdead (set_psy y w) = rxdead w" "tidy (set_psy y w) = tidy w" "frame w (set_psy y w)"
  "jlog (set_psy y w) = jlog w"
  by (simp_all add: set_psy_def stream_def tidy_def frame_def)

lemma set_psy_job:
  assumes inv: "pp_inv (psy w) H sub" and same: "same_bufs 0 (spl w) (sp y)"
  shows "same_job H w (set_psy y w)"
proof -
  note d = pp_invD [OF inv]
  have "b < length (buf (PrinterList (spl w) ! 0))" if "b \<in> H" for b
    using that d(7) spool_inv_len [OF d(2)] by auto
  then show ?thesis
    using same_bufs_field [OF same] same
    by (auto simp: same_job_def size_of_def buf_area_def get_data_def status_def PrnGetPrinterStatus_def same_bufs_def)
qed

lemma other_thread_psy:
  assumes "\<And>w H sub. pp_inv (psy w) H sub \<Longrightarrow> pp_inv (psy (act w)) H sub"
    and "\<And>w H sub. pp_inv (psy w) H sub \<Longrightarrow> same_bufs 0 (spl w) (spl (act w))"
    and "\<And>w. act w = set_psy (psy (act w)) w"
  shows "other_thread act"
proof
  fix w :: world and H sub assume i: "pp_inv (psy w) H sub"
  then show "pp_inv (psy (act w)) H sub" by (rule assms(1))
  show "same_job H w (act w)" using set_psy_job [OF i assms(2) [OF i]] assms(3) [of w] by simp
qed (metis assms(3) set_psy_simps)+

lemma spooler_same_bufs: "spool_inv 0 s \<Longrightarrow> same_bufs 0 s (PrnStartSpooler s)"
  using DMAPrinting_frame [of 0 s]
  by (auto simp: PrnStartSpooler_port spooler_port_def same_bufs_def split: prod.split)

interpretation spooler: other_thread spooler_act
proof (rule other_thread_psy)
  fix w :: world and H sub assume i: "pp_inv (psy w) H sub"
  from pp_inv_spooler [OF i] show "pp_inv (psy (spooler_act w)) H sub" by (simp add: spooler_act_def)
  from spooler_same_bufs [OF pp_invD(2) [OF i]] show "same_bufs 0 (spl w) (spl (spooler_act w))"
    by (simp add: spooler_act_def)
qed (simp add: spooler_act_def)

interpretation wake: other_thread wake_act
  by (rule other_thread_psy)
    (auto simp: wake_act_def pp_inv_start, auto simp: pnw_begin_def same_bufs_def set_psy_def)

interpretation writer: other_thread "writer_act tw ts start"
proof (rule other_thread_psy)
  fix w :: world and H sub assume i: "pp_inv (psy w) H sub"
  let ?p = "pnw_pass 0 tw ts start (see_unplugged (psy w))"
  show "pp_inv (psy (writer_act tw ts start w)) H sub"
    using i pp_inv_pass [OF i] by (auto simp: writer_act_def split: option.split)
  show "same_bufs 0 (spl w) (spl (writer_act tw ts start w))"
  proof (cases "PNW_Statu (psy w) ! 0 = 0")
    case False
    note b = running_busy(2) [OF i False]
    have p: "path_inv 0 (spl w)" "marks 0 (length (usb_out (spl w))) (lost (psy w))"
      using i b by (simp_all add: pp_inv_def)
    obtain r st y where "?p = Some (r, st, y)" "same_bufs 0 (spl w) (sp y)"
      by (rule pnw_pass_gone [OF p(2,1)])
    then show ?thesis by (simp add: writer_act_def)
  qed (simp add: writer_act_def same_bufs_def)
qed (auto simp: writer_act_def set_psy_def split: option.split)

interpretation leave: other_thread leave_act
proof (rule other_thread_psy)
  fix w :: world and H sub assume i: "pp_inv (psy w) H sub"
  show "pp_inv (psy (leave_act w)) H sub" using i pp_inv_finish [OF i] by (simp add: leave_act_def)
  obtain st where "PrnReadPortStatus 0 (spl w) = (st, spl w)" by (rule PrnReadPortStatus_pair)
  then show "same_bufs 0 (spl w) (spl (leave_act w))" by (simp add: leave_act_def pnw_end_def same_bufs_def)
qed (auto simp: leave_act_def set_psy_def)

lemma unattach_frame:
  "usbprn_unattach minor d y = Some (r, y') \<Longrightarrow> qmem (sp y') = qmem (sp y) \<and> PrinterList (sp y') = PrinterList (sp y)"
  by (auto simp: usbprn_unattach_def PrnFreeDeviceInfo_def Let_def split: if_splits)

interpretation unplug: other_thread "unplug_act minor d"
proof
  fix w :: world and H sub assume i: "pp_inv (psy w) H sub"
  show "pp_inv (psy (unplug_act minor d w)) H sub"
    using i pp_inv_unplug [OF i] by (auto simp: unplug_act_def split: option.split)
  show "same_job H w (unplug_act minor d w)"
  proof (cases "usbprn_unattach minor d (psy w)")
    case (Some r)
    with unattach_frame [of minor d "psy w" "fst r" "snd r"] show ?thesis
      by (simp add: unplug_act_def case_prod_beta same_job_def size_of_def buf_area_def get_data_def status_def
          PrnGetPrinterStatus_def)
  qed (simp add: unplug_act_def)
qed (auto simp: unplug_act_def split: option.split)

lemma attach_frame:
  "usbprn_attach mok minor d y = Some (r, y') \<Longrightarrow> qmem (sp y') = qmem (sp y) \<and> PrinterList (sp y') = PrinterList (sp y)"
  by (auto simp: usbprn_attach_def Let_def split: if_splits option.splits)

interpretation plug: other_thread "plug_act mok minor d"
proof
  fix w :: world and H sub assume i: "pp_inv (psy w) H sub"
  show "pp_inv (psy (plug_act mok minor d w)) H sub"
    using i pp_inv_plug [OF i] by (auto simp: plug_act_def split: option.split)
  show "same_job H w (plug_act mok minor d w)"
  proof (cases "usbprn_attach mok minor d (psy w)")
    case (Some r)
    with attach_frame [of mok minor d "psy w" "fst r" "snd r"] show ?thesis
      by (simp add: plug_act_def case_prod_beta same_job_def size_of_def buf_area_def get_data_def status_def
          PrnGetPrinterStatus_def)
  qed (simp add: plug_act_def)
qed (auto simp: plug_act_def split: option.split)

section \<open>Steps of the clock and the network\<close>

lemma other_thread_net:
  assumes "\<And>w. psy (act w) = psy w" "\<And>w. jlog (act w) = jlog w" "\<And>w. frame w (act w)"
    "\<And>w. stream (act w) = stream w" "\<And>w. lastdata (act w) = lastdata w" "\<And>w. rxdead (act w) = rxdead w"
    "\<And>w. tidy w \<Longrightarrow> tidy (act w)"
  shows "other_thread act"
  using assms by unfold_locales
    (simp_all add: same_job_def size_of_def buf_area_def get_data_def status_def)

interpretation tick: other_thread tick_act
  by (rule other_thread_net) (simp_all add: tick_act_def frame_def stream_def tidy_def)

lemma mbox_tidy_append:
  "mbox_tidy (a @ b) \<longleftrightarrow> (if b = [] then mbox_tidy a else mbox_tidy a \<and> RxClosed \<notin> set a \<and> mbox_tidy b)"
  by (induction a rule: mbox_tidy.induct) auto

interpretation arrive: other_thread "arrive_act n"
  by (rule other_thread_net)
    (auto simp: arrive_act_def frame_def stream_def tidy_def mbox_tidy_append)

interpretation closing: other_thread close_act
  by (rule other_thread_net)
    (auto simp: close_act_def frame_def stream_def tidy_def mbox_tidy_append)

lemmas thread_steps = spooler.other_thread_axioms wake.other_thread_axioms writer.other_thread_axioms
  leave.other_thread_axioms unplug.other_thread_axioms plug.other_thread_axioms tick.other_thread_axioms arrive.other_thread_axioms closing.other_thread_axioms

end
