(* ===== verification/Net_Start.thy ===== *)
theory Net_Start
  imports Net_Threads Print_Props
begin

text \<open>
  A state to start from, for the daemons' witnesses: the server has booted, a printer is attached
  and idle, and a peer has connected.
\<close>

lemma attach_ready:
  obtains y where "pp_inv y {} []" "frees_of 0 (sp y) = [0..<PRNQUEUELEN]" "outs_of 0 (sp y) = []"
    "fst (ReadPortStatus 0 (sp y)) = PORT_READY" "PrnGetPrinterStatus 0 (sp y) = PrnNoUsed" "PNW_Statu y ! 0 = 0"
proof -
  note b = boot_state [of "\<lambda>m. m = 0"]
  have e: "sp (boot psys_static) = Spooler_init (spool_static\<lparr>usblp_table := (\<lambda>m. m = 0)\<rparr>)"
    by (simp add: boot_def psys_static_def)
  define io where "io = zero_parport\<lparr>p_base := 1, HasGetDeviceID := 1, PrnMode := PRN_USB_PRINTER,
    PrnReadBackMode := PRN_USB_PRINTER\<rparr>"
  define y where "y = (boot psys_static)\<lparr>sp := set_pio 0 io (sp (boot psys_static))\<rparr>"
  have at: "usbprn_attach (\<lambda>_. False) 0 plain_usblp (boot psys_static) = Some (1, y)"
    unfolding y_def io_def
    by (simp add: usbprn_attach_def plain_usblp_def NUM_OF_1284_PORT_def e b zero_parport_def Let_def)
  have ar: "\<not> IS_SHARP_AR_M207 y" by (simp add: y_def boot_def psys_static_def)
  have r: "pp_reach y {} []" by (rule pp_reach.attach [OF at ar])
  then have i: "pp_inv y {} []" by (rule pp_reach_inv)
  have f: "frees_of 0 (sp y) = [0..<PRNQUEUELEN]" "outs_of 0 (sp y) = []" "G_PortReady (sp y) = 1"
    "InUse (PrinterList (sp y) ! 0) = PrnNoUsed" "PortIO (sp y) ! 0 = io"
    by (simp_all add: y_def e b)
  have "pq_inv (PrinterList (sp y) ! 0)" using pp_invD(1) [OF i] by (simp add: port_inv_def)
  then have av: "AvailQueueNO (PrinterList (sp y) ! 0) = of_nat PRNQUEUELEN"
    using f(1) by (simp add: pq_inv_def pq_rep_def)
  have up: "usb_present 0 (sp y)" by (simp add: usb_present_def y_def io_def e b)
  have "fst (ReadPortStatus 0 (sp y)) = PORT_READY"
    using f(3-5) av up
    by (simp add: ReadPortStatus_def PrnReadPortStatus_def usbprn_read_status_def io_def port_idle_def port_mask_def
        PrnOutQueueIsEmpty_def PrnGetPrinterStatus_def PrnGetAvailQueueNO_def connected_rc_def status_bits port_consts Let_def)
  moreover have "PNW_Statu y ! 0 = 0" by (simp add: y_def boot_def)
  ultimately show ?thesis using that [of y] i f by (simp add: PrnGetPrinterStatus_def)
qed

definition conn_world :: "psys \<Rightarrow> arrival list \<Rightarrow> u8 list \<Rightarrow> world" where
  "conn_world y m wi = \<lparr>psy = y, clk = 0, ms = 0, jlog = joblog_static, malloc_ok = True, TimeOutValue = 15,
     HostName = [], BoxName = [], UnixHold = 0, ServiceProcIsBusy = False, CurJobQueueID = 0, HadLogged = 0,
     tbuffer = replicate 32 0, buffercount = 0, tnext = 0, lpr_tasks = [(0, 0, 0), (0, 0, 0)],
     mbox = m, wire = wi, lastdata = [], rxdead = False, netbuf_ok = True, api_msg_ok = True,
     sent = [], acks = 0, obuf = [], fclosed = False, ipp = ippq_static\<rparr>"

lemma joblog_static_length [simp]: "length (JOBLIST joblog_static) = MAX_JOB_LIST"
  by (simp add: joblog_static_def)

lemma conn_world_simps [simp]:
  "psy (conn_world y m wi) = y" "mbox (conn_world y m wi) = m" "lastdata (conn_world y m wi) = []"
  "rxdead (conn_world y m wi) = False" "netbuf_ok (conn_world y m wi)" "api_msg_ok (conn_world y m wi)"
  "malloc_ok (conn_world y m wi)" "wire (conn_world y m wi) = wi"
  "jlog (conn_world y m wi) = joblog_static" "ipp (conn_world y m wi) = ippq_static"
  "stream (conn_world y m wi) = data_of m @ wi" "UnixHold (conn_world y m wi) = 0"
  "tidy (conn_world y m wi) = (mbox_tidy m \<and> (RxClosed \<in> set m \<longrightarrow> wi = []))"
  by (simp_all add: conn_world_def joblog_static_def stream_def tidy_def)

end
