(* ===== verification/Rawtcpd_Props.thy ===== *)
theory Rawtcpd_Props
  imports Rawtcpd Net_Start
begin

text \<open>
  A raw TCP job reaches the print queue byte for byte: the lemmas follow the session through the
  wait for the port, the loop over buffers and the loop that fills one.
\<close>

abbreviation waiting :: "u8 list \<Rightarrow> u8 list \<Rightarrow> world \<Rightarrow> bool" where
  "waiting \<equiv> waits rawtcp_busy"

definition fill_done :: "nat set \<Rightarrow> u8 list \<Rightarrow> nat \<Rightarrow> nat \<Rightarrow> world \<Rightarrow> int \<Rightarrow> sched \<Rightarrow> world \<Rightarrow> bool" where
  "fill_done H sub b n w r fs' w' \<longleftrightarrow>
     (\<exists>d. stream w = d @ stream w' \<and> jlog w' = JL_AddSize 0 (of_nat (length d)) (jlog w) \<and>
        status w' = status w \<and> frame w w' \<and>
        (if 0 < r then job_inv (H - {b}) (sub @ take n (buf_area b w) @ d) fs' w'
         else stream w' = [] \<and> job_inv H sub fs' w' \<and> size_of b w' = int (n + length d) \<and>
              take (n + length d) (buf_area b w') = take n (buf_area b w) @ d))"

text \<open>One received block stored behind the \<open>n\<close> bytes already in the buffer.\<close>

definition store :: "nat \<Rightarrow> nat \<Rightarrow> u8 list \<Rightarrow> world \<Rightarrow> world" where
  "store b n bs w = log_add (int (length bs)) (set_size b (int (n + length bs)) (put_data b n bs w))"

lemma store_job:
  assumes inv: "job_inv H sub fs w" and b: "b \<in> H" and room: "n + length bs \<le> BLOCKSIZE + 20"
  shows "job_inv H sub fs (store b n bs w)" "size_of b (store b n bs w) = int (n + length bs)"
    "stream (store b n bs w) = stream w" "status (store b n bs w) = status w" "frame w (store b n bs w)"
    "take (n + length bs) (buf_area b (store b n bs w)) = take n (buf_area b w) @ bs"
    "jlog (store b n bs w) = JL_AddSize 0 (of_nat (length bs)) (jlog w)"
proof -
  define wa where "wa = put_data b n bs w"
  define w2 where "w2 = set_size b (int (n + length bs)) wa"
  note ja = put_data_job [OF inv b room, folded wa_def]
  note js = set_size_job [OF ja(1) b, of "int (n + length bs)", folded w2_def]
  have "frame w w2" using ja(2) js(2) room by (auto simp: same_job_def intro: frame_trans)
  then show "frame w (store b n bs w)"
    using frame_trans log_add_job(6) unfolding store_def w2_def wa_def by blast
  show "job_inv H sub fs (store b n bs w)" "size_of b (store b n bs w) = int (n + length bs)"
    "stream (store b n bs w) = stream w" "status (store b n bs w) = status w"
    "take (n + length bs) (buf_area b (store b n bs w)) = take n (buf_area b w) @ bs"
    "jlog (store b n bs w) = JL_AddSize 0 (of_nat (length bs)) (jlog w)"
    using js ja room by (simp_all add: store_def flip: wa_def w2_def) (simp_all add: w2_def wa_def set_size_def)
qed

lemma fill_done_block:
  assumes inv: "job_inv H sub fs w3" "b \<in> H" "size_of b w3 = int m" and d: "stream w = d @ stream w3"
    "take m (buf_area b w3) = take n (buf_area b w) @ d" "status w3 = status w" "frame w w3"
    "jlog w3 = JL_AddSize 0 (of_nat (length d)) (jlog w)" and "0 < r"
  shows "fill_done H sub b n w r fs (put_out b PRN_Q_NORMAL w3)"
  using put_out_job [OF inv(1,2), of PRN_Q_NORMAL] assms unfolding inv(3) nat_int d(2) fill_done_def
  by (intro exI [of _ d]) (auto simp: same_job_def intro: frame_trans)

lemma fill_done_more:
  assumes m: "fill_done H sub b (n + length bs) w3 r fs' w'" and w3: "stream w = bs @ stream w3"
    "take (n + length bs) (buf_area b w3) = take n (buf_area b w) @ bs" "status w3 = status w" "frame w w3"
    "jlog w3 = JL_AddSize 0 (of_nat (length bs)) (jlog w)" "length (JOBLIST (jlog w)) = MAX_JOB_LIST"
  shows "fill_done H sub b n w r fs' w'"
proof -
  from m obtain d where d: "stream w3 = d @ stream w'" "jlog w' = JL_AddSize 0 (of_nat (length d)) (jlog w3)"
    "status w' = status w3" "frame w3 w'"
    "if 0 < r then job_inv (H - {b}) (sub @ take (n + length bs) (buf_area b w3) @ d) fs' w'
     else stream w' = [] \<and> job_inv H sub fs' w' \<and> size_of b w' = int (n + length bs + length d) \<and>
      take (n + length bs + length d) (buf_area b w') = take (n + length bs) (buf_area b w3) @ d"
    by (auto simp: fill_done_def)
  then show ?thesis
    unfolding fill_done_def using w3 frame_trans [OF w3(4) d(4)]
    by (intro exI [of _ "bs @ d"]) (simp add: JL_AddSize_twice add.assoc split: if_splits)
qed

lemma rawtcp_fill_job:
  assumes "job_inv H sub fs w" "b \<in> H" "size_of b w = int n" "n + BLOCK_SIZE \<le> BLOCKSIZE"
    "length (JOBLIST (jlog w)) = MAX_JOB_LIST"
  shows "holds (rawtcp_fill b fs w) (waiting sub (take n (buf_area b w) @ stream w)) (fill_done H sub b n w)"
  using assms
proof (induction b fs w arbitrary: n rule: rawtcp_fill.induct)
  case (1 b fs w)
  note inv = 1(2) and b = 1(3) and sz = 1(4) and n = 1(5) and jl = 1(6)
  let ?B = "waiting sub (take n (buf_area b w) @ stream w)"
  show ?case
  proof (subst rawtcp_fill.simps, rule holds_bind_eq [OF holds_mono [OF recv_job [OF inv]]])
    show "0 < BLOCK_SIZE" by (simp add: BLOCK_SIZE_def)
  next
    fix w' assume "pp_inv (psy w') H sub \<and> same_job H w w' \<and> stream w' = stream w \<and> lastdata w' = [] \<and>
       mbox w' = [] \<and> \<not> rxdead w'"
    then show "?B w'" by (auto intro: waitsI)
  next
    fix p fs1 w1
    assume rx: "lwip_recv BLOCK_SIZE fs w = Done p fs1 w1"
    assume "(case p of (r, bs) \<Rightarrow> \<lambda>fs' w'. job_inv H sub fs' w' \<and> same_job H w w' \<and> recv_ok BLOCK_SIZE w r bs w') fs1 w1"
    moreover obtain r bs where p: "p = (r, bs)" by fastforce
    ultimately have i1: "job_inv H sub fs1 w1" and sj: "same_job H w w1" and rc: "recv_ok BLOCK_SIZE w r bs w1"
      by auto
    have same: "size_of b w1 = int n" "buf_area b w1 = buf_area b w" "status w1 = status w" "jlog w1 = jlog w" "frame w w1"
      using sj b sz by (auto simp: same_job_def)
    define k where "k = (\<lambda>w3. if size_of b w3 + int BLOCK_SIZE > int BLOCKSIZE
      then Done r fs1 (put_out b PRN_Q_NORMAL w3) else rawtcp_fill b fs1 w3)"
    have "holds (if 0 < r then (let wa = put_data b (nat (size_of b w1)) bs w1;
        w2 = set_size b (size_of b wa + r) wa; w3 = log_add r w2 in k w3) else Done r fs1 w1) ?B (fill_done H sub b n w)"
    proof (cases "0 < r")
      case False
      then have "bs = []" "stream w = []" "stream w1 = []" using rc by (auto simp: recv_ok_def)
      with False i1 same show ?thesis by (simp add: fill_done_def)
    next
      case True
      then have bs: "r = int (length bs)" "length bs \<le> BLOCK_SIZE" "stream w = bs @ stream w1"
        using rc by (auto simp: recv_ok_def)
      have e: "put_data b (nat (size_of b w1)) bs w1 = put_data b n bs w1"
        "set_size b (size_of b (put_data b n bs w1) + r) (put_data b n bs w1) = set_size b (int (n + length bs)) (put_data b n bs w1)"
        using same bs(1) by simp_all
      define w3 where "w3 = store b n bs w1"
      have "n + length bs \<le> BLOCKSIZE + 20" using bs(2) n by simp
      note j3 = store_job [OF i1 b this, folded w3_def]
      have fr: "frame w w3" using same(5) j3(5) by (rule frame_trans)
      have "holds (k w3) ?B (fill_done H sub b n w)"
      proof (cases "n + length bs + BLOCK_SIZE > BLOCKSIZE")
        case full: True
        then show ?thesis
          using fill_done_block [OF j3(1) b j3(2) _ _ _ fr, of bs n r] j3 bs same True by (simp add: k_def)
      next
        case False
        have "holds (rawtcp_fill b fs1 w3) (waiting sub (take (n + length bs) (buf_area b w3) @ stream w3))
            (fill_done H sub b (n + length bs) w3)"
          by (rule 1(1) [OF rx p [symmetric] True refl refl]) (use e j3 b False jl bs same in \<open>simp_all add: w3_def store_def\<close>)
        then have "holds (rawtcp_fill b fs1 w3) ?B (fill_done H sub b n w)"
          using fill_done_more [of H sub b n bs w3 _ _ _ w] j3 bs same fr jl by (auto elim!: holds_mono)
        then show ?thesis using False j3(2) by (simp add: k_def)
      qed
      then show ?thesis using True bs(1) by (simp add: same(1) w3_def store_def Let_def)
    qed
    then show "holds (case p of (bytes, bs) \<Rightarrow>
       if 0 < bytes
       then (let wa = put_data b (nat (size_of b w1)) bs w1;
                 w2 = set_size b (size_of b wa + bytes) wa;
                 w3 = log_add bytes w2
             in if size_of b w3 + int BLOCK_SIZE > int BLOCKSIZE
                then Done bytes fs1 (put_out b PRN_Q_NORMAL w3)
                else rawtcp_fill b fs1 w3)
       else Done bytes fs1 w1) ?B (fill_done H sub b n w)" unfolding p k_def Let_def by (simp only: prod.case)
  qed
qed

text \<open>The loop over buffers.\<close>

definition data_done :: "nat set \<Rightarrow> u8 list \<Rightarrow> world \<Rightarrow> sched \<Rightarrow> world \<Rightarrow> bool" where
  "data_done H sub w fs' w' \<longleftrightarrow> job_inv H (sub @ stream w) fs' w' \<and> stream w' = [] \<and>
     jlog w' = JL_AddSize 0 (of_nat (length (stream w))) (jlog w) \<and> status w' = status w \<and> frame w w'"

lemma same_jobD:
  "same_job H w w' \<Longrightarrow> status w' = status w \<and> jlog w' = jlog w \<and> frame w w'"
  by (simp add: same_job_def)

lemma rawtcp_end_buffer:
  assumes i: "job_inv (insert b H) sub fs w" and b: "b \<notin> H" "size_of b w = int n" "take n (buf_area b w) = d"
    "n = length d"
  shows "job_inv H (sub @ d) fs (if size_of b w \<noteq> 0 then put_out b PRN_Q_NORMAL w else put_in b w) \<and>
    same_job H w (if size_of b w \<noteq> 0 then put_out b PRN_Q_NORMAL w else put_in b w) \<and>
    stream (if size_of b w \<noteq> 0 then put_out b PRN_Q_NORMAL w else put_in b w) = stream w"
proof -
  have "insert b H - {b} = H" using b(1) by auto
  then show ?thesis
    using put_out_job [OF i, of b PRN_Q_NORMAL] put_in_job [OF i, of b] b by auto
qed

lemma rawtcp_data_job:
  assumes "job_inv H sub fs w" "length (JOBLIST (jlog w)) = MAX_JOB_LIST"
  shows "holds (rawtcp_data fs w) (waiting sub (stream w)) (\<lambda>_. data_done H sub w)"
  using assms
proof (induction fs w arbitrary: sub rule: rawtcp_data.induct)
  case (1 fs w)
  note inv = 1(2) and jl = 1(3)
  let ?B = "waiting sub (stream w)"
  show ?case
  proof (subst rawtcp_data.simps, rule holds_bind_eq [OF holds_mono [OF wait_in_buf_job [OF inv]]])
    fix w' assume "pp_inv (psy w') H sub \<and> same_job H w w' \<and> stream w' = stream w \<and> frees_of 0 (spl w') = []"
    then show "?B w'" by (auto intro: waitsI)
  next
    fix p fs1 w1
    assume got: "wait_in_buf (TICKS_PER_SECOND * 5) True (clk w) fs w = Done p fs1 w1"
      and "(case p of (b, _) \<Rightarrow> \<lambda>fs' w'. job_inv (insert b H) sub fs' w' \<and> same_job H w w' \<and>
             stream w' = stream w \<and> b \<notin> H) fs1 w1"
    moreover obtain b st where p: "p = (b, st)" by fastforce
    ultimately have i1: "job_inv (insert b H) sub fs1 w1" and sj: "same_job H w w1" and st: "stream w1 = stream w"
      and nb: "b \<notin> H" by auto
    have Hb: "insert b H - {b} = H" using nb by auto
    define w2 where "w2 = set_size b 0 w1"
    note j2 = set_size_job [OF i1, of b 0, folded w2_def, simplified]
    have w2: "stream w2 = stream w" "jlog w2 = jlog w" "status w2 = status w" "frame w w2"
      using j2 sj st by (auto simp: same_job_def intro: frame_trans)
    have "holds (run_bind (rawtcp_fill b fs1 w2) (\<lambda>bytes fs w.
       if bytes \<le> 0
       then (let w1 = (if size_of b w \<noteq> 0 then put_out b PRN_Q_NORMAL w else put_in b w)
             in Done (clk w1 - st > ucast (TimeOutValue w1) * 10) fs w1)
       else run_bind (yield fs w) (\<lambda>_ fs w. rawtcp_data fs w))) ?B (\<lambda>_. data_done H sub w)"
    proof (rule holds_bind_eq)
      show "holds (rawtcp_fill b fs1 w2) ?B (fill_done (insert b H) sub b 0 w2)"
        using rawtcp_fill_job [OF j2(1), of b 0] j2(3) jl w2 by (simp add: BLOCK_SIZE_def BLOCKSIZE_def)
    next
      fix r fs3 w3
      assume rf: "rawtcp_fill b fs1 w2 = Done r fs3 w3" and fd: "fill_done (insert b H) sub b 0 w2 r fs3 w3"
      from fd obtain d where raw: "stream w2 = d @ stream w3" "jlog w3 = JL_AddSize 0 (of_nat (length d)) (jlog w2)"
        "status w3 = status w2" "frame w2 w3"
        "if 0 < r then job_inv H (sub @ take 0 (buf_area b w2) @ d) fs3 w3
         else stream w3 = [] \<and> job_inv (insert b H) sub fs3 w3 \<and> size_of b w3 = int (0 + length d) \<and>
              take (0 + length d) (buf_area b w3) = take 0 (buf_area b w2) @ d"
        unfolding fill_done_def Hb by blast
      then have d: "stream w = d @ stream w3" "jlog w3 = JL_AddSize 0 (of_nat (length d)) (jlog w)"
        "status w3 = status w" "frame w w3"
        "if 0 < r then job_inv H (sub @ d) fs3 w3
         else stream w3 = [] \<and> job_inv (insert b H) sub fs3 w3 \<and> size_of b w3 = int (length d) \<and>
              take (length d) (buf_area b w3) = d"
        using w2 frame_trans [OF w2(4)] by (simp_all split: if_splits)
      show "holds (if r \<le> 0
       then (let w1 = (if size_of b w3 \<noteq> 0 then put_out b PRN_Q_NORMAL w3 else put_in b w3)
             in Done (clk w1 - st > ucast (TimeOutValue w1) * 10) fs3 w1)
       else run_bind (yield fs3 w3) (\<lambda>_ fs w. rawtcp_data fs w)) ?B (\<lambda>_. data_done H sub w)"
      proof (cases "r \<le> 0")
        case True
        then have "stream w3 = []" "job_inv (insert b H) sub fs3 w3" "size_of b w3 = int (length d)"
          "take (length d) (buf_area b w3) = d" using d(5) by auto
        from rawtcp_end_buffer [OF this(2) nb this(3,4) refl] True d this(1) show ?thesis
          by (auto simp: data_done_def Let_def same_job_def intro: frame_trans)
      next
        case False
        have i3: "job_inv H (sub @ d) fs3 w3" using d(5) False by simp
        have "holds (run_bind (yield fs3 w3) (\<lambda>_ fs w. rawtcp_data fs w)) ?B (\<lambda>_. data_done H sub w)"
        proof (rule holds_bind_eq [OF yield_job [OF i3]])
          fix u fs4 w4
          assume y: "yield fs3 w3 = Done u fs4 w4"
            and i4: "job_inv H (sub @ d) fs4 w4 \<and> same_job H w3 w4 \<and> stream w4 = stream w3"
          have "holds (rawtcp_data fs4 w4) (waiting (sub @ d) (stream w4)) (\<lambda>_. data_done H (sub @ d) w4)"
            by (rule 1(1) [OF got p [symmetric] rf [unfolded w2_def] _ y])
              (use False i4 jl d(2) in \<open>auto simp: same_job_def\<close>)
          then show "holds (rawtcp_data fs4 w4) ?B (\<lambda>_. data_done H sub w)"
          proof (rule holds_mono)
            show "?B w'" if "waiting (sub @ d) (stream w4) w'" for w'
              using that d(1) i4 by (auto intro: waits_shift)
            show "data_done H sub w fs' w'" if "data_done H (sub @ d) w4 fs' w'" for fs' w'
              using that d i4 jl by (auto simp: data_done_def same_job_def JL_AddSize_twice intro: frame_trans)
          qed
        qed
        with False show ?thesis by simp
      qed
    qed
    then show "holds (case p of (b, startime) \<Rightarrow>
     run_bind (rawtcp_fill b fs1 (set_size b 0 w1)) (\<lambda>bytes fs w.
       if bytes \<le> 0
       then (let w1 = (if size_of b w \<noteq> 0 then put_out b PRN_Q_NORMAL w else put_in b w)
             in Done (clk w1 - startime > ucast (TimeOutValue w1) * 10) fs w1)
       else run_bind (yield fs w) (\<lambda>_ fs w. rawtcp_data fs w))) ?B (\<lambda>_. data_done H sub w)"
      by (simp add: p w2_def)
  qed
qed

text \<open>Waiting for the port.\<close>

lemma rawtcp_wait_job:
  "job_inv H sub fs w \<Longrightarrow> holds (rawtcp_wait st fs w) (waiting sub (stream w))
    (\<lambda>_ fs' w'. job_inv H sub fs' w' \<and> same_job H w w' \<and> stream w' = stream w \<and> \<not> rawtcp_busy w')"
proof (induction fs arbitrary: st w)
  case Nil
  have "rawtcp_busy (sendack w) = rawtcp_busy w" by (simp add: rawtcp_busy_def port_status_def)
  then show ?case using Nil
    by (subst rawtcp_wait.simps) (auto simp: keep_alive_def job_inv_def intro: waitsI)
next
  case (Cons f fs)
  obtain st1 w1 where k: "keep_alive (TICKS_PER_SECOND * 10) True st w = (st1, w1)" by fastforce
  have w1: "job_inv H sub (f # fs) w1" "same_job H w w1" "stream w1 = stream w"
    using k Cons.prems by (auto simp: keep_alive_def split: if_splits)
  note st = job_inv_step [OF w1(1)]
  show ?case
  proof (cases "rawtcp_busy w")
    case True
    have "rawtcp_wait st (f # fs) w = rawtcp_wait st1 fs (f w1)"
      using True k by (subst rawtcp_wait.simps) simp
    with Cons.IH [OF st(1), of st1] show ?thesis
      using same_job_trans [OF w1(2) same_job_trans [OF st(2)]] st(3) w1(3) by (auto elim!: holds_mono)
  next
    case False
    then show ?thesis using Cons.prems by (subst rawtcp_wait.simps) simp
  qed
qed

lemma set_jlog_simps [simp]: "jlog (w\<lparr>jlog := jl\<rparr>) = jl" "malloc_ok (set_in_use v w) = malloc_ok w"
  "ms (set_in_use v w) = ms w"
  by (simp_all add: set_in_use_def)

lemma JL_PutList_length:
  "JL_PutList proto port person n now ok jl = Some jl' \<Longrightarrow> length (JOBLIST jl') = length (JOBLIST jl)"
  by (auto simp: JL_PutList_def Let_def split: if_splits)

section \<open>Properties\<close>

text \<open>The end of a session.\<close>

definition session_done :: "nat set \<Rightarrow> u8 list \<Rightarrow> u8 list \<Rightarrow> joblog \<Rightarrow> world \<Rightarrow> bool" where
  "session_done H sub T jl w' \<longleftrightarrow> stream w' = [] \<and> status w' = PrnNoUsed \<and> fclosed w' \<and>
     (\<exists>page st t. (st = 0 \<and> page = [] \<or> st = 3 \<and> eof_page page) \<and> pp_inv (psy w') H (sub @ T @ page) \<and>
        jlog w' = JL_EndList 0 st t (JL_AddSize 0 (of_nat (length T)) jl))"

lemma session_doneI:
  "stream w' = [] \<Longrightarrow> status w' = PrnNoUsed \<Longrightarrow> fclosed w' \<Longrightarrow> st = 0 \<and> page = [] \<or> st = 3 \<and> eof_page page \<Longrightarrow>
   pp_inv (psy w') H (sub @ T @ page) \<Longrightarrow>
   jlog w' = JL_EndList 0 st t (JL_AddSize 0 (of_nat (length T)) jl) \<Longrightarrow> session_done H sub T jl w'"
  unfolding session_done_def by blast

lemma session_end_job:
  assumes i: "job_inv H (sub @ T) fs w" and m: "malloc_ok w" and s: "stream w = []"
    and jl: "jlog w = JL_AddSize 0 (of_nat (length T)) jl"
  shows "holds (run_bind (if bt then SendEOF at_null fs (log_end 3 (set_in_use PrnNoUsed w))
                     else Done () fs (log_end 0 (set_in_use PrnNoUsed w))) (\<lambda>_ fs w.
             Done () fs (w\<lparr>fclosed := True\<rparr>))) (waiting sub T) (\<lambda>_ _. session_done H sub T jl)"
proof -
  define w1 where "w1 = set_in_use PrnNoUsed w"
  note j1 = set_in_use_job [OF i, where v = PrnNoUsed, folded w1_def]
  show ?thesis
  proof (cases bt)
    case False
    have "session_done H sub T jl ((log_end 0 w1)\<lparr>fclosed := True\<rparr>)"
      by (rule session_doneI [of _ 0 "[]"]) (use j1 s jl in \<open>simp_all add: job_inv_def\<close>)
    with False show ?thesis by (simp flip: w1_def)
  next
    case True
    have "malloc_ok (log_end 3 w1)" using m j1(6) by (simp add: frame_def log_end_def)
    from SendEOF_job [OF _ this, of H "sub @ T" fs at_null] j1
    have e: "holds (SendEOF at_null fs (log_end 3 w1)) (\<lambda>w'. pp_inv (psy w') H (sub @ T) \<and> frees_of 0 (spl w') = [])
      (\<lambda>_ fs' w'. \<exists>page. eof_page page \<and> job_inv H ((sub @ T) @ page) fs' w' \<and> stream w' = stream (log_end 3 w1) \<and>
         status w' = PrnNoUsed \<and> jlog w' = jlog (log_end 3 w1) \<and> frame (log_end 3 w1) w')" by simp
    have w: "waiting sub T w'" if "pp_inv (psy w') H (sub @ T) \<and> frees_of 0 (spl w') = []" for w'
      using that by (intro waits_shift [of _ sub T "[]"] waitsI) auto
    have "holds (run_bind (SendEOF at_null fs (log_end 3 w1)) (\<lambda>_ fs w. Done () fs (w\<lparr>fclosed := True\<rparr>)))
      (waiting sub T) (\<lambda>_ _. session_done H sub T jl)"
      by (rule holds_bind [OF holds_mono [OF e w]]) (use j1 s jl in \<open>auto simp: session_done_def job_inv_def\<close>)
    with True show ?thesis by (simp flip: w1_def)
  qed
qed

text \<open>C25: Raw TCP printing is exact, as long as the connection does not fail (it is not reset and there is memory
  to receive: \<^const>\<open>tidy\<close> and \<^const>\<open>other_thread\<close>): whatever the segmentation of the data, the interleaving with the
  other threads and the number of buffers in use, when the session of a connection ends the bytes
  it submitted to the printer are the connection's bytes, all of them and in order, followed by the
  end-of-job page if it took the job for timed out, as its log entry then says (status 3), and by nothing otherwise; the port is free again,
  no buffer is kept, and the job's log entry counts the bytes. Until then the daemon waits only
  for the port, for a free buffer or for the peer, with the submitted bytes a prefix of the data.
  The session of a port that is off line takes nothing.\<close>

theorem rawtcp_exact:
  assumes "job_inv H sub fs w" "malloc_ok w" "length (JOBLIST (jlog w)) = MAX_JOB_LIST"
  shows "holds (rawtcp_session lit at_null fs w) (waiting sub (stream w))
    (\<lambda>_ fs' w'. if port_status w = PORT_OFF_LINE then fs' = fs \<and> w' = w\<lparr>fclosed := True\<rparr>
       else \<exists>jl t. JL_PutList 4 0 lit 32 t True (jlog w) = Some jl \<and> session_done H sub (stream w) jl w')"
proof (cases "port_status w = PORT_OFF_LINE")
  case True
  then show ?thesis by (simp add: rawtcp_session_def)
next
  case False
  let ?B = "waiting sub (stream w)"
  let ?Q = "\<lambda>_ fs' w'. \<exists>jl t. JL_PutList 4 0 lit 32 t True (jlog w) = Some jl \<and> session_done H sub (stream w) jl w'"
  let ?fin = "\<lambda>bt fs w. run_bind (if bt then SendEOF at_null fs (log_end 3 (set_in_use PrnNoUsed w))
                     else Done () fs (log_end 0 (set_in_use PrnNoUsed w))) (\<lambda>_ fs w.
             Done () fs (w\<lparr>fclosed := True\<rparr>))"
  have "holds (run_bind (rawtcp_wait (clk w) fs w) (\<lambda>_ fs w.
           run_bind (log_put 4 lit 32 fs (set_in_use RawTcpUsed w)) (\<lambda>_ fs w.
           run_bind (rawtcp_data fs w) ?fin))) ?B ?Q"
  proof (rule holds_bind [OF rawtcp_wait_job [OF assms(1)]])
    fix u fs1 w1
    assume p1: "job_inv H sub fs1 w1 \<and> same_job H w w1 \<and> stream w1 = stream w \<and> \<not> rawtcp_busy w1"
    then have i1: "job_inv H sub fs1 w1" and sj: "malloc_ok w1" "jlog w1 = jlog w" "stream w1 = stream w"
      using assms(2) by (auto simp: same_job_def frame_def)
    define w2 where "w2 = set_in_use RawTcpUsed w1"
    note j2 = set_in_use_job [OF i1, where v = RawTcpUsed, folded w2_def]
    have m2: "malloc_ok w2" using sj by (simp add: w2_def)
    obtain jl where jl: "JL_PutList 4 0 lit 32 (ms w2) True (jlog w2) = Some jl"
      "log_put 4 lit 32 fs1 w2 = Done () fs1 (w2\<lparr>jlog := jl\<rparr>)"
      using log_put_job [OF m2] by (metis order_refl)
    define w3 where "w3 = w2\<lparr>jlog := jl\<rparr>"
    have w3: "job_inv H sub fs1 w3" "stream w3 = stream w" "jlog w3 = jl" "malloc_ok w3"
      "length (JOBLIST (jlog w3)) = MAX_JOB_LIST"
      using j2 m2 sj jl(1) assms(3) JL_PutList_length [OF jl(1)] by (simp_all add: w3_def)
    have jlw: "JL_PutList 4 0 lit 32 (ms w2) True (jlog w) = Some jl" using jl(1) j2(7) sj by simp
    have "holds (run_bind (rawtcp_data fs1 w3) ?fin) ?B ?Q"
    proof (rule holds_bind)
      show "holds (rawtcp_data fs1 w3) ?B (\<lambda>_. data_done H sub w3)"
        using rawtcp_data_job [OF w3(1,5)] w3(2) by simp
      fix bt fs4 w4 assume d: "data_done H sub w3 fs4 w4"
      then have "job_inv H (sub @ stream w) fs4 w4" "malloc_ok w4" "stream w4 = []"
        "jlog w4 = JL_AddSize 0 (of_nat (length (stream w))) jl"
        using w3 by (simp_all add: data_done_def frame_def)
      note en = session_end_job [OF this]
      show "holds (?fin bt fs4 w4) ?B ?Q"
        by (rule holds_mono [OF en]) (assumption, use jlw in blast)
    qed
    with jl(2) show "holds (run_bind (log_put 4 lit 32 fs1 (set_in_use RawTcpUsed w1)) (\<lambda>_ fs w.
           run_bind (rawtcp_data fs w) ?fin)) ?B ?Q"
      by (simp add: w2_def w3_def)
  qed
  with False show ?thesis by (simp add: rawtcp_session_def)
qed

text \<open>A short job on an idle port is taken without waiting.\<close>

lemma rawtcp_short_job:
  assumes i: "job_inv H sub [] w" and m: "malloc_ok w" and jl: "length (JOBLIST (jlog w)) = MAX_JOB_LIST"
    and mb: "mbox w = [Netbuf bs, RxClosed]" "lastdata w = []" "\<not> rxdead w" "bs \<noteq> []" "length bs \<le> BLOCK_SIZE"
    and rd: "port_status w = PORT_READY" "status w = PrnNoUsed" and fr: "frees_of 0 (spl w) = b # fs"
    and late: "\<not> ucast (TimeOutValue w) * 10 < (0 :: u32)"
  shows "\<exists>w'. rawtcp_session lit at_null [] w = Done () [] w' \<and> pp_inv (psy w') H (sub @ bs)"
proof -
  define w2 where "w2 = set_in_use RawTcpUsed w"
  note j2 = set_in_use_job [OF i, where v = RawTcpUsed, folded w2_def]
  have m2: "malloc_ok w2" using m by (simp add: w2_def)
  obtain l where l: "log_put 4 lit 32 [] w2 = Done () [] (w2\<lparr>jlog := l\<rparr>)"
    using log_put_job [OF m2] by (metis order_refl)
  define w3 where "w3 = w2\<lparr>jlog := l\<rparr>"
  have j3: "job_inv H sub [] w3" using j2 by (simp add: w3_def)
  have "pp_inv (psy w) H sub" using i by (simp add: job_inv_def)
  from frees_set_in_use [OF this] fr have f3: "frees_of 0 (spl w3) = b # fs" by (simp add: w3_def w2_def)
  obtain s where s: "wait_in_buf (TICKS_PER_SECOND * 5) True (clk w3) [] w3 = Done (b, clk w3) [] (set_sp s w3)"
    "job_inv (insert b H) sub [] (set_sp s w3)" "b \<notin> H" by (rule wait_in_buf_free [OF j3 f3])
  define w5 where "w5 = set_size b 0 (set_sp s w3)"
  note j5 = set_size_job [OF s(2) insertI1, of 0, folded w5_def, simplified]
  have c5: "mbox w5 = [Netbuf bs, RxClosed]" "lastdata w5 = []" "\<not> rxdead w5" "memp_ok w5" "clk w5 = clk w3" "TimeOutValue w5 = TimeOutValue w"
    using mb job_inv_memp [OF i] by (simp_all add: w5_def w3_def w2_def)
  define w6 where "w6 = w5\<lparr>mbox := [RxClosed]\<rparr>"
  have r5: "lwip_recv BLOCK_SIZE [] w5 = Done (int (length bs), bs) [] w6"
    using lwip_recv_netbuf [OF c5(1-4)] mb(5) by (simp add: w6_def)
  have "tidy w6" using j5(1) c5 by (simp add: job_inv_def tidy_def w6_def)
  then have i6: "job_inv (insert b H) sub [] w6" using j5(1) by (simp add: job_inv_def w6_def)
  define w7 where "w7 = store b 0 bs w6"
  have room: "0 + length bs \<le> BLOCKSIZE + 20" using mb(5) by (simp add: BLOCK_SIZE_def BLOCKSIZE_def)
  note j7 = store_job [OF i6 insertI1 room, folded w7_def]
  have c7: "mbox w7 = [RxClosed]" "lastdata w7 = []" "\<not> rxdead w7" "netbuf_ok w7" "clk w7 = clk w3" "TimeOutValue w7 = TimeOutValue w"
    using c5 by (simp_all add: w7_def store_def w6_def)
  have s6: "size_of b w6 = 0" using j5(3) by (simp add: w6_def)
  define w8 where "w8 = w7\<lparr>mbox := [], rxdead := True\<rparr>"
  have "rawtcp_fill b [] w7 = Done (-1) [] w8"
    using lwip_recv_closed [OF c7(1-4)] by (subst rawtcp_fill.simps) (simp add: w8_def)
  moreover have "rawtcp_fill b [] w5 = rawtcp_fill b [] w7"
    using r5 s6 j7(2) mb(4,5) by (subst rawtcp_fill.simps)
      (simp add: Let_def w7_def store_def BLOCK_SIZE_def BLOCKSIZE_def)
  ultimately have fill: "rawtcp_fill b [] w5 = Done (-1) [] w8" by simp
  have "size_of b w8 \<noteq> 0" using j7(2) mb(4) by (simp add: w8_def)
  then have data: "rawtcp_data [] w3 = Done False [] (put_out b PRN_Q_NORMAL w8)"
    using s(1) fill c7 late by (subst rawtcp_data.simps) (simp add: Let_def w8_def flip: w5_def)
  have "tidy w7" using j7(1) by (simp add: job_inv_def)
  then have i8: "job_inv (insert b H) sub [] w8" using j7(1) c7 by (simp add: w8_def job_inv_def tidy_def stream_def)
  have n8: "nat (size_of b w8) = length bs" using j7(2) s6 by (simp add: w8_def)
  have a8: "take (length bs) (buf_area b w8) = bs" using j7 s6 by (simp add: w8_def)
  have "insert b H - {b} = H" using s(3) by auto
  then have "job_inv H (sub @ bs) [] (put_out b PRN_Q_NORMAL w8)"
    using put_out_job [OF i8 insertI1, of PRN_Q_NORMAL] n8 a8 by simp
  then have "job_inv H (sub @ bs) [] (set_in_use PrnNoUsed (put_out b PRN_Q_NORMAL w8))" by (rule set_in_use_job)
  then have pp: "pp_inv (psy (set_in_use PrnNoUsed (put_out b PRN_Q_NORMAL w8))) H (sub @ bs)" by (simp add: job_inv_def)
  have "rawtcp_wait (clk w) [] w = Done () [] w"
    using rd by (subst rawtcp_wait.simps) (simp add: rawtcp_busy_def)
  then show ?thesis
    using rd(1) l data pp by (simp add: rawtcp_session_def port_consts flip: w2_def w3_def)
qed

theorem rawtcp_exact_witness:
  "\<exists>w w'. rawtcp_session (replicate 32 0) [] [] w = Done () [] w' \<and> stream w = [65, 66] \<and>
     (\<exists>jl. session_done {} [] [65, 66] jl w') \<and> pp_inv (psy w') {} [65, 66]"
proof -
  obtain y where y: "pp_inv y {} []" "frees_of 0 (sp y) = [0..<PRNQUEUELEN]"
    "fst (ReadPortStatus 0 (sp y)) = PORT_READY" "PrnGetPrinterStatus 0 (sp y) = PrnNoUsed"
    by (rule attach_ready)
  define w where "w = conn_world y [Netbuf [65, 66], RxClosed] []"
  have i: "job_inv {} [] [] w" "malloc_ok w" "length (JOBLIST (jlog w)) = MAX_JOB_LIST" "stream w = [65, 66]"
    using y(1) by (simp_all add: w_def job_inv_def)
  have "frees_of 0 (spl w) = 0 # [1..<PRNQUEUELEN]" using y(2) by (simp add: w_def PRNQUEUELEN_def upt_rec)
  from rawtcp_short_job [OF i(1-3) _ _ _ _ _ _ _ this, of "[65, 66]" "replicate 32 0" "[]"] y(3,4)
  obtain w' where w': "rawtcp_session (replicate 32 0) [] [] w = Done () [] w'" "pp_inv (psy w') {} [65, 66]"
    by (auto simp: w_def BLOCK_SIZE_def port_status_def status_def conn_world_def)
  have "port_status w \<noteq> PORT_OFF_LINE" using y(3) by (simp add: w_def port_status_def port_consts)
  then have "\<exists>jl. session_done {} [] [65, 66] jl w'"
    using rawtcp_exact [OF i(1-3), of "replicate 32 0" "[]"] i(4) by (auto simp: w'(1))
  with w' i(4) show ?thesis by blast
qed

end
