(* ===== verification/Crlf.thy ===== *)
theory Crlf
  imports PS_Prelude
begin

text \<open>
  The conversion of text jobs, \<open>ProcessCRLF\<close> of \<open>src/apps/ps/ippd/src/ippd.c\<close>, which the IPP and
  the line printer daemons apply to each block of a text file: every line end becomes CR LF. The
  flag \<open>KeepCR\<close> carries a CR at the end of one block to the next one.
\<close>

definition CR :: u8 where "CR = 0x0D"
definition LF :: u8 where "LF = 0x0A"

lemma CR_neq_LF [simp]: "CR \<noteq> LF" "LF \<noteq> CR"
  by (simp_all add: CR_def LF_def)

text \<open>The loop from \<open>sbuf\<close> to \<open>endbuf\<close>: the bytes written to \<open>dbuf\<close> and the new \<open>KeepCR\<close>.\<close>

fun crlf_loop :: "u8 list \<Rightarrow> u8 list \<times> u8" where
  "crlf_loop [] = ([], 0)"
| "crlf_loop (c # sbuf) =
     (if c = CR
      then (case sbuf of
              [] \<Rightarrow> ([CR, LF], 1)
            | d # sbuf' \<Rightarrow>
                (let (dbuf, k) = (if d = LF then crlf_loop sbuf' else crlf_loop sbuf)
                 in (CR # LF # dbuf, k)))
      else (let (dbuf, k) = crlf_loop sbuf
            in ((if c = LF then [CR, LF] else [c]) @ dbuf, k)))"

definition ProcessCRLF :: "u8 \<Rightarrow> u8 list \<Rightarrow> u8 list \<times> u8" where
  "ProcessCRLF KeepCR tmpbuf =
     crlf_loop (if KeepCR \<noteq> 0 \<and> tmpbuf \<noteq> [] \<and> hd tmpbuf = LF then tl tmpbuf else tmpbuf)"

text \<open>A file converted block by block.\<close>

fun crlf_blocks :: "u8 \<Rightarrow> u8 list list \<Rightarrow> u8 list" where
  "crlf_blocks k [] = []"
| "crlf_blocks k (b # bs) = (let (out, k') = ProcessCRLF k b in out @ crlf_blocks k' bs)"

section \<open>The reference\<close>

text \<open>One pass over the whole file; the flag says that the previous byte was a CR.\<close>

fun crlf_norm :: "bool \<Rightarrow> u8 list \<Rightarrow> u8 list" where
  "crlf_norm prev [] = []"
| "crlf_norm prev (c # cs) =
     (if c = CR then CR # LF # crlf_norm True cs
      else if c = LF then (if prev then [] else [CR, LF]) @ crlf_norm False cs
      else c # crlf_norm False cs)"

text \<open>Every CR is followed by LF and every LF preceded by CR.\<close>

fun crlf_text :: "u8 list \<Rightarrow> bool" where
  "crlf_text [] = True"
| "crlf_text (c # cs) =
     (if c = CR then (case cs of [] \<Rightarrow> False | d # ds \<Rightarrow> d = LF \<and> crlf_text ds)
      else c \<noteq> LF \<and> crlf_text cs)"

definition ends_cr :: "bool \<Rightarrow> u8 list \<Rightarrow> bool" where
  "ends_cr prev xs = (if xs = [] then prev else last xs = CR)"

lemma ends_cr_simps [simp]:
  "ends_cr prev [] = prev" "ends_cr prev (x # xs) = ends_cr (x = CR) xs"
  by (simp_all add: ends_cr_def)

lemma crlf_loop_norm: "crlf_loop xs = (crlf_norm False xs, of_bool (ends_cr False xs))"
  by (induction xs rule: crlf_loop.induct) (auto simp: Let_def split: list.split)

lemma ProcessCRLF_norm:
  "xs \<noteq> [] \<Longrightarrow> ProcessCRLF (of_bool prev) xs = (crlf_norm prev xs, of_bool (ends_cr prev xs))"
  by (cases xs) (auto simp: ProcessCRLF_def crlf_loop_norm)

lemma crlf_norm_append: "crlf_norm prev (xs @ ys) = crlf_norm prev xs @ crlf_norm (ends_cr prev xs) ys"
  by (induction xs arbitrary: prev) auto

lemma crlf_norm_length: "length (crlf_norm prev xs) \<le> 2 * length xs"
  by (induction xs arbitrary: prev) (auto intro: le_SucI)

lemma ProcessCRLF_length: "length (fst (ProcessCRLF k xs)) \<le> 2 * length xs"
proof -
  have "length (fst (crlf_loop ys)) \<le> 2 * length ys" for ys
    using crlf_norm_length [of False ys] by (simp add: crlf_loop_norm)
  from this [of xs] this [of "tl xs"] show ?thesis by (auto simp: ProcessCRLF_def)
qed

lemma crlf_norm_text: "crlf_text (crlf_norm prev xs)"
  by (induction xs arbitrary: prev) auto

lemma crlf_norm_fixed: "crlf_text xs \<Longrightarrow> crlf_norm False xs = xs"
  by (induction xs rule: crlf_text.induct) (auto split: list.splits if_splits)

section \<open>Properties\<close>

text \<open>C38: Converting a text file block by block gives the same output as one pass over the whole file,
  wherever the blocks are cut, also between the CR and the LF of one line end; the output contains
  only CR LF line ends, text that has only those is left as it is, and the output of a block is at
  most twice as long as the block, so that half a block of input always fits one buffer.\<close>

theorem ProcessCRLF_blocks:
  assumes "[] \<notin> set bs"
  shows "crlf_blocks 0 bs = crlf_norm False (concat bs) \<and> crlf_text (crlf_blocks 0 bs) \<and>
    (crlf_text (concat bs) \<longrightarrow> crlf_blocks 0 bs = concat bs) \<and>
    (\<forall>b k. length (fst (ProcessCRLF k b)) \<le> 2 * length b)"
proof -
  have "crlf_blocks (of_bool prev) bs = crlf_norm prev (concat bs)" for prev
    using assms
  proof (induction bs arbitrary: prev)
    case (Cons b bs)
    then have "b \<noteq> []" by auto
    with Cons show ?case by (simp add: ProcessCRLF_norm [OF \<open>b \<noteq> []\<close>] crlf_norm_append del: of_bool_eq)
  qed simp
  from this [of False] show ?thesis
    by (simp add: crlf_norm_text crlf_norm_fixed ProcessCRLF_length)
qed

theorem ProcessCRLF_blocks_witness:
  "crlf_blocks 0 [[65, 13], [10, 66, 10], [10, 13]] = crlf_norm False [65, 13, 10, 66, 10, 10, 13] \<and>
   crlf_blocks 0 [[65, 13], [10, 66, 10], [10, 13]] = [65, 13, 10, 66, 13, 10, 13, 10, 13, 10]"
  using ProcessCRLF_blocks [of "[[65, 13], [10, 66, 10], [10, 13]]"]
  by (simp add: CR_def LF_def)

end
