(* ===== verification/Lpd_Parse.thy ===== *)
theory Lpd_Parse
  imports Crlf Cstring
begin

text \<open>
  The parsing of the line printer daemon, \<open>src/apps/ps/lpd/src/lpd.c\<close>: command lines, job numbers and
  the control file, with \<open>rip\<close> of \<open>src/apps/http_zot/src/httpd.c\<close> and the C library's \<open>atol\<close>.

  A received line is not terminated by the daemon, so its functions read on into whatever the
  buffer held before and, when there is no NUL in it, into the memory behind it. \<open>mem\<close> is that
  memory: the buffer's \<open>BUFFER_SIZE\<close> bytes and then what follows it. \<^const>\<open>None\<close> means that a
  function leaves even that.
\<close>

definition BUFFER_SIZE :: nat where "BUFFER_SIZE = 1024"

definition c_string :: "u8 list \<Rightarrow> u8 list option" where
  "c_string mem = (if 0 \<in> set mem then Some (takeWhile (\<lambda>c. c \<noteq> 0) mem) else None)"

text \<open>\<open>strchr\<close> and the NUL written at the byte found.\<close>

definition nul_at :: "u8 \<Rightarrow> u8 list \<Rightarrow> u8 list" where
  "nul_at c mem =
     (let s = takeWhile (\<lambda>x. x \<noteq> 0) mem
      in if c \<in> set s then mem[length (takeWhile (\<lambda>x. x \<noteq> c) s) := 0] else mem)"

definition rip :: "u8 list \<Rightarrow> u8 list option" where
  "rip mem = (if 0 \<in> set mem then Some (nul_at CR (nul_at LF mem)) else None)"

text \<open>\<open>atol\<close> in the C locale; a number too large for 32 bits wraps.\<close>

definition isspace :: "u8 \<Rightarrow> bool" where
  "isspace c \<longleftrightarrow> c \<in> {32, 9, 10, 11, 12, 13}"

definition isdigit :: "u8 \<Rightarrow> bool" where
  "isdigit c \<longleftrightarrow> 48 \<le> c \<and> c \<le> 57"

definition dec_value :: "u8 list \<Rightarrow> u32" where
  "dec_value ds = foldl (\<lambda>v d. v * 10 + ucast (d - 48)) 0 ds"

definition atol :: "u8 list \<Rightarrow> u32" where
  "atol s =
     (let s1 = dropWhile isspace s;
          neg = (s1 \<noteq> [] \<and> hd s1 = 45);
          s2 = (if s1 \<noteq> [] \<and> hd s1 \<in> {43, 45} then tl s1 else s1);
          v = dec_value (takeWhile isdigit s2)
      in if neg then - v else v)"

definition atoi :: "u8 list \<Rightarrow> int" where
  "atoi s = sint (atol s)"

section \<open>The job number of a data file\<close>

text \<open>
  \<open>GetQueueID\<close>: the first digits after the first \<open>d\<close> or \<open>D\<close>, at most three of them, read by \<open>atoi\<close>
  after a NUL was written behind them. Neither loop looks for the end of the string.
\<close>

definition is_d :: "u8 \<Rightarrow> bool" where
  "is_d c \<longleftrightarrow> c = 100 \<or> c = 68 \<or> c = LF"

definition GetQueueID :: "u8 list \<Rightarrow> (int \<times> u8 list) option" where
  "GetQueueID mem =
     (let m1 = dropWhile (\<lambda>c. \<not> is_d c) mem
      in if m1 = [] then None
         else if hd m1 = LF then Some (-1, mem)
         else let m2 = dropWhile (\<lambda>c. \<not> isdigit c \<and> c \<noteq> LF) m1; pos = length mem - length m2
              in if m2 = [] then None
                 else if hd m2 = LF then Some (-1, mem)
                 else if length m2 \<le> 3 then None
                 else Some (atoi (takeWhile (\<lambda>c. c \<noteq> 0) (take 3 m2)), mem[pos + 3 := 0]))"

section \<open>Removing jobs\<close>

text \<open>To the next field of a command line; \<open>End\<close> when the line ends, \<open>Out\<close> when the memory does.\<close>

datatype field = End | Out | Field "u8 list"

definition next_field :: "u8 list \<Rightarrow> field" where
  "next_field s =
     (case dropWhile (\<lambda>c. c \<noteq> 32 \<and> c \<noteq> 0) s of
        [] \<Rightarrow> Out
      | c # r \<Rightarrow> if c = 0 then End else if r = [] then Out else Field r)"

lemma next_field_shorter: "next_field s = Field r \<Longrightarrow> length r < length s"
  using length_dropWhile_le [of "\<lambda>c. c \<noteq> 32 \<and> c \<noteq> 0" s]
  by (auto simp: next_field_def split: list.splits if_splits)

text \<open>The second loop of \<open>CheckRemoveJobID\<close> ends at the next field that starts with a digit.\<close>

function job_match :: "int \<Rightarrow> u8 list \<Rightarrow> int option" where
  "job_match cur s =
     (case c_string s of None \<Rightarrow> None
      | Some js \<Rightarrow>
          if atoi js = cur then Some 1
          else (case next_field s of
                  Out \<Rightarrow> None
                | End \<Rightarrow> Some 0
                | Field r \<Rightarrow> if isdigit (hd r) then Some 0 else job_match cur r))"
  by pat_completeness auto
termination
  by (relation "measure (\<lambda>(cur, s). length s)") (auto dest: next_field_shorter)

declare job_match.simps [simp del]

function skip_users :: "int \<Rightarrow> u8 list \<Rightarrow> int option" where
  "skip_users cur s =
     (case next_field s of
        Out \<Rightarrow> None
      | End \<Rightarrow> Some 1
      | Field r \<Rightarrow> if isdigit (hd r) then job_match cur r else skip_users cur r)"
  by pat_completeness auto
termination
  by (relation "measure (\<lambda>(cur, s). length s)") (auto dest: next_field_shorter)

declare skip_users.simps [simp del]

text \<open>\<open>CheckRemoveJobID\<close>: the queue name ends with the NUL \<open>CheckServiceMode\<close> has put behind it.\<close>

definition CheckRemoveJobID :: "int \<Rightarrow> u8 list \<Rightarrow> int option" where
  "CheckRemoveJobID cur mem =
     (case dropWhile (\<lambda>c. c \<noteq> 0) mem of [] \<Rightarrow> None | _ # buf \<Rightarrow> skip_users cur buf)"

section \<open>The control file's user and job name\<close>

text \<open>
  The search of the line that starts with \<open>P\<close> in the memory from \<open>buffer[k]\<close> on: the count at which
  the loop stops, with the memory behind the \<open>P\<close> when it was found.
\<close>

fun person_loop :: "u8 list \<Rightarrow> nat \<Rightarrow> (nat \<times> u8 list option) option" where
  "person_loop [] k = None"
| "person_loop (c # rest) k =
     (if c = LF \<and> rest = [] then None
      else if c = LF \<and> hd rest = 0x50 then Some (k, Some (tl rest))
      else if k = BUFFER_SIZE then Some (k, None)
      else person_loop rest (Suc k))"

text \<open>The end of the name in \<open>tbuffer\<close>, where the line of the job name (\<open>J\<close>) follows.\<close>

fun job_loop :: "u8 list \<Rightarrow> nat \<Rightarrow> nat" where
  "job_loop [] k = k"
| "job_loop (c # rest) k =
     (if c = LF \<and> rest \<noteq> [] \<and> hd rest = 0x4A then k else if k = 32 then k else job_loop rest (Suc k))"

text \<open>Both, for the job log: the new \<open>tbuffer\<close> and \<open>buffercount\<close>; \<open>nxt\<close> is the byte behind \<open>tbuffer\<close>.\<close>

definition job_person :: "u8 list \<Rightarrow> u8 \<Rightarrow> (u8 list \<times> nat) option" where
  "job_person mem nxt =
     (case person_loop (tl mem) 1 of
        None \<Rightarrow> None
      | Some (k, None) \<Rightarrow> Some (replicate 32 0, k)
      | Some (k, Some r) \<Rightarrow>
          if length r < 32 then None
          else let tb = take 32 r
               in Some (tb, if k < BUFFER_SIZE then job_loop (tl tb @ [nxt]) 1 else k))"

end
