(* ===== verification/Lpd_Data.thy ===== *)
theory Lpd_Data
  imports Lpd_Parse Eof_Page
begin

text \<open>
  The files of a print job, \<open>src/apps/ps/lpd/src/lpd.c\<close>: \<open>hold_job\<close>, \<open>receive_data_file\<close> with its
  binary and text variants, and \<open>receive_control_file\<close> (\<open>IPPD\<close>, \<open>LPD_TXT\<close> and \<open>SUPPORT_JOB_LOG\<close>
  defined, \<open>USB_ZERO_CPY\<close> not).
\<close>

unbundle bit_operations_syntax

definition STATUS_OK :: u8 where "STATUS_OK = 0"
definition STATUS_ERR :: u8 where "STATUS_ERR = 1"

text \<open>The daemon's own hold flags, which replace those of the print queue.\<close>

definition UnixHolded :: u8 where "UnixHolded = 1"
definition UnixHoldAbort :: u8 where "UnixHoldAbort = 2"

definition PrnIsUnixHold :: "world \<Rightarrow> bool" where
  "PrnIsUnixHold w \<longleftrightarrow> UnixHold w AND UnixHolded \<noteq> 0"

definition PrnSetUnixHold :: "world \<Rightarrow> world" where
  "PrnSetUnixHold w = w\<lparr>UnixHold := UnixHold w OR UnixHolded\<rparr>"

definition PrnSetUnixUnHold :: "world \<Rightarrow> world" where
  "PrnSetUnixUnHold w = w\<lparr>UnixHold := UnixHold w AND NOT (UnixHolded OR UnixHoldAbort)\<rparr>"

definition PrnIsUnixHoldAbort :: "world \<Rightarrow> bool" where
  "PrnIsUnixHoldAbort w \<longleftrightarrow> UnixHold w AND UnixHoldAbort \<noteq> 0"

definition PrnSetUnixHoldAbort :: "world \<Rightarrow> world" where
  "PrnSetUnixHoldAbort w = w\<lparr>UnixHold := UnixHold w OR UnixHoldAbort\<rparr>"

section \<open>Taking the port\<close>

fun hold_loop :: "u32 \<Rightarrow> sched \<Rightarrow> world \<Rightarrow> int run" where
  "hold_loop startime fs w =
     (if port_status w \<noteq> PORT_READY \<or> status w \<noteq> PrnNoUsed
      then (let (st, w1) = keep_alive (TICKS_PER_SECOND * 10) True startime w
            in case fs of
                 [] \<Rightarrow> Blocked w1
               | f # fs' \<Rightarrow>
                   (let w2 = f w1 in if PrnIsUnixHoldAbort w2 then Done 1 fs' w2 else hold_loop st fs' w2))
      else Done 0 fs (PrnSetUnixUnHold (set_in_use UnixUsed w)))"

declare hold_loop.simps [simp del]

definition hold_job :: "nat \<Rightarrow> sched \<Rightarrow> world \<Rightarrow> int run" where
  "hold_job NumOfFile fs w = (if NumOfFile \<noteq> 0 then Done 0 fs w else hold_loop (clk w) fs w)"

definition abort_spooler :: "nat option \<Rightarrow> sched \<Rightarrow> world \<Rightarrow> unit run" where
  "abort_spooler b fs w =
     (case PrnAbortSpooler 0 b (spl w) of None \<Rightarrow> Blocked w | Some s \<Rightarrow> Done () fs (set_sp s w))"

section \<open>Binary files\<close>

text \<open>
  Filling one buffer: \<open>bytes\<close> are in it; the loop ends when less than a segment's room is left, when
  nothing more has arrived, or when \<open>recv\<close> fails. Returns \<open>bytes\<close> and the last \<open>recv_bytes\<close>.
\<close>

function bin_fill :: "nat \<Rightarrow> int \<Rightarrow> nat \<Rightarrow> sched \<Rightarrow> world \<Rightarrow> (nat \<times> int) run" where
  "bin_fill b blocksize bytes fs w =
     run_bind (lwip_recv BLOCK_SIZE fs w) (\<lambda>p fs w. case p of (recv_bytes, bs) \<Rightarrow>
       if 0 < recv_bytes
       then (let w1 = put_data b bytes bs w; bytes' = bytes + nat recv_bytes
             in if int (bytes' + BLOCK_SIZE) > blocksize \<or> get_socket_rcevent w1 = 0
                then Done (bytes', recv_bytes) fs w1
                else bin_fill b blocksize bytes' fs w1)
       else Done (bytes, recv_bytes) fs w)"
  by pat_completeness auto
termination
  by (relation "inv_image pot (\<lambda>(b, k, n, fs, w). (fs, w))")
    (auto dest!: lwip_recv_pot simp: pot_iff BLOCK_SIZE_def)

declare bin_fill.simps [simp del]

lemma bin_fill_pot:
  "bin_fill b k n fs w = Done (m, r) fs' w' \<Longrightarrow> 0 < r \<Longrightarrow> ((fs', w'), (fs, w)) \<in> pot"
proof (induction b k n fs w arbitrary: fs' w' rule: bin_fill.induct)
  case (1 b k n fs w)
  obtain rb bs fs1 w1 where rc: "lwip_recv BLOCK_SIZE fs w = Done (rb, bs) fs1 w1"
    using 1(2) by (subst (asm) bin_fill.simps) (auto simp: run_bind_Done)
  have pos: "0 < rb" using 1(2,3) rc by (subst (asm) bin_fill.simps) (auto split: if_splits)
  have lt: "((fs1, w1), (fs, w)) \<in> pot" using lwip_recv_pot [OF rc] pos by (simp add: BLOCK_SIZE_def)
  show ?case
    using 1(1) [OF rc refl pos refl refl] 1(2,3) rc pos lt
    by (subst (asm) bin_fill.simps) (auto simp: Let_def pot_iff split: if_splits)
qed

text \<open>The end of a binary file: status byte \<open>st\<close>, \<open>b\<close> the last buffer, \<open>t0\<close> the time of its first \<open>recv\<close>.\<close>

definition bin_end :: "u8 \<Rightarrow> nat \<Rightarrow> u32 \<Rightarrow> sched \<Rightarrow> world \<Rightarrow> int run" where
  "bin_end st b t0 fs w =
     (if st \<noteq> STATUS_OK
      then run_bind (abort_spooler (Some b) fs w) (\<lambda>_ fs w.
             Done (if clk w - t0 > ucast (TimeOutValue w) * 10 then -3 else -1) fs w)
      else Done 0 fs w)"

text \<open>
  The loop over buffers: \<open>filesize\<close> counts the status byte, \<open>tot\<close> (\<open>total\<close> in the code) are done. \<open>t0\<close> is
  \<open>startime_bin\<close>, not initialised before the first \<open>recv\<close>.
\<close>

function bin_loop :: "u32 \<Rightarrow> u32 \<Rightarrow> int \<Rightarrow> u32 \<Rightarrow> sched \<Rightarrow> world \<Rightarrow> int run" where
  "bin_loop filesize tot blocksize t0 fs w =
     run_bind (wait_in_buf (TICKS_PER_SECOND * 10) True 0 fs w) (\<lambda>p fs w. case p of (b, _) \<Rightarrow>
     if status w = PrnAbortUsed then bin_end STATUS_ERR b t0 fs w
     else let t1 = clk w in
     run_bind (bin_fill b blocksize 0 fs w) (\<lambda>q fs w. case q of (bytes, recv_bytes) \<Rightarrow>
     if recv_bytes \<le> 0
     then (if bytes \<noteq> 0
           then bin_end STATUS_OK b t1 fs (put_out b PRN_Q_EOF (set_size b (int bytes) w))
           else bin_end STATUS_ERR b t1 fs (set_size b 0 w))
     else let stp = (tot + of_nat bytes = filesize);
              n = (if stp then bytes - 1 else bytes);
              st = (if stp then hd (get_data b n 1 w) else STATUS_OK);
              w1 = set_size b (int n) (log_add (int n) w);
              tot' = tot + (if stp then 1 else 0) + of_nat n;
              bsz = (if filesize - tot' < of_nat BLOCKSIZE then uint (filesize - tot') else blocksize)
          in if tot' < filesize
             then bin_loop filesize tot' bsz t1 fs (put_out b PRN_Q_NORMAL w1)
             else bin_end st b t1 fs (put_out b PRN_Q_EOF w1)))"
  by pat_completeness auto
termination
  by (relation "inv_image pot (\<lambda>(f, t, k, t0, fs, w). (fs, w))")
    (auto dest!: wait_in_buf_pot bin_fill_pot simp: not_le pot_iff pot_le_def)

declare bin_loop.simps [simp del]

definition receive_bin_data_file :: "u32 \<Rightarrow> u32 \<Rightarrow> sched \<Rightarrow> world \<Rightarrow> int run" where
  "receive_bin_data_file junk_time filesize fs w =
     (let fz = filesize + 1
      in bin_loop fz 0 (if fz > of_nat BLOCKSIZE then int BLOCKSIZE else uint fz) junk_time fs w)"

section \<open>Text files\<close>

text \<open>Half a block of input, which never gives more than a block of output.\<close>

definition HALF :: nat where "HALF = BLOCKSIZE div 2"

text \<open>The end: \<open>b0\<close> and \<open>b1\<close> are the output buffers, \<open>b2\<close> the input buffer.\<close>

definition txt_end :: "u8 \<Rightarrow> nat \<Rightarrow> nat \<Rightarrow> nat \<Rightarrow> sched \<Rightarrow> world \<Rightarrow> int run" where
  "txt_end st b0 b1 b2 fs w =
     (if st \<noteq> STATUS_OK
      then run_bind (abort_spooler (Some b2) fs (put_in b1 (put_in b0 w))) (\<lambda>_ fs w. Done (-1) fs w)
      else Done 0 fs (put_out b2 PRN_Q_EOF (set_size b2 0 w)))"

text \<open>The converted first \<open>n\<close> bytes of the input buffer are queued, in one buffer or two.\<close>

definition txt_put :: "nat \<Rightarrow> u8 list \<Rightarrow> world \<Rightarrow> world" where
  "txt_put b out w = put_out b PRN_Q_NORMAL (set_size b (int (length out)) (put_data b 0 out w))"

definition txt_convert :: "u8 \<Rightarrow> nat \<Rightarrow> nat \<Rightarrow> nat \<Rightarrow> nat \<Rightarrow> world \<Rightarrow> u8 \<times> world" where
  "txt_convert KeepCR b0 b1 b2 n w =
     (let (out0, k0) = ProcessCRLF KeepCR (get_data b2 0 (min n HALF) w);
          w1 = txt_put b0 out0 w
      in if HALF < n
         then (let (out1, k1) = ProcessCRLF k0 (get_data b2 HALF (n - HALF) w1) in (k1, txt_put b1 out1 w1))
         else (k0, put_in b1 w1))"

lemma txt_convert_rx [simp]: "rx_left (snd (txt_convert k b0 b1 b2 n w)) = rx_left w"
  by (simp add: txt_convert_def txt_put_def Let_def split: prod.split)

function txt_loop :: "u32 \<Rightarrow> u32 \<Rightarrow> int \<Rightarrow> u8 \<Rightarrow> nat \<Rightarrow> sched \<Rightarrow> world \<Rightarrow> int run" where
  "txt_loop filesize tot blocksize KeepCR b2 fs w =
     run_bind (wait_in_buf (TICKS_PER_SECOND * 5) True 0 fs w) (\<lambda>p fs w. case p of (b0, startime) \<Rightarrow>
     run_bind (wait_in_buf (TICKS_PER_SECOND * 5) True startime fs (set_size b0 0 w)) (\<lambda>q fs w. case q of (b1, _) \<Rightarrow>
     let w = set_size b1 0 w in
     if status w = PrnAbortUsed then txt_end STATUS_ERR b0 b1 b2 fs w
     else run_bind (lwip_recv (nat blocksize) fs w) (\<lambda>r fs w. case r of (bytes, bs) \<Rightarrow>
     if bytes < 1 then txt_end STATUS_ERR b0 b1 b2 fs w
     else let w = put_data b2 0 bs w;
              stp = (tot + of_int bytes = filesize);
              n = (if stp then nat bytes - 1 else nat bytes);
              st = (if stp then hd (get_data b2 n 1 w) else STATUS_OK);
              w1 = set_size b2 (int n) (log_add (int n) w);
              tot' = tot + (if stp then 1 else 0) + of_nat n;
              bsz = (if filesize - tot' < of_nat BLOCKSIZE then uint (filesize - tot') else blocksize);
              kw = txt_convert KeepCR b0 b1 b2 n w1
          in if tot' < filesize then txt_loop filesize tot' bsz (fst kw) b2 fs (snd kw)
             else txt_end st b0 b1 b2 fs (snd kw))))"
  by pat_completeness auto
termination
  by (relation "inv_image pot (\<lambda>(f, t, k, c, b, fs, w). (fs, w))")
    (auto dest!: wait_in_buf_pot lwip_recv_pot simp: not_less pot_iff pot_le_def)

declare txt_loop.simps [simp del]

definition receive_txt_data_file :: "u32 \<Rightarrow> sched \<Rightarrow> world \<Rightarrow> int run" where
  "receive_txt_data_file filesize fs w =
     (let fz = filesize + 1
      in run_bind (wait_in_buf (TICKS_PER_SECOND * 5) False 0 fs w) (\<lambda>p fs w. case p of (b2, _) \<Rightarrow>
           txt_loop fz 0 (if fz > of_nat BLOCKSIZE then int BLOCKSIZE else uint fz) 0 b2 fs (set_size b2 0 w)))"

section \<open>Data files\<close>

text \<open>
  \<open>receive_data_file\<close>: the first file of a job waits for the port and enters the job in the log;
  \<open>buffercount\<close> is cut to eight bits by the call.
\<close>

definition receive_data_file :: "u32 \<Rightarrow> int \<Rightarrow> u32 \<Rightarrow> nat \<Rightarrow> sched \<Rightarrow> world \<Rightarrow> int run" where
  "receive_data_file junk_time TXTMode filesize NumOfFile fs w =
     run_bind (hold_job NumOfFile fs (RESPOND_OK w)) (\<lambda>_ fs w.
     run_bind (if HadLogged w = 0
               then run_bind (log_put 1 (tbuffer w) (buffercount w mod 256) fs w) (\<lambda>_ fs w.
                      Done () fs (w\<lparr>HadLogged := 1\<rparr>))
               else Done () fs w) (\<lambda>_ fs w.
       if PrnIsUnixHoldAbort w
       then run_bind (abort_spooler None fs w) (\<lambda>_ fs w. Done (-1) fs (PrnSetUnixUnHold w))
       else if TXTMode \<noteq> 0 then receive_txt_data_file filesize fs w
       else receive_bin_data_file junk_time filesize fs w))"

section \<open>Control files\<close>

definition store_at :: "nat \<Rightarrow> u8 list \<Rightarrow> u8 list \<Rightarrow> u8 list" where
  "store_at pos bs mem = take pos mem @ bs @ drop (pos + length bs) mem"

text \<open>
  The control file is read into the buffer that held the command line; \<open>st\<close> is the variable
  \<open>status\<close>, set only when the file ends exactly at a received block. The last portion's size is
  compared with \<open>BLOCKSIZE\<close>, not with the buffer's: bytes stored past the buffer are a fault.
\<close>

function ctl_loop ::
  "u32 \<Rightarrow> u32 \<Rightarrow> int \<Rightarrow> nat \<Rightarrow> u8 \<Rightarrow> u8 list \<Rightarrow> sched \<Rightarrow> world \<Rightarrow> (int \<times> u8 list) run" where
  "ctl_loop filesize tot blocksize pos st mem fs w =
     run_bind (lwip_recv (nat blocksize) fs w) (\<lambda>r fs w. case r of (bytes, bs) \<Rightarrow>
     if bytes < 1 then Done (-1, mem) fs w
     else if pos + length bs > BUFFER_SIZE then Fault Overflow
     else let mem' = store_at pos bs mem;
              stp = (tot + of_int bytes = filesize);
              n = (if stp then nat bytes - 1 else nat bytes);
              st' = (if stp then mem' ! (pos + n) else st);
              tot' = tot + (if stp then 1 else 0) + of_nat n;
              bsz = (if filesize - tot' < of_nat BLOCKSIZE then uint (filesize - tot') else blocksize)
          in if tot' < filesize then ctl_loop filesize tot' bsz (pos + n) st' mem' fs w
             else Done (if st' \<noteq> STATUS_OK then -1 else 0, mem') fs w)"
  by pat_completeness auto
termination
  by (relation "inv_image pot (\<lambda>(f, t, k, p, s, m, fs, w). (fs, w))")
    (auto dest!: lwip_recv_pot simp: not_less)

declare ctl_loop.simps [simp del]

definition receive_control_file :: "u8 \<Rightarrow> u32 \<Rightarrow> u8 list \<Rightarrow> sched \<Rightarrow> world \<Rightarrow> (int \<times> u8 list) run" where
  "receive_control_file junk_status filesize mem fs w =
     ctl_loop (filesize + 1) 0 (int BUFFER_SIZE) 0 junk_status mem fs (RESPOND_OK w)"

end
