(* ===== verification/Lpd.thy ===== *)
theory Lpd
  imports Lpd_Data
begin

text \<open>
  The line printer daemon, \<open>src/apps/ps/lpd/src/lpd.c\<close>: the command of a new connection
  (\<open>CheckServiceMode\<close>), the status and remove commands (\<open>service_job\<close>, \<open>send_queue\<close>, \<open>abort_job\<close>).

  \<open>mem\<close> is a command buffer followed by the memory behind it. Variables that are read before they
  are set keep what the memory held: \<open>junk_time\<close>, \<open>junk_status\<close> and \<open>junk_text\<close>, the string found in
  \<open>SysResoure\<close>. \<open>shutdown\<close> has no effect on the modelled state.
\<close>

unbundle bit_operations_syntax

text \<open>Commands, subcommands and service modes, \<open>lp.h\<close>.\<close>

definition START_CMD :: u8 where "START_CMD = 1"
definition RECEIVE_CMD :: u8 where "RECEIVE_CMD = 2"
definition SQUEUE_CMD :: u8 where "SQUEUE_CMD = 3"
definition QUEUE_CMD :: u8 where "QUEUE_CMD = 4"
definition REMOVE_CMD :: u8 where "REMOVE_CMD = 5"
definition ABORT_SCMD :: u8 where "ABORT_SCMD = 1"
definition RECEIVE_CF_SCMD :: u8 where "RECEIVE_CF_SCMD = 2"
definition RECEIVE_DF_SCMD :: u8 where "RECEIVE_DF_SCMD = 3"

lemmas lpd_cmds = START_CMD_def RECEIVE_CMD_def SQUEUE_CMD_def QUEUE_CMD_def REMOVE_CMD_def
lemmas lpd_subcmds = ABORT_SCMD_def RECEIVE_CF_SCMD_def RECEIVE_DF_SCMD_def

datatype service = LPD_RECEIVE_MODE int | LPD_SERVICE_MODE u8 | LPD_ERROR_MODE

text \<open>The messages of \<open>prnqueue.c\<close>, indexed by the owner of the port; the fifth takes the job number.\<close>

definition PrnUsedMessage :: "u8 list list" where
  "PrnUsedMessage = map cstr
     ['' is available !'', '' is removing current job !'', '' is used by Windows !'',
      '' is used by NetWare !'', '' is used by Unix (LPD), job#='', '' is used by Mac (ATALK) !'',
      '' is used by IPPD, job#=%d(%d) !'', '' is used by SMB !'', '' is used by RawTcp !'',
      '' is used by Ftp !'', '' is used by Upgrade !'', '' is used by Test Pag !'']"

text \<open>\<open>sprintf\<close> with \<open>%d\<close>.\<close>

fun dec_digits :: "nat \<Rightarrow> u8 list" where
  "dec_digits n = (if n < 10 then [of_nat n + 48] else dec_digits (n div 10) @ [of_nat (n mod 10) + 48])"

declare dec_digits.simps [simp del]

definition show_int :: "int \<Rightarrow> u8 list" where
  "show_int i = (if i < 0 then 45 # dec_digits (nat (- i)) else dec_digits (nat i))"

definition need :: "fault \<Rightarrow> 'a option \<Rightarrow> sched \<Rightarrow> world \<Rightarrow> 'a run" where
  "need e x fs w = (case x of None \<Rightarrow> Fault e | Some a \<Rightarrow> Done a fs w)"

definition put_name :: "world \<Rightarrow> world" where
  "put_name w = zot_fputs (PrnGetPrinterName 0 (spl w)) w"

section \<open>Status and removal\<close>

definition send_queue :: "u8 list \<Rightarrow> sched \<Rightarrow> world \<Rightarrow> unit run" where
  "send_queue junk_text fs w =
     (let PrintStatus = status w; w1 = put_name w
      in if PrintStatus \<noteq> UnixUsed
         then (if unat PrintStatus < length PrnUsedMessage
               then Done () fs (zot_fputs junk_text (zot_fputs (PrnUsedMessage ! unat PrintStatus) w1))
               else Fault BadIndex)
         else let SysResoure = PrnUsedMessage ! unat PrintStatus @
                    (if CurJobQueueID w1 = -1 then cstr ''unknow'' else show_int (CurJobQueueID w1))
              in Done () fs (zot_fputs SysResoure (zot_fputs SysResoure w1)))"

text \<open>\<open>cmd\<close> (\<open>buf\<close> in the code) is null when the client aborts its own job.\<close>

definition abort_job :: "u8 list \<Rightarrow> u8 list option \<Rightarrow> sched \<Rightarrow> world \<Rightarrow> unit run" where
  "abort_job junk_text cmd fs w =
     (let PrnStatus = status w; IsUnixHold = PrnIsUnixHold w
      in run_bind (case cmd of None \<Rightarrow> Done 1 fs w | Some m \<Rightarrow> need Overread (CheckRemoveJobID (CurJobQueueID w) m) fs w)
           (\<lambda>NeedRemoveJob fs w.
         if NeedRemoveJob = 0 then send_queue junk_text fs w
         else if \<not> IsUnixHold \<and> PrnStatus \<in> {PrnNoUsed, PrnAbortUsed, NetwareUsed, NTUsed}
         then send_queue junk_text fs w
         else let w1 = (if IsUnixHold then PrnSetUnixHoldAbort w else set_in_use PrnAbortUsed w)
              in Done () fs (zot_fputs (PrnUsedMessage ! unat PrnAbortUsed) (put_name w1))))"

section \<open>The command of a connection\<close>

function recv_cmd :: "u8 list \<Rightarrow> sched \<Rightarrow> world \<Rightarrow> u8 list option run" where
  "recv_cmd mem fs w =
     run_bind (lwip_recv BUFFER_SIZE fs w) (\<lambda>r fs w. case r of (bytes, bs) \<Rightarrow>
     if bytes < 0 then Done None fs w
     else let mem' = store_at 0 bs mem
          in case c_string mem' of
               None \<Rightarrow> Fault Overread
             | Some s \<Rightarrow> if s = [] then recv_cmd mem' fs (RESPOND_ERR w) else Done (Some mem') fs w)"
  by pat_completeness auto
termination
  by (relation "inv_image pot (\<lambda>(m, fs, w). (fs, w))")
    (auto dest!: lwip_recv_pot simp: not_less BUFFER_SIZE_def pot_iff RESPOND_ERR_def lwip_send_def rx_left_def)

declare recv_cmd.simps [simp del]

text \<open>The printer name runs to the first space or NUL, where a NUL is written.\<close>

definition split_name :: "u8 list \<Rightarrow> (u8 list \<times> u8 list) option" where
  "split_name mem =
     (let nm = takeWhile (\<lambda>c. c \<noteq> 0 \<and> c \<noteq> 32) (tl mem)
      in if Suc (length nm) < length mem then Some (nm, mem[Suc (length nm) := 0]) else None)"

definition CheckServiceMode :: "u8 list \<Rightarrow> sched \<Rightarrow> world \<Rightarrow> (service \<times> u8 list) run" where
  "CheckServiceMode mem fs w =
     run_bind (recv_cmd mem fs w) (\<lambda>r fs w. case r of None \<Rightarrow> Done (LPD_ERROR_MODE, mem) fs w | Some m0 \<Rightarrow>
     run_bind (need Overread (rip m0) fs w) (\<lambda>m1 fs w.
     run_bind (need Overread (split_name m1) fs w) (\<lambda>p fs w. case p of (printer, m) \<Rightarrow>
     if START_CMD \<le> hd m \<and> hd m \<le> REMOVE_CMD
     then let Port = PrnCheckPrinter printer
          in if Port < 0
             then Done (LPD_ERROR_MODE, m) fs
               (zot_fputs (cstr '').\<newline>'') (zot_fputs (HostName w) (zot_fputs (cstr '' not found ('')
                 (zot_fputs printer (zot_fputs (cstr ''Printer '') w)))))
             else if hd m \<noteq> RECEIVE_CMD
             then (if ServiceProcIsBusy w
                   then Done (LPD_ERROR_MODE, m) fs (zot_fputs (cstr ''Server is busy !\<newline>'') w)
                   else Done (LPD_SERVICE_MODE (hd m), m) fs (w\<lparr>ServiceProcIsBusy := True\<rparr>))
             else if \<not> PrnIsUnixHold w
             then Done (LPD_RECEIVE_MODE (if Port AND 0xF0 \<noteq> 0 then 1 else 0), m) fs (PrnSetUnixHold w)
             else Done (LPD_ERROR_MODE, m) fs (RESPOND_ERR (zot_fputs (cstr '' is busy !\<newline>'') (put_name w)))
     else Done (LPD_ERROR_MODE, m) fs (zot_fputs (cstr ''Bad command\<newline>'') w))))"

definition service_job :: "u8 list \<Rightarrow> u8 \<Rightarrow> u8 list \<Rightarrow> sched \<Rightarrow> world \<Rightarrow> unit run" where
  "service_job junk_text Mode cmd fs w =
     run_bind (if Mode = START_CMD then Done () fs (RESPOND_OK w)
               else if Mode = SQUEUE_CMD \<or> Mode = QUEUE_CMD then send_queue junk_text fs w
               else if Mode = REMOVE_CMD then abort_job junk_text (Some cmd) fs w
               else Done () fs w) (\<lambda>_ fs w.
       Done () fs ((zot_fclose w)\<lparr>ServiceProcIsBusy := False\<rparr>))"

end
