(* ===== verification/Lpd_Job.thy ===== *)
theory Lpd_Job
  imports Lpd
begin

text \<open>
  The thread of a line printer job, \<open>receive_job\<close> of \<open>src/apps/ps/lpd/src/lpd.c\<close>, and what \<open>lpdstart\<close>
  does with an accepted connection.
\<close>

unbundle bit_operations_syntax

section \<open>Progress\<close>

text \<open>The commands of a job leave the connection no more to read than it had.\<close>

primrec ends_le :: "sched \<Rightarrow> world \<Rightarrow> 'a run \<Rightarrow> bool" where
  "ends_le fs w (Blocked w') = True"
| "ends_le fs w (Fault e) = True"
| "ends_le fs w (Done a fs' w') = pot_le fs' w' fs w"

lemma ends_leD: "ends_le fs w m \<Longrightarrow> m = Done a fs' w' \<Longrightarrow> pot_le fs' w' fs w"
  by simp

lemma ends_leI: "(\<And>a fs' w'. m = Done a fs' w' \<Longrightarrow> pot_le fs' w' fs w) \<Longrightarrow> ends_le fs w m"
  by (cases m) auto

lemma ends_le_bind:
  "ends_le fs w m \<Longrightarrow> (\<And>a fs' w'. m = Done a fs' w' \<Longrightarrow> ends_le fs' w' (k a fs' w')) \<Longrightarrow>
   ends_le fs w (run_bind m k)"
  by (cases m) (auto intro!: ends_leI elim!: pot_le_trans dest: ends_leD)

lemma ends_le_trans: "ends_le fs' w' m \<Longrightarrow> pot_le fs' w' fs w \<Longrightarrow> ends_le fs w m"
  by (cases m) (auto elim: pot_le_trans)

lemma ends_le_rx: "rx_left w' \<le> rx_left w \<Longrightarrow> ends_le fs w' m \<Longrightarrow> ends_le fs w m"
  by (erule ends_le_trans) (simp add: pot_le_def)

lemma lwip_recv_le: "ends_le fs w (lwip_recv len fs w)"
proof (rule ends_leI)
  fix r fs' w' assume "lwip_recv len fs w = Done r fs' w'"
  then show "pot_le fs' w' fs w" by (cases r) (auto dest!: lwip_recv_rx simp: pot_le_def)
qed

lemma wait_in_buf_le: "ends_le fs w (wait_in_buf lim always st fs w)"
  by (auto intro: ends_leI wait_in_buf_pot)

lemma yield_le: "ends_le fs w (yield fs w)"
  by (auto intro: ends_leI yield_pot)

lemma hold_loop_le: "ends_le fs w (hold_loop st fs w)"
proof (induction st fs w rule: hold_loop.induct)
  case (1 st fs w)
  show ?case
  proof (cases "port_status w \<noteq> PORT_READY \<or> status w \<noteq> PrnNoUsed")
    case True
    obtain st1 w1 where k: "keep_alive (TICKS_PER_SECOND * 10) True st w = (st1, w1)" by fastforce
    show ?thesis
    proof (cases fs)
      case (Cons f fs')
      have "ends_le fs' (f w1) (hold_loop st1 fs' (f w1))" if "\<not> PrnIsUnixHoldAbort (f w1)"
        using 1 [OF True k [symmetric] refl Cons refl that] .
      then have "ends_le fs w (if PrnIsUnixHoldAbort (f w1) then Done 1 fs' (f w1) else hold_loop st1 fs' (f w1))"
        by (auto simp: Cons pot_le_def elim!: ends_le_trans)
      with True k Cons show ?thesis by (subst hold_loop.simps) (simp add: Let_def)
    qed (use True k in \<open>subst hold_loop.simps, simp\<close>)
  next
    case False
    then show ?thesis by (subst hold_loop.simps) (simp add: PrnSetUnixUnHold_def pot_le_def rx_left_def set_in_use_def)
  qed
qed

lemma abort_spooler_le: "ends_le fs w (abort_spooler b fs w)"
  by (auto simp: abort_spooler_def pot_le_def split: option.split)

lemma bin_fill_le: "ends_le fs w (bin_fill b k n fs w)"
proof (induction b k n fs w rule: bin_fill.induct)
  case (1 b k n fs w)
  show ?case
    by (subst bin_fill.simps, rule ends_le_bind [OF lwip_recv_le])
      (auto simp: Let_def pot_le_def intro!: ends_le_rx [OF _ 1])
qed

lemma bin_end_le: "rx_left w' \<le> rx_left w \<Longrightarrow> ends_le fs w (bin_end st b t0 fs w')"
  by (erule ends_le_rx) (auto simp: bin_end_def intro!: ends_le_bind abort_spooler_le)

lemma bin_loop_le: "ends_le fs w (bin_loop fz tot k t0 fs w)"
proof (induction fz tot k t0 fs w rule: bin_loop.induct)
  case (1 fz tot k t0 fs w)
  note IH = 1
  show ?case
  proof (subst bin_loop.simps, rule ends_le_bind [OF wait_in_buf_le], goal_cases)
    case (1 p fs1 w1)
    obtain b st where p: "p = (b, st)" by fastforce
    show ?case
    proof (cases "status w1 = PrnAbortUsed")
      case False
      show ?thesis
        unfolding p prod.case Let_def if_not_P [OF False]
      proof (rule ends_le_bind [OF bin_fill_le], goal_cases)
        case fill: (1 q fs2 w2)
        obtain n r where q: "q = (n, r)" by fastforce
        note IH' = IH [OF 1 p [symmetric] False refl fill q [symmetric] _ refl refl refl refl refl refl]
        show ?case
          using IH' by (auto simp: q Let_def pot_le_def intro!: bin_end_le elim!: ends_le_trans)
      qed
    qed (auto simp: p intro: bin_end_le)
  qed
qed

lemma txt_end_le: "rx_left w' \<le> rx_left w \<Longrightarrow> ends_le fs w (txt_end st b0 b1 b2 fs w')"
  by (erule ends_le_rx)
    (auto simp: txt_end_def pot_le_def intro!: ends_le_bind ends_le_rx [OF _ abort_spooler_le])

lemma txt_loop_le: "ends_le fs w (txt_loop fz tot k c b2 fs w)"
proof (induction fz tot k c b2 fs w rule: txt_loop.induct)
  case (1 fz tot k c b2 fs w)
  note IH = 1
  show ?case
  proof (subst txt_loop.simps, rule ends_le_bind [OF wait_in_buf_le], goal_cases)
    case got: (1 p fs1 w1)
    obtain b0 st where p: "p = (b0, st)" by fastforce
    show ?case
      unfolding p prod.case
    proof (rule ends_le_bind [OF ends_le_rx [OF _ wait_in_buf_le]], goal_cases)
      case got2: (2 q fs2 w2)
      obtain b1 st1 where q: "q = (b1, st1)" by fastforce
      show ?case
      proof (cases "status (set_size b1 0 w2) = PrnAbortUsed")
        case False
        show ?thesis
          unfolding q prod.case Let_def if_not_P [OF False]
        proof (rule ends_le_bind [OF ends_le_rx [OF _ lwip_recv_le]], goal_cases)
          case rx: (2 r fs3 w3)
          obtain n bs where r: "r = (n, bs)" by fastforce
          note IH' = IH [OF got p [symmetric] got2 q [symmetric] refl False rx r [symmetric] _ refl refl refl refl refl refl refl refl]
          show ?case
            using IH' by (auto simp: r Let_def pot_le_def intro!: txt_end_le elim!: ends_le_trans)
        qed simp
      qed (auto simp: q Let_def intro: txt_end_le)
    qed simp
  qed
qed

lemma ctl_loop_le: "ends_le fs w (ctl_loop fz tot k n st mem fs w)"
proof (induction fz tot k n st mem fs w rule: ctl_loop.induct)
  case (1 fz tot k n st mem fs w)
  note IH = 1
  show ?case
  proof (subst ctl_loop.simps, rule ends_le_bind [OF lwip_recv_le], goal_cases)
    case rx: (1 r fs3 w3)
    obtain m bs where r: "r = (m, bs)" by fastforce
    note IH' = IH [OF rx r [symmetric] _ _ refl refl refl refl refl refl]
    show ?case
      using IH' by (auto simp: r Let_def)
  qed
qed

lemma rx_left_more [simp]: "rx_left (RESPOND_OK w) = rx_left w" "rx_left (RESPOND_ERR w) = rx_left w"
  "rx_left (zot_fputs t w) = rx_left w" "rx_left (put_name w) = rx_left w" "rx_left (log_end v w) = rx_left w"
  "rx_left (PrnSetUnixHoldAbort w) = rx_left w" "rx_left (PrnSetUnixHold w) = rx_left w"
  "rx_left (PrnSetUnixUnHold w) = rx_left w" "rx_left (w\<lparr>HadLogged := h\<rparr>) = rx_left w"
  "rx_left (w\<lparr>CurJobQueueID := q\<rparr>) = rx_left w"  "rx_left (w\<lparr>jlog := l\<rparr>) = rx_left w"
  "rx_left (w\<lparr>tbuffer := tb, buffercount := bc\<rparr>) = rx_left w"
  by (simp_all add: rx_left_def RESPOND_OK_def RESPOND_ERR_def lwip_send_def zot_fputs_def put_name_def Let_def
      log_end_def PrnSetUnixHold_def PrnSetUnixHoldAbort_def PrnSetUnixUnHold_def)

lemma send_queue_le: "ends_le fs w (send_queue junk_text fs w)"
  by (simp add: send_queue_def Let_def pot_le_def)

lemma need_le: "ends_le fs w (need e x fs w)"
  by (simp add: need_def split: option.split)

lemma abort_job_le: "ends_le fs w (abort_job junk_text m fs w)"
  by (auto simp: abort_job_def Let_def pot_le_def need_le send_queue_le intro!: ends_le_bind split: option.split)

lemma receive_control_file_le: "ends_le fs w (receive_control_file st fz mem fs w)"
  unfolding receive_control_file_def by (rule ends_le_rx [OF _ ctl_loop_le]) simp

lemma receive_data_file_le: "ends_le fs w (receive_data_file t m fz n fs w)"
proof -
  have 1: "ends_le fs w (hold_job n fs (RESPOND_OK w))"
    by (simp add: hold_job_def pot_le_def ends_le_rx [OF _ hold_loop_le])
  have 2: "ends_le fs w (receive_txt_data_file fz fs w)" for fs w
    unfolding receive_txt_data_file_def Let_def
    by (rule ends_le_bind [OF wait_in_buf_le]) (auto intro: ends_le_rx [OF _ txt_loop_le])
  have 3: "ends_le fs w (receive_bin_data_file t fz fs w)" for fs w
    unfolding receive_bin_data_file_def Let_def by (rule bin_loop_le)
  have 4: "ends_le fs w (log_put a b c fs w)" for a b c fs w
    by (simp add: log_put_def pot_le_def split: option.split)
  show ?thesis
    unfolding receive_data_file_def
    by (rule ends_le_bind [OF 1], rule ends_le_bind)
      (auto simp: pot_le_def intro!: 2 3 4 ends_le_bind ends_le_bind [OF abort_spooler_le])
qed
section \<open>The commands of a job\<close>

text \<open>
  One command, in \<open>buffer\<close> after \<open>rip\<close>: the new \<open>rc\<close>, the buffer, and the new \<open>NumOfFile\<close>.
\<close>

definition control_cmd :: "u8 \<Rightarrow> u8 list \<Rightarrow> sched \<Rightarrow> world \<Rightarrow> (int \<times> u8 list) run" where
  "control_cmd junk_status mem fs w =
     run_bind (need Overread (c_string (tl mem)) fs w) (\<lambda>arg fs w.
     run_bind (receive_control_file junk_status (atol arg) mem fs w) (\<lambda>p fs w. case p of (r, mem') \<Rightarrow>
       if r < 0
       then Done (-1, mem') fs (zot_fputs (cstr '' can not receive control file\<newline>'') (put_name w))
       else run_bind (need Overread (job_person mem' (tnext w)) fs w) (\<lambda>q fs w. case q of (tb, bc) \<Rightarrow>
         Done (0, mem') fs (RESPOND_OK (w\<lparr>tbuffer := tb, buffercount := bc\<rparr>)))))"

definition data_cmd :: "u32 \<Rightarrow> int \<Rightarrow> u8 list \<Rightarrow> nat \<Rightarrow> sched \<Rightarrow> world \<Rightarrow> (int \<times> u8 list) run" where
  "data_cmd junk_time Mode mem NumOfFile fs w =
     run_bind (need Overread (c_string (tl mem)) fs w) (\<lambda>arg fs w.
     run_bind (need Overread (GetQueueID mem) fs w) (\<lambda>q fs w. case q of (jid, mem') \<Rightarrow>
     run_bind (receive_data_file junk_time Mode (atol arg) NumOfFile fs (w\<lparr>CurJobQueueID := jid\<rparr>)) (\<lambda>r fs w.
       if r < 0
       then run_bind (yield fs (zot_fputs (cstr '' can not receive data file\<newline>'') (put_name w))) (\<lambda>_ fs w.
              Done (if r = -3 then -3 else -1, mem') fs w)
       else Done (0, mem') fs (RESPOND_OK w))))"

definition job_cmd ::
  "u32 \<Rightarrow> u8 \<Rightarrow> u8 list \<Rightarrow> int \<Rightarrow> u8 list \<Rightarrow> nat \<Rightarrow> sched \<Rightarrow> world \<Rightarrow> (int \<times> u8 list \<times> nat) run" where
  "job_cmd junk_time junk_status junk_text Mode mem NumOfFile fs w =
     (if hd mem = ABORT_SCMD
      then run_bind (abort_job junk_text None fs w) (\<lambda>_ fs w. Done (0, mem, NumOfFile) fs (RESPOND_OK w))
      else if hd mem = RECEIVE_CF_SCMD
      then run_bind (control_cmd junk_status mem fs w) (\<lambda>p fs w. Done (fst p, snd p, NumOfFile) fs w)
      else if hd mem = RECEIVE_DF_SCMD
      then run_bind (data_cmd junk_time Mode mem NumOfFile fs w) (\<lambda>p fs w. Done (fst p, snd p, Suc NumOfFile) fs w)
      else Done (0, mem, NumOfFile) fs w)"

lemma control_cmd_le: "ends_le fs w (control_cmd st mem fs w)"
  unfolding control_cmd_def
  by (rule ends_le_bind [OF need_le], rule ends_le_bind [OF receive_control_file_le])
    (auto simp: pot_le_def intro!: ends_le_bind [OF need_le])

lemma data_cmd_le: "ends_le fs w (data_cmd t m mem n fs w)"
  unfolding data_cmd_def
  by (rule ends_le_bind [OF need_le], rule ends_le_bind [OF need_le])
    (auto simp: pot_le_def intro!: ends_le_bind [OF ends_le_rx [OF _ receive_data_file_le]]
       ends_le_bind [OF ends_le_rx [OF _ yield_le]])

lemma job_cmd_le: "ends_le fs w (job_cmd t st jt m mem n fs w)"
  by (auto simp: job_cmd_def pot_le_def intro!: ends_le_bind [OF abort_job_le] ends_le_bind [OF control_cmd_le]
      ends_le_bind [OF data_cmd_le])

text \<open>The loop of \<open>receive_job\<close>; the result is \<open>rc\<close>.\<close>

function job_cmds ::
  "u32 \<Rightarrow> u8 \<Rightarrow> u8 list \<Rightarrow> int \<Rightarrow> u8 list \<Rightarrow> nat \<Rightarrow> sched \<Rightarrow> world \<Rightarrow> int run" where
  "job_cmds junk_time junk_status junk_text Mode mem NumOfFile fs w =
     run_bind (lwip_recv BUFFER_SIZE fs w) (\<lambda>r fs w. case r of (bytes, bs) \<Rightarrow>
     if bytes < 0 then Done 0 fs w
     else let mem1 = store_at 0 bs mem
          in case c_string mem1 of
               None \<Rightarrow> Fault Overread
             | Some s \<Rightarrow>
                 if s = []
                 then job_cmds junk_time junk_status junk_text Mode mem1 NumOfFile fs
                        (RESPOND_ERR (zot_fputs (cstr '' illegal LPD command\<newline>'') (put_name w)))
                 else run_bind (need Overread (rip mem1) fs w) (\<lambda>mem2 fs w.
                      run_bind (job_cmd junk_time junk_status junk_text Mode mem2 NumOfFile fs w) (\<lambda>p fs w.
                        case p of (rc, mem3, n) \<Rightarrow>
                          if rc = 0 then job_cmds junk_time junk_status junk_text Mode mem3 n fs w
                          else Done rc fs w)))"
  by pat_completeness auto
termination
proof (relation "inv_image pot (\<lambda>(t, st, jt, m, mem, n, fs, w). (fs, w))", goal_cases)
  case (2 t st jt md mem n fs w r fs1 w1 x y)
  then show ?case using lwip_recv_pot [of BUFFER_SIZE fs w x y fs1 w1]
    by (simp add: BUFFER_SIZE_def pot_iff)
next
  case (3 t st jt md mem n fs w r fs1 w1 x y mem1 s mem2 fs2 w2 p fs3 w3 rc u mem3 n')
  have "((fs1, w1), (fs, w)) \<in> pot"
    using 3 lwip_recv_pot [of BUFFER_SIZE fs w x y fs1 w1] by (simp add: BUFFER_SIZE_def)
  moreover have "pot_le fs2 w2 fs1 w1" by (rule ends_leD [OF need_le 3(7)])
  moreover have "pot_le fs3 w3 fs2 w2" by (rule ends_leD [OF job_cmd_le 3(8)])
  ultimately show ?case by (auto intro: pot_less_le)
qed simp

declare job_cmds.simps [simp del]

text \<open>The entry of the connection's task, of which the first is released.\<close>

fun end_task :: "int \<Rightarrow> (int \<times> nat \<times> nat) list \<Rightarrow> (int \<times> nat \<times> nat) list" where
  "end_task s [] = []"
| "end_task s ((num, flag, rel) # ts) = (if num = s then (0, 0, 1) # ts else (num, flag, rel) # end_task s ts)"

definition job_end :: "u8 list \<Rightarrow> int \<Rightarrow> int \<Rightarrow> sched \<Rightarrow> world \<Rightarrow> unit run" where
  "job_end at_null s rc fs w =
     (let w1 = set_in_use PrnNoUsed w
      in run_bind (if rc = -3 then SendEOF at_null fs (log_end 3 w1) else Done () fs (log_end 0 w1)) (\<lambda>_ fs w.
           Done () fs ((zot_fclose (w\<lparr>HadLogged := 0\<rparr>))\<lparr>lpr_tasks := end_task s (lpr_tasks w)\<rparr>)))"

definition receive_job ::
  "u32 \<Rightarrow> u8 \<Rightarrow> u8 list \<Rightarrow> u8 list \<Rightarrow> int \<Rightarrow> int \<Rightarrow> u8 list \<Rightarrow> sched \<Rightarrow> world \<Rightarrow> unit run" where
  "receive_job junk_time junk_status junk_text at_null s Mode mem fs w =
     run_bind (job_cmds junk_time junk_status junk_text Mode mem 0 fs (RESPOND_OK w)) (job_end at_null s)"

section \<open>Accepted connections\<close>

text \<open>
  The first free task takes the connection \<open>s\<close>; its index is returned for the new thread, with the
  mode of the job. Without a free task nothing happens. \<open>availmem\<close> is what the function of that name returns.
\<close>

fun take_task :: "int \<Rightarrow> nat \<Rightarrow> (int \<times> nat \<times> nat) list \<Rightarrow> (nat \<times> (int \<times> nat \<times> nat) list) option" where
  "take_task s i [] = None"
| "take_task s i ((num, flag, rel) # ts) =
     (if flag = 0 then Some (i, (s, 1, rel) # ts)
      else map_option (\<lambda>(j, ts'). (j, (num, flag, rel) # ts')) (take_task s (Suc i) ts))"

definition release_tasks :: "(int \<times> nat \<times> nat) list \<Rightarrow> (int \<times> nat \<times> nat) list" where
  "release_tasks = map (\<lambda>(num, flag, rel). (num, flag, if rel = 1 then 0 else rel))"

definition start_job :: "int \<Rightarrow> int \<Rightarrow> sched \<Rightarrow> world \<Rightarrow> (nat \<times> int) option run" where
  "start_job s Mode fs w =
     (let ts = release_tasks (lpr_tasks w)
      in case take_task s 0 ts of
           None \<Rightarrow> Done None fs (w\<lparr>lpr_tasks := ts\<rparr>)
         | Some (i, ts') \<Rightarrow> Done (Some (i, Mode)) fs (w\<lparr>lpr_tasks := ts'\<rparr>))"

definition lpd_accept ::
  "u8 list \<Rightarrow> int \<Rightarrow> int \<Rightarrow> u8 list \<Rightarrow> sched \<Rightarrow> world \<Rightarrow> ((nat \<times> int) option \<times> u8 list) run" where
  "lpd_accept junk_text availmem s mem fs w =
     run_bind (CheckServiceMode mem fs w) (\<lambda>p fs w. case p of (rc, m) \<Rightarrow>
     run_bind (case rc of
         LPD_RECEIVE_MODE Mode \<Rightarrow>
           (if availmem \<noteq> 0 then Done None fs (zot_fclose (RESPOND_ERR w)) else start_job s Mode fs w)
       | LPD_SERVICE_MODE Mode \<Rightarrow> run_bind (service_job junk_text Mode m fs w) (\<lambda>_ fs w. Done None fs w)
       | LPD_ERROR_MODE \<Rightarrow> Done None fs (zot_fclose w)) (\<lambda>r fs w. Done (r, m) fs w))"

end
