(* ===== verification/Lpd_File_Props.thy ===== *)
theory Lpd_File_Props
  imports Lpd_Job Net_Start
begin

text \<open>
  Data files of the line printer daemon reach the print queue exactly: the loop that fills a
  buffer, the loop over buffers, the wait for the port and the entry in the job log, for binary files.
\<close>

unbundle bit_operations_syntax

definition port_busy :: "world \<Rightarrow> bool" where
  "port_busy w \<longleftrightarrow> port_status w \<noteq> PORT_READY \<or> status w \<noteq> PrnNoUsed"

abbreviation lpd_waits :: "u8 list \<Rightarrow> u8 list \<Rightarrow> world \<Rightarrow> bool" where
  "lpd_waits \<equiv> waits port_busy"

section \<open>Filling a buffer\<close>

text \<open>\<open>m\<close> bytes in the buffer after it had \<open>n\<close>; \<open>k\<close> is \<open>blocksize\<close>.\<close>

definition filled :: "nat set \<Rightarrow> u8 list \<Rightarrow> nat \<Rightarrow> int \<Rightarrow> nat \<Rightarrow> world \<Rightarrow> nat \<Rightarrow> int \<Rightarrow> sched \<Rightarrow> world \<Rightarrow> bool" where
  "filled H sub b k n w m r fs' w' \<longleftrightarrow>
     (\<exists>d. m = n + length d \<and> stream w = d @ stream w' \<and>
        take m (buf_area b w') = take n (buf_area b w) @ d) \<and>
     job_inv H sub fs' w' \<and> same_job (H - {b}) w w' \<and> m \<le> BLOCKSIZE \<and>
     (if 0 < r then n < m else stream w' = [] \<and> (m = n \<or> int (m + BLOCK_SIZE) \<le> k))"

lemma filledE:
  assumes "filled H sub b k n w m r fs' w'"
  obtains d where "m = n + length d" "stream w = d @ stream w'"
    "take m (buf_area b w') = take n (buf_area b w) @ d" "job_inv H sub fs' w'" "same_job (H - {b}) w w'"
    "m \<le> BLOCKSIZE" "if 0 < r then n < m else stream w' = [] \<and> (m = n \<or> int (m + BLOCK_SIZE) \<le> k)"
  using assms by (auto simp: filled_def)

lemma filled_step:
  assumes f: "filled H sub b k (n + length bs) w2 m r fs' w'"
    and w2: "stream w = bs @ stream w2" "same_job (H - {b}) w w2"
      "take (n + length bs) (buf_area b w2) = take n (buf_area b w) @ bs"
    and k: "int (n + length bs + BLOCK_SIZE) \<le> k"
  shows "filled H sub b k n w m r fs' w'"
proof -
  obtain d where d: "m = n + length bs + length d" "stream w2 = d @ stream w'"
    "take m (buf_area b w') = take (n + length bs) (buf_area b w2) @ d" "job_inv H sub fs' w'"
    "same_job (H - {b}) w2 w'" "m \<le> BLOCKSIZE"
    "if 0 < r then n + length bs < m else stream w' = [] \<and> (m = n + length bs \<or> int (m + BLOCK_SIZE) \<le> k)"
    by (rule filledE [OF f])
  show ?thesis
    unfolding filled_def
  proof (intro conjI exI [of _ "bs @ d"])
    show "same_job (H - {b}) w w'" by (rule same_job_trans [OF w2(2) d(5)])
  qed (use d w2 k in \<open>auto split: if_splits\<close>)
qed

lemma bin_fill_job:
  assumes "job_inv H sub fs w" "b \<in> H" "n + BLOCK_SIZE \<le> BLOCKSIZE" "k \<le> int BLOCKSIZE"
  shows "holds (bin_fill b k n fs w) (lpd_waits sub T) (\<lambda>(m, r). filled H sub b k n w m r)"
  using assms
proof (induction b k n fs w rule: bin_fill.induct)
  case (1 b k n fs w)
  note inv = 1(2) and b = 1(3) and n = 1(4) and k = 1(5)
  show ?case
  proof (subst bin_fill.simps, rule holds_bind_eq [OF holds_mono [OF recv_job [OF inv]]])
    show "0 < BLOCK_SIZE" by (simp add: BLOCK_SIZE_def)
  next
    fix w' assume "pp_inv (psy w') H sub \<and> same_job H w w' \<and> stream w' = stream w \<and> lastdata w' = [] \<and>
       mbox w' = [] \<and> \<not> rxdead w'"
    then show "lpd_waits sub T w'" by (auto intro: waitsI)
  next
    fix p fs1 w1
    assume rx: "lwip_recv BLOCK_SIZE fs w = Done p fs1 w1"
    assume "(case p of (r, bs) \<Rightarrow> \<lambda>fs' w'. job_inv H sub fs' w' \<and> same_job H w w' \<and> recv_ok BLOCK_SIZE w r bs w') fs1 w1"
    moreover obtain r bs where p: "p = (r, bs)" by fastforce
    ultimately have i1: "job_inv H sub fs1 w1" and sj: "same_job H w w1" and rc: "recv_ok BLOCK_SIZE w r bs w1"
      by auto
    have sjb: "same_job (H - {b}) w w1" using sj by (rule same_job_mono) auto
    have area: "buf_area b w1 = buf_area b w" using sj b by (simp add: same_job_def)
    define w2 where "w2 = put_data b n bs w1"
    have "holds (if 0 < r
       then (if int (n + nat r + BLOCK_SIZE) > k \<or> get_socket_rcevent w2 = 0
             then Done (n + nat r, r) fs1 w2 else bin_fill b k (n + nat r) fs1 w2)
       else Done (n, r) fs1 w1) (lpd_waits sub T) (\<lambda>(m, r). filled H sub b k n w m r)"
    proof (cases "0 < r")
      case False
      then have "stream w1 = []" "stream w = []" using rc by (auto simp: recv_ok_def)
      then show ?thesis using False i1 sjb area n by (simp add: filled_def)
    next
      case True
      then have bs: "r = int (length bs)" "length bs \<le> BLOCK_SIZE" "stream w = bs @ stream w1" "bs \<noteq> []"
        using rc by (auto simp: recv_ok_def)
      have room: "n + length bs \<le> BLOCKSIZE + 20" using bs(2) n by simp
      note j2 = put_data_job [OF i1 b room, folded w2_def]
      have s2: "stream w = bs @ stream w2" "same_job (H - {b}) w w2"
        "take (n + length bs) (buf_area b w2) = take n (buf_area b w) @ bs"
        using bs j2 same_job_trans [OF sjb] area by (simp_all add: w2_def)
      show ?thesis
      proof (cases "int (n + length bs + BLOCK_SIZE) > k \<or> get_socket_rcevent w2 = 0")
        case stop: True
        have "filled H sub b k n w (n + length bs) r fs1 w2"
          unfolding filled_def using s2 j2(1) bs n True by (intro conjI exI [of _ bs]) auto
        with stop True bs(1) show ?thesis by simp
      next
        case False
        have "n + length bs + BLOCK_SIZE \<le> BLOCKSIZE" using False k by simp
        with 1(1) [OF rx p [symmetric] True w2_def [folded p] refl] False bs(1) b k j2(1)
        have "holds (bin_fill b k (n + length bs) fs1 w2) (lpd_waits sub T)
            (\<lambda>(m, r). filled H sub b k (n + length bs) w2 m r)" by simp
        then have "holds (bin_fill b k (n + length bs) fs1 w2) (lpd_waits sub T) (\<lambda>(m, r). filled H sub b k n w m r)"
          by (rule holds_mono) (use filled_step [OF _ s2] False in \<open>auto split: prod.splits\<close>)
        then show ?thesis using False True bs(1) by simp
      qed
    qed
    then show "holds (case p of (recv_bytes, bs) \<Rightarrow>
       if 0 < recv_bytes
       then (let w1 = put_data b n bs w1; bytes' = n + nat recv_bytes
             in if int (bytes' + BLOCK_SIZE) > k \<or> get_socket_rcevent w1 = 0
                then Done (bytes', recv_bytes) fs1 w1
                else bin_fill b k bytes' fs1 w1)
       else Done (n, recv_bytes) fs1 w1) (lpd_waits sub T) (\<lambda>(m, r). filled H sub b k n w m r)"
      unfolding p Let_def w2_def by (simp only: prod.case)
  qed
qed

section \<open>Sizes\<close>

lemma tot_step:
  fixes fz tot :: u32
  assumes "tot < fz" "m \<le> unat (fz - tot)"
  shows "tot + of_nat m = fz \<longleftrightarrow> m = unat (fz - tot)"
    "m < unat (fz - tot) \<Longrightarrow> tot + of_nat m < fz \<and> unat (fz - (tot + of_nat m)) = unat (fz - tot) - m"
proof -
  have b: "unat x < 2 ^ 32" for x :: u32 using unsigned_less [where w = x and 'a = nat] by simp
  have "unat (fz - tot) < 2 ^ 32" by (rule b)
  then have m: "unat (of_nat m :: u32) = m" using assms(2) by (simp add: unat_of_nat)
  have R: "unat (fz - tot) = unat fz - unat tot" using assms(1) by (intro unat_sub) simp
  have lt: "unat tot < unat fz" using assms(1) by (simp add: word_less_nat_alt)
  have "unat tot + m < 2 ^ 32" using assms(2) R lt b [of fz] by simp
  then have s: "unat (tot + of_nat m) = unat tot + m" using m by (simp add: unat_word_ariths)
  have "tot + of_nat m = fz \<longleftrightarrow> unat tot + m = unat fz" using s by (metis word_unat_eq_iff)
  then show "tot + of_nat m = fz \<longleftrightarrow> m = unat (fz - tot)" using R lt by auto
  assume "m < unat (fz - tot)"
  then have l: "tot + of_nat m < fz" using s R by (simp add: word_less_nat_alt)
  moreover have "unat (fz - (tot + of_nat m)) = unat fz - unat (tot + of_nat m)" using l by (intro unat_sub) simp
  ultimately show "tot + of_nat m < fz \<and> unat (fz - (tot + of_nat m)) = unat (fz - tot) - m"
    using s R by simp
qed

text \<open>\<open>blocksize\<close> is the smaller of a block and what is left of the file with its status byte.\<close>

definition block_of :: "nat \<Rightarrow> int" where
  "block_of R = int (min BLOCKSIZE R)"

lemma block_of_step:
  fixes x :: u32
  assumes "unat x \<le> R"
  shows "(if x < of_nat BLOCKSIZE then uint x else block_of R) = block_of (unat x)"
proof -
  have "unat (of_nat BLOCKSIZE :: u32) = BLOCKSIZE" by (simp add: BLOCKSIZE_def)
  then have "x < of_nat BLOCKSIZE \<longleftrightarrow> unat x < BLOCKSIZE" by (simp only: word_less_nat_alt)
  moreover have "uint x = int (unat x)" by simp
  ultimately show ?thesis using assms by (auto simp: block_of_def min_def)
qed

lemma first_block:
  fixes x :: u32
  shows "(if x > of_nat BLOCKSIZE then int BLOCKSIZE else uint x) = block_of (unat x)"
proof -
  have "unat (of_nat BLOCKSIZE :: u32) = BLOCKSIZE" by (simp add: BLOCKSIZE_def)
  then have "of_nat BLOCKSIZE < x \<longleftrightarrow> BLOCKSIZE < unat x" by (simp only: word_less_nat_alt)
  moreover obtain n where "unat x = n" "uint x = int n" by simp
  ultimately show ?thesis by (auto simp: block_of_def min_def)
qed

section \<open>Submitting a buffer\<close>

lemma submit_job:
  fixes f :: u8
  assumes inv: "job_inv H sub fs w" and b: "b \<in> H" and n: "n \<le> BLOCKSIZE"
  defines "w' \<equiv> put_out b f (set_size b (int n) w)"
  shows "job_inv (H - {b}) (sub @ take n (buf_area b w)) fs w'" "same_job (H - {b}) w w'" "stream w' = stream w"
proof -
  have "0 \<le> int n" "int n \<le> int (BLOCKSIZE + 20)" using n by simp_all
  note js = set_size_job [OF inv b this]
  note po = put_out_job [OF js(1) b, of f, unfolded js(3) nat_int js(4), folded w'_def]
  show "job_inv (H - {b}) (sub @ take n (buf_area b w)) fs w'" using po by blast
  show "same_job (H - {b}) w w'" using po same_job_trans [OF js(2)] by blast
  show "stream w' = stream w" using po js(5) by simp
qed

lemma abort_spooler_held:
  "status w \<noteq> PrnNoUsed \<Longrightarrow> abort_spooler (Some b) fs w = Done () fs (put_out b PRN_Q_ABORT (set_size b 0 w))"
  by (simp add: abort_spooler_def PrnAbortSpooler_def status_def put_out_def set_size_def set_sp_def)

lemma get_data_byte: "n < BLOCKSIZE + 20 \<Longrightarrow> get_data b n 1 w = [buf_area b w ! n]"
  by (simp add: buf_area_def get_data_def mem_read_def)

section \<open>The loop over buffers\<close>

definition file_done :: "nat set \<Rightarrow> u8 list \<Rightarrow> nat \<Rightarrow> world \<Rightarrow> int \<Rightarrow> sched \<Rightarrow> world \<Rightarrow> bool" where
  "file_done H sub R w rc fs' w' \<longleftrightarrow> stream w' = [] \<and> status w' = status w \<and> frame w w' \<and>
     (if length (stream w) = R
      then rc = 0 \<and> job_inv H (sub @ butlast (stream w)) fs' w' \<and> jlog w' = JL_AddSize 0 (of_nat (R - 1)) (jlog w)
      else rc \<in> {0, -1, -3} \<and> job_inv H (sub @ stream w) fs' w')"

lemma file_done_more:
  assumes f: "file_done H (sub @ d) (R - length d) w2 rc fs' w'"
    and w: "stream w = d @ stream w2" "status w2 = status w" "frame w w2"
      "jlog w2 = JL_AddSize 0 (of_nat (length d)) (jlog w)" "length (JOBLIST (jlog w)) = MAX_JOB_LIST"
    and R: "length d < R"
  shows "file_done H sub R w rc fs' w'"
proof -
  have l: "length (stream w2) = R - length d \<longleftrightarrow> length (stream w) = R" using w(1) R by auto
  have "butlast (stream w) = d @ butlast (stream w2)" if "length (stream w) = R"
    using that l R w(1) by (auto simp: butlast_append)
  moreover have "length d + (R - length d - 1) = R - 1" using R by simp
  then have "of_nat (length d) + of_nat (R - length d - 1) = (of_nat (R - 1) :: u32)"
    by (metis of_nat_add)
  ultimately show ?thesis
    using f frame_trans [OF w(3)] w unfolding file_done_def l
    by (auto simp: JL_AddSize_twice split: if_splits)
qed

lemma bin_end_short:
  assumes i: "job_inv (insert b H) sub fs w" and b: "b \<notin> H" and s: "stream w = []" "status w \<noteq> PrnNoUsed"
  shows "holds (bin_end STATUS_ERR b t fs w) B
    (\<lambda>rc fs' w'. rc \<in> {-1, -3} \<and> job_inv H sub fs' w' \<and> stream w' = [] \<and> same_job H w w')"
proof -
  have Hb: "insert b H - {b} = H" using b by auto
  note d = submit_job [OF i insertI1, of 0 PRN_Q_ABORT, unfolded Hb, simplified]
  show ?thesis
    using d s by (simp add: bin_end_def STATUS_OK_def STATUS_ERR_def abort_spooler_held)
qed

text \<open>One buffer, after it was filled with \<open>m\<close> bytes of what is left.\<close>

lemma bin_buffer_short:
  assumes fi: "filled (insert b H) sub b (block_of R) 0 w m r fs' w'" and r: "r \<le> 0" and b: "b \<notin> H" and R: "1 \<le> R"
    and st: "status w \<noteq> PrnNoUsed" and len: "length (stream w) \<le> R"
  shows "holds (if m \<noteq> 0 then bin_end STATUS_OK b t fs' (put_out b PRN_Q_EOF (set_size b (int m) w'))
      else bin_end STATUS_ERR b t fs' (set_size b 0 w')) B (file_done H sub R w)"
proof -
  obtain d where d: "m = length d" "stream w = d @ stream w'" "take m (buf_area b w') = d"
    "job_inv (insert b H) sub fs' w'" "same_job (insert b H - {b}) w w'" "m \<le> BLOCKSIZE"
    "stream w' = []" "m = 0 \<or> int (m + BLOCK_SIZE) \<le> block_of R"
    using filledE [OF fi] r by (metis add_0 append_Nil linorder_not_less take0)
  have Hb: "insert b H - {b} = H" using b by auto
  have short: "length (stream w) \<noteq> R" using d R by (auto simp: block_of_def BLOCK_SIZE_def)
  have same: "status w' = status w" "frame w w'" using d(5) by (simp_all add: same_job_def)
  show ?thesis
  proof (cases "m = 0")
    case True
    note js = set_size_job [OF d(4) insertI1, of 0, simplified]
    have fr: "frame w (set_size b 0 w')" using js(2) same by (auto simp: same_job_def intro: frame_trans)
    have "holds (bin_end STATUS_ERR b t fs' (set_size b 0 w')) B
      (\<lambda>rc fs' w''. rc \<in> {-1, -3} \<and> job_inv H sub fs' w'' \<and> stream w'' = [] \<and> same_job H (set_size b 0 w') w'')"
      by (rule bin_end_short [OF js(1) b]) (use js d(7) same st in simp_all)
    then show ?thesis using True d(1,2,7) js same short fr
      by (auto simp: file_done_def same_job_def elim!: holds_mono intro: frame_trans)
  next
    case False
    note sj = submit_job [OF d(4) insertI1 d(6), of PRN_Q_EOF, unfolded Hb d(3)]
    have "frame w (put_out b PRN_Q_EOF (set_size b (int m) w'))"
      using sj(2) same by (auto simp: same_job_def intro: frame_trans)
    then show ?thesis using False sj d(2,7) same short
      by (auto simp: bin_end_def file_done_def same_job_def)
  qed
qed

text \<open>A buffer that was filled; \<open>R\<close> bytes were left.\<close>

definition last_of :: "nat \<Rightarrow> nat \<Rightarrow> nat" where
  "last_of m R = (if m = R then m - 1 else m)"

lemma bin_buffer_full:
  assumes fi: "filled (insert b H) sub b k 0 w m r fs' w'" and r: "0 < r" and b: "b \<notin> H"
    and len: "length (stream w) \<le> R" "length (stream w) = R \<longrightarrow> last (stream w) = 0"
    and jl: "length (JOBLIST (jlog w)) = MAX_JOB_LIST"
  defines "w2 \<equiv> set_size b (int (last_of m R)) (log_add (int (last_of m R)) w')"
  shows "0 < m" "m \<le> R" "m = R \<Longrightarrow> hd (get_data b (m - 1) 1 w') = STATUS_OK"
    "m = R \<Longrightarrow> file_done H sub R w 0 fs' (put_out b f w2)"
    "m < R \<Longrightarrow> \<exists>d. length d = m \<and> job_inv H (sub @ d) fs' (put_out b f w2) \<and> stream w = d @ stream (put_out b f w2) \<and>
       status (put_out b f w2) = status w \<and> frame w (put_out b f w2) \<and>
       jlog (put_out b f w2) = JL_AddSize 0 (of_nat m) (jlog w)"
proof -
  obtain d where d: "m = length d" "stream w = d @ stream w'" "take m (buf_area b w') = d"
    "job_inv (insert b H) sub fs' w'" "same_job (insert b H - {b}) w w'" "m \<le> BLOCKSIZE" "0 < m"
    using filledE [OF fi] r by (metis add_0 append_Nil take0)
  have Hb: "insert b H - {b} = H" using b by auto
  have lm: "length (stream w) = m + length (stream w')" using d(1,2) by simp
  show m: "0 < m" "m \<le> R" using d(7) lm len(1) by simp_all
  let ?n = "last_of m R"
  have n: "?n \<le> m" by (simp add: last_of_def)
  then have nB: "?n \<le> BLOCKSIZE" using d(6) by simp
  have i: "job_inv (insert b H) sub fs' (log_add (int ?n) w')" using d(4) by simp
  have "take ?n (buf_area b w') = take ?n d" using n d(3) by (metis min.absorb1 take_take)
  then have t: "take ?n (buf_area b (log_add (int ?n) w')) = take ?n d" by simp
  note sj = submit_job [OF i insertI1 nB, of f, unfolded Hb t, folded w2_def]
  have same: "status (put_out b f w2) = status w" "frame w (put_out b f w2)"
      "jlog (put_out b f w2) = JL_AddSize 0 (of_nat ?n) (jlog w)"
    using sj(2) d(5) frame_trans [OF frame_trans [OF _ log_add_job(6)]] by (auto simp: same_job_def)
  show "hd (get_data b (m - 1) 1 w') = STATUS_OK" if "m = R"
  proof -
    have "stream w = d" "last d = 0" using that lm len d(2) by auto
    moreover have "buf_area b w' ! (m - 1) = d ! (m - 1)" using d(3,7) by (metis diff_less nth_take zero_less_one)
    ultimately show ?thesis using d(1,6,7) by (simp add: get_data_byte [unfolded One_nat_def] last_conv_nth STATUS_OK_def)
  qed
  show "file_done H sub R w 0 fs' (put_out b f w2)" if "m = R"
  proof -
    have "stream w = d" using that lm len d(2) by auto
    moreover have "take ?n d = butlast d" using that d(1) by (simp add: last_of_def butlast_conv_take)
    ultimately show ?thesis using sj same that d(1,2) by (simp add: file_done_def last_of_def)
  qed
  show "\<exists>d. length d = m \<and> job_inv H (sub @ d) fs' (put_out b f w2) \<and> stream w = d @ stream (put_out b f w2) \<and>
       status (put_out b f w2) = status w \<and> frame w (put_out b f w2) \<and>
       jlog (put_out b f w2) = JL_AddSize 0 (of_nat m) (jlog w)" if "m < R"
    using that sj same d(1,2) by (intro exI [of _ d]) (simp add: last_of_def)
qed

lemma bin_loop_job:
  assumes "job_inv H sub fs w" "tot < filesize" "length (stream w) \<le> unat (filesize - tot)"
    "length (stream w) = unat (filesize - tot) \<Longrightarrow> last (stream w) = 0"
    "status w \<notin> {PrnNoUsed, PrnAbortUsed}" "length (JOBLIST (jlog w)) = MAX_JOB_LIST"
    "blocksize = block_of (unat (filesize - tot))"
  shows "holds (bin_loop filesize tot blocksize t0 fs w) (lpd_waits sub (stream w))
    (file_done H sub (unat (filesize - tot)) w)"
  using assms
proof (induction filesize tot blocksize t0 fs w arbitrary: sub rule: bin_loop.induct)
  case (1 filesize tot blocksize t0 fs w)
  note inv = 1(2) and lt = 1(3) and len = 1(4,5) and st = 1(6) and jl = 1(7) and bk = 1(8)
  define R where "R = unat (filesize - tot)"
  have R: "1 \<le> R" using lt unsigned_less by (simp add: R_def unat_sub word_less_nat_alt less_imp_le)
  have k: "blocksize \<le> int BLOCKSIZE" by (simp add: bk block_of_def)
  let ?B = "lpd_waits sub (stream w)"
  note IH = 1(1)
  show ?case
    unfolding R_def [symmetric]
  proof (subst bin_loop.simps, rule holds_bind_eq [OF wait_in_buf_waits [OF inv]], goal_cases)
    case (1 p fs1 w1)
    obtain b u where p: "p = (b, u)" by fastforce
    note got = 1(1)
    from 1 have i1: "job_inv (insert b H) sub fs1 w1" and sj: "same_job H w w1" and s1: "stream w1 = stream w"
      and nb: "b \<notin> H" by (auto simp: p)
    have w1: "status w1 = status w" "jlog w1 = jlog w" "frame w w1" using sj by (auto simp: same_job_def)
    have na: "\<not> status w1 = PrnAbortUsed" using w1 st by simp
    have move: "file_done H sub R w rc fs' w'" if "file_done H sub R w1 rc fs' w'" for rc fs' w'
      using that w1 s1 by (auto simp: file_done_def intro: frame_trans)
    have len1: "length (stream w1) \<le> R" "length (stream w1) = R \<longrightarrow> last (stream w1) = 0"
      using len s1 by (simp_all add: R_def)
    have room: "0 + BLOCK_SIZE \<le> BLOCKSIZE" by (simp add: BLOCK_SIZE_def BLOCKSIZE_def)
    show ?case
      unfolding p prod.case if_not_P [OF na] Let_def
    proof (rule holds_bind_eq [OF bin_fill_job [OF i1 insertI1 room k]], goal_cases)
      case (1 q fs2 w2)
      obtain m r where q: "q = (m, r)" by fastforce
      from 1 have fi: "filled (insert b H) sub b blocksize 0 w1 m r fs2 w2" by (simp add: q)
      show ?case
      proof (cases "r \<le> 0")
        case True
        with holds_mono [OF bin_buffer_short [OF fi [unfolded bk, folded R_def] True nb R _ len1(1)] _ move]
        show ?thesis using w1 st by (simp add: q)
      next
        case False
        then have r: "0 < r" by simp
        have jl1: "length (JOBLIST (jlog w1)) = MAX_JOB_LIST" using jl w1 by simp
        note fu = bin_buffer_full [OF fi r nb len1 jl1]
        note ts = tot_step [OF lt fu(2) [unfolded R_def], folded R_def]
        show ?thesis
        proof (cases "m = R")
          case True
          have e: "tot + of_nat m = filesize" using ts(1) True by simp
          have "of_nat m = (1 + of_nat (m - 1) :: u32)" using fu(1) by (cases m) simp_all
          with e have e': "tot + 1 + of_nat (m - 1) = filesize" by (simp add: add.assoc)
          note full = move [OF fu(4) [OF True, where f = PRN_Q_EOF]]
          have "last_of m R = m - 1" using True by (simp add: last_of_def)
          with full fu(3) [OF True] e e' r show ?thesis by (simp add: q bin_end_def)
        next
          case False
          with fu(2) have less: "m < R" by simp
          with ts have ne: "tot + of_nat m \<noteq> filesize" and lt': "tot + of_nat m < filesize"
            and R': "unat (filesize - (tot + of_nat m)) = R - m" by auto
          have lo: "last_of m R = m" using less by (simp add: last_of_def)
          define w3 where "w3 = put_out b PRN_Q_NORMAL (set_size b (int m) (log_add (int m) w2))"
          obtain d where d: "length d = m" "job_inv H (sub @ d) fs2 w3" "stream w1 = d @ stream w3"
            "status w3 = status w1" "frame w1 w3" "jlog w3 = JL_AddSize 0 (of_nat m) (jlog w1)"
            using fu(5) [OF less, where f = PRN_Q_NORMAL] unfolding lo w3_def by blast
          have bs: "(if filesize - (tot + of_nat m) < of_nat BLOCKSIZE then uint (filesize - (tot + of_nat m)) else blocksize)
              = block_of (R - m)"
            unfolding bk [folded R_def] using block_of_step [of "filesize - (tot + of_nat m)" R] R' by simp
          have ls: "length (stream w3) \<le> R - m" "length (stream w3) = R - m \<Longrightarrow> last (stream w3) = 0"
            using len1 d(1,3) less by (auto simp: last_append split: if_splits)
          note IH' = IH [OF got p [symmetric] na refl 1(1) q [symmetric] _ refl refl refl refl refl refl, of "sub @ d"]
          have "holds (bin_loop filesize (tot + of_nat m) (block_of (R - m)) (clk w1) fs2 w3)
              (lpd_waits (sub @ d) (stream w3)) (file_done H (sub @ d) (R - m) w3)"
            using IH' [unfolded if_not_P [OF ne] add_0_right bs] r lt' R' ls d st w1 jl by (simp add: w3_def)
          then have "holds (bin_loop filesize (tot + of_nat m) (block_of (R - m)) (clk w1) fs2 w3)
              (lpd_waits sub (stream w)) (file_done H sub R w)"
          proof (rule holds_mono)
            show "lpd_waits sub (stream w) w'" if "lpd_waits (sub @ d) (stream w3) w'" for w'
              using waits_shift [OF that] d(3) s1 by simp
            show "file_done H sub R w rc fs' w'" if "file_done H (sub @ d) (R - m) w3 rc fs' w'" for rc fs' w'
              using move [OF file_done_more [OF _ d(3-5) _ jl1]] that d(1,6) less by simp
          qed
          then show ?thesis
            unfolding q prod.case if_not_P [OF ne] add_0_right bs using r lt' by (simp add: w3_def)
        qed
      qed
    qed
  qed
qed

section \<open>Taking the port\<close>

text \<open>Steps of the other threads that neither make nor withdraw a request to remove the job.\<close>

definition keeps_abort :: "(world \<Rightarrow> world) \<Rightarrow> bool" where
  "keeps_abort f \<longleftrightarrow> (\<forall>w. PrnIsUnixHoldAbort (f w) = PrnIsUnixHoldAbort w)"

lemma unhold_simps [simp]:
  "job_inv H sub fs (PrnSetUnixUnHold w) = job_inv H sub fs w" "stream (PrnSetUnixUnHold w) = stream w"
  "status (PrnSetUnixUnHold w) = status w" "jlog (PrnSetUnixUnHold w) = jlog w" "frame v (PrnSetUnixUnHold w) = frame v w"
  by (simp_all add: PrnSetUnixUnHold_def job_inv_def tidy_def stream_def status_def frame_def)

lemma ack_abort [simp]: "PrnIsUnixHoldAbort (sendack w) = PrnIsUnixHoldAbort w"
  by (simp add: PrnIsUnixHoldAbort_def sendack_def)

lemma unhold_abort [simp]: "\<not> PrnIsUnixHoldAbort (PrnSetUnixUnHold w)"
proof -
  have "(x AND NOT (UnixHolded OR UnixHoldAbort)) AND UnixHoldAbort = 0" for x :: u8
    by (rule bit_word_eqI) (simp add: bit_simps)
  then show ?thesis by (simp add: PrnIsUnixHoldAbort_def PrnSetUnixUnHold_def)
qed

definition taken :: "nat set \<Rightarrow> u8 list \<Rightarrow> world \<Rightarrow> sched \<Rightarrow> world \<Rightarrow> bool" where
  "taken H sub w fs' w' \<longleftrightarrow> job_inv H sub fs' w' \<and> stream w' = stream w \<and> status w' = UnixUsed \<and>
     jlog w' = jlog w \<and> frame w w' \<and> \<not> PrnIsUnixHoldAbort w'"

lemma hold_loop_job:
  assumes "job_inv H sub fs w" "\<forall>f\<in>set fs. keeps_abort f" "\<not> PrnIsUnixHoldAbort w"
  shows "holds (hold_loop st fs w) (lpd_waits sub T) (\<lambda>rc fs' w'. rc = 0 \<and> taken H sub w fs' w')"
  using assms
proof (induction fs arbitrary: st w)
  case Nil
  note su = set_in_use_job [OF Nil(1), where v = UnixUsed]
  show ?case
  proof (cases "port_busy w")
    case True
    have "port_busy (sendack w) = port_busy w" by (simp add: port_busy_def port_status_def)
    then show ?thesis using Nil True
      by (subst hold_loop.simps, unfold port_busy_def [symmetric]) (auto simp: keep_alive_def job_inv_def intro: waitsI)
  next
    case False
    then show ?thesis using su by (subst hold_loop.simps) (simp add: port_busy_def taken_def)
  qed
next
  case (Cons f fs)
  obtain st1 w1 where k: "keep_alive (TICKS_PER_SECOND * 10) True st w = (st1, w1)" by fastforce
  have w1: "job_inv H sub (f # fs) w1" "same_job H w w1" "stream w1 = stream w"
    "PrnIsUnixHoldAbort w1 = PrnIsUnixHoldAbort w"
    using k Cons.prems by (auto simp: keep_alive_def split: if_splits)
  note step = job_inv_step [OF w1(1)]
  have na: "\<not> PrnIsUnixHoldAbort (f w1)" using w1(4) Cons.prems by (simp add: keeps_abort_def)
  show ?case
  proof (cases "port_busy w")
    case True
    have e: "hold_loop st (f # fs) w = hold_loop st1 fs (f w1)"
      using True k na by (subst hold_loop.simps) (simp add: port_busy_def)
    have "same_job H w (f w1)" by (rule same_job_trans [OF w1(2) step(2)])
    then have "taken H sub w fs' w'" if "taken H sub (f w1) fs' w'" for fs' w'
      using that step(3) w1(3) by (auto simp: taken_def same_job_def intro: frame_trans)
    with Cons.IH [OF step(1) _ na, of st1] Cons.prems(2) show ?thesis by (auto simp: e elim!: holds_mono)
  next
    case False
    note su = set_in_use_job [OF Cons.prems(1), where v = UnixUsed]
    show ?thesis using False su by (subst hold_loop.simps) (simp add: port_busy_def taken_def)
  qed
qed

lemma respond_simps [simp]:
  "job_inv H sub fs (RESPOND_OK w) = job_inv H sub fs w" "stream (RESPOND_OK w) = stream w"
  "status (RESPOND_OK w) = status w" "jlog (RESPOND_OK w) = jlog w" "malloc_ok (RESPOND_OK w) = malloc_ok w"
  "PrnIsUnixHoldAbort (RESPOND_OK w) = PrnIsUnixHoldAbort w" "sent (RESPOND_OK w) = sent w @ [0]"
  "HadLogged (RESPOND_OK w) = HadLogged w" "tbuffer (RESPOND_OK w) = tbuffer w"
  "buffercount (RESPOND_OK w) = buffercount w" "ms (RESPOND_OK w) = ms w" "obuf (RESPOND_OK w) = obuf w"
  "mbox (RESPOND_OK w) = mbox w" "lastdata (RESPOND_OK w) = lastdata w" "rxdead (RESPOND_OK w) = rxdead w"
  "spl (RESPOND_OK w) = spl w" "clk (RESPOND_OK w) = clk w"
  by (simp_all add: RESPOND_OK_def lwip_send_def job_inv_def tidy_def stream_def status_def PrnIsUnixHoldAbort_def)

lemma hold_job_job:
  assumes "job_inv H sub fs w" "\<forall>f\<in>set fs. keeps_abort f" "\<not> PrnIsUnixHoldAbort w"
    "n = 0 \<or> status w = UnixUsed"
  shows "holds (hold_job n fs w) (lpd_waits sub T) (\<lambda>_ fs' w'. taken H sub w fs' w')"
proof (cases n)
  case 0
  with holds_mono [OF hold_loop_job [OF assms(1-3)]] show ?thesis by (simp add: hold_job_def)
next
  case Suc
  with assms show ?thesis by (simp add: hold_job_def taken_def)
qed

section \<open>The job log entry\<close>

definition logged :: "world \<Rightarrow> joblog \<Rightarrow> bool" where
  "logged w jl \<longleftrightarrow> (if HadLogged w = 0
     then \<exists>t. JL_PutList 1 0 (tbuffer w) (buffercount w mod 256) t True (jlog w) = Some jl else jl = jlog w)"

lemma log_entry_job:
  assumes w: "malloc_ok w" "buffercount w mod 256 \<le> 32" and i: "job_inv H sub fs w"
  obtains w' jl where "(if HadLogged w = 0
               then run_bind (log_put 1 (tbuffer w) (buffercount w mod 256) fs w) (\<lambda>_ fs w.
                      Done () fs (w\<lparr>HadLogged := 1\<rparr>))
               else Done () fs w) = Done () fs w'"
    "logged w jl" "jlog w' = jl" "job_inv H sub fs w'" "stream w' = stream w" "status w' = status w"
    "HadLogged w' \<noteq> 0" "sent w' = sent w" "obuf w' = obuf w" "PrnIsUnixHoldAbort w' = PrnIsUnixHoldAbort w"
    "mbox w' = mbox w" "lastdata w' = lastdata w" "rxdead w' = rxdead w" "spl w' = spl w"
proof (cases "HadLogged w = 0")
  case True
  obtain jl where jl: "JL_PutList 1 0 (tbuffer w) (buffercount w mod 256) (ms w) True (jlog w) = Some jl"
    "log_put 1 (tbuffer w) (buffercount w mod 256) fs w = Done () fs (w\<lparr>jlog := jl\<rparr>)"
    using log_put_job [OF w] by metis
  show ?thesis
    by (rule that [of "w\<lparr>jlog := jl, HadLogged := 1\<rparr>" jl])
      (use True jl i in \<open>auto simp: logged_def job_inv_def tidy_def stream_def status_def PrnIsUnixHoldAbort_def\<close>)
qed (use i in \<open>auto intro!: that [of w "jlog w"] simp: logged_def\<close>)

section \<open>Properties\<close>

text \<open>After the reply, the wait and the log entry, either loop runs in a state that owns the port.\<close>

lemma receive_data_file_job:
  assumes i: "job_inv H sub fs w" and w: "malloc_ok w" "buffercount w mod 256 \<le> 32"
    and ab: "\<forall>f\<in>set fs. keeps_abort f" "\<not> PrnIsUnixHoldAbort w" "n = 0 \<or> status w = UnixUsed"
    and run: "\<And>fs' w' jl. job_inv H sub fs' w' \<Longrightarrow> stream w' = stream w \<Longrightarrow> status w' = UnixUsed \<Longrightarrow>
      logged w jl \<Longrightarrow> jlog w' = jl \<Longrightarrow> HadLogged w' \<noteq> 0 \<Longrightarrow> sent w' = sent w @ [0] \<Longrightarrow> obuf w' = obuf w \<Longrightarrow>
      holds (if TXTMode \<noteq> 0 then receive_txt_data_file filesize fs' w'
             else receive_bin_data_file junk_time filesize fs' w') (lpd_waits sub T) Q"
  shows "holds (receive_data_file junk_time TXTMode filesize n fs w) (lpd_waits sub T) Q"
proof -
  have hj: "holds (hold_job n fs (RESPOND_OK w)) (lpd_waits sub T) (\<lambda>_ fs' w'. taken H sub (RESPOND_OK w) fs' w')"
    by (rule hold_job_job) (use i ab in simp_all)
  show ?thesis
    unfolding receive_data_file_def
  proof (rule holds_bind [OF hj], goal_cases)
    case (1 a fs1 w1)
    then have i1: "job_inv H sub fs1 w1" and s1: "stream w1 = stream w" "status w1 = UnixUsed" "jlog w1 = jlog w"
      "frame (RESPOND_OK w) w1" "\<not> PrnIsUnixHoldAbort w1" by (simp_all add: taken_def)
    have f1: "malloc_ok w1" "buffercount w1 mod 256 \<le> 32" "HadLogged w1 = HadLogged w" "tbuffer w1 = tbuffer w"
      "buffercount w1 = buffercount w" "sent w1 = sent w @ [0]" "obuf w1 = obuf w"
      using s1(4) w by (simp_all add: frame_def)
    obtain w2 jl where e: "(if HadLogged w1 = 0
                 then run_bind (log_put 1 (tbuffer w1) (buffercount w1 mod 256) fs1 w1) (\<lambda>_ fs w.
                        Done () fs (w\<lparr>HadLogged := 1\<rparr>))
                 else Done () fs1 w1) = Done () fs1 w2"
      and l: "logged w1 jl" "jlog w2 = jl" "job_inv H sub fs1 w2" "stream w2 = stream w1" "status w2 = status w1"
      "HadLogged w2 \<noteq> 0" "sent w2 = sent w1" "obuf w2 = obuf w1" "PrnIsUnixHoldAbort w2 = PrnIsUnixHoldAbort w1"
      by (rule log_entry_job [OF f1(1,2) i1])
    have "logged w jl" using l(1) f1 s1(3) by (cases "HadLogged w = 0") (simp_all add: logged_def)
    with l s1 f1 run [OF l(3) _ _ this l(2,6)] show ?case unfolding e by simp
  qed
qed

lemma logged_length: "logged w jl \<Longrightarrow> length (JOBLIST jl) = length (JOBLIST (jlog w))"
  by (auto simp: logged_def JL_PutList_def Let_def split: if_splits)

lemma bin_file_job:
  assumes "job_inv H sub fs w" "stream w = file @ [0]" "length file < 2 ^ 32 - 1" "status w = UnixUsed"
    "length (JOBLIST (jlog w)) = MAX_JOB_LIST"
  shows "holds (receive_bin_data_file junk_time (of_nat (length file)) fs w) (lpd_waits sub (file @ [0]))
    (file_done H sub (Suc (length file)) w)"
proof -
  let ?fz = "of_nat (length file) + 1 :: u32"
  have R: "unat ?fz = Suc (length file)" 
    using assms(3) by (simp add: unat_word_ariths unat_of_nat)
  then have "0 < ?fz" by (simp add: word_less_nat_alt)
  then show ?thesis
    using bin_loop_job [OF assms(1), of 0 ?fz "block_of (unat ?fz)" junk_time] assms R
    by (simp add: receive_bin_data_file_def first_block UnixUsed_def PrnNoUsed_def PrnAbortUsed_def)
qed

text \<open>C26: A binary data file reaches the printer exactly: whatever the segmentation of its bytes and of
  the status byte behind them, and whatever the other threads do at the points where the daemon lets
  them run, as long as the connection does not fail and nobody aborts the job, when \<open>receive_data_file\<close> ends it has submitted the bytes of the file, all of them and in
  order, and not the status byte (which is 0); it reports success, holds no buffer, owns the port, has acknowledged
  the command and counted the file's bytes in the job's log entry, which the first file of a job makes.
  Until then it waits only for the port, for a free buffer or for the client.\<close>

theorem lpd_binary_file_exact:
  assumes "job_inv H sub fs w" "malloc_ok w" "length (JOBLIST (jlog w)) = MAX_JOB_LIST"
    "\<forall>f\<in>set fs. keeps_abort f" "\<not> PrnIsUnixHoldAbort w" "n = 0 \<or> status w = UnixUsed"
    "buffercount w mod 256 \<le> 32" "stream w = file @ [0]" "length file < 2 ^ 32 - 1"
  shows "holds (receive_data_file junk_time 0 (of_nat (length file)) n fs w) (lpd_waits sub (file @ [0]))
    (\<lambda>rc fs' w'. rc = 0 \<and> pp_inv (psy w') H (sub @ file) \<and> stream w' = [] \<and> status w' = UnixUsed \<and>
       sent w' = sent w @ [0] \<and> HadLogged w' \<noteq> 0 \<and>
       (\<exists>jl. logged w jl \<and> jlog w' = JL_AddSize 0 (of_nat (length file)) jl))"
  using assms(1,2,7,4-6)
proof (rule receive_data_file_job, goal_cases)
  case (1 fs1 w1 jl)
  have "holds (receive_bin_data_file junk_time (of_nat (length file)) fs1 w1) (lpd_waits sub (file @ [0]))
      (file_done H sub (Suc (length file)) w1)"
    by (rule bin_file_job) (use 1 assms(3,8,9) logged_length [OF 1(4)] in simp_all)
  then show ?case
    using 1 assms(8) by (auto simp: file_done_def job_inv_def frame_def elim!: holds_mono)
qed

section \<open>One segment\<close>



lemma fill_one:
  fixes b :: nat
  assumes "mbox w = Netbuf bs # r" "lastdata w = []" "\<not> rxdead w" "memp_ok w" "bs \<noteq> []" "length bs \<le> BLOCK_SIZE"
    and "int (length bs + BLOCK_SIZE) > k"
  shows "bin_fill b k 0 fs w = Done (length bs, int (length bs)) fs (put_data b 0 bs (w\<lparr>mbox := r\<rparr>))"
proof -
  have "lwip_recv BLOCK_SIZE fs w = Done (int (length bs), bs) fs (w\<lparr>mbox := r\<rparr>)"
    by (rule lwip_recv_netbuf) (use assms in simp_all)
  then show ?thesis using assms(5,7) by (subst bin_fill.simps) (simp add: Let_def)
qed


lemma first_buffer:
  assumes "job_inv H sub fs w" "frees_of 0 (spl w) = b # fr"
  obtains s where "wait_in_buf (TICKS_PER_SECOND * 10) True 0 fs w = Done (b, 0) fs (set_sp s w)"
    "status (set_sp s w) = status w"
  using wait_in_buf_free [OF assms] by (metis same_job_def)

lemma bin_end_done: "\<exists>rc w'. bin_end st b t fs w = Done rc fs w'"
  by (simp add: bin_end_def abort_spooler_def PrnAbortSpooler_def)

lemma one_segment_file:
  assumes i: "job_inv H sub fs w" "frees_of 0 (spl w) = b # fr" "status w = UnixUsed"
    "length (JOBLIST (jlog w)) = MAX_JOB_LIST"
    and m: "mbox w = [Netbuf (file @ [0])]" "lastdata w = []" "\<not> rxdead w" "wire w = []" "length file < BLOCK_SIZE"
  shows "\<exists>w'. receive_bin_data_file t (of_nat (length file)) fs w = Done 0 fs w'"
proof -
  obtain s where g: "wait_in_buf (TICKS_PER_SECOND * 10) True 0 fs w = Done (b, 0) fs (set_sp s w)"
    "status (set_sp s w) = status w" by (rule first_buffer [OF i(1,2)])
  have len: "length file < 1460" using m(5) by (simp add: BLOCK_SIZE_def)
  let ?fz = "of_nat (length file) + 1 :: u32"
  have R: "unat ?fz = Suc (length file)" using len by (simp add: unat_word_ariths unat_of_nat)
  have k: "block_of (unat ?fz) = int (Suc (length file))" using len R by (simp add: block_of_def BLOCKSIZE_def)
  define w2 where "w2 = put_data b 0 (file @ [0]) (set_sp s w\<lparr>mbox := []\<rparr>)"
  have f: "bin_fill b (int (Suc (length file))) 0 fs (set_sp s w) = Done (Suc (length file), int (Suc (length file))) fs w2"
    using fill_one [of "set_sp s w" "file @ [0]" "[]"] m len job_inv_memp [OF i(1)] by (simp add: w2_def BLOCK_SIZE_def)
  have st: "status (set_sp s w) \<noteq> PrnAbortUsed" using g(2) i(3) by (simp add: UnixUsed_def PrnAbortUsed_def)
  have "\<exists>rc w'. bin_loop ?fz 0 (int (Suc (length file))) t fs w = Done rc fs w'"
    using g f st bin_end_done by (subst bin_loop.simps) (simp add: Let_def add.commute)
  then obtain rc w' where d: "receive_bin_data_file t (of_nat (length file)) fs w = Done rc fs w'"
    unfolding receive_bin_data_file_def Let_def first_block k by blast
  have "holds (receive_bin_data_file t (of_nat (length file)) fs w) (lpd_waits sub (file @ [0]))
      (file_done H sub (Suc (length file)) w)"
    by (rule bin_file_job) (use i m len in \<open>simp_all add: stream_def\<close>)
  then have "rc = 0" using m by (simp add: d file_done_def stream_def)
  with d show ?thesis by blast
qed


text \<open>The first file on a ready and unused port: its loop starts at once.\<close>

lemma lpd_first_file_start:
  assumes i: "job_inv H sub [] w" "malloc_ok w" "length (JOBLIST (jlog w)) = MAX_JOB_LIST"
    and w: "port_status w = PORT_READY" "status w = PrnNoUsed" "frees_of 0 (spl w) = b # fr" "buffercount w mod 256 \<le> 32"
    and m: "wire w = []" "lastdata w = []"
  obtains w' where "receive_data_file t M fz 0 [] w =
      (if M \<noteq> 0 then receive_txt_data_file fz [] w' else receive_bin_data_file t fz [] w')"
    "job_inv H sub [] w'" "frees_of 0 (spl w') = b # fr" "status w' = UnixUsed"
    "length (JOBLIST (jlog w')) = MAX_JOB_LIST" "mbox w' = mbox w" "lastdata w' = []" "rxdead w' = rxdead w" "wire w' = []"
proof -
  have w0: "port_status (RESPOND_OK w) = PORT_READY" "status (RESPOND_OK w) = PrnNoUsed" "wire (RESPOND_OK w) = []"
    using w(1,2) m(1) by (simp_all add: port_status_def) (simp add: RESPOND_OK_def lwip_send_def)
  define w1 where "w1 = PrnSetUnixUnHold (set_in_use UnixUsed (RESPOND_OK w))"
  have h: "hold_job 0 [] (RESPOND_OK w) = Done 0 [] w1"
    using w0 by (simp add: hold_job_def w1_def) (subst hold_loop.simps, simp)
  have i0: "job_inv H sub [] (RESPOND_OK w)" using i(1) by simp
  note su = set_in_use_job [OF i0, where v = UnixUsed]
  have pi: "pp_inv (psy (RESPOND_OK w)) H sub" using i0 by (simp add: job_inv_def)
  have w1: "job_inv H sub [] w1" "status w1 = UnixUsed" "jlog w1 = jlog w" "\<not> PrnIsUnixHoldAbort w1"
    "frame (RESPOND_OK w) w1" "mbox w1 = mbox w" "lastdata w1 = lastdata w" "rxdead w1 = rxdead w" "wire w1 = []"
    using su w0(3) by (simp_all add: w1_def) (simp_all add: PrnSetUnixUnHold_def set_in_use_def)
  have fr: "frees_of 0 (spl w1) = b # fr"
    using frees_set_in_use [OF pi, of UnixUsed] w(3) by (simp add: w1_def PrnSetUnixUnHold_def)
  have f1: "malloc_ok w1" "buffercount w1 mod 256 \<le> 32" using w1(5) i(2) w(4) by (simp_all add: frame_def)
  obtain w2 jl where e: "(if HadLogged w1 = 0
               then run_bind (log_put 1 (tbuffer w1) (buffercount w1 mod 256) [] w1) (\<lambda>_ fs w.
                      Done () fs (w\<lparr>HadLogged := 1\<rparr>))
               else Done () [] w1) = Done () [] w2"
    and l: "logged w1 jl" "jlog w2 = jl" "job_inv H sub [] w2" "stream w2 = stream w1" "status w2 = status w1"
    "PrnIsUnixHoldAbort w2 = PrnIsUnixHoldAbort w1" "mbox w2 = mbox w1" "lastdata w2 = lastdata w1"
    "rxdead w2 = rxdead w1" "spl w2 = spl w1"
    by (rule log_entry_job [OF f1 w1(1)])
  have "wire w2 = []" using l(4,7,8) w1(6,7,9) m by (simp add: stream_def)
  then show ?thesis
    using that [of w2] h e l w1 fr m i(3) logged_length [OF l(1)] by (simp add: receive_data_file_def)
qed

lemma lpd_first_file:
  assumes i: "job_inv H sub [] w" "malloc_ok w" "length (JOBLIST (jlog w)) = MAX_JOB_LIST"
    and w: "port_status w = PORT_READY" "status w = PrnNoUsed" "frees_of 0 (spl w) = b # fr" "buffercount w mod 256 \<le> 32"
    and m: "mbox w = [Netbuf (file @ [0])]" "lastdata w = []" "\<not> rxdead w" "wire w = []" "length file < BLOCK_SIZE"
  shows "\<exists>w'. receive_data_file t 0 (of_nat (length file)) 0 [] w = Done 0 [] w'"
proof -
  obtain w2 where e: "receive_data_file t 0 (of_nat (length file)) 0 [] w = receive_bin_data_file t (of_nat (length file)) [] w2"
    and w2: "job_inv H sub [] w2" "frees_of 0 (spl w2) = b # fr" "status w2 = UnixUsed"
    "length (JOBLIST (jlog w2)) = MAX_JOB_LIST" "mbox w2 = mbox w" "lastdata w2 = []" "rxdead w2 = rxdead w" "wire w2 = []"
    by (rule lpd_first_file_start [OF i w m(4,2), where M = 0 and fz = "of_nat (length file)"]) simp
  show ?thesis unfolding e by (rule one_segment_file [OF w2(1-4)]) (use w2 m in simp_all)
qed

theorem lpd_binary_file_exact_witness:
  "\<exists>w w'. stream w = [65, 66] @ [0] \<and> receive_data_file 0 0 (of_nat (length [65 :: u8, 66])) 0 [] w = Done 0 [] w' \<and>
     pp_inv (psy w') {} ([] @ [65, 66]) \<and> status w' = UnixUsed"
proof -
  obtain y where y: "pp_inv y {} []" "frees_of 0 (sp y) = [0..<PRNQUEUELEN]"
    "fst (ReadPortStatus 0 (sp y)) = PORT_READY" "PrnGetPrinterStatus 0 (sp y) = PrnNoUsed"
    by (rule attach_ready)
  define w where "w = conn_world y [Netbuf ([65, 66] @ [0])] []"
  have i: "job_inv {} [] [] w" "malloc_ok w" "length (JOBLIST (jlog w)) = MAX_JOB_LIST" "stream w = [65, 66] @ [0]"
    "\<not> PrnIsUnixHoldAbort w" "buffercount w mod 256 \<le> 32" "port_status w = PORT_READY" "status w = PrnNoUsed"
    using y by (simp_all add: w_def job_inv_def PrnIsUnixHoldAbort_def port_status_def status_def)
      (simp add: conn_world_def)
  have "frees_of 0 (spl w) = 0 # [1..<PRNQUEUELEN]" using y(2) by (simp add: w_def PRNQUEUELEN_def upt_rec)
  from lpd_first_file [OF i(1-3,7,8) this i(6), of "[65, 66]"]
  obtain w' where w': "receive_data_file 0 0 (of_nat (length [65 :: u8, 66])) 0 [] w = Done 0 [] w'"
    by (auto simp: w_def BLOCK_SIZE_def)
  have "pp_inv (psy w') {} ([] @ [65, 66]) \<and> status w' = UnixUsed"
    using lpd_binary_file_exact [OF i(1-3) _ i(5) _ i(6,4), of 0 0] unfolding w' by simp
  with w' i(4) show ?thesis by blast
qed


end
