(* ===== verification/Lpd_Text_Props.thy ===== *)
theory Lpd_Text_Props
  imports Lpd_File_Props
begin

text \<open>
  Text files of the line printer daemon: each received block is converted in two halves, and the
  output is the conversion of the whole file.
\<close>

section \<open>Converting one block\<close>

lemma txt_put_job:
  assumes inv: "job_inv H sub fs w" and b: "b \<in> H" and out: "length out \<le> BLOCKSIZE"
  shows "job_inv (H - {b}) (sub @ out) fs (txt_put b out w) \<and> same_job (H - {b}) w (txt_put b out w) \<and>
    stream (txt_put b out w) = stream w"
proof -
  have room: "0 + length out \<le> BLOCKSIZE + 20" using out by simp
  note jd = put_data_job [OF inv b room, simplified]
  note sj = submit_job [OF jd(1) b out, of PRN_Q_NORMAL, unfolded jd(3), folded txt_put_def]
  show ?thesis using sj same_job_trans [OF jd(2)] by simp
qed

lemma get_data_area: "off + n \<le> BLOCKSIZE + 20 \<Longrightarrow> get_data b off n w = take n (drop off (buf_area b w))"
  by (simp add: buf_area_def get_data_def mem_read_def take_map drop_map add.assoc)

lemma HALF_bounds: "0 < HALF" "2 * HALF \<le> BLOCKSIZE" "BLOCKSIZE - HALF \<le> HALF"
  by (simp_all add: HALF_def BLOCKSIZE_def)

lemma convert_half:
  "length d \<le> HALF \<Longrightarrow> ProcessCRLF (of_bool prev) d = (out, k) \<Longrightarrow>
   out = crlf_norm prev d \<and> length out \<le> BLOCKSIZE \<and> (d \<noteq> [] \<longrightarrow> k = of_bool (ends_cr prev d))"
  (is "_ \<Longrightarrow> _ \<Longrightarrow> ?thesis")
proof (cases "d = []")
  case True
  then show "ProcessCRLF (of_bool prev) d = (out, k) \<Longrightarrow> ?thesis" by (auto simp: ProcessCRLF_def)
next
  case False
  assume "length d \<le> HALF" "ProcessCRLF (of_bool prev) d = (out, k)"
  then show ?thesis using crlf_norm_length [of prev d] HALF_bounds(2) by (simp add: ProcessCRLF_norm [OF False])
qed

lemma txt_convert_job:
  assumes inv: "job_inv (insert b0 (insert b1 (insert b2 H))) sub fs w"
    and b: "b0 \<notin> insert b1 (insert b2 H)" "b1 \<notin> insert b2 H"
    and d: "take n (buf_area b2 w) = d" "length d = n" "n \<le> BLOCKSIZE"
    and c: "txt_convert (of_bool prev) b0 b1 b2 n w = (k, w')"
  shows "job_inv (insert b2 H) (sub @ crlf_norm prev d) fs w' \<and> same_job (insert b2 H) w w' \<and> stream w' = stream w \<and>
    (d \<noteq> [] \<longrightarrow> k = of_bool (ends_cr prev d))"
proof -
  let ?d0 = "take HALF d" and ?d1 = "drop HALF d"
  obtain out0 k0 where p0: "ProcessCRLF (of_bool prev) ?d0 = (out0, k0)" by fastforce
  have "length ?d0 \<le> HALF" by simp
  note h0 = convert_half [OF this p0]
  have H0: "insert b0 (insert b1 (insert b2 H)) - {b0} = insert b1 (insert b2 H)"
    and H1: "insert b1 (insert b2 H) - {b1} = insert b2 H" using b by auto
  have len0: "length out0 \<le> BLOCKSIZE" using h0 by blast
  note j0 = txt_put_job [OF inv insertI1 len0, unfolded H0]
  let ?w1 = "txt_put b0 out0 w"
  have g0: "get_data b2 0 (min n HALF) w = ?d0"
    using d by (simp add: get_data_area min.commute flip: take_take)
  have area: "buf_area b2 ?w1 = buf_area b2 w" using j0 by (simp add: same_job_def)
  have sj: "same_job (insert b2 H) w ?w1" using j0 by (auto intro: same_job_mono)
  show ?thesis
  proof (cases "HALF < n")
    case True
    obtain out1 k1 where p1: "ProcessCRLF k0 ?d1 = (out1, k1)" by fastforce
    have ne: "?d0 \<noteq> []" "?d1 \<noteq> []" using True d(2) HALF_bounds(1) by auto
    have k0: "k0 = of_bool (ends_cr prev ?d0)" using h0 ne(1) by simp
    have "length ?d1 \<le> HALF" using d HALF_bounds(3) by simp
    note h1 = convert_half [OF this p1 [unfolded k0]]
    have len1: "length out1 \<le> BLOCKSIZE" using h1 by blast
    have "job_inv (insert b1 (insert b2 H)) (sub @ out0) fs ?w1" using j0 by simp
    note j1 = txt_put_job [OF this insertI1 len1, unfolded H1]
    have "get_data b2 HALF (n - HALF) ?w1 = take (n - HALF) (drop HALF (buf_area b2 w))"
      using True d(3) area by (simp add: get_data_area)
    also have "\<dots> = ?d1" using d(1) by (simp add: take_drop True less_imp_le)
    finally have "txt_convert (of_bool prev) b0 b1 b2 n w = (k1, txt_put b1 out1 ?w1)"
      using True g0 p0 p1 by (simp add: txt_convert_def)
    with c have kw: "k = k1" "w' = txt_put b1 out1 ?w1" by simp_all
    have "crlf_norm prev d = out0 @ out1" "ends_cr (ends_cr prev ?d0) ?d1 = ends_cr prev d"
      using crlf_norm_append [of prev ?d0 ?d1] h0 h1 ne by (simp_all add: ends_cr_def)
    then show ?thesis using kw j1 h1 ne j0 same_job_trans [OF sj] by simp
  next
    case False
    then have d0: "?d0 = d" using d(2) by simp
    have "txt_convert (of_bool prev) b0 b1 b2 n w = (k0, put_in b1 ?w1)"
      using False g0 p0 by (simp add: txt_convert_def)
    with c have kw: "k = k0" "w' = put_in b1 ?w1" by simp_all
    have i1: "job_inv (insert b1 (insert b2 H)) (sub @ out0) fs ?w1" using j0 by simp
    show ?thesis using kw put_in_job [OF i1 insertI1, unfolded H1] h0 d0 j0 same_job_trans [OF sj] by simp
  qed
qed

text \<open>One received block, of which \<open>n\<close> bytes belong to the file.\<close>

lemma txt_block_job:
  assumes inv: "job_inv (insert b0 (insert b1 (insert b2 H))) sub fs w"
    and b: "b0 \<notin> insert b1 (insert b2 H)" "b1 \<notin> insert b2 H"
    and n: "length bs \<le> BLOCKSIZE" "n \<le> length bs"
  defines "w4 \<equiv> put_data b2 0 bs w"
  assumes c: "txt_convert (of_bool prev) b0 b1 b2 n (set_size b2 (int n) (log_add (int n) w4)) = (k, w')"
  shows "job_inv (insert b2 H) (sub @ crlf_norm prev (take n bs)) fs w'" "stream w' = stream w" "status w' = status w"
    "frame w w'" "jlog w' = JL_AddSize 0 (of_nat n) (jlog w)"
    "take n bs \<noteq> [] \<longrightarrow> k = of_bool (ends_cr prev (take n bs))" "n < length bs \<Longrightarrow> get_data b2 n 1 w4 = [bs ! n]"
proof -
  have room: "0 + length bs \<le> BLOCKSIZE + 20" using n by simp
  have b2: "b2 \<in> insert b0 (insert b1 (insert b2 H))" by simp
  note jd = put_data_job [OF inv b2 room, folded w4_def, simplified]
  define w5 where "w5 = set_size b2 (int n) (log_add (int n) w4)"
  have i4: "job_inv (insert b0 (insert b1 (insert b2 H))) sub fs (log_add (int n) w4)" using jd(1) by simp
  have nn: "0 \<le> int n" "int n \<le> int (BLOCKSIZE + 20)" using n by simp_all
  note js = set_size_job [OF i4 b2 nn, folded w5_def]
  have "take n (buf_area b2 w5) = take n bs" using js(4) jd(3) n(2) by (metis log_add_job(5) min.absorb1 take_take)
  note cv = txt_convert_job [OF js(1) b this _ _ c [folded w5_def]]
  have f4: "frame w (log_add (int n) w4)" by (rule frame_trans [of _ w4]) (simp_all add: w4_def)
  have same: "status w5 = status w" "frame w w5" "jlog w5 = JL_AddSize 0 (of_nat n) (jlog w)" "stream w5 = stream w"
    using js jd(2) frame_trans [OF f4] by (auto simp: same_job_def w4_def)
  show "job_inv (insert b2 H) (sub @ crlf_norm prev (take n bs)) fs w'" "stream w' = stream w" "status w' = status w"
    "frame w w'" "jlog w' = JL_AddSize 0 (of_nat n) (jlog w)"
    "take n bs \<noteq> [] \<longrightarrow> k = of_bool (ends_cr prev (take n bs))"
    using cv same n frame_trans [OF same(2)] by (auto simp: same_job_def)
  show "get_data b2 n 1 w4 = [bs ! n]" if "n < length bs"
  proof -
    have "buf_area b2 w4 ! n = bs ! n" using jd(3) that by (metis nth_take)
    then show ?thesis using get_data_byte [of n b2 w4] that n by simp
  qed
qed

section \<open>The loop over blocks\<close>

definition text_done :: "nat set \<Rightarrow> u8 list \<Rightarrow> bool \<Rightarrow> world \<Rightarrow> int \<Rightarrow> sched \<Rightarrow> world \<Rightarrow> bool" where
  "text_done H sub prev w rc fs' w' \<longleftrightarrow> rc = 0 \<and> job_inv H (sub @ crlf_norm prev (butlast (stream w))) fs' w' \<and>
     stream w' = [] \<and> status w' = status w \<and> frame w w' \<and>
     jlog w' = JL_AddSize 0 (of_nat (length (stream w) - 1)) (jlog w)"

lemma text_done_more:
  assumes t: "text_done H (sub @ crlf_norm prev d) (ends_cr prev d) w2 rc fs' w'"
    and w: "stream w = d @ stream w2" "stream w2 \<noteq> []" "status w2 = status w" "frame w w2"
      "jlog w2 = JL_AddSize 0 (of_nat (length d)) (jlog w)" "length (JOBLIST (jlog w)) = MAX_JOB_LIST"
  shows "text_done H sub prev w rc fs' w'"
proof -
  have "butlast (stream w) = d @ butlast (stream w2)" using w(1,2) by (simp add: butlast_append)
  moreover have "length d + (length (stream w2) - 1) = length (stream w) - 1"
    using w(1,2) by (cases "stream w2") simp_all
  then have "of_nat (length d) + of_nat (length (stream w2) - 1) = (of_nat (length (stream w) - 1) :: u32)"
    by (metis of_nat_add)
  ultimately show ?thesis
    using t w frame_trans [OF w(4)] by (auto simp: text_done_def crlf_norm_append JL_AddSize_twice)
qed

lemma txt_end_ok:
  assumes i: "job_inv (insert b2 H) sub fs w" and b: "b2 \<notin> H"
  shows "\<exists>w'. txt_end STATUS_OK b0 b1 b2 fs w = Done 0 fs w' \<and> job_inv H sub fs w' \<and> stream w' = stream w \<and>
    status w' = status w \<and> frame w w' \<and> jlog w' = jlog w"
proof -
  have Hb: "insert b2 H - {b2} = H" using b by auto
  show ?thesis
    using submit_job [OF i insertI1, of 0 PRN_Q_EOF, unfolded Hb] by (simp add: txt_end_def same_job_def)
qed

lemma txt_loop_job:
  assumes "job_inv (insert b2 H) sub fs w" "b2 \<notin> H" "tot < filesize" "length (stream w) = unat (filesize - tot)"
    "last (stream w) = 0" "status w \<noteq> PrnAbortUsed" "length (JOBLIST (jlog w)) = MAX_JOB_LIST"
    "blocksize = block_of (unat (filesize - tot))" "KeepCR = of_bool prev"
  shows "holds (txt_loop filesize tot blocksize KeepCR b2 fs w) (lpd_waits sub (crlf_norm prev (butlast (stream w))))
    (text_done H sub prev w)"
  using assms
proof (induction filesize tot blocksize KeepCR b2 fs w arbitrary: sub prev rule: txt_loop.induct)
  case (1 filesize tot blocksize KeepCR b2 fs w)
  note IH = 1(1) and inv = 1(2) and nb2 = 1(3) and lt = 1(4) and len = 1(5) and la = 1(6) and st = 1(7) and jl = 1(8)
    and bk = 1(9) and kc = 1(10)
  define R where "R = unat (filesize - tot)"
  have R: "1 \<le> R" using lt unsigned_less by (simp add: R_def unat_sub word_less_nat_alt less_imp_le)
  have k: "0 < nat blocksize" "nat blocksize \<le> BLOCKSIZE" "nat blocksize \<le> R"
    using R by (simp_all add: bk R_def block_of_def BLOCKSIZE_def)
  let ?T = "crlf_norm prev (butlast (stream w))"
  show ?case
  proof (subst txt_loop.simps, rule holds_bind_eq [OF wait_in_buf_waits [OF inv]], goal_cases)
    case got0: (1 p fs1 w1)
    obtain b0 t0 where p: "p = (b0, t0)" by fastforce
    from got0 have i1: "job_inv (insert b0 (insert b2 H)) sub fs1 w1" and sj1: "same_job (insert b2 H) w w1"
      and s1: "stream w1 = stream w" and nb0: "b0 \<notin> insert b2 H" by (auto simp: p)
    note z1 = set_size_job [OF i1 insertI1, of 0, simplified]
    show ?case
      unfolding p prod.case
    proof (rule holds_bind_eq [OF wait_in_buf_waits [OF z1(1)]], goal_cases)
      case got1: (1 q fs2 w2)
      obtain b1 t1 where q: "q = (b1, t1)" by fastforce
      from got1 have i2: "job_inv (insert b1 (insert b0 (insert b2 H))) sub fs2 w2"
        and sj2: "same_job (insert b0 (insert b2 H)) (set_size b0 0 w1) w2"
        and s2: "stream w2 = stream (set_size b0 0 w1)" and nb1: "b1 \<notin> insert b0 (insert b2 H)" by (auto simp: q)
      note z2 = set_size_job [OF i2 insertI1, of 0, simplified]
      define w3 where "w3 = set_size b1 0 w2"
      have w3: "stream w3 = stream w" "status w3 = status w" "jlog w3 = jlog w" "frame w w3"
      proof -
        have f: "frame w w1" "frame w1 (set_size b0 0 w1)" "frame (set_size b0 0 w1) w2" "frame w2 w3"
          using sj1 sj2 z1(2) z2(2) by (simp_all add: w3_def same_job_def)
        show "frame w w3" by (rule frame_trans [OF frame_trans [OF f(1,2)] frame_trans [OF f(3,4)]])
        show "stream w3 = stream w" "status w3 = status w" "jlog w3 = jlog w"
          using z1 z2 s1 s2 sj1 sj2 by (simp_all add: w3_def same_job_def)
      qed
      have na: "\<not> status w3 = PrnAbortUsed" using w3(2) st by simp
      have i3: "job_inv (insert b0 (insert b1 (insert b2 H))) sub fs2 w3"
        using z2(1) by (simp add: w3_def insert_commute)
      show ?case
        unfolding q prod.case Let_def w3_def [symmetric] if_not_P [OF na]
      proof (rule holds_bind_eq [OF recv_waits [OF i3 k(1)]], goal_cases)
        case rx: (1 r fs4 w4)
        obtain cnt bs where r: "r = (cnt, bs)" by fastforce
        from rx have i4: "job_inv (insert b0 (insert b1 (insert b2 H))) sub fs4 w4"
          and sj4: "same_job (insert b0 (insert b1 (insert b2 H))) w3 w4" and rc: "recv_ok (nat blocksize) w3 cnt bs w4"
          by (auto simp: r)
        have "stream w3 \<noteq> []" using w3(1) len R by (auto simp: R_def)
        then have bs: "bs \<noteq> []" "cnt = int (length bs)" "length bs \<le> nat blocksize" "stream w = bs @ stream w4"
          using rc w3(1) by (auto simp: recv_ok_def)
        define m where "m = length bs"
        have mR: "0 < m" "m \<le> R" "m \<le> BLOCKSIZE" "cnt = int m" "\<not> cnt < 1" "nat cnt = m"
          using bs k by (auto simp: m_def)
        note ts = tot_step [OF lt mR(2) [unfolded R_def], folded R_def]
        have blk: "length bs \<le> BLOCKSIZE" using mR by (simp add: m_def)
        define w5 where "w5 = put_data b2 0 bs w4"
        have w4: "status w4 = status w" "jlog w4 = jlog w" "frame w w4"
          using sj4 w3 frame_trans [OF w3(4)] by (auto simp: same_job_def)
        have db: "b0 \<notin> insert b1 (insert b2 H)" "b1 \<notin> insert b2 H" using nb0 nb1 by auto
        show ?case
        proof (cases "m = R")
          case True
          have e: "tot + of_int cnt = filesize" using ts(1) True mR(4) by simp
          have "of_nat m = (1 + of_nat (m - 1) :: u32)" using mR(1) by (cases m) simp_all
          with e mR(4) have e': "tot + 1 + of_nat (m - 1) = filesize" by (simp add: add.assoc)
          have all: "stream w4 = []" "stream w = bs" using bs(4) len True by (auto simp: m_def R_def)
          obtain k' w' where c: "txt_convert (of_bool prev) b0 b1 b2 (m - 1) (set_size b2 (int (m - 1)) (log_add (int (m - 1)) w5)) = (k', w')"
            by fastforce
          have n: "m - 1 \<le> length bs" by (simp add: m_def)
          note bj = txt_block_job [OF i4 db blk n c [unfolded w5_def], folded w5_def]
          have "hd (get_data b2 (m - 1) 1 w5) = STATUS_OK"
            using bj(7) la all(2) bs(1) by (simp add: m_def last_conv_nth STATUS_OK_def)
          moreover obtain w6 where "txt_end STATUS_OK b0 b1 b2 fs4 w' = Done 0 fs4 w6" 
            "job_inv H (sub @ crlf_norm prev (take (m - 1) bs)) fs4 w6" "stream w6 = stream w'" "status w6 = status w'"
            "frame w' w6" "jlog w6 = jlog w'"
            using txt_end_ok [OF bj(1) nb2, of b0 b1] by blast
          ultimately show ?thesis
            unfolding r prod.case if_not_P [OF mR(5)] if_P [OF e] mR(6) w5_def [symmetric] kc c fst_conv snd_conv e'
            using bj all w4 frame_trans [OF frame_trans [OF w4(3) bj(4)]]
            by (simp add: text_done_def butlast_conv_take m_def)
        next
          case False
          with mR(2) have less: "m < R" by simp
          with ts mR(4) have ne: "tot + of_int cnt \<noteq> filesize" and lt': "tot + of_nat m < filesize"
            and R': "unat (filesize - (tot + of_nat m)) = R - m" by auto
          obtain k' w' where c: "txt_convert (of_bool prev) b0 b1 b2 m (set_size b2 (int m) (log_add (int m) w5)) = (k', w')"
            by fastforce
          have "m \<le> length bs" by (simp add: m_def)
          note bj = txt_block_job [OF i4 db blk this c [unfolded w5_def], folded w5_def]
          have tm: "take m bs = bs" by (simp add: m_def)
          have sz: "(if filesize - (tot + of_nat m) < of_nat BLOCKSIZE then uint (filesize - (tot + of_nat m)) else blocksize)
              = block_of (R - m)"
            unfolding bk [folded R_def] using block_of_step [of "filesize - (tot + of_nat m)" R] R' by simp
          have w': "length (stream w') = R - m" "stream w = bs @ stream w'" "status w' = status w" "frame w w'"
            "jlog w' = JL_AddSize 0 (of_nat (length bs)) (jlog w)" "k' = of_bool (ends_cr prev bs)"
            using bj w4 bs len frame_trans [OF w4(3) bj(4)] by (simp_all add: tm R_def m_def)
          have ne': "stream w' \<noteq> []" using w'(1) less by auto
          then have la': "last (stream w') = 0" using la w'(2) by simp
          note IH' = IH [OF got0(1) p [symmetric] got1(1) q [symmetric] w3_def na rx(1) r [symmetric] mR(5) w5_def
            refl refl refl refl refl refl refl, of "sub @ crlf_norm prev bs" "ends_cr prev bs",
            unfolded if_not_P [OF ne] add_0_right mR(6) sz kc c fst_conv snd_conv]
          have "holds (txt_loop filesize (tot + of_nat m) (block_of (R - m)) k' b2 fs4 w')
              (lpd_waits (sub @ crlf_norm prev bs) (crlf_norm (ends_cr prev bs) (butlast (stream w'))))
              (text_done H (sub @ crlf_norm prev bs) (ends_cr prev bs) w')"
            using IH' lt' R' w' la' bj(1) st jl nb2 by (simp add: tm)
          then have "holds (txt_loop filesize (tot + of_nat m) (block_of (R - m)) k' b2 fs4 w') (lpd_waits sub ?T)
              (text_done H sub prev w)"
          proof (rule holds_mono)
            have "?T = crlf_norm prev bs @ crlf_norm (ends_cr prev bs) (butlast (stream w'))"
              using w'(2) ne' by (simp add: butlast_append crlf_norm_append)
            then show "lpd_waits sub ?T v" if "lpd_waits (sub @ crlf_norm prev bs)
                (crlf_norm (ends_cr prev bs) (butlast (stream w'))) v" for v
              using waits_shift [OF that] by simp
            show "text_done H sub prev w rc fs v" if "text_done H (sub @ crlf_norm prev bs) (ends_cr prev bs) w' rc fs v" for rc fs v
              by (rule text_done_more [OF that w'(2) ne' w'(3-5) jl])
          qed
          then show ?thesis
            unfolding r prod.case if_not_P [OF mR(5)] if_not_P [OF ne] add_0_right mR(6) w5_def [symmetric] sz kc c
              fst_conv snd_conv using lt' by simp
        qed
      qed
    qed
  qed
qed

lemma unat_file_size:
  assumes "length file < 2 ^ 32 - 1"
  shows "unat (of_nat (length file) + 1 :: u32) = Suc (length file)"
  using assms by (simp add: unat_word_ariths unat_of_nat)

lemma txt_file_job:
  assumes i: "job_inv H sub fs w" "stream w = file @ [0]" "length file < 2 ^ 32 - 1" "status w = UnixUsed"
    "length (JOBLIST (jlog w)) = MAX_JOB_LIST"
  shows "holds (receive_txt_data_file (of_nat (length file)) fs w) (lpd_waits sub (crlf_norm False file))
    (text_done H sub False w)"
  unfolding receive_txt_data_file_def Let_def first_block
proof (rule holds_bind [OF wait_in_buf_waits [OF i(1)]])
  let ?fz = "of_nat (length file) + 1 :: u32"
  fix p fs1 w1
  assume g: "(case p of (b, _) \<Rightarrow> \<lambda>fs' w'. job_inv (insert b H) sub fs' w' \<and> same_job H w w' \<and> stream w' = stream w \<and> b \<notin> H) fs1 w1"
  obtain b u where p: "p = (b, u)" by fastforce
  have b: "job_inv (insert b H) sub fs1 w1" "same_job H w w1" "stream w1 = stream w" "b \<notin> H" using g by (auto simp: p)
  note z = set_size_job [OF b(1) insertI1, of 0, simplified]
  have w: "stream (set_size b 0 w1) = file @ [0]" "status (set_size b 0 w1) = UnixUsed" "jlog (set_size b 0 w1) = jlog w"
    "frame w (set_size b 0 w1)"
    using z b i frame_trans by (auto simp: same_job_def)
  have "holds (txt_loop ?fz 0 (block_of (unat ?fz)) 0 b fs1 (set_size b 0 w1)) (lpd_waits sub (crlf_norm False file))
      (text_done H sub False (set_size b 0 w1))"
    using txt_loop_job [OF z(1) b(4), of 0 ?fz "block_of (unat ?fz)" 0 False] w i(3,5) unat_file_size [OF i(3)]
    by (simp add: word_less_nat_alt UnixUsed_def PrnAbortUsed_def)
  then show "holds (case p of (b2, _) \<Rightarrow> txt_loop ?fz 0 (block_of (unat ?fz)) 0 b2 fs1 (set_size b2 0 w1))
      (lpd_waits sub (crlf_norm False file)) (text_done H sub False w)"
    unfolding p prod.case by (rule holds_mono) (use w i frame_trans [OF w(4)] in \<open>auto simp: text_done_def\<close>)
qed

section \<open>Properties\<close>

text \<open>C28: A text file is printed with CR LF line ends: whatever the segmentation of its bytes, the size of the
  file and the interleaving with the other threads, as long as the connection does not fail and nobody aborts the job, when \<open>receive_data_file\<close> ends in text mode the bytes it
  has submitted are the one-pass conversion of the whole file, although the daemon converts it in half
  blocks and may see a line end cut in two; it reports success, holds no buffer, owns the port, and has
  counted the bytes of the file as received, not as printed, in the job log.\<close>

theorem lpd_text_file_normalised:
  assumes "job_inv H sub fs w" "malloc_ok w" "length (JOBLIST (jlog w)) = MAX_JOB_LIST"
    "\<forall>f\<in>set fs. keeps_abort f" "\<not> PrnIsUnixHoldAbort w" "n = 0 \<or> status w = UnixUsed"
    "buffercount w mod 256 \<le> 32" "stream w = file @ [0]" "length file < 2 ^ 32 - 1" "TXTMode \<noteq> 0"
  shows "holds (receive_data_file junk_time TXTMode (of_nat (length file)) n fs w) (lpd_waits sub (crlf_norm False file))
    (\<lambda>rc fs' w'. rc = 0 \<and> pp_inv (psy w') H (sub @ crlf_norm False file) \<and> stream w' = [] \<and> status w' = UnixUsed \<and>
       sent w' = sent w @ [0] \<and> HadLogged w' \<noteq> 0 \<and>
       (\<exists>jl. logged w jl \<and> jlog w' = JL_AddSize 0 (of_nat (length file)) jl))"
  using assms(1,2,7,4-6)
proof (rule receive_data_file_job, goal_cases)
  case (1 fs1 w1 jl)
  have "holds (receive_txt_data_file (of_nat (length file)) fs1 w1) (lpd_waits sub (crlf_norm False file))
      (text_done H sub False w1)"
    by (rule txt_file_job) (use 1 assms(3,8,9) logged_length [OF 1(4)] in simp_all)
  then show ?case
    using 1 assms(8,10) by (auto simp: text_done_def job_inv_def frame_def elim!: holds_mono)
qed

lemma txt_end_done: "\<exists>rc w'. txt_end st b0 b1 b2 fs w = Done rc fs w'"
  by (simp add: txt_end_def abort_spooler_def PrnAbortSpooler_def)

lemma frees_set_size:
  "pp_inv (psy w) H sub \<Longrightarrow> frees_of 0 (spl (set_size b n w)) = frees_of 0 (spl w)"
  using set_b_size_inv [OF pp_invD(1)] by (simp add: set_size_def)

text \<open>A buffer taken and emptied, as the text loop does three times.\<close>

lemma empty_buf_free:
  assumes "job_inv H sub fs w" "frees_of 0 (spl w) = b # fr"
  obtains w' t where "wait_in_buf lim always st fs w = Done (b, st) fs w'"
    "job_inv (insert b H) sub fs (set_size b 0 w')" "frees_of 0 (spl (set_size b 0 w')) = fr"
    "status (set_size b 0 w') = status w" "mbox (set_size b 0 w') = mbox w" "lastdata (set_size b 0 w') = lastdata w"
    "rxdead (set_size b 0 w') = rxdead w"
proof -
  obtain s where s: "wait_in_buf lim always st fs w = Done (b, st) fs (set_sp s w)"
    "job_inv (insert b H) sub fs (set_sp s w)" "same_job H w (set_sp s w)" "frees_of 0 s = fr"
    by (rule wait_in_buf_free [OF assms])
  note z = set_size_job [OF s(2) insertI1, of 0, simplified]
  have "pp_inv (psy (set_sp s w)) (insert b H) sub" using s(2) by (simp add: job_inv_def)
  with s z show ?thesis by (intro that [of "set_sp s w"]) (simp_all add: frees_set_size same_job_def)
qed

lemma one_segment_text:
  assumes i: "job_inv H sub fs w" "frees_of 0 (spl w) = b2 # b0 # b1 # fr" "status w = UnixUsed"
    and m: "mbox w = [Netbuf (file @ [0])]" "lastdata w = []" "\<not> rxdead w" "length file < BLOCK_SIZE"
  shows "\<exists>rc w'. receive_txt_data_file (of_nat (length file)) fs w = Done rc fs w'"
proof -
  let ?fz = "of_nat (length file) + 1 :: u32"
  have len: "length file < 1460" using m(4) by (simp add: BLOCK_SIZE_def)
  have k: "block_of (unat ?fz) = int (Suc (length file))"
    using len unat_file_size [of "file"] by (simp add: block_of_def BLOCKSIZE_def)
  obtain w2 where w2: "wait_in_buf (TICKS_PER_SECOND * 5) False 0 fs w = Done (b2, 0) fs w2"
    "job_inv (insert b2 H) sub fs (set_size b2 0 w2)" "frees_of 0 (spl (set_size b2 0 w2)) = b0 # b1 # fr"
    "status (set_size b2 0 w2) = status w" "mbox (set_size b2 0 w2) = mbox w" "lastdata (set_size b2 0 w2) = lastdata w"
    "rxdead (set_size b2 0 w2) = rxdead w"
    by (rule empty_buf_free [OF i(1,2)])
  obtain w0 where w0: "wait_in_buf (TICKS_PER_SECOND * 5) True 0 fs (set_size b2 0 w2) = Done (b0, 0) fs w0"
    "job_inv (insert b0 (insert b2 H)) sub fs (set_size b0 0 w0)" "frees_of 0 (spl (set_size b0 0 w0)) = b1 # fr"
    "status (set_size b0 0 w0) = status w" "mbox (set_size b0 0 w0) = mbox w" "lastdata (set_size b0 0 w0) = lastdata w"
    "rxdead (set_size b0 0 w0) = rxdead w"
    by (rule empty_buf_free [OF w2(2,3)]) (use w2 in simp)
  obtain w1 where w1: "wait_in_buf (TICKS_PER_SECOND * 5) True 0 fs (set_size b0 0 w0) = Done (b1, 0) fs w1"
    "job_inv (insert b1 (insert b0 (insert b2 H))) sub fs (set_size b1 0 w1)"
    "status (set_size b1 0 w1) = status w" "mbox (set_size b1 0 w1) = mbox w" "lastdata (set_size b1 0 w1) = lastdata w"
    "rxdead (set_size b1 0 w1) = rxdead w"
    by (rule empty_buf_free [OF w0(2,3)]) (use w0 in simp)
  have na: "\<not> status (set_size b1 0 w1) = PrnAbortUsed" using w1(3) i(3) by (simp add: UnixUsed_def PrnAbortUsed_def)
  have rx: "lwip_recv (Suc (length file)) fs (set_size b1 0 w1) =
      Done (int (Suc (length file)), file @ [0]) fs (set_size b1 0 w1\<lparr>mbox := []\<rparr>)"
    using lwip_recv_netbuf [of "set_size b1 0 w1" "file @ [0]" "[]"] w1 m job_inv_memp [OF w1(2)] by simp
  have nn: "nat (1 + int (length file)) = Suc (length file)" by simp
  have "\<exists>rc w'. txt_loop ?fz 0 (int (Suc (length file))) 0 b2 fs (set_size b2 0 w2) = Done rc fs w'"
    using w0(1) w1(1) na rx nn txt_end_done by (subst txt_loop.simps) (simp add: Let_def add.commute)
  then show ?thesis
    unfolding receive_txt_data_file_def Let_def first_block k by (simp add: w2(1))
qed

theorem lpd_text_file_normalised_witness:
  "\<exists>w w'. stream w = [65, LF, 66] @ [0] \<and> receive_data_file 0 1 (of_nat (length [65 :: u8, LF, 66])) 0 [] w = Done 0 [] w' \<and>
     pp_inv (psy w') {} ([] @ [65, CR, LF, 66])"
proof -
  obtain y where y: "pp_inv y {} []" "frees_of 0 (sp y) = [0..<PRNQUEUELEN]"
    "fst (ReadPortStatus 0 (sp y)) = PORT_READY" "PrnGetPrinterStatus 0 (sp y) = PrnNoUsed"
    by (rule attach_ready)
  define w where "w = conn_world y [Netbuf ([65, LF, 66] @ [0])] []"
  have i: "job_inv {} [] [] w" "malloc_ok w" "length (JOBLIST (jlog w)) = MAX_JOB_LIST" "stream w = [65, LF, 66] @ [0]"
    "\<not> PrnIsUnixHoldAbort w" "buffercount w mod 256 \<le> 32" "port_status w = PORT_READY" "status w = PrnNoUsed"
    "wire w = []" "lastdata w = []" "\<not> rxdead w" "mbox w = [Netbuf ([65, LF, 66] @ [0])]"
    using y by (simp_all add: w_def job_inv_def PrnIsUnixHoldAbort_def port_status_def status_def)
      (simp add: conn_world_def)
  have fr: "frees_of 0 (spl w) = 0 # 1 # 2 # [3..<PRNQUEUELEN]" using y(2) by (simp add: w_def PRNQUEUELEN_def upt_rec)
  let ?f = "[65 :: u8, LF, 66]"
  obtain w2 where e: "receive_data_file 0 1 (of_nat (length ?f)) 0 [] w = receive_txt_data_file (of_nat (length ?f)) [] w2"
    and w2: "job_inv {} [] [] w2" "frees_of 0 (spl w2) = 0 # 1 # 2 # [3..<PRNQUEUELEN]" "status w2 = UnixUsed"
    "mbox w2 = mbox w" "lastdata w2 = []" "rxdead w2 = rxdead w"
    by (rule lpd_first_file_start [OF i(1-3,7,8) fr i(6,9,10), where M = 1 and fz = "of_nat (length ?f)"]) simp
  have "\<exists>rc w'. receive_txt_data_file (of_nat (length ?f)) [] w2 = Done rc [] w'"
    by (rule one_segment_text [OF w2(1-3)]) (use w2 i in \<open>simp_all add: BLOCK_SIZE_def\<close>)
  then obtain rc w' where d: "receive_data_file 0 1 (of_nat (length ?f)) 0 [] w = Done rc [] w'"
    unfolding e by blast
  have "rc = 0 \<and> pp_inv (psy w') {} ([] @ crlf_norm False ?f)"
    using lpd_text_file_normalised [OF i(1-3) _ i(5) _ i(6,4), of 0 1 0] unfolding d by simp
  moreover have "crlf_norm False ?f = [65, CR, LF, 66]" by (simp add: CR_def LF_def)
  ultimately show ?thesis using d i(4) by (metis append_Nil)
qed

end
