(* ===== verification/Lpd_Props.thy ===== *)
theory Lpd_Props
  imports Lpd_Job Net_Start
begin

text \<open>
  The line printer daemon's hold on the port, and the room for control files: a hold that no data
  file follows is never released, and no job is accepted after it; a control file is safe exactly
  when it is shorter than the command buffer.
\<close>

unbundle bit_operations_syntax

section \<open>The hold\<close>

text \<open>The port is held for a job, and the other threads do not release it.\<close>

definition held :: "sched \<Rightarrow> world \<Rightarrow> bool" where
  "held fs w \<longleftrightarrow> PrnIsUnixHold w \<and> (\<forall>f\<in>set fs. \<forall>v. PrnIsUnixHold v \<longrightarrow> PrnIsUnixHold (f v))"

lemma held_simps [simp]:
  "PrnIsUnixHold (w\<lparr>mbox := m\<rparr>) = PrnIsUnixHold w" "PrnIsUnixHold (w\<lparr>lastdata := d\<rparr>) = PrnIsUnixHold w"
  "PrnIsUnixHold (w\<lparr>rxdead := x\<rparr>) = PrnIsUnixHold w" "PrnIsUnixHold (w\<lparr>obuf := ob\<rparr>) = PrnIsUnixHold w"
  "PrnIsUnixHold (w\<lparr>sent := se\<rparr>) = PrnIsUnixHold w" "PrnIsUnixHold (w\<lparr>fclosed := c\<rparr>) = PrnIsUnixHold w"
  "PrnIsUnixHold (w\<lparr>HadLogged := h\<rparr>) = PrnIsUnixHold w" "PrnIsUnixHold (w\<lparr>lpr_tasks := ts\<rparr>) = PrnIsUnixHold w"
  "PrnIsUnixHold (w\<lparr>ServiceProcIsBusy := y\<rparr>) = PrnIsUnixHold w" "PrnIsUnixHold (w\<lparr>jlog := jl\<rparr>) = PrnIsUnixHold w"
  "PrnIsUnixHold (set_sp s w) = PrnIsUnixHold w"
  by (simp_all add: PrnIsUnixHold_def)

lemma held_out [simp]:
  "PrnIsUnixHold (lwip_send bs w) = PrnIsUnixHold w" "PrnIsUnixHold (zot_fputs s w) = PrnIsUnixHold w"
  "PrnIsUnixHold (put_name w) = PrnIsUnixHold w" "PrnIsUnixHold (RESPOND_OK w) = PrnIsUnixHold w"
  "PrnIsUnixHold (RESPOND_ERR w) = PrnIsUnixHold w" "PrnIsUnixHold (zot_fclose w) = PrnIsUnixHold w"
  "PrnIsUnixHold (set_in_use v w) = PrnIsUnixHold w" "PrnIsUnixHold (log_end v w) = PrnIsUnixHold w"
  by (simp_all add: lwip_send_def zot_fputs_def put_name_def RESPOND_OK_def RESPOND_ERR_def zot_fclose_def
      set_in_use_def log_end_def Let_def)

lemma held_abort: "PrnIsUnixHold w \<Longrightarrow> PrnIsUnixHold (PrnSetUnixHoldAbort w)"
proof -
  have "(x OR UnixHoldAbort) AND UnixHolded = x AND UnixHolded" for x :: u8
    unfolding bit.conj_disj_distrib2 by (simp add: UnixHoldAbort_def UnixHolded_def)
  then show "PrnIsUnixHold w \<Longrightarrow> PrnIsUnixHold (PrnSetUnixHoldAbort w)"
    by (simp add: PrnIsUnixHold_def PrnSetUnixHoldAbort_def)
qed

lemma fetch_held: "held fs w \<Longrightarrow> ends_with (\<lambda>_. held) (fetch fs w)"
proof (induction fs w rule: fetch.induct)
  case (1 fs w)
  show ?case
  proof (cases "mbox w")
    case Nil
    show ?thesis
    proof (cases fs)
      case (Cons f gs)
      then have "held gs (f w)" using 1(2) by (auto simp: held_def)
      from 1(1) [OF Nil Cons this] show ?thesis using Nil Cons by (subst fetch.simps) simp
    qed (use Nil in \<open>subst fetch.simps, simp\<close>)
  next
    case Cons
    with 1(2) show ?thesis by (subst fetch.simps) (simp add: held_def)
  qed
qed

lemma lwip_recv_held: "held fs w \<Longrightarrow> ends_with (\<lambda>_. held) (lwip_recv len fs w)"
proof -
  assume h: "held fs w"
  have n: "ends_with (\<lambda>_. held) (netconn_recv fs w)"
    using h by (auto simp: netconn_recv_def held_def split: arrival.split intro!: ends_with_bind [OF fetch_held])
  show ?thesis
    using h by (auto simp: lwip_recv_def take_data_def held_def split: arrival.split intro!: ends_with_bind [OF n])
qed

lemma recv_cmd_held: "held fs w \<Longrightarrow> ends_with (\<lambda>_. held) (recv_cmd mem fs w)"
proof (induction mem fs w rule: recv_cmd.induct)
  case (1 mem fs w)
  note IH = 1(1)
  show ?case
  proof (subst recv_cmd.simps, rule ends_with_bind [OF lwip_recv_held [OF 1(2)]], goal_cases)
    case (1 r fs1 w1)
    obtain n bs where r: "r = (n, bs)" by fastforce
    note IH' = IH [OF 1(1) r [symmetric] _ refl _]
    have "held fs1 (RESPOND_ERR w1)" using 1(2) by (simp add: held_def)
    with IH' 1(2) show ?case by (auto simp: r Let_def split: option.split)
  qed
qed

lemma need_held: "held fs w \<Longrightarrow> ends_with (\<lambda>_. held) (need e x fs w)"
  by (simp add: need_def split: option.split)

lemma CheckServiceMode_held:
  assumes "held fs w"
  shows "ends_with (\<lambda>(rc, m) fs' w'. held fs' w' \<and> (\<forall>Mode. rc \<noteq> LPD_RECEIVE_MODE Mode)) (CheckServiceMode mem fs w)"
  unfolding CheckServiceMode_def
proof (rule ends_with_bind [OF recv_cmd_held [OF assms]], goal_cases)
  case (1 r fs1 w1)
  show ?case
  proof (cases r)
    case (Some m0)
    have "ends_with (\<lambda>(rc, m) fs' w'. held fs' w' \<and> (\<forall>Mode. rc \<noteq> LPD_RECEIVE_MODE Mode))
      (run_bind (need Overread (rip m0) fs1 w1) (\<lambda>m1 fs w. run_bind (need Overread (split_name m1) fs w) k))"
      if "\<And>a fs' w'. held fs' w' \<Longrightarrow> ends_with (\<lambda>(rc, m) fs' w'. held fs' w' \<and> (\<forall>Mode. rc \<noteq> LPD_RECEIVE_MODE Mode)) (k a fs' w')" for k
      using that 1(2) by (intro ends_with_bind [OF need_held]) auto
    then show ?thesis
      unfolding Some option.case by this (auto simp: held_def Let_def split: prod.split)
  qed (use 1(2) in simp)
qed

lemma send_queue_held: "held fs w \<Longrightarrow> ends_with (\<lambda>_. held) (send_queue jt fs w)"
  by (simp add: send_queue_def Let_def held_def)

lemma abort_job_held: "held fs w \<Longrightarrow> ends_with (\<lambda>_. held) (abort_job jt cmd fs w)"
  unfolding abort_job_def Let_def
  by (rule ends_with_bind [of "\<lambda>_. held"])
    (auto simp: need_held send_queue_held intro: held_abort split: option.split, auto simp: held_def held_abort)

lemma service_job_held: "held fs w \<Longrightarrow> ends_with (\<lambda>_. held) (service_job jt Mode cmd fs w)"
  unfolding service_job_def
  by (rule ends_with_bind [of "\<lambda>_. held"])
    (auto simp: send_queue_held abort_job_held, auto simp: held_def)

section \<open>Properties of the hold\<close>

text \<open>C29: While the port is held for a job no further job is accepted: whatever a connection sends, and
  whatever the other threads do as long as they do not release the hold themselves, \<open>lpdstart\<close> starts no
  job thread for it, and the hold is still there when it has dealt with the connection.\<close>

theorem lpd_held_refuses:
  assumes "PrnIsUnixHold w" "\<forall>f\<in>set fs. \<forall>v. PrnIsUnixHold v \<longrightarrow> PrnIsUnixHold (f v)"
    "lpd_accept junk_text availmem s mem fs w = Done (r, m) fs' w'"
  shows "r = None \<and> PrnIsUnixHold w'"
proof -
  have "held fs w" using assms(1,2) by (simp add: held_def)
  have "ends_with (\<lambda>(r, m). \<lambda>fs w. r = None \<and> held fs w) (lpd_accept junk_text availmem s mem fs w)"
    unfolding lpd_accept_def
  proof (rule ends_with_bind [OF CheckServiceMode_held [OF \<open>held fs w\<close>]], goal_cases)
    case (1 p fs1 w1)
    obtain rc m where p: "p = (rc, m)" by fastforce
    from 1 have h: "held fs1 w1" and n: "\<And>Mode. rc \<noteq> LPD_RECEIVE_MODE Mode" by (auto simp: p)
    have z: "held fs1 (zot_fclose w1)" using h by (simp add: held_def)
    show ?case
    proof (cases rc)
      case (LPD_SERVICE_MODE Mode)
      then show ?thesis
        unfolding p by (auto intro!: ends_with_bind [of "\<lambda>r fs w. r = None \<and> held fs w"]
            ends_with_bind [OF service_job_held [OF h]])
    qed (use n z in \<open>auto simp: p\<close>)
  qed
  from ends_withD [OF this assms(3)] show ?thesis by (simp add: held_def)
qed

text \<open>A second client asks for a job while the first one's is held.\<close>

definition held_world :: "psys \<Rightarrow> arrival list \<Rightarrow> world" where
  "held_world y m = PrnSetUnixHold (conn_world y m [])"

lemma held_world_simps:
  "PrnIsUnixHold (held_world y m)" "mbox (held_world y m) = m" "lastdata (held_world y m) = []"
  "\<not> rxdead (held_world y m)" "memp_ok (held_world y m)"
  by (simp_all add: held_world_def PrnSetUnixHold_def PrnIsUnixHold_def conn_world_def UnixHolded_def)

theorem lpd_held_refuses_witness:
  "\<exists>m w'. lpd_accept [] 0 5 (replicate 8 0) [] (held_world psys_static [Netbuf [2, 76, 80, 10]]) = Done (None, m) [] w' \<and>
     PrnIsUnixHold w'"
proof -
  let ?w = "held_world psys_static [Netbuf [2, 76, 80, 10]]"
  have "fetch [] ?w = Done (Netbuf [2, 76, 80, 10]) [] (?w\<lparr>mbox := []\<rparr>)"
    by (subst fetch.simps) (simp add: held_world_simps)
  then have "recv_cmd (replicate 8 0) [] ?w = Done (Some [2, 76, 80, 10, 0, 0, 0, 0]) [] (?w\<lparr>mbox := []\<rparr>)"
    by (subst recv_cmd.simps) (simp add: lwip_recv_def netconn_recv_def take_data_def held_world_simps BUFFER_SIZE_def
      store_at_def c_string_def eval_nat_numeral)
  moreover have "rip [2, 76, 80, 10, 0, 0, 0, 0] = Some [2, 76, 80, 0, 0, 0, 0, 0]"
    by (simp add: rip_def nul_at_def LF_def CR_def)
  moreover have "split_name [2, 76, 80, 0, 0, 0, 0, 0] = Some ([76, 80], [2, 76, 80, 0, 0, 0, 0, 0])"
    by (simp add: split_name_def)
  moreover have "PrnCheckPrinter [76, 80] = 0"
    by (simp add: PrnCheckPrinter_def IPP_TXT_PRINTER_EXT_FORMAT_def cstr_def)
  ultimately obtain r m w' where e: "lpd_accept [] 0 5 (replicate 8 0) [] ?w = Done (r, m) [] w'"
    by (simp add: lpd_accept_def CheckServiceMode_def need_def lpd_cmds held_simps held_world_simps)
  from lpd_held_refuses [OF held_world_simps(1) _ e] e show ?thesis by auto
qed

lemma lwip_recv_ended:
  assumes "mbox w = [RxClosed]" "lastdata w = []" "\<not> rxdead w"
  obtains m where "lwip_recv len fs w = Done (-1, []) fs (w\<lparr>mbox := m, rxdead := True\<rparr>)"
proof (cases "netbuf_ok w")
  case True
  from that [OF lwip_recv_closed [OF assms True]] show ?thesis .
next
  case False
  with assms that [of "mbox w"] show ?thesis by (simp add: lwip_recv_def netconn_recv_def)
qed

lemma job_cmds_closed:
  assumes "mbox w = [RxClosed]" "lastdata w = []" "\<not> rxdead w"
  obtains m where "job_cmds t st jt M mem n fs w = Done 0 fs (w\<lparr>mbox := m, rxdead := True\<rparr>)"
proof -
  obtain m where "lwip_recv 1024 fs w = Done (-1, []) fs (w\<lparr>mbox := m, rxdead := True\<rparr>)"
    by (rule lwip_recv_ended [OF assms])
  then show ?thesis by (intro that [of m]) (subst job_cmds.simps, simp add: BUFFER_SIZE_def)
qed

text \<open>C30: A client that asks for a job and closes the connection before it sends a data file leaves the port
  held: the job's thread ends, and the hold that \<open>CheckServiceMode\<close> has taken for it stays. The thread
  also marks the port unused and ends the newest job log entry, whoever owns them.\<close>

theorem lpd_hold_lost:
  assumes "PrnIsUnixHold w" "mbox w = [RxClosed]" "lastdata w = []" "\<not> rxdead w"
  shows "\<exists>w'. receive_job junk_time junk_status junk_text at_null s Mode mem fs w = Done () fs w' \<and> PrnIsUnixHold w' \<and>
    jlog w' = JL_EndList 0 0 (ms w) (jlog w) \<and> psy w' = psy (set_in_use PrnNoUsed w)"
proof -
  let ?w = "RESPOND_OK w"
  obtain m where "job_cmds junk_time junk_status junk_text Mode mem 0 fs ?w = Done 0 fs (?w\<lparr>mbox := m, rxdead := True\<rparr>)"
    by (rule job_cmds_closed [of ?w]) (use assms in \<open>simp_all add: RESPOND_OK_def lwip_send_def\<close>)
  then have e: "receive_job junk_time junk_status junk_text at_null s Mode mem fs w =
      job_end at_null s 0 fs (?w\<lparr>mbox := m, rxdead := True\<rparr>)" by (simp add: receive_job_def)
  show ?thesis
    unfolding e using assms(1)
    by (simp add: job_end_def Let_def) (simp add: zot_fclose_def lwip_send_def log_end_def set_in_use_def RESPOND_OK_def)
qed

theorem lpd_hold_lost_witness:
  "\<exists>w'. receive_job 0 0 [] [] 5 0 (replicate 8 0) [] (held_world psys_static [RxClosed]) = Done () [] w' \<and> PrnIsUnixHold w'"
  using lpd_hold_lost [of "held_world psys_static [RxClosed]" 0 0 "[]" "[]" 5 0 "replicate 8 0" "[]"]
  by (auto simp: held_world_simps)

section \<open>Control files\<close>

lemma lwip_recv_len:
  assumes "lwip_recv len fs w = Done (n, bs) fs' w'"
  shows "length bs \<le> len \<and> (0 \<le> n \<longrightarrow> n = int (length bs))"
proof -
  have t: "ends_with (\<lambda>_ _ _. True) m" for m :: "'a run" by (cases m) auto
  have "ends_with (\<lambda>(n, bs) fs w. length bs \<le> len \<and> (0 \<le> n \<longrightarrow> n = int (length bs))) (lwip_recv len fs w)"
    by (auto simp: lwip_recv_def take_data_def intro!: ends_with_bind [OF t] split: arrival.split)
  from ends_withD [OF this assms] show ?thesis by simp
qed

lemma run_bind_Fault: "run_bind m k = Fault e \<longleftrightarrow>
  m = Fault e \<or> (\<exists>a fs w. m = Done a fs w \<and> k a fs w = Fault e)"
  by (cases m) auto

lemma fetch_no_fault: "fetch fs w \<noteq> Fault e"
proof (induction fs w rule: fetch.induct)
  case (1 fs w)
  then show ?case by (subst fetch.simps) (auto split: list.split)
qed

lemma lwip_recv_no_fault: "lwip_recv len fs w \<noteq> Fault e"
  by (auto simp: lwip_recv_def netconn_recv_def take_data_def run_bind_Fault fetch_no_fault split: arrival.split)

text \<open>The position in the buffer is the number of bytes counted, and a portion never exceeds what is left.\<close>

lemma ctl_loop_safe:
  assumes "pos = unat tot" "0 \<le> blocksize" "int pos + blocksize \<le> int BUFFER_SIZE" "unat fz \<le> BUFFER_SIZE"
  shows "ctl_loop fz tot blocksize pos st mem fs w \<noteq> Fault e"
  using assms
proof (induction fz tot blocksize pos st mem fs w rule: ctl_loop.induct)
  case (1 fz tot k pos st mem fs w)
  note IH = 1(1) and a = 1(2-)
  show ?case
  proof (cases "lwip_recv (nat k) fs w")
    case (Done r fs1 w1)
    obtain n bs where r: "r = (n, bs)" by fastforce
    note len = lwip_recv_len [OF Done [unfolded r]]
    show ?thesis
    proof (cases "n < 1")
      case pos: False
      then have n: "n = int (length bs)" "1 \<le> length bs" using len by linarith+
      have b: "pos + length bs \<le> BUFFER_SIZE" using a(2,3) len by linarith
      have u: "unat (tot + of_nat (length bs)) = pos + length bs"
        using b a(1) by (simp add: unat_word_ariths unat_of_nat BUFFER_SIZE_def)
      show ?thesis
      proof (cases "tot + of_nat (length bs) = fz")
        case True
        have "tot + 1 + of_nat (length bs - 1) = fz" using True n(2) by (simp add: of_nat_diff)
        with True b n Done r show ?thesis by (subst ctl_loop.simps) (simp add: Let_def nat_diff_distrib)
      next
        case False
        let ?t = "tot + of_nat (length bs)"
        define bsz where "bsz = (if fz - ?t < of_nat BLOCKSIZE then uint (fz - ?t) else k)"
        have "ctl_loop fz ?t bsz (pos + length bs) st (store_at pos bs mem) fs1 w1 \<noteq> Fault e" if lt: "?t < fz"
        proof -
          have d: "uint (fz - ?t) = uint fz - uint ?t" "unat (fz - ?t) = unat fz - unat ?t"
            using uint_sub_lem [of ?t fz] unat_sub [of ?t fz] lt by (simp_all add: word_less_def word_le_def)
          have "fz - ?t < of_nat BLOCKSIZE"
            using d(2) a(4) by (simp add: word_less_nat_alt BLOCKSIZE_def BUFFER_SIZE_def)
          then have k: "bsz = uint (fz - ?t)" by (simp add: bsz_def)
          have v: "uint ?t = int (pos + length bs)" "uint fz \<le> int BUFFER_SIZE"
            unfolding uint_nat u using a(4) by (simp_all only: of_nat_le_iff)
          have bounds: "0 \<le> bsz" "int (pos + length bs) + bsz \<le> int BUFFER_SIZE"
            unfolding k by (rule uint_ge_0) (use d(1) v in simp)
          have m: "tot + of_int n = ?t" "nat n = length bs" "\<not> BUFFER_SIZE < pos + length bs"
            using n(1) b by simp_all
          note IH' = IH [OF Done r [symmetric] pos m(3) refl refl refl refl refl refl,
              unfolded m if_not_P [OF False] add_0_right bsz_def [symmetric]]
          show ?thesis by (rule IH' [OF lt u [symmetric] bounds a(4)])
        qed
        with False b n Done r show ?thesis by (subst ctl_loop.simps, cases "fz - ?t < of_nat BLOCKSIZE") (auto simp: Let_def bsz_def)
      qed
    qed (use Done r in \<open>subst ctl_loop.simps, simp\<close>)
  qed (use lwip_recv_no_fault in \<open>subst ctl_loop.simps, simp\<close>)+
qed

lemma ctl_loop_overflows:
  assumes "BUFFER_SIZE < unat fz" "mbox w = [Netbuf (replicate BUFFER_SIZE 0), Netbuf [0]]" "lastdata w = []" "\<not> rxdead w" "memp_ok w"
  shows "ctl_loop fz 0 (int BUFFER_SIZE) 0 st mem fs w = Fault Overflow"
proof -
  define w1 where "w1 = w\<lparr>mbox := [Netbuf [0]]\<rparr>"
  define bs :: "u8 list" where "bs = replicate BUFFER_SIZE 0"
  have r1: "lwip_recv 1024 fs w = Done (1024, bs) fs w1"
    using lwip_recv_netbuf [OF assms(2-5), of BUFFER_SIZE] by (simp add: w1_def bs_def BUFFER_SIZE_def)
  have r2: "lwip_recv n fs w1 = Done (1, [0]) fs (w1\<lparr>mbox := []\<rparr>)" if "1 \<le> n" for n
    using lwip_recv_netbuf [of w1 "[0]" "[]" n fs] assms(3-5) that by (simp add: w1_def)
  have lt: "(1024 :: u32) < fz" using assms(1) by (simp add: word_less_nat_alt BUFFER_SIZE_def)
  then have "uint (fz - 1024) = uint fz - 1024" "1024 < uint fz"
    by (simp_all add: uint_sub_lem [THEN iffD1] word_less_def)
  then have two: "ctl_loop fz 1024 (if fz - 1024 < of_nat BLOCKSIZE then uint (fz - 1024) else 1024) 1024 st mem' fs w1
      = Fault Overflow" for mem'
    by (subst ctl_loop.simps) (simp add: r2 BUFFER_SIZE_def)
  have "length bs = 1024" by (simp add: bs_def BUFFER_SIZE_def)
  then have "ctl_loop fz 0 1024 0 st mem fs w = Fault Overflow"
    using lt two [of "store_at 0 bs mem"]
    by (subst ctl_loop.simps, cases "fz - 1024 < of_nat BLOCKSIZE") (auto simp: r1 BUFFER_SIZE_def Let_def)
  then show ?thesis by (simp add: BUFFER_SIZE_def)
qed

text \<open>C31: A control file never leads to a memory fault, whatever the peer sends and in whatever segments,
  exactly when its announced size is less than that of the command buffer, or is the largest 32-bit number,
  whose successor is 0. For every other size some peer makes \<open>receive_control_file\<close> write past the buffer.\<close>

theorem lpd_control_file_bounds:
  "(\<forall>fs w e. receive_control_file junk_status filesize mem fs w \<noteq> Fault e) \<longleftrightarrow>
   unat filesize < BUFFER_SIZE \<or> filesize = -1"
proof
  assume ok: "\<forall>fs w e. receive_control_file junk_status filesize mem fs w \<noteq> Fault e"
  define w where "w = conn_world psys_static [Netbuf (replicate BUFFER_SIZE 0), Netbuf [0]] []"
  have "\<not> BUFFER_SIZE < unat (filesize + 1)"
  proof
    assume "BUFFER_SIZE < unat (filesize + 1)"
    from ctl_loop_overflows [OF this, of "RESPOND_OK w"]
    have "receive_control_file junk_status filesize mem [] w = Fault Overflow"
      by (simp add: receive_control_file_def w_def RESPOND_OK_def lwip_send_def)
    with ok show False by blast
  qed
  then show "unat filesize < BUFFER_SIZE \<or> filesize = -1"
    using unatSuc [of filesize] by (cases "1 + filesize = 0") (auto simp: add.commute eq_neg_iff_add_eq_0)
next
  assume "unat filesize < BUFFER_SIZE \<or> filesize = -1"
  then have "unat (filesize + 1) \<le> BUFFER_SIZE"
    by (cases "filesize = -1") (auto simp: unat_word_ariths BUFFER_SIZE_def)
  from ctl_loop_safe [OF _ _ _ this, of 0 0 "int BUFFER_SIZE"]
  show "\<forall>fs w e. receive_control_file junk_status filesize mem fs w \<noteq> Fault e"
    by (simp add: receive_control_file_def)
qed

end
