(* ===== verification/Ipp_Read.thy ===== *)
theory Ipp_Read
  imports Net_Conn Lpd_Parse
begin

text \<open>
  How the printing server reads a request: the buffered input of a connection, \<open>zot_recv\<close> and
  \<open>zot_fgets\<close> of \<open>src/apps/http_zot/src/httpd.c\<close>, and the body of an HTTP request over it, plain or in
  chunks, \<open>httpRead\<close> and \<open>ippRead\<close> of \<open>src/apps/ps/ippd/src/ippd.c\<close>.

  \<open>junk\<close> is what the stack holds where \<open>httpRead\<close> has its line buffer \<open>len[64]\<close>. An access outside
  the 1460 bytes of the input buffer is a fault, as is a copy of a negative number of bytes.
\<close>

section \<open>The input file\<close>

definition IBUF_SIZE :: nat where "IBUF_SIZE = 1460"

text \<open>The refill both functions start with; \<open>bufsize\<close> is returned.\<close>

definition refill :: "ireq \<Rightarrow> sched \<Rightarrow> world \<Rightarrow> ireq run" where
  "refill o1 fs w =
     run_bind (lwip_recv IBUF_SIZE fs w) (\<lambda>r fs w. case r of (bufsize, bs) \<Rightarrow>
       Done (o1\<lparr>ibuf := bs @ replicate (IBUF_SIZE - length bs) 0, ipos := 0, icnt := bufsize\<rparr>) fs w)"

definition fill_if_empty :: "ireq \<Rightarrow> sched \<Rightarrow> world \<Rightarrow> (bool \<times> ireq) run" where
  "fill_if_empty o1 fs w =
     (if icnt o1 = 0 then run_bind (refill o1 fs w) (\<lambda>o2 fs w. Done (0 < icnt o2, o2) fs w)
      else Done (True, o1) fs w)"

definition zot_recv :: "int \<Rightarrow> ireq \<Rightarrow> sched \<Rightarrow> world \<Rightarrow> (int \<times> u8 list \<times> ireq) run" where
  "zot_recv len o0 fs w =
     run_bind (fill_if_empty o0 fs w) (\<lambda>p fs w. case p of (ok, o1) \<Rightarrow>
       if \<not> ok then Done (-1, [], o1) fs w
       else let n = min len (icnt o1)
            in if n < 0 then Fault Overflow
               else if ipos o1 + nat n > length (ibuf o1) then Fault Overread
               else Done (n, take (nat n) (drop (ipos o1) (ibuf o1)),
                      o1\<lparr>ipos := ipos o1 + nat n, icnt := icnt o1 - n\<rparr>) fs w)"

text \<open>
  A line: \<open>m\<close> is the caller's buffer, \<open>k\<close> the offset of \<open>cp\<close> in it, the first argument what is left of
  \<open>len\<close>. A carriage return is skipped together with the byte after it, of which only a line feed is
  stored.
\<close>

fun fgets_loop :: "nat \<Rightarrow> nat \<Rightarrow> u8 list \<Rightarrow> ireq \<Rightarrow> (nat \<times> u8 list \<times> ireq) option" where
  "fgets_loop 0 k m o1 = Some (k, m, o1)"
| "fgets_loop (Suc n) k m o1 =
     (if length (ibuf o1) \<le> ipos o1 then None
      else let c = ibuf o1 ! ipos o1
           in if c = 13 \<and> length (ibuf o1) \<le> Suc (ipos o1) then None
              else let m1 = (if c = 13 then (if ibuf o1 ! Suc (ipos o1) = 10 then m[k := 10] else m) else m[k := c]);
                       o2 = (if c = 13 then o1\<lparr>ipos := ipos o1 + 2, icnt := icnt o1 - 2\<rparr>
                             else o1\<lparr>ipos := ipos o1 + 1, icnt := icnt o1 - 1\<rparr>)
                   in if m1 ! k = 10 \<or> icnt o2 = 0 then Some (Suc k, m1, o2) else fgets_loop n (Suc k) m1 o2)"

text \<open>\<open>None\<close> is the code's null pointer; the second component is the line buffer.\<close>

definition zot_fgets :: "u8 list \<Rightarrow> nat \<Rightarrow> ireq \<Rightarrow> sched \<Rightarrow> world \<Rightarrow> (u8 list option \<times> ireq) run" where
  "zot_fgets m len o0 fs w =
     run_bind (fill_if_empty o0 fs w) (\<lambda>p fs w. case p of (ok, o1) \<Rightarrow>
       if \<not> ok then Done (None, o1) fs w
       else case fgets_loop (len - 1) 0 m o1 of
              None \<Rightarrow> Fault Overread
            | Some (k, m', o2) \<Rightarrow> Done (Some (m'[k := 0]), o2) fs w)"

section \<open>\<open>strtol\<close> with base 16\<close>

definition xdigit_val :: "u8 \<Rightarrow> nat option" where
  "xdigit_val c = (if 48 \<le> c \<and> c \<le> 57 then Some (unat c - 48)
     else if 97 \<le> c \<and> c \<le> 102 then Some (unat c - 87)
     else if 65 \<le> c \<and> c \<le> 70 then Some (unat c - 55) else None)"

fun hex_value :: "nat \<Rightarrow> u8 list \<Rightarrow> nat" where
  "hex_value v [] = v"
| "hex_value v (c # cs) = (case xdigit_val c of None \<Rightarrow> v | Some d \<Rightarrow> hex_value (16 * v + d) cs)"

definition skip_0x :: "u8 list \<Rightarrow> u8 list" where
  "skip_0x s = (case s of c # x # d # r \<Rightarrow> if c = 48 \<and> x \<in> {120, 88} \<and> xdigit_val d \<noteq> None then d # r else s | _ \<Rightarrow> s)"

definition strtol16 :: "u8 list \<Rightarrow> int" where
  "strtol16 s =
     (let s1 = dropWhile isspace s;
          neg = (s1 \<noteq> [] \<and> hd s1 = 45);
          v = int (hex_value 0 (skip_0x (if s1 \<noteq> [] \<and> hd s1 \<in> {43, 45} then tl s1 else s1)))
      in if neg then max (- v) (- (2 ^ 31)) else min v (2 ^ 31 - 1))"

section \<open>The body of a request\<close>

definition IPP_PRINT_JOB_TIME_OUT :: u8 where "IPP_PRINT_JOB_TIME_OUT = 0x7F"

definition str_of :: "u8 list \<Rightarrow> u8 list" where
  "str_of = takeWhile (\<lambda>c. c \<noteq> 0)"

definition LINE :: nat where "LINE = 64"

definition httpRead :: "u8 list \<Rightarrow> int \<Rightarrow> ireq \<Rightarrow> sched \<Rightarrow> world \<Rightarrow> (int \<times> u8 list \<times> ireq) run" where
  "httpRead junk len o0 fs w =
     run_bind (if chunked o0 \<and> qsize o0 \<le> 0
               then run_bind (zot_fgets junk LINE o0 fs w) (\<lambda>p fs w. case p of (l, o1) \<Rightarrow>
                      case l of None \<Rightarrow> Done (False, o1) fs w
                      | Some m \<Rightarrow> Done (True, o1\<lparr>qsize := strtol16 (str_of m)\<rparr>) fs w)
               else Done (True, o0) fs w) (\<lambda>p fs w. case p of (go, o1) \<Rightarrow>
     if \<not> go then Done (0, [], o1) fs w
     else if qsize o1 \<le> 0
     then (if chunked o1
           then run_bind (zot_fgets junk LINE (o1\<lparr>chunked := False\<rparr>) fs w) (\<lambda>p fs w. Done (0, [], snd p) fs w)
           else Done (0, [], o1) fs w)
     else run_bind (zot_recv (if len > qsize o1 then qsize o1 else len) o1 fs w) (\<lambda>p fs w.
       case p of (n, bs, o2) \<Rightarrow>
       let bytes = (if n \<le> 0 then 0 else n);
           o3 = (if n \<le> 0 then o2\<lparr>chunked := False, qsize := 0, ippreq := IPP_PRINT_JOB_TIME_OUT\<rparr> else o2);
           o4 = o3\<lparr>qsize := qsize o3 - bytes\<rparr>
       in if chunked o4 \<and> qsize o4 \<le> 0
          then run_bind (zot_fgets junk LINE o4 fs w) (\<lambda>q fs w. Done (bytes, bs, snd q) fs w)
          else Done (bytes, bs, o4) fs w))"

section \<open>Progress\<close>

text \<open>What is left to read: the schedule gets shorter, or the data in the mailbox and the input buffer less.\<close>

definition ileft :: "ireq \<Rightarrow> world \<Rightarrow> nat" where
  "ileft o1 w = rx_left w + nat (icnt o1)"

definition ipot_le :: "ireq \<Rightarrow> sched \<Rightarrow> world \<Rightarrow> ireq \<Rightarrow> sched \<Rightarrow> world \<Rightarrow> bool" where
  "ipot_le o' fs' w' o1 fs w \<longleftrightarrow> length fs' < length fs \<or> length fs' = length fs \<and> ileft o' w' \<le> ileft o1 w"

definition ipot_less :: "ireq \<Rightarrow> sched \<Rightarrow> world \<Rightarrow> ireq \<Rightarrow> sched \<Rightarrow> world \<Rightarrow> bool" where
  "ipot_less o' fs' w' o1 fs w \<longleftrightarrow> length fs' < length fs \<or> length fs' = length fs \<and> ileft o' w' < ileft o1 w"

lemma ipot_refl [simp]: "ipot_le o1 fs w o1 fs w"
  by (simp add: ipot_le_def)

lemma ipot_trans:
  "ipot_le c fs3 w3 b fs2 w2 \<Longrightarrow> ipot_le b fs2 w2 a fs1 w1 \<Longrightarrow> ipot_le c fs3 w3 a fs1 w1"
  "ipot_less c fs3 w3 b fs2 w2 \<Longrightarrow> ipot_le b fs2 w2 a fs1 w1 \<Longrightarrow> ipot_less c fs3 w3 a fs1 w1"
  "ipot_le c fs3 w3 b fs2 w2 \<Longrightarrow> ipot_less b fs2 w2 a fs1 w1 \<Longrightarrow> ipot_less c fs3 w3 a fs1 w1"
  by (auto simp: ipot_le_def ipot_less_def)

lemma ipot_less_le: "ipot_less o' fs' w' o1 fs w \<Longrightarrow> ipot_le o' fs' w' o1 fs w"
  by (auto simp: ipot_le_def ipot_less_def)

lemma ipot_icnt: "icnt o' \<le> icnt o1 \<Longrightarrow> ipot_le o' fs w o1 fs w"
  by (simp add: ipot_le_def ileft_def)

lemma ipot_upd [simp]:
  "ipot_le (a\<lparr>qsize := q\<rparr>) fs' w' b fs w = ipot_le a fs' w' b fs w"
  "ipot_le (a\<lparr>chunked := c\<rparr>) fs' w' b fs w = ipot_le a fs' w' b fs w"
  "ipot_le a fs' w' (b\<lparr>chunked := c\<rparr>) fs w = ipot_le a fs' w' b fs w"
  by (simp_all add: ipot_le_def ileft_def)

lemma lwip_recv_left:
  "lwip_recv len fs w = Done (n, bs) fs' w' \<Longrightarrow>
   length fs' < length fs \<or> length fs' = length fs \<and> rx_left w' + nat n \<le> rx_left w"
  by (auto dest!: lwip_recv_rx)

lemma fill_if_empty_pot:
  assumes "fill_if_empty o0 fs w = Done (ok, o1) fs' w'"
  shows "ipot_le o1 fs' w' o0 fs w" "chunked o1 = chunked o0" "qsize o1 = qsize o0" "\<not> ok \<longrightarrow> icnt o1 \<le> 0"
proof -
  show "ipot_le o1 fs' w' o0 fs w"
  proof (cases "icnt o0 = 0")
    case True
    with assms obtain n bs where "lwip_recv IBUF_SIZE fs w = Done (n, bs) fs' w'"
      "o1 = o0\<lparr>ibuf := bs @ replicate (IBUF_SIZE - length bs) 0, ipos := 0, icnt := n\<rparr>"
      by (auto simp: fill_if_empty_def refill_def run_bind_Done split: prod.splits)
    with lwip_recv_left [OF this(1)] True show ?thesis by (auto simp: ipot_le_def ileft_def)
  qed (use assms in \<open>simp add: fill_if_empty_def\<close>)
  show "chunked o1 = chunked o0" "qsize o1 = qsize o0" "\<not> ok \<longrightarrow> icnt o1 \<le> 0"
    using assms by (auto simp: fill_if_empty_def refill_def run_bind_Done split: if_splits prod.splits)
qed

lemma fgets_loop_icnt: "fgets_loop n k m o1 = Some (k', m', o2) \<Longrightarrow> icnt o2 \<le> icnt o1"
proof (induction n k m o1 rule: fgets_loop.induct)
  case (2 n k m o1)
  define c where "c = ibuf o1 ! ipos o1"
  define m1 where "m1 = (if c = 13 then (if ibuf o1 ! Suc (ipos o1) = 10 then m[k := 10] else m) else m[k := c])"
  define o3 where "o3 = (if c = 13 then o1\<lparr>ipos := ipos o1 + 2, icnt := icnt o1 - 2\<rparr>
      else o1\<lparr>ipos := ipos o1 + 1, icnt := icnt o1 - 1\<rparr>)"
  have "icnt o3 \<le> icnt o1" by (simp add: o3_def)
  moreover have "icnt o2 \<le> icnt o3"
    using 2(1) [OF _ c_def _ m1_def o3_def] 2(2)
    by (auto simp: Let_def simp flip: c_def m1_def o3_def split: if_splits)
  ultimately show ?case by simp
qed simp

lemma zot_fgets_pot: "zot_fgets m len o0 fs w = Done (l, o1) fs' w' \<Longrightarrow> ipot_le o1 fs' w' o0 fs w"
  by (auto simp: zot_fgets_def run_bind_Done split: prod.splits if_splits option.splits
      dest!: fill_if_empty_pot(1) fgets_loop_icnt intro: ipot_trans(1) ipot_icnt)

lemma zot_recv_pot:
  assumes "zot_recv len o0 fs w = Done (n, bs, o1) fs' w'"
  shows "ipot_le o1 fs' w' o0 fs w" "0 < n \<Longrightarrow> ipot_less o1 fs' w' o0 fs w \<and> n \<le> len"
    "0 \<le> n \<Longrightarrow> length bs = nat n"
proof -
  obtain ok o2 fs1 w1 where f: "fill_if_empty o0 fs w = Done (ok, o2) fs1 w1"
    and r: "if \<not> ok then n = -1 \<and> o1 = o2 \<and> fs' = fs1 \<and> w' = w1
      else n = min len (icnt o2) \<and> 0 \<le> n \<and> ipos o2 + nat n \<le> length (ibuf o2) \<and> fs' = fs1 \<and> w' = w1 \<and>
        bs = take (nat n) (drop (ipos o2) (ibuf o2)) \<and> o1 = o2\<lparr>ipos := ipos o2 + nat n, icnt := icnt o2 - n\<rparr>"
    using assms by (fastforce simp: zot_recv_def run_bind_Done Let_def split: prod.splits if_splits)
  note le = fill_if_empty_pot(1) [OF f]
  have less: "0 < n \<Longrightarrow> ipot_less o1 fs1 w1 o2 fs1 w1"
    using r by (auto simp: ipot_less_def ileft_def split: if_splits)
  show "ipot_le o1 fs' w' o0 fs w"
    using ipot_trans(1) [OF _ le] r ipot_icnt [of o1 o2 fs1 w1] le by (auto split: if_splits)
  show "ipot_less o1 fs' w' o0 fs w \<and> n \<le> len" if "0 < n"
    using ipot_trans(2) [OF less [OF that] le] r that by (auto split: if_splits)
  show "length bs = nat n" if "0 \<le> n" using r that by (auto split: if_splits)
qed

lemma ends_withI: "(\<And>a fs' w'. m = Done a fs' w' \<Longrightarrow> Q a fs' w') \<Longrightarrow> ends_with Q m"
  by (cases m) auto

lemma zot_fgets_ends: "ends_with (\<lambda>p fs' w'. ipot_le (snd p) fs' w' o0 fs w) (zot_fgets m len o0 fs w)"
  by (rule ends_withI) (use zot_fgets_pot in fastforce)

definition read_post :: "int \<Rightarrow> ireq \<Rightarrow> sched \<Rightarrow> world \<Rightarrow> int \<times> u8 list \<times> ireq \<Rightarrow> sched \<Rightarrow> world \<Rightarrow> bool" where
  "read_post len o0 fs w r fs' w' \<longleftrightarrow> (case r of (n, bs, o1) \<Rightarrow>
     ipot_le o1 fs' w' o0 fs w \<and> 0 \<le> n \<and> length bs = nat n \<and> (0 < n \<longrightarrow> ipot_less o1 fs' w' o0 fs w \<and> n \<le> len))"

lemma httpRead_ends: "ends_with (read_post len o0 fs w) (httpRead junk len o0 fs w)"
  unfolding httpRead_def
proof (rule ends_with_bind [of "\<lambda>p fs1 w1. ipot_le (snd p) fs1 w1 o0 fs w"], goal_cases)
  case 1
  show ?case
    by (auto intro!: ends_with_bind [OF zot_fgets_ends] split: option.split)
next
  case (2 p fs1 w1)
  obtain go o1 where p: "p = (go, o1)" by fastforce
  from 2 have le: "ipot_le o1 fs1 w1 o0 fs w" by (simp add: p)
  show ?case
  proof (cases "\<not> go \<or> qsize o1 \<le> 0")
    case True
    have "ends_with (read_post len o0 fs w)
      (run_bind (zot_fgets junk LINE (o1\<lparr>chunked := False\<rparr>) fs1 w1) (\<lambda>p fs w. Done (0, [], snd p) fs w))"
    proof (rule ends_with_bind [OF zot_fgets_ends], goal_cases)
      case (1 q fs2 w2)
      have "ipot_le (o1\<lparr>chunked := False\<rparr>) fs1 w1 o0 fs w" by (rule ipot_trans(1) [OF ipot_icnt le]) simp
      from ipot_trans(1) [OF 1(2) this] show ?case by (simp add: read_post_def)
    qed
    with True le show ?thesis by (auto simp: p read_post_def)
  next
    case False
    let ?n = "if len > qsize o1 then qsize o1 else len"
    have "ends_with (\<lambda>r fs2 w2. case r of (m, xs, o2) \<Rightarrow> ipot_le o2 fs2 w2 o1 fs1 w1 \<and>
        (0 < m \<longrightarrow> ipot_less o2 fs2 w2 o1 fs1 w1 \<and> m \<le> len \<and> length xs = nat m) \<and> (m \<le> 0 \<longrightarrow> xs = []))
      (zot_recv ?n o1 fs1 w1)"
    proof (rule ends_withI, clarify)
      fix m xs o2 fs2 w2 assume z: "zot_recv ?n o1 fs1 w1 = Done (m, xs, o2) fs2 w2"
      note pz = zot_recv_pot [OF z]
      have "m < 0 \<Longrightarrow> xs = []"
        using z by (auto simp: zot_recv_def run_bind_Done Let_def split: prod.splits if_splits)
      then show "ipot_le o2 fs2 w2 o1 fs1 w1 \<and> (0 < m \<longrightarrow> ipot_less o2 fs2 w2 o1 fs1 w1 \<and> m \<le> len \<and> length xs = nat m) \<and>
          (m \<le> 0 \<longrightarrow> xs = [])"
        using pz by (cases "m = 0") (auto split: if_splits)
    qed
    then have "ends_with (read_post len o0 fs w) (run_bind (zot_recv ?n o1 fs1 w1) (\<lambda>p fs w.
       case p of (n, bs, o2) \<Rightarrow>
       let bytes = (if n \<le> 0 then 0 else n);
           o3 = (if n \<le> 0 then o2\<lparr>chunked := False, qsize := 0, ippreq := IPP_PRINT_JOB_TIME_OUT\<rparr> else o2);
           o4 = o3\<lparr>qsize := qsize o3 - bytes\<rparr>
       in if chunked o4 \<and> qsize o4 \<le> 0
          then run_bind (zot_fgets junk LINE o4 fs w) (\<lambda>q fs w. Done (bytes, bs, snd q) fs w)
          else Done (bytes, bs, o4) fs w))"
    proof (rule ends_with_bind, goal_cases)
      case (1 r fs2 w2)
      obtain m xs o2 where r: "r = (m, xs, o2)" by (cases r) auto
      define o3 where "o3 = (if m \<le> 0 then o2\<lparr>chunked := False, qsize := 0, ippreq := IPP_PRINT_JOB_TIME_OUT\<rparr> else o2)"
      define o4 where "o4 = o3\<lparr>qsize := qsize o3 - (if m \<le> 0 then 0 else m)\<rparr>"
      have le4: "ipot_le o4 fs2 w2 o2 fs2 w2" by (rule ipot_icnt) (simp add: o4_def o3_def)
      have post: "read_post len o0 fs w (if m \<le> 0 then 0 else m, xs, o5) fs3 w3" if l: "ipot_le o5 fs3 w3 o4 fs2 w2" for o5 fs3 w3
      proof -
        have l5: "ipot_le o5 fs3 w3 o2 fs2 w2" by (rule ipot_trans(1) [OF l le4])
        have o2: "ipot_le o2 fs2 w2 o1 fs1 w1" using 1(2) by (simp add: r)
        note l6 = ipot_trans(1) [OF ipot_trans(1) [OF l5 o2] le]
        show ?thesis
        proof (cases "m \<le> 0")
          case False
          with 1(2) have "ipot_less o2 fs2 w2 o1 fs1 w1" "m \<le> len" "length xs = nat m" by (simp_all add: r)
          with ipot_trans(2) [OF ipot_trans(3) [OF l5 this(1)] le] l6 False show ?thesis by (simp add: read_post_def)
        qed (use 1(2) l6 in \<open>simp add: r read_post_def\<close>)
      qed
      have "ends_with (read_post len o0 fs w)
        (run_bind (zot_fgets junk LINE o4 fs2 w2) (\<lambda>q fs w. Done (if m \<le> 0 then 0 else m, xs, snd q) fs w))"
        by (rule ends_with_bind [OF zot_fgets_ends], unfold ends_with.simps, rule post)
      then show ?case
        unfolding r prod.case Let_def o3_def [symmetric] o4_def [symmetric]
        using post [OF ipot_refl] by (simp split: if_split)
    qed
    with False show ?thesis by (simp add: p)
  qed
qed

text \<open>\<open>ippRead\<close> reads until the length asked for, or until \<open>httpRead\<close> has no more.\<close>

function ippRead :: "u8 list \<Rightarrow> int \<Rightarrow> ireq \<Rightarrow> sched \<Rightarrow> world \<Rightarrow> (u8 list \<times> ireq) run" where
  "ippRead junk len o0 fs w =
     (if len = 0 then Done ([], o0) fs w
      else run_bind (httpRead junk len o0 fs w) (\<lambda>r fs w. case r of (n, bs, o1) \<Rightarrow>
        if n = 0 then Done ([], o1) fs w
        else run_bind (ippRead junk (len - n) o1 fs w) (\<lambda>p fs w. Done (bs @ fst p, snd p) fs w)))"
  by pat_completeness auto
termination
  by (relation "measure (\<lambda>(j, len, o0, fs, w). nat len)")
    (auto dest!: ends_withD [OF httpRead_ends] simp: read_post_def)

declare ippRead.simps [simp del]

lemma ippRead_ends:
  "ends_with (\<lambda>(bs, o1) fs' w'. ipot_le o1 fs' w' o0 fs w \<and> (bs \<noteq> [] \<longrightarrow> ipot_less o1 fs' w' o0 fs w) \<and>
     int (length bs) \<le> max 0 len) (ippRead junk len o0 fs w)"
proof (induction junk len o0 fs w rule: ippRead.induct)
  case (1 junk len o0 fs w)
  note IH = 1
  show ?case
  proof (cases "len = 0")
    case False
    show ?thesis
    proof (subst ippRead.simps, unfold if_not_P [OF False], rule ends_with_bind [OF httpRead_ends], goal_cases)
      case rd: (1 r fs1 w1)
      obtain n bs o1 where r: "r = (n, bs, o1)" by (cases r) auto
      from rd(2) have le: "ipot_le o1 fs1 w1 o0 fs w" "0 \<le> n" "length bs = nat n"
        "0 < n \<longrightarrow> ipot_less o1 fs1 w1 o0 fs w \<and> n \<le> len" by (simp_all add: r read_post_def)
      show ?case
      proof (cases "n = 0")
        case n: False
        with le have less: "ipot_less o1 fs1 w1 o0 fs w" "n \<le> len" by auto
        have "ends_with (\<lambda>(bs, o1) fs' w'. ipot_le o1 fs' w' o0 fs w \<and> (bs \<noteq> [] \<longrightarrow> ipot_less o1 fs' w' o0 fs w) \<and>
           int (length bs) \<le> max 0 len)
          (run_bind (ippRead junk (len - n) o1 fs1 w1) (\<lambda>p fs w. Done (bs @ fst p, snd p) fs w))"
        proof (rule ends_with_bind [OF IH [OF False rd(1) r [symmetric] refl n]], goal_cases)
          case (1 q fs2 w2)
          then show ?case
            using le(2,3) less ipot_trans(3) [OF _ less(1)] ipot_less_le by (auto split: prod.splits)
        qed
        with n show ?thesis by (simp add: r)
      qed (use le in \<open>simp add: r\<close>)
    qed
  qed (subst ippRead.simps, simp)
qed

end
