(* ===== verification/Ipp_Attr.thy ===== *)
theory Ipp_Attr
  imports Ipp_Read
begin

text \<open>
  The attributes of requests and answers, \<open>src/apps/ps/ippd/src/ippd.c\<close>: reading one
  (\<open>ippGetAttribute\<close>), releasing its memory (\<open>ippFreeAttribute\<close>) and appending one to a group of the
  answer (\<open>ippAddAttribute\<close>, \<open>ippAppend\<close>, and \<open>morespace\<close> of \<open>src/apps/ps/atalk/src/file.c\<close>).

  The union \<open>ipp_value_t\<close> is a datatype: the tag says which member was written, and every reader
  looks at the tag first. Lengths are signed 16-bit numbers. A string is the memory \<open>calloc\<close> gave,
  without its last NUL.
\<close>

definition IPP_TAG_ZERO :: u8 where "IPP_TAG_ZERO = 0x00"
definition IPP_TAG_OPERATION :: u8 where "IPP_TAG_OPERATION = 0x01"
definition IPP_TAG_JOB :: u8 where "IPP_TAG_JOB = 0x02"
definition IPP_TAG_END :: u8 where "IPP_TAG_END = 0x03"
definition IPP_TAG_PRINTER :: u8 where "IPP_TAG_PRINTER = 0x04"
definition IPP_TAG_UNSUPPORTED_GROUP :: u8 where "IPP_TAG_UNSUPPORTED_GROUP = 0x05"
definition IPP_TAG_UNSUPPORTED_VALUE :: u8 where "IPP_TAG_UNSUPPORTED_VALUE = 0x10"
definition IPP_TAG_INTEGER :: u8 where "IPP_TAG_INTEGER = 0x21"
definition IPP_TAG_BOOLEAN :: u8 where "IPP_TAG_BOOLEAN = 0x22"
definition IPP_TAG_ENUM :: u8 where "IPP_TAG_ENUM = 0x23"
definition IPP_TAG_STRING :: u8 where "IPP_TAG_STRING = 0x30"
definition IPP_TAG_DATE :: u8 where "IPP_TAG_DATE = 0x31"
definition IPP_TAG_RESOLUTION :: u8 where "IPP_TAG_RESOLUTION = 0x32"
definition IPP_TAG_RANGE :: u8 where "IPP_TAG_RANGE = 0x33"
definition IPP_TAG_TEXTLANG :: u8 where "IPP_TAG_TEXTLANG = 0x35"
definition IPP_TAG_NAMELANG :: u8 where "IPP_TAG_NAMELANG = 0x36"
definition IPP_TAG_TEXT :: u8 where "IPP_TAG_TEXT = 0x41"
definition IPP_TAG_NAME :: u8 where "IPP_TAG_NAME = 0x42"
definition IPP_TAG_KEYWORD :: u8 where "IPP_TAG_KEYWORD = 0x44"
definition IPP_TAG_URI :: u8 where "IPP_TAG_URI = 0x45"
definition IPP_TAG_URISCHEME :: u8 where "IPP_TAG_URISCHEME = 0x46"
definition IPP_TAG_CHARSET :: u8 where "IPP_TAG_CHARSET = 0x47"
definition IPP_TAG_LANGUAGE :: u8 where "IPP_TAG_LANGUAGE = 0x48"
definition IPP_TAG_MIMETYPE :: u8 where "IPP_TAG_MIMETYPE = 0x49"

lemmas ipp_tags = IPP_TAG_ZERO_def IPP_TAG_OPERATION_def IPP_TAG_JOB_def IPP_TAG_END_def IPP_TAG_PRINTER_def
  IPP_TAG_UNSUPPORTED_GROUP_def IPP_TAG_UNSUPPORTED_VALUE_def IPP_TAG_INTEGER_def IPP_TAG_BOOLEAN_def
  IPP_TAG_ENUM_def IPP_TAG_STRING_def IPP_TAG_DATE_def IPP_TAG_RESOLUTION_def IPP_TAG_RANGE_def
  IPP_TAG_TEXTLANG_def IPP_TAG_NAMELANG_def IPP_TAG_TEXT_def IPP_TAG_NAME_def IPP_TAG_KEYWORD_def
  IPP_TAG_URI_def IPP_TAG_URISCHEME_def IPP_TAG_CHARSET_def IPP_TAG_LANGUAGE_def IPP_TAG_MIMETYPE_def

text \<open>The tags of the \<open>switch\<close> statements' long case lists.\<close>

definition is_text :: "u8 \<Rightarrow> bool" where
  "is_text tag \<longleftrightarrow> tag \<in> {IPP_TAG_TEXT, IPP_TAG_NAME, IPP_TAG_KEYWORD, IPP_TAG_STRING, IPP_TAG_URI,
     IPP_TAG_URISCHEME, IPP_TAG_CHARSET, IPP_TAG_LANGUAGE, IPP_TAG_MIMETYPE}"

definition IPP_MAX_ATTRIB_NAME :: int where "IPP_MAX_ATTRIB_NAME = 80"

datatype ipp_value =
    Int_v u32
  | Bool_v u8
  | Date_v "u8 list"
  | Res_v u32 u32 u8
  | Range_v u32 u32
  | Str_v "u8 list option" "u8 list"
  | Unk_v int "u8 list"
  | Unset_v

record ipp_attrib =
  attrib_name :: "u8 list"
  val :: ipp_value

section \<open>Reading\<close>

text \<open>\<open>ntohs\<close> into a signed and \<open>ntohl\<close> into a 32-bit number.\<close>

definition be16 :: "u8 list \<Rightarrow> int" where
  "be16 bs = (let v = 256 * uint (bs ! 0) + uint (bs ! 1) in if v < 32768 then v else v - 65536)"

definition be32 :: "u8 list \<Rightarrow> u32" where
  "be32 bs = word_of_int (((uint (bs ! 0) * 256 + uint (bs ! 1)) * 256 + uint (bs ! 2)) * 256 + uint (bs ! 3))"

definition alloc_ok :: "int \<Rightarrow> world \<Rightarrow> bool" where
  "alloc_ok n w \<longleftrightarrow> malloc_ok w \<and> 0 \<le> n"

type_synonym got = "u8 \<times> ipp_attrib \<times> ireq"

text \<open>Reads \<open>n\<close> bytes and goes on with \<open>k\<close>, or returns \<open>IPP_TAG_ZERO\<close> when fewer came.\<close>

definition get_n ::
  "u8 list \<Rightarrow> ipp_attrib \<Rightarrow> int \<Rightarrow> (u8 list \<Rightarrow> ireq \<Rightarrow> sched \<Rightarrow> world \<Rightarrow> got run) \<Rightarrow> ireq \<Rightarrow> sched \<Rightarrow> world \<Rightarrow> got run" where
  "get_n junk t n k o1 fs w =
     run_bind (ippRead junk n o1 fs w) (\<lambda>p fs w. case p of (bs, o2) \<Rightarrow>
       if int (length bs) < n then Done (IPP_TAG_ZERO, t, o2) fs w else k bs o2 fs w)"

text \<open>
  A string of \<open>n\<close> bytes. For \<open>n = -1\<close> there is no byte for the NUL, so that looking at the string is
  an access outside it.
\<close>

definition get_text ::
  "u8 list \<Rightarrow> ipp_attrib \<Rightarrow> int \<Rightarrow> (u8 list \<Rightarrow> ireq \<Rightarrow> sched \<Rightarrow> world \<Rightarrow> got run) \<Rightarrow> ireq \<Rightarrow> sched \<Rightarrow> world \<Rightarrow> got run" where
  "get_text junk t n k o1 fs w =
     (if \<not> alloc_ok (n + 1) w then Done (IPP_TAG_ZERO, t, o1) fs w
      else get_n junk t n (if n < 0 then (\<lambda>_ _ _ _. Fault Overread) else k) o1 fs w)"

definition ippGetValue :: "u8 list \<Rightarrow> u8 \<Rightarrow> int \<Rightarrow> ipp_attrib \<Rightarrow> ireq \<Rightarrow> sched \<Rightarrow> world \<Rightarrow> got run" where
  "ippGetValue junk tag n16 t o1 fs w =
     (let get = get_n junk t; text = get_text junk t;
          ret = (\<lambda>v o2 fs w. Done (tag, t\<lparr>val := v\<rparr>, o2) fs w);
          fail = (\<lambda>o2 fs w. Done (IPP_TAG_ZERO, t, o2) fs w)
      in if tag = IPP_TAG_INTEGER \<or> tag = IPP_TAG_ENUM
         then (if n16 \<noteq> 4 then fail o1 fs w else get 4 (\<lambda>b. ret (Int_v (be32 b))) o1 fs w)
         else if tag = IPP_TAG_BOOLEAN
         then (if n16 \<noteq> 1 then fail o1 fs w else get 1 (\<lambda>b. ret (Bool_v (hd b))) o1 fs w)
         else if is_text tag then text n16 (\<lambda>b. ret (Str_v None b)) o1 fs w
         else if tag = IPP_TAG_DATE
         then (if n16 \<noteq> 11 then fail o1 fs w else get 11 (\<lambda>b. ret (Date_v b)) o1 fs w)
         else if tag = IPP_TAG_RESOLUTION
         then (if n16 \<noteq> 9 then fail o1 fs w
               else get 4 (\<lambda>x. get 4 (\<lambda>y. get 1 (\<lambda>u. ret (Res_v (be32 x) (be32 y) (hd u))))) o1 fs w)
         else if tag = IPP_TAG_RANGE
         then (if n16 \<noteq> 8 then fail o1 fs w
               else get 4 (\<lambda>l. get 4 (\<lambda>u. ret (Range_v (be32 l) (be32 u)))) o1 fs w)
         else if tag = IPP_TAG_TEXTLANG \<or> tag = IPP_TAG_NAMELANG
         then get 2 (\<lambda>b. let n = be16 b; n32 = n16 - n in
                text n (\<lambda>charset. get 2 (\<lambda>b. let n = be16 b in
                  if n32 \<noteq> n then fail
                  else text n (\<lambda>s. ret (Str_v (Some charset) s))))) o1 fs w
         else if n16 > 0
         then (if \<not> malloc_ok w then fail o1 fs w else get n16 (\<lambda>b. ret (Unk_v n16 b)) o1 fs w)
         else ret (Unk_v n16 []) o1 fs w)"

text \<open>
  The code reads the tag into a signed byte and converts that to the enumeration, which has no negative
  member: a byte from \<open>0x80\<close> on becomes a large number that is below no tag and equal to none, and its low byte, the
  one copied into answers, is the byte read. The model keeps the byte.

  \<open>t\<close> is the caller's variable. A group tag leaves it alone. A negative length of the name passes the
  test; when nothing can be read for it the NUL is written before the start of \<open>attrib_name\<close>.
\<close>

definition ippGetAttribute :: "u8 list \<Rightarrow> ipp_attrib \<Rightarrow> ireq \<Rightarrow> sched \<Rightarrow> world \<Rightarrow> got run" where
  "ippGetAttribute junk t =
     get_n junk t 1 (\<lambda>b. let tag = hd b in
       if tag < IPP_TAG_UNSUPPORTED_VALUE then (\<lambda>o1 fs w. Done (tag, t, o1) fs w)
       else get_n junk t 2 (\<lambda>b. let n16 = be16 b in
         if n16 > IPP_MAX_ATTRIB_NAME then (\<lambda>o1 fs w. Done (IPP_TAG_ZERO, t, o1) fs w)
         else get_n junk t n16 (if n16 < 0 then (\<lambda>_ _ _ _. Fault Overflow) else (\<lambda>name.
           let t1 = t\<lparr>attrib_name := name\<rparr> in
           get_n junk t1 2 (\<lambda>b. ippGetValue junk tag (be16 b) t1)))))"

text \<open>
  For a group tag \<open>ippFreeAttribute\<close> frees a pointer that is not the attribute's: the union was not set
  since the last attribute, whose memory is freed or in use, or not at all.
\<close>

definition ippFreeAttribute :: "u8 \<Rightarrow> sched \<Rightarrow> world \<Rightarrow> unit run" where
  "ippFreeAttribute tag fs w =
     (if tag = IPP_TAG_ZERO \<or> tag \<ge> IPP_TAG_UNSUPPORTED_VALUE then Done () fs w else Fault BadFree)"

section \<open>Writing\<close>

definition out16 :: "int \<Rightarrow> u8 list" where
  "out16 n = [word_of_int (n div 256), word_of_int n]"

definition out32 :: "u32 \<Rightarrow> u8 list" where
  "out32 x = [ucast (drop_bit 24 x), ucast (drop_bit 16 x), ucast (drop_bit 8 x), ucast x]"

definition PF_MORESPACE :: nat where "PF_MORESPACE = 1024"

text \<open>Nothing is ever taken from the front of these buffers, so \<open>pf_cur\<close> is \<open>pf_buf\<close>.\<close>

definition morespace :: "bool \<Rightarrow> u8 list \<Rightarrow> ippBuf \<Rightarrow> ippBuf" where
  "morespace mok bs b =
     (if length (pf_data b) + length bs > pf_len b
      then if mok
           then (let n = pf_len b + length bs;
                     nsize = (n div PF_MORESPACE + (if n mod PF_MORESPACE \<noteq> 0 then 1 else 0)) * PF_MORESPACE
                 in b\<lparr>pf_data := pf_data b @ bs, pf_len := nsize\<rparr>)
           else b
      else b\<lparr>pf_data := pf_data b @ bs\<rparr>)"

definition ippAppend :: "bool \<Rightarrow> ippBuf \<Rightarrow> u8 list \<Rightarrow> int \<Rightarrow> ippBuf option" where
  "ippAppend mok b bs len =
     (if len < 0 then None
      else if length (pf_data b) + nat len > pf_len b then Some (morespace mok (take (nat len) bs) b)
      else Some (b\<lparr>pf_data := pf_data b @ take (nat len) bs\<rparr>))"

fun append_all :: "bool \<Rightarrow> (u8 list \<times> int) list \<Rightarrow> ippBuf \<Rightarrow> ippBuf option" where
  "append_all mok [] b = Some b"
| "append_all mok ((bs, len) # r) b = Option.bind (ippAppend mok b bs len) (append_all mok r)"

definition put16 :: "int \<Rightarrow> u8 list \<times> int" where "put16 n = (out16 n, 2)"
definition put32 :: "u32 \<Rightarrow> u8 list \<times> int" where "put32 n = (out32 n, 4)"

text \<open>\<open>(int16) strlen\<close> and the string itself.\<close>

definition len16 :: "u8 list \<Rightarrow> int" where
  "len16 s = sint (of_nat (length (str_of s)) :: u16)"

definition put_text :: "u8 list \<Rightarrow> u8 list \<times> int" where "put_text s = (str_of s, len16 s)"

text \<open>The \<open>switch\<close> of \<open>ippAddAttribute\<close>; \<^const>\<open>None\<close> for a value that does not go with its tag.\<close>

definition value_parts :: "u8 \<Rightarrow> ipp_value \<Rightarrow> (u8 list \<times> int) list option" where
  "value_parts tag v =
     (if tag = IPP_TAG_INTEGER \<or> tag = IPP_TAG_ENUM then (case v of Int_v x \<Rightarrow> Some [put16 4, put32 x] | _ \<Rightarrow> None)
      else if tag = IPP_TAG_BOOLEAN then (case v of Bool_v x \<Rightarrow> Some [put16 1, ([x], 1)] | _ \<Rightarrow> None)
      else if is_text tag
      then (case v of Str_v c s \<Rightarrow> Some [put16 (len16 s), put_text s] | _ \<Rightarrow> None)
      else if tag = IPP_TAG_DATE then (case v of Date_v d \<Rightarrow> Some [put16 11, (d, 11)] | _ \<Rightarrow> None)
      else if tag = IPP_TAG_RESOLUTION
      then (case v of Res_v x y u \<Rightarrow> Some [put16 9, put32 x, put32 y, ([u], 1)] | _ \<Rightarrow> None)
      else if tag = IPP_TAG_RANGE then (case v of Range_v l u \<Rightarrow> Some [put16 8, put32 l, put32 u] | _ \<Rightarrow> None)
      else if tag = IPP_TAG_TEXTLANG \<or> tag = IPP_TAG_NAMELANG
      then (case v of Str_v (Some c) s \<Rightarrow>
              Some [put16 (len16 c + len16 s), put16 (len16 c), put_text c, put16 (len16 s), put_text s] | _ \<Rightarrow> None)
      else (case v of Unk_v n d \<Rightarrow> Some [put16 n, (d, n)] | _ \<Rightarrow> None))"

definition ippAddAttribute :: "bool \<Rightarrow> ippBuf \<Rightarrow> u8 \<Rightarrow> ipp_attrib \<Rightarrow> ippBuf option" where
  "ippAddAttribute mok b tag attr =
     Option.bind (value_parts tag (val attr)) (\<lambda>vs.
       append_all mok (([tag], 1) # put16 (len16 (attrib_name attr)) # put_text (attrib_name attr) # vs) b)"

end
