(* ===== verification/Ipp_Req.thy ===== *)
theory Ipp_Req
  imports Ipp_Attr Lpd
begin

text \<open>
  The requests of the Internet printing protocol, \<open>src/apps/ps/ippd/src/ippd.c\<close>: names and addresses
  (\<open>ippFindAttribute\<close>, \<open>ippValidDestPort\<close>, \<open>ippValidDestJob\<close>, \<open>ippCheckPort\<close>), the attributes of jobs and
  of the printer in an answer, and the answer itself (\<open>ippSetRespBuf\<close>, \<open>ippSendResp\<close> with \<open>httpHeaders\<close> of
  \<open>src/apps/http_zot/src/httpd.c\<close>).

  There is one port, so the port's index is 0 wherever the code has \<open>port\<close>. \<open>Inl e\<close> is a fault.
\<close>

unbundle bit_operations_syntax

type_synonym 'a res = "fault + 'a"

definition res_bind :: "'a res \<Rightarrow> ('a \<Rightarrow> 'b res) \<Rightarrow> 'b res" where
  "res_bind m k = (case m of Inl e \<Rightarrow> Inl e | Inr a \<Rightarrow> k a)"

definition or_fault :: "fault \<Rightarrow> 'a option \<Rightarrow> 'a res" where
  "or_fault e x = (case x of None \<Rightarrow> Inl e | Some a \<Rightarrow> Inr a)"

section \<open>Constants\<close>

definition IPP_MAX_USER :: u8 where "IPP_MAX_USER = 3"

definition IPP_PRINT_JOB :: u8 where "IPP_PRINT_JOB = 0x02"
definition IPP_VALIDATE_JOB :: u8 where "IPP_VALIDATE_JOB = 0x04"
definition IPP_CANCEL_JOB :: u8 where "IPP_CANCEL_JOB = 0x08"
definition IPP_GET_JOB_ATTRIBUTES :: u8 where "IPP_GET_JOB_ATTRIBUTES = 0x09"
definition IPP_GET_JOBS :: u8 where "IPP_GET_JOBS = 0x0A"
definition IPP_GET_PRINTER_ATTRIBUTES :: u8 where "IPP_GET_PRINTER_ATTRIBUTES = 0x0B"
definition IPP_PRINT_JOB_ERROR :: u8 where "IPP_PRINT_JOB_ERROR = 0x7E"

lemmas ipp_ops = IPP_PRINT_JOB_def IPP_VALIDATE_JOB_def IPP_CANCEL_JOB_def IPP_GET_JOB_ATTRIBUTES_def
  IPP_GET_JOBS_def IPP_GET_PRINTER_ATTRIBUTES_def IPP_PRINT_JOB_ERROR_def IPP_PRINT_JOB_TIME_OUT_def

definition IPP_JOB_PENDING :: u8 where "IPP_JOB_PENDING = 0x03"
definition IPP_JOB_PROCESS :: u8 where "IPP_JOB_PROCESS = 0x05"
definition IPP_JOB_CANCEL :: u8 where "IPP_JOB_CANCEL = 0x07"
definition IPP_JOB_COMPLETE :: u8 where "IPP_JOB_COMPLETE = 0x09"
definition IPP_JOB_ABORTING :: u8 where "IPP_JOB_ABORTING = 0x80"
definition IPP_JOB_NOT_COMPLETE :: u8 where "IPP_JOB_NOT_COMPLETE = (IPP_JOB_COMPLETE AND 0x80)"

lemmas ipp_states = IPP_JOB_PENDING_def IPP_JOB_PROCESS_def IPP_JOB_CANCEL_def IPP_JOB_COMPLETE_def
  IPP_JOB_ABORTING_def IPP_JOB_NOT_COMPLETE_def

definition IPP_BINARY_DOC :: u8 where "IPP_BINARY_DOC = 0x01"
definition IPP_TEXT_DOC :: u8 where "IPP_TEXT_DOC = 0x02"

definition IPP_OK :: u16 where "IPP_OK = 0x0000"
definition IPP_OK_SUBST :: u16 where "IPP_OK_SUBST = 0x0001"
definition IPP_CLIENT_BAD_REQUEST :: u16 where "IPP_CLIENT_BAD_REQUEST = 0x0400"
definition IPP_CLIENT_NOT_POSSIBLE :: u16 where "IPP_CLIENT_NOT_POSSIBLE = 0x0404"
definition IPP_CLIENT_NOT_FOUND :: u16 where "IPP_CLIENT_NOT_FOUND = 0x0406"
definition IPP_CLIENT_DOCUMENT_FORMAT :: u16 where "IPP_CLIENT_DOCUMENT_FORMAT = 0x040A"
definition IPP_CLIENT_ATTRIBUTES :: u16 where "IPP_CLIENT_ATTRIBUTES = 0x040B"
definition IPP_CLIENT_CHARSET :: u16 where "IPP_CLIENT_CHARSET = 0x040D"
definition IPP_SERVER_INTERNAL_ERROR :: u16 where "IPP_SERVER_INTERNAL_ERROR = 0x0500"
definition IPP_SERVER_OPERATION_NOT_SUPPORTED :: u16 where "IPP_SERVER_OPERATION_NOT_SUPPORTED = 0x0501"
definition IPP_SERVER_SERVICE_UNAVAILABLE :: u16 where "IPP_SERVER_SERVICE_UNAVAILABLE = 0x0502"
definition IPP_SERVER_VERSION_NOT_SUPPORTED :: u16 where "IPP_SERVER_VERSION_NOT_SUPPORTED = 0x0503"
definition IPP_SERVER_ERROR_JOB_CANCELLED :: u16 where "IPP_SERVER_ERROR_JOB_CANCELLED = 0x0508"

lemmas ipp_status = IPP_OK_def IPP_OK_SUBST_def IPP_CLIENT_BAD_REQUEST_def IPP_CLIENT_NOT_POSSIBLE_def
  IPP_CLIENT_NOT_FOUND_def IPP_CLIENT_DOCUMENT_FORMAT_def IPP_CLIENT_ATTRIBUTES_def IPP_CLIENT_CHARSET_def
  IPP_SERVER_INTERNAL_ERROR_def IPP_SERVER_OPERATION_NOT_SUPPORTED_def IPP_SERVER_SERVICE_UNAVAILABLE_def
  IPP_SERVER_VERSION_NOT_SUPPORTED_def IPP_SERVER_ERROR_JOB_CANCELLED_def

definition IPP_DEFAULT_USER_NAME :: "u8 list" where "IPP_DEFAULT_USER_NAME = cstr ''anonymous''"
definition IPP_DEFAULT_JOB_NAME :: "u8 list" where "IPP_DEFAULT_JOB_NAME = cstr ''Untitled''"
definition IPP_DEFAULT_DOC_FORMAT :: "u8 list" where "IPP_DEFAULT_DOC_FORMAT = cstr ''application/octet-stream''"
definition IPP_SECOND_DOC_FORMAT :: "u8 list" where "IPP_SECOND_DOC_FORMAT = cstr ''text/plain''"
definition IPP_DEFAULT_CHARSET :: "u8 list" where "IPP_DEFAULT_CHARSET = cstr ''utf-8''"
definition IPP_SECOND_CHARSET :: "u8 list" where "IPP_SECOND_CHARSET = cstr ''us-ascii''"
definition IPP_DEFAULT_LANGUAGE :: "u8 list" where "IPP_DEFAULT_LANGUAGE = cstr ''en-us''"

text \<open>The tables of \<open>ippd_constant.c\<close>, without the null pointer at their ends.\<close>

definition AttribTAG :: "u8 list list" where
  "AttribTAG = map cstr [''printer-uri'', ''requesting-user-name'', ''job-name'', ''ipp-attribute-fidelity'',
     ''job-id'', ''job-uri'', ''limit'', ''which-jobs'', ''my-jobs'', ''requested-attributes'',
     ''document-format'', ''document-name'']"

definition JobTempAttribTAG :: "u8 list list" where
  "JobTempAttribTAG = map cstr [''all'', ''job-uri'', ''job-id'', ''job-printer-uri'', ''job-name'',
     ''job-originating-user-name'', ''job-state'', ''attributes-charset'', ''attributes-natural-language'',
     ''job-description'']"

definition PrinterDescriptionTAG :: "u8 list list" where
  "PrinterDescriptionTAG = map cstr [''all'', ''printer-uri-supported'', ''uri-security-supported'',
     ''printer-name'', ''printer-location'', ''printer-more-info'', ''printer-make-and-model'', ''printer-state'',
     ''printer-state-reasons'', ''operations-supported'', ''charset-configured'', ''charset-supported'',
     ''natural-language-configured'', ''generated-natural-language-supported'', ''document-format-default'',
     ''document-format-supported'', ''printer-is-accepting-jobs'', ''pdl-override-supported'',
     ''printer-up-time'', ''printer-description'']"

section \<open>Names and addresses\<close>

definition IPP_FIND_NOT_FOUND :: int where "IPP_FIND_NOT_FOUND = -2"
definition IPP_FIND_NO_VALUE :: int where "IPP_FIND_NO_VALUE = -3"

fun find_tag :: "int \<Rightarrow> u8 list list \<Rightarrow> u8 list \<Rightarrow> int" where
  "find_tag count [] attrib = IPP_FIND_NOT_FOUND"
| "find_tag count (a # as) attrib = (if a = str_of attrib then count else find_tag (count + 1) as attrib)"

definition ippFindAttribute :: "u8 list list \<Rightarrow> u8 list \<Rightarrow> int" where
  "ippFindAttribute = find_tag 0"

definition strchr :: "u8 list \<Rightarrow> u8 \<Rightarrow> u8 list option" where
  "strchr s c = (case dropWhile (\<lambda>x. x \<noteq> c) s of [] \<Rightarrow> None | r \<Rightarrow> Some r)"

definition SLASH :: u8 where "SLASH = 47"

definition ippGetURIFileName :: "u8 list \<Rightarrow> u8 list option" where
  "ippGetURIFileName URI =
     (case strchr URI SLASH of None \<Rightarrow> None
      | Some p \<Rightarrow> map_option tl (if cchar (tl p) = SLASH then strchr (drop 2 p) SLASH else Some p))"

definition bin_uri :: "u8 list" where "bin_uri = cstr ''lp1''"
definition txt_ext :: "u8 list" where "txt_ext = cstr ''_txt''"
definition job_uri :: "u8 list" where "job_uri = cstr ''/job''"

text \<open>The printer's name for a kind of document, and a job's, with \<open>%03d\<close>.\<close>

definition show03 :: "nat \<Rightarrow> u8 list" where
  "show03 n = (let s = dec_digits n in replicate (3 - length s) 48 @ s)"

definition prn_name :: "bool \<Rightarrow> u8 list" where
  "prn_name txt = bin_uri @ (if txt then txt_ext else [])"

definition job_name_of :: "bool \<Rightarrow> u16 \<Rightarrow> u8 list" where
  "job_name_of txt jid = prn_name txt @ job_uri @ show03 (unat jid)"

text \<open>The index of the port, 1 when there is none; \<^const>\<open>None\<close> when a null pointer is compared.\<close>

definition ippValidDestPort :: "u8 list \<Rightarrow> u8 \<Rightarrow> nat option" where
  "ippValidDestPort URI doc =
     (case ippGetURIFileName (str_of URI) of None \<Rightarrow> None
      | Some p \<Rightarrow> Some (if stricmp p (prn_name (doc = IPP_TEXT_DOC)) = 0 then 0 else 1))"

fun valid_dest :: "u8 list option \<Rightarrow> bool \<Rightarrow> ipp_t list \<Rightarrow> u16 option option" where
  "valid_dest p txt [] = Some None"
| "valid_dest p txt (j # js) =
     (case p of None \<Rightarrow> None
      | Some n \<Rightarrow> if stricmp (job_name_of txt (job_id j)) n = 0 then Some (Some (job_id j)) else valid_dest p txt js)"

text \<open>
  A job found is represented by its number. Numbers count up to 999 and start again, so two jobs of the
  list have the same number only when 999 jobs were accepted while one of them was printed.
\<close>

definition ippValidDestJob :: "u8 list \<Rightarrow> u8 \<Rightarrow> world \<Rightarrow> u16 option option" where
  "ippValidDestJob URI doc w =
     valid_dest (ippGetURIFileName (str_of URI)) (doc \<noteq> IPP_BINARY_DOC) (ippObjList (ipp w))"

text \<open>The job behind a pointer: a null pointer and one to a job that was freed are faults.\<close>

definition deref :: "u16 option \<Rightarrow> world \<Rightarrow> ipp_t res" where
  "deref p w = (case p of None \<Rightarrow> Inl NullRead
     | Some i \<Rightarrow> or_fault Dangling (find (\<lambda>j. job_id j = i) (ippObjList (ipp w))))"

text \<open>\<open>None\<close> for a URL that is not the printer's; otherwise the kind of document.\<close>

definition ippCheckPort :: "u8 list \<Rightarrow> u8 option" where
  "ippCheckPort url =
     (if stricmp url (prn_name False) = 0 then Some IPP_BINARY_DOC
      else if strnicmp url (prn_name False @ job_uri) 7 = 0 then Some IPP_BINARY_DOC
      else if stricmp url (prn_name True) = 0 then Some IPP_TEXT_DOC
      else if strnicmp url (prn_name True @ job_uri) 11 = 0 then Some IPP_TEXT_DOC
      else None)"

section \<open>Attributes of the answer\<close>

definition upd_resp :: "(ippBuf \<Rightarrow> ippBuf option) \<Rightarrow> ipp_t \<Rightarrow> ipp_t res" where
  "upd_resp f ob = (case f (RespGroup ob) of None \<Rightarrow> Inl Overflow | Some b \<Rightarrow> Inr (ob\<lparr>RespGroup := b\<rparr>))"

definition resp_attr :: "bool \<Rightarrow> u8 \<Rightarrow> u8 list \<Rightarrow> ipp_value \<Rightarrow> ipp_t \<Rightarrow> ipp_t res" where
  "resp_attr mok tag name v = upd_resp (\<lambda>b. ippAddAttribute mok b tag \<lparr>attrib_name = name, val = v\<rparr>)"

text \<open>A group's tag, one byte.\<close>

definition resp_tag :: "bool \<Rightarrow> u8 \<Rightarrow> ipp_t \<Rightarrow> ipp_t res" where
  "resp_tag mok tag = upd_resp (\<lambda>b. ippAppend mok b [tag] 1)"

definition resp_str :: "bool \<Rightarrow> u8 \<Rightarrow> u8 list \<Rightarrow> u8 list \<Rightarrow> ipp_t \<Rightarrow> ipp_t res" where
  "resp_str mok tag name s = resp_attr mok tag name (Str_v None s)"

text \<open>A string copied to \<open>TmpBuf\<close> first, which has \<open>IPP_TEMP_BUF_SIZE + 1\<close> bytes.\<close>

definition IPP_TEMP_BUF_SIZE :: nat where "IPP_TEMP_BUF_SIZE = 50"

definition resp_tmp :: "bool \<Rightarrow> u8 \<Rightarrow> u8 list \<Rightarrow> u8 list \<Rightarrow> ipp_t \<Rightarrow> ipp_t res" where
  "resp_tmp mok tag name s ob =
     (if length (str_of s) > IPP_TEMP_BUF_SIZE then Inl Overflow else resp_str mok tag name s ob)"

definition ippSetJobAttribute :: "bool \<Rightarrow> nat \<Rightarrow> ipp_t \<Rightarrow> ipp_t \<Rightarrow> ipp_t res" where
  "ippSetJobAttribute mok v prn ob =
     (let txt = (DocType prn \<noteq> IPP_BINARY_DOC); name = JobTempAttribTAG ! v
      in if v = 1 then resp_tmp mok IPP_TAG_URI name (SLASH # job_name_of txt (job_id prn)) ob
         else if v = 2 then resp_attr mok IPP_TAG_INTEGER name (Int_v (ucast (job_id prn))) ob
         else if v = 3 then resp_tmp mok IPP_TAG_URI name (SLASH # prn_name (DocType prn = IPP_TEXT_DOC)) ob
         else if v = 4 then res_bind (or_fault NullRead (job_name prn)) (\<lambda>s. resp_str mok IPP_TAG_NAME name s ob)
         else if v = 5 then res_bind (or_fault NullRead (user_name prn)) (\<lambda>s. resp_str mok IPP_TAG_NAME name s ob)
         else if v = 6 then resp_attr mok IPP_TAG_ENUM name (Int_v (ucast (job_state prn))) ob
         else if v = 7 then res_bind (or_fault NullRead (Charset prn)) (\<lambda>s. resp_tmp mok IPP_TAG_CHARSET name s ob)
         else if v = 8 then res_bind (or_fault NullRead (Language prn)) (\<lambda>s. resp_tmp mok IPP_TAG_LANGUAGE name s ob)
         else Inr ob)"

text \<open>The dotted address, most significant byte first; \<open>BoxAddr\<close> has the least significant first.\<close>

definition dotted :: "u8 list \<Rightarrow> u8 list" where
  "dotted a = dec_digits (unat (a ! 3)) @ [46] @ dec_digits (unat (a ! 2)) @ [46] @
     dec_digits (unat (a ! 1)) @ [46] @ dec_digits (unat (a ! 0))"

text \<open>The attributes of the printer, one or several values each: tag and value.\<close>

definition printer_values :: "world \<Rightarrow> nat \<Rightarrow> (u8 \<times> ipp_value) list" where
  "printer_values w v =
     (let str = (\<lambda>tag s. (tag, Str_v None s)); enum = (\<lambda>n. (IPP_TAG_ENUM, Int_v n))
      in if v = 1 then [str IPP_TAG_URI (SLASH # prn_name False), str IPP_TAG_URI (SLASH # prn_name True)]
         else if v = 2 then [str IPP_TAG_KEYWORD (cstr ''none'')]
         else if v = 3 then [str IPP_TAG_NAME (HostName w)]
         else if v = 4 then [str IPP_TAG_TEXT (SysLocation (ipp w))]
         else if v = 5 then [str IPP_TAG_URI (cstr ''http://'' @ dotted (BoxAddr (ipp w)))]
         else if v = 6 then [str IPP_TAG_TEXT []]
         else if v = 7 then [enum (if port_status w = PORT_READY then 3 else if port_status w = PORT_PRINTING then 4 else 5)]
         else if v = 9 then map enum [2, 4, 8, 9, 10, 11]
         else if v = 10 then [str IPP_TAG_CHARSET IPP_DEFAULT_CHARSET]
         else if v = 11 then [str IPP_TAG_CHARSET IPP_DEFAULT_CHARSET, str IPP_TAG_CHARSET IPP_SECOND_CHARSET]
         else if v = 12 \<or> v = 13 then [str IPP_TAG_LANGUAGE IPP_DEFAULT_LANGUAGE]
         else if v = 14 then [str IPP_TAG_MIMETYPE IPP_DEFAULT_DOC_FORMAT]
         else if v = 15 then [str IPP_TAG_MIMETYPE IPP_DEFAULT_DOC_FORMAT, str IPP_TAG_MIMETYPE IPP_SECOND_DOC_FORMAT]
         else if v = 16 then [(IPP_TAG_BOOLEAN, Bool_v (if status w \<noteq> PrnNoUsed \<or> RealPortStatus 0 (spl w) = 0x7F then 0 else 1))]
         else if v = 17 then [str IPP_TAG_KEYWORD (cstr ''not-attempted'')]
         else if v = 18 then [(IPP_TAG_INTEGER, Int_v (ms w div 1000 + 1))]
         else [])"

fun resp_values :: "bool \<Rightarrow> u8 list \<Rightarrow> (u8 \<times> ipp_value) list \<Rightarrow> ipp_t \<Rightarrow> ipp_t res" where
  "resp_values mok name [] ob = Inr ob"
| "resp_values mok name ((tag, v) # vs) ob =
     (case v of Str_v c s \<Rightarrow> if length (str_of s) > IPP_TEMP_BUF_SIZE then Inl Overflow
                 else res_bind (resp_attr mok tag name v ob) (resp_values mok [] vs)
      | _ \<Rightarrow> res_bind (resp_attr mok tag name v ob) (resp_values mok [] vs))"

definition ippSetPrinterAttribute :: "nat \<Rightarrow> world \<Rightarrow> ipp_t \<Rightarrow> ipp_t res" where
  "ippSetPrinterAttribute v w = resp_values (malloc_ok w) (PrinterDescriptionTAG ! v) (printer_values w v)"

text \<open>The loops over all attributes, from 1 to the end of a table, and over the bits of a request.\<close>

fun set_all :: "(nat \<Rightarrow> ipp_t \<Rightarrow> ipp_t res) \<Rightarrow> nat list \<Rightarrow> ipp_t \<Rightarrow> ipp_t res" where
  "set_all f [] ob = Inr ob"
| "set_all f (v # vs) ob = res_bind (f v ob) (set_all f vs)"

definition bits_of :: "nat \<Rightarrow> 'a::len word \<Rightarrow> nat list" where
  "bits_of n x = filter (bit x) [0..<n]"

definition set_requested :: "(nat \<Rightarrow> ipp_t \<Rightarrow> ipp_t res) \<Rightarrow> nat \<Rightarrow> int \<Rightarrow> 'a::len word \<Rightarrow> ipp_t \<Rightarrow> ipp_t res" where
  "set_requested f n v req =
     set_all f (if v = IPP_FIND_NO_VALUE \<or> bit req 0 \<or> bit req (n - 1) then [1..<n] else bits_of n req)"

section \<open>The answer\<close>

text \<open>\<open>ippSetRespBuf\<close>: version 1.0 in memory order, status, identification, and the operation group.\<close>

definition ippSetRespBuf :: "ipp_t \<Rightarrow> u8 list" where
  "ippSetRespBuf ob =
     (let cs = (case Charset ob of None \<Rightarrow> IPP_DEFAULT_CHARSET | Some s \<Rightarrow> str_of s);
          la = (case Language ob of None \<Rightarrow> IPP_DEFAULT_LANGUAGE | Some s \<Rightarrow> str_of s)
      in [1, 0] @ out16 (uint (RetCode ob)) @ ID ob @ [IPP_TAG_OPERATION, IPP_TAG_CHARSET] @
         out16 18 @ cstr ''attributes-charset'' @ out16 (int (length cs)) @ cs @ [IPP_TAG_LANGUAGE] @
         out16 27 @ cstr ''attributes-natural-language'' @ out16 (int (length la)) @ la)"

definition http_headers :: "world \<Rightarrow> u8 list list" where
  "http_headers w =
     [cstr ''HTTP/1.1 200 OK'' @ [CR, LF] @ cstr ''Date: '' @ SYSTEM_TIME (ipp w) @ [CR, LF],
      cstr ''MIME-version: 1.0'' @ [LF] @ cstr ''Server: ZOT-PS-'' @ SERVER_VERSION (ipp w) @ [LF],
      cstr ''Pragma: no-cache'' @ [CR, LF] @ cstr ''Cache-Control: no-cache'' @ [CR, LF] @ cstr ''Connection: close'' @ [CR, LF],
      cstr ''Content-Type: application/ipp'' @ [CR, LF]]"

definition zot_fflush :: "world \<Rightarrow> world" where
  "zot_fflush w = (if obuf w = [] then w else (lwip_send (obuf w) w)\<lparr>obuf := []\<rparr>)"

definition resp_size :: "ipp_t \<Rightarrow> u16" where
  "resp_size ob =
     (if RetCode ob < IPP_CLIENT_BAD_REQUEST \<or> RetCode ob = IPP_SERVER_ERROR_JOB_CANCELLED
      then (let n = of_nat (length (pf_data (RespGroup ob))) in if n = 1 then 0 else n) else 0)"

definition unsupp_size :: "ipp_t \<Rightarrow> u16" where
  "unsupp_size ob = of_nat (length (pf_data (UnSupportGroup ob)))"

text \<open>
  \<open>ippSendResp\<close>. The message is built 80 bytes into a buffer of at least 512 bytes; without memory for
  it nothing is sent. \<open>FileSize\<close> is a signed 16-bit number.
\<close>

definition ippSendResp :: "ipp_t \<Rightarrow> world \<Rightarrow> world res" where
  "ippSendResp ob w =
     (let us = unat (unsupp_size ob); rs = unat (resp_size ob); MaxBufSize = max 512 (max us rs);
          msg = ippSetRespBuf ob
      in if \<not> malloc_ok w then Inr w
         else if 80 + length msg > MaxBufSize \<or> length msg > 32767 then Inl Overflow
         else let w1 = foldl (\<lambda>w s. zot_fputs s w) w (http_headers w);
                  w2 = zot_fputs (cstr ''Content-Length: '' @ show_int (int (length msg + us + rs + 1)) @ [CR, LF]) w1;
                  w3 = lwip_send msg (zot_fflush (zot_fputs [CR, LF] w2));
                  w4 = (if us = 0 then w3 else lwip_send (take us (pf_data (UnSupportGroup ob))) w3);
                  w5 = (if rs = 0 then w4 else lwip_send (take rs (pf_data (RespGroup ob))) w4)
              in Inr (sendack (lwip_send [IPP_TAG_END] w5)))"

definition ippSetPrintJobResp :: "bool \<Rightarrow> ipp_t \<Rightarrow> ipp_t res" where
  "ippSetPrintJobResp mok ob =
     res_bind (resp_tag mok IPP_TAG_JOB ob) (\<lambda>ob.
     res_bind (resp_str mok IPP_TAG_URI (JobTempAttribTAG ! 1)
       (SLASH # job_name_of (DocType ob \<noteq> IPP_BINARY_DOC) (job_id ob)) ob) (\<lambda>ob.
     res_bind (resp_attr mok IPP_TAG_INTEGER (JobTempAttribTAG ! 2) (Int_v (ucast (job_id ob))) ob) (\<lambda>ob.
     resp_attr mok IPP_TAG_ENUM (JobTempAttribTAG ! 6) (Int_v (ucast (job_state ob))) ob)))"

text \<open>On the connection of this thread's own object.\<close>

definition ippPrintJobClose :: "ipp_t \<Rightarrow> world \<Rightarrow> world res" where
  "ippPrintJobClose ob w =
     res_bind (ippSetPrintJobResp (malloc_ok w) ob) (\<lambda>ob.
     res_bind (ippSendResp ob w) (\<lambda>w. Inr (zot_fclose w)))"

text \<open>On the connection of another object, which has sent nothing yet.\<close>

definition close_other :: "ipp_t \<Rightarrow> world \<Rightarrow> world res" where
  "close_other ob w =
     res_bind (ippPrintJobClose ob (w\<lparr>sent := [], obuf := []\<rparr>)) (\<lambda>v.
       Inr (w\<lparr>ipp := (ipp w)\<lparr>closed_jobs := closed_jobs (ipp w) @ [(ob, sent v)]\<rparr>\<rparr>))"

end
