(* ===== verification/Ipp_Cmd.thy ===== *)
theory Ipp_Cmd
  imports Ipp_Req
begin

text \<open>
  The operations of the Internet printing server, \<open>src/apps/ps/ippd/src/ippd.c\<close>: \<open>ippPrintValidateJob\<close>,
  \<open>ippCancelJob\<close>, \<open>ippGetJobAttribute\<close>, \<open>ippGetJobs\<close>, \<open>ippGetPrinterAttr\<close>, and \<open>ippd\<close>, which a web server
  thread calls with a new object.

  The loop over the attributes of a request, which all five operations have, is \<open>attr_loop\<close>; its
  argument \<open>step\<close> is the operation's \<open>switch\<close> with the operation's local variables \<open>s\<close>. The object is
  \<open>ob\<close> together with its reader \<open>r\<close>.
\<close>

unbundle bit_operations_syntax

section \<open>The loop over attributes\<close>

definition iends :: "ireq \<Rightarrow> sched \<Rightarrow> world \<Rightarrow> got run \<Rightarrow> bool" where
  "iends o1 fs w = ends_with (\<lambda>(tag, t, o3) fs3 w3. ipot_le o3 fs3 w3 o1 fs w)"

lemma iends_Done [simp]: "iends o1 fs w (Done (tag, t, o1) fs w)" "iends o1 fs w (Fault e)"
  by (simp_all add: iends_def)

lemma iends_le: "iends o2 fs1 w1 m \<Longrightarrow> ipot_le o2 fs1 w1 o1 fs w \<Longrightarrow> iends o1 fs w m"
  unfolding iends_def by (cases m) (auto intro: ipot_trans(1))

lemma iends_if: "iends o1 fs w m \<Longrightarrow> iends o1 fs w m' \<Longrightarrow> iends o1 fs w (if c then m else m')"
  by simp

lemma get_n_ends:
  assumes "\<And>bs o2 fs2 w2. iends o2 fs2 w2 (k bs o2 fs2 w2)"
  shows "iends o1 fs w (get_n junk t n k o1 fs w)"
proof -
  have "iends o1 fs1 w1 (if int (length bs) < n then Done (IPP_TAG_ZERO, t, o1) fs1 w1 else k bs o1 fs1 w1)"
    for bs o1 fs1 w1 by (rule iends_if) (simp_all add: assms)
  note le = iends_le [OF this, unfolded iends_def]
  show ?thesis
    unfolding get_n_def iends_def
  proof (rule ends_with_bind [OF ippRead_ends], goal_cases)
    case (1 p fs1 w1)
    then show ?case by (cases p) (simp only: prod.case, rule le, simp)
  qed
qed

lemma get_text_ends:
  assumes "\<And>bs o2 fs2 w2. iends o2 fs2 w2 (k bs o2 fs2 w2)"
  shows "iends o1 fs w (get_text junk t n k o1 fs w)"
  unfolding get_text_def by (rule iends_if, simp, rule get_n_ends) (simp add: assms)

lemma ippGetValue_ends: "iends o1 fs w (ippGetValue junk tag n16 t o1 fs w)"
proof -
  have f: "iends o2 fs2 w2 ((if c then (\<lambda>o2 fs w. Done (IPP_TAG_ZERO, t, o2) fs w) else k) o2 fs2 w2)"
    if "iends o2 fs2 w2 (k o2 fs2 w2)" for c k o2 fs2 w2
    using that by simp
  show ?thesis
    unfolding ippGetValue_def Let_def
    by (intro iends_if get_n_ends get_text_ends f iends_Done)
qed

lemma ippGetAttribute_ends:
  "ends_with (\<lambda>(tag, t', o3) fs3 w3. tag \<noteq> IPP_TAG_ZERO \<longrightarrow> ipot_less o3 fs3 w3 o1 fs w)
     (ippGetAttribute junk t o1 fs w)"
  unfolding ippGetAttribute_def get_n_def [of junk t 1]
proof (rule ends_with_bind [OF ippRead_ends], goal_cases)
  case (1 p fs1 w1)
  obtain bs o2 where p: "p = (bs, o2)" by fastforce
  show ?case
  proof (cases "length bs < 1")
    case False
    with 1 have less: "ipot_less o2 fs1 w1 o1 fs w" by (simp add: p)
    define m where "m = (let tag = hd bs in
       if tag < IPP_TAG_UNSUPPORTED_VALUE then (\<lambda>o1 fs w. Done (tag, t, o1) fs w)
       else get_n junk t 2 (\<lambda>b. let n16 = be16 b in
         if n16 > IPP_MAX_ATTRIB_NAME then (\<lambda>o1 fs w. Done (IPP_TAG_ZERO, t, o1) fs w)
         else get_n junk t n16 (if n16 < 0 then (\<lambda>_ _ _ _. Fault Overflow) else (\<lambda>name.
           let t1 = t\<lparr>attrib_name := name\<rparr> in
           get_n junk t1 2 (\<lambda>b. ippGetValue junk tag (be16 b) t1))))) o2 fs1 w1"
    have len: "iends o3 fs3 w3 ((\<lambda>b. let n16 = be16 b in
         if n16 > IPP_MAX_ATTRIB_NAME then (\<lambda>o1 fs w. Done (IPP_TAG_ZERO, t, o1) fs w)
         else get_n junk t n16 (if n16 < 0 then (\<lambda>_ _ _ _. Fault Overflow) else (\<lambda>name.
           let t1 = t\<lparr>attrib_name := name\<rparr> in
           get_n junk t1 2 (\<lambda>b. ippGetValue junk tag (be16 b) t1)))) b o3 fs3 w3)" for tag b o3 fs3 w3
      by (cases "be16 b < 0") (auto simp: Let_def intro!: get_n_ends ippGetValue_ends)
    have "iends o2 fs1 w1 m"
      unfolding m_def Let_def [of "hd bs"] using get_n_ends [OF len] by simp
    then have "ends_with (\<lambda>(tag, t', o3) fs3 w3. tag \<noteq> IPP_TAG_ZERO \<longrightarrow> ipot_less o3 fs3 w3 o1 fs w) m"
      unfolding iends_def using ipot_trans(3) [OF _ less] by (cases m) auto
    with False show ?thesis unfolding m_def by (simp add: p)
  qed (simp add: p)
qed

type_synonym 's attr_step = "u8 \<Rightarrow> ipp_attrib \<Rightarrow> 's \<Rightarrow> ireq \<Rightarrow> ipp_t \<Rightarrow> world \<Rightarrow> ('s \<times> ipp_t) res"

text \<open>The result: the last tag, the local variables, the reader and the object.\<close>

function attr_loop ::
  "u8 list \<Rightarrow> 's attr_step \<Rightarrow> ipp_attrib \<Rightarrow> 's \<Rightarrow> ireq \<Rightarrow> ipp_t \<Rightarrow> sched \<Rightarrow> world \<Rightarrow> (u8 \<times> 's \<times> ireq \<times> ipp_t) run" where
  "attr_loop junk step t s r ob fs w =
     run_bind (ippGetAttribute junk t r fs w) (\<lambda>p fs w. case p of (tag, t, r) \<Rightarrow>
       if tag = IPP_TAG_ZERO then Done (tag, s, r, ob) fs w
       else if tag < IPP_TAG_UNSUPPORTED_VALUE
       then (if tag = IPP_TAG_END then Done (tag, s, r, ob) fs w else attr_loop junk step t s r ob fs w)
       else case step tag t s r ob w of
              Inl e \<Rightarrow> Fault e
            | Inr (s', ob') \<Rightarrow>
                if RetCode ob' \<noteq> IPP_OK then Done (tag, s', r, ob') fs w
                else attr_loop junk step t s' r ob' fs w)"
  by pat_completeness auto
termination
  by (relation "inv_image (measures [\<lambda>(r, fs, w). length fs, \<lambda>(r, fs, w). ileft r w]) (\<lambda>(j, st, t, s, r, ob, fs, w). (r, fs, w))")
    (auto dest!: ends_withD [OF ippGetAttribute_ends] simp: ipot_less_def)

declare attr_loop.simps [simp del]

text \<open>The uninitialised \<open>ippAttrib\<close> of a function.\<close>

definition fresh_attrib :: ipp_attrib where
  "fresh_attrib = \<lparr>attrib_name = [], val = Unset_v\<rparr>"

definition text_of :: "ipp_attrib \<Rightarrow> u8 list" where
  "text_of t = (case val t of Str_v c s \<Rightarrow> str_of s | _ \<Rightarrow> [])"

definition int_of :: "ipp_attrib \<Rightarrow> int" where
  "int_of t = (case val t of Int_v x \<Rightarrow> sint x | _ \<Rightarrow> 0)"

definition bool_of :: "ipp_attrib \<Rightarrow> u8" where
  "bool_of t = (case val t of Bool_v x \<Rightarrow> x | _ \<Rightarrow> 0)"

definition is_name :: "u8 \<Rightarrow> bool" where
  "is_name tag \<longleftrightarrow> tag = IPP_TAG_NAME \<or> tag = IPP_TAG_NAMELANG"

definition bad :: "ipp_t \<Rightarrow> ipp_t" where
  "bad ob = ob\<lparr>RetCode := IPP_CLIENT_BAD_REQUEST\<rparr>"

text \<open>The default branch: an attribute the operation does not know is added to the unsupported group.\<close>

definition add_unsupported :: "bool \<Rightarrow> bool \<Rightarrow> u8 \<Rightarrow> ipp_attrib \<Rightarrow> ipp_t \<Rightarrow> ipp_t res" where
  "add_unsupported mok unsupport tag t ob =
     or_fault Overflow (Option.bind
       (if unsupport then Some (UnSupportGroup ob)
        else ippAppend mok (UnSupportGroup ob) [IPP_TAG_UNSUPPORTED_GROUP] 1)
       (\<lambda>b. map_option (\<lambda>b. ob\<lparr>UnSupportGroup := b\<rparr>) (ippAddAttribute mok b tag t)))"

text \<open>The branch of \<open>printer-uri\<close>; \<open>k\<close> is the object to go on with.\<close>

definition check_uri :: "u8 \<Rightarrow> ipp_attrib \<Rightarrow> ipp_t \<Rightarrow> (bool \<times> ipp_t) res" where
  "check_uri tag t ob =
     (if tag \<noteq> IPP_TAG_URI then Inr (False, bad ob)
      else res_bind (or_fault NullRead (ippValidDestPort (text_of t) (DocType ob))) (\<lambda>p.
        Inr (if p \<noteq> 0 then (False, bad ob) else (True, ob))))"

section \<open>Print-Job and Validate-Job\<close>

record print_vars =
  fidelity :: u8
  pv_unsupport :: bool
  HaveJobName :: bool
  HaveUserName :: bool

definition print_step :: "print_vars attr_step" where
  "print_step tag t s r ob w =
     (let k = ippFindAttribute AttribTAG (attrib_name t)
      in if k = 0 then res_bind (check_uri tag t ob) (\<lambda>(_, ob). Inr (s, ob))
         else if k = 1
         then (if \<not> is_name tag then Inr (s, bad ob)
               else if ippreq r = IPP_PRINT_JOB
               then (if \<not> malloc_ok w then Inr (s, ob\<lparr>RetCode := IPP_SERVER_INTERNAL_ERROR\<rparr>)
                     else Inr (s\<lparr>HaveUserName := True\<rparr>, ob\<lparr>user_name := Some (text_of t)\<rparr>))
               else Inr (s\<lparr>HaveUserName := True\<rparr>, ob))
         else if k = 2
         then (if \<not> is_name tag then Inr (s, bad ob)
               else if ippreq r = IPP_PRINT_JOB
               then (if \<not> malloc_ok w then Inr (s, ob\<lparr>RetCode := IPP_SERVER_INTERNAL_ERROR\<rparr>)
                     else Inr (s\<lparr>HaveJobName := True\<rparr>, ob\<lparr>job_name := Some (text_of t)\<rparr>))
               else Inr (s\<lparr>HaveJobName := True\<rparr>, ob))
         else if k = 3
         then (if tag \<noteq> IPP_TAG_BOOLEAN then Inr (s, bad ob) else Inr (s\<lparr>fidelity := bool_of t\<rparr>, ob))
         else if k = 10
         then (if tag \<noteq> IPP_TAG_MIMETYPE then Inr (s, bad ob)
               else if text_of t \<notin> {IPP_DEFAULT_DOC_FORMAT, IPP_SECOND_DOC_FORMAT}
               then Inr (s, ob\<lparr>RetCode := IPP_CLIENT_DOCUMENT_FORMAT\<rparr>) else Inr (s, ob))
         else if k = 11 then (if \<not> is_name tag then Inr (s, bad ob) else Inr (s, ob))
         else res_bind (add_unsupported (malloc_ok w) (pv_unsupport s) tag t ob) (\<lambda>ob.
                Inr (s\<lparr>pv_unsupport := True\<rparr>, ob)))"

definition next_job_id :: "u16 \<Rightarrow> u16" where
  "next_job_id n = (if n + 1 \<ge> 1000 then 1 else n + 1)"

text \<open>The end of \<open>ippPrintValidateJob\<close> for a print job: defaults, number, and a place in the list.\<close>

definition queue_job :: "print_vars \<Rightarrow> ireq \<Rightarrow> ipp_t \<Rightarrow> world \<Rightarrow> ipp_t \<times> world" where
  "queue_job s r ob w =
     (if \<not> malloc_ok w \<and> \<not> (HaveJobName s \<and> HaveUserName s)
      then (ob\<lparr>RetCode := IPP_SERVER_INTERNAL_ERROR\<rparr>, w)
      else let ob1 = (if HaveJobName s then ob else ob\<lparr>job_name := Some IPP_DEFAULT_JOB_NAME\<rparr>);
               ob2 = (if HaveUserName s then ob1 else ob1\<lparr>user_name := Some IPP_DEFAULT_USER_NAME\<rparr>);
               q = ipp w; i = next_job_id (ippJobID q);
               ob3 = ob2\<lparr>job_state := IPP_JOB_PENDING, job_id := i, rd := r\<rparr>
           in (ob3, w\<lparr>ipp := q\<lparr>ippJobID := i, ippObjList := ippObjList q @ [ob3], ippJobsNo := ippJobsNo q + 1\<rparr>\<rparr>))"

definition ippPrintValidateJob :: "u8 list \<Rightarrow> ireq \<Rightarrow> ipp_t \<Rightarrow> sched \<Rightarrow> world \<Rightarrow> (ireq \<times> ipp_t) run" where
  "ippPrintValidateJob junk r ob fs w =
     (if ippreq r = IPP_PRINT_JOB \<and> ippJobsNo (ipp w) \<ge> IPP_MAX_USER
      then Done (r, ob\<lparr>RetCode := IPP_SERVER_SERVICE_UNAVAILABLE\<rparr>) fs w
      else run_bind (attr_loop junk print_step fresh_attrib
               \<lparr>fidelity = 0, pv_unsupport = False, HaveJobName = False, HaveUserName = False\<rparr> r
               (ob\<lparr>RetCode := IPP_OK\<rparr>) fs w) (\<lambda>p fs w. case p of (tag, s, r, ob) \<Rightarrow>
        if RetCode ob \<noteq> IPP_OK then Done (r, ob) fs w
        else if tag \<noteq> IPP_TAG_END then Done (r, bad ob) fs w
        else if pv_unsupport s \<and> fidelity s \<noteq> 0 then Done (r, ob\<lparr>RetCode := IPP_CLIENT_ATTRIBUTES\<rparr>) fs w
        else let ob = (if pv_unsupport s then ob\<lparr>RetCode := IPP_OK_SUBST\<rparr> else ob)
             in if ippreq r = IPP_PRINT_JOB
                then (case queue_job s r ob w of (ob, w) \<Rightarrow> Done (r, ob) fs w)
                else Done (r, ob) fs w))"

section \<open>Cancel-Job\<close>

record cancel_vars =
  cv_unsupport :: bool
  cv_PrnURI :: bool
  CancelJOB :: bool
  ippPrnJob :: "u16 option"

text \<open>The job with a number, a null pointer when there is none.\<close>

definition job_by_id :: "int \<Rightarrow> world \<Rightarrow> u16 option" where
  "job_by_id n w = map_option job_id (find (\<lambda>j. uint (job_id j) = n) (ippObjList (ipp w)))"

definition no_such_job :: "ipp_t \<Rightarrow> ipp_t" where
  "no_such_job ob = ob\<lparr>RetCode := IPP_CLIENT_NOT_FOUND\<rparr>"

definition cancel_step :: "cancel_vars attr_step" where
  "cancel_step tag t s r ob w =
     (let k = ippFindAttribute AttribTAG (attrib_name t)
      in if k = 0 then res_bind (check_uri tag t ob) (\<lambda>(ok, ob). Inr (if ok then s\<lparr>cv_PrnURI := True\<rparr> else s, ob))
         else if k = 4
         then (if tag \<noteq> IPP_TAG_INTEGER \<or> \<not> cv_PrnURI s then Inr (s, bad ob)
               else let p = job_by_id (int_of t) w; c = (CancelJOB s \<or> p \<noteq> None)
                    in Inr (s\<lparr>ippPrnJob := p, CancelJOB := c\<rparr>, if c then ob else no_such_job ob))
         else if k = 5
         then (if tag \<noteq> IPP_TAG_URI then Inr (s, bad ob)
               else res_bind (or_fault NullRead (ippValidDestJob (text_of t) (DocType ob) w)) (\<lambda>p.
                 Inr (if p = None then (s\<lparr>ippPrnJob := None\<rparr>, no_such_job ob)
                      else (s\<lparr>ippPrnJob := p, CancelJOB := True\<rparr>, ob))))
         else if k = 1 then (if \<not> is_name tag then Inr (s, bad ob) else Inr (s, ob))
         else res_bind (add_unsupported (malloc_ok w) (cv_unsupport s) tag t ob) (\<lambda>ob.
                Inr (s\<lparr>cv_unsupport := True\<rparr>, ob)))"

definition set_state :: "u16 \<Rightarrow> u8 \<Rightarrow> ippq \<Rightarrow> ippq" where
  "set_state i st q = q\<lparr>ippObjList := map (\<lambda>j. if job_id j = i then j\<lparr>job_state := st\<rparr> else j) (ippObjList q)\<rparr>"

text \<open>
  A job that is waiting is taken from the list. When it is the first, the list's head is set to null,
  whatever follows it.
\<close>

definition unlink_job :: "u16 \<Rightarrow> ipp_t list \<Rightarrow> ipp_t list" where
  "unlink_job i js =
     (case js of [] \<Rightarrow> [] | j # r \<Rightarrow> if job_id j = i then []
       else takeWhile (\<lambda>j. job_id j \<noteq> i) js @ tl (dropWhile (\<lambda>j. job_id j \<noteq> i) js))"

definition cancel_pending :: "ipp_t \<Rightarrow> world \<Rightarrow> world res" where
  "cancel_pending prn w =
     (let q = ipp w
      in close_other (prn\<lparr>job_state := IPP_JOB_CANCEL, RetCode := IPP_SERVER_ERROR_JOB_CANCELLED\<rparr>)
           (w\<lparr>ipp := q\<lparr>ippObjList := unlink_job (job_id prn) (ippObjList q), ippJobsNo := ippJobsNo q - 1\<rparr>\<rparr>))"

definition ippCancelJob :: "u8 list \<Rightarrow> ireq \<Rightarrow> ipp_t \<Rightarrow> sched \<Rightarrow> world \<Rightarrow> (ireq \<times> ipp_t) run" where
  "ippCancelJob junk r ob fs w =
     run_bind (attr_loop junk cancel_step fresh_attrib
         \<lparr>cv_unsupport = False, cv_PrnURI = False, CancelJOB = False, ippPrnJob = None\<rparr> r
         (ob\<lparr>RetCode := IPP_OK\<rparr>) fs w) (\<lambda>p fs w. case p of (tag, s, r, ob) \<Rightarrow>
       if RetCode ob \<noteq> IPP_OK then Done (r, ob) fs w
       else if \<not> CancelJOB s then Done (r, bad ob) fs w
       else case deref (ippPrnJob s) w of
              Inl e \<Rightarrow> Fault e
            | Inr prn \<Rightarrow>
                if job_state prn = IPP_JOB_ABORTING then Done (r, ob\<lparr>RetCode := IPP_CLIENT_NOT_POSSIBLE\<rparr>) fs w
                else if tag \<noteq> IPP_TAG_END then Done (r, bad ob) fs w
                else let ob' = (if cv_unsupport s then ob\<lparr>RetCode := IPP_OK_SUBST\<rparr> else ob)
                     in if job_state prn = IPP_JOB_PROCESS
                        then Done (r, ob') fs (w\<lparr>ipp := set_state (job_id prn) IPP_JOB_ABORTING (ipp w)\<rparr>)
                        else (case cancel_pending prn w of Inl e \<Rightarrow> Fault e | Inr w \<Rightarrow> Done (r, ob') fs w))"

section \<open>Get-Job-Attributes\<close>

text \<open>An attribute without a name belongs to the last one that had a name.\<close>

definition next_id :: "ipp_attrib \<Rightarrow> int \<Rightarrow> int" where
  "next_id t AttribID = (if str_of (attrib_name t) \<noteq> [] then ippFindAttribute AttribTAG (attrib_name t) else AttribID)"

record query_vars =
  qv_unsupport :: bool
  ippReqUnsupport :: bool
  qv_val :: int
  qv_PrnURI :: bool
  RequestAttr :: u32
  AttribID :: int
  qv_job :: "u16 option"
  ReqUserName :: "u8 list option"
  JobState :: u8
  MyJobOnly :: bool
  limit :: int

definition query_start :: query_vars where
  "query_start = \<lparr>qv_unsupport = False, ippReqUnsupport = False, qv_val = IPP_FIND_NO_VALUE, qv_PrnURI = False,
     RequestAttr = 0, AttribID = -1, qv_job = None, ReqUserName = None, JobState = IPP_JOB_NOT_COMPLETE,
     MyJobOnly = False, limit = uint IPP_MAX_USER\<rparr>"

text \<open>\<open>requested-attributes\<close>: a keyword sets its bit, an unknown one only the flag.\<close>

definition request_attr :: "u8 list list \<Rightarrow> ipp_attrib \<Rightarrow> query_vars \<Rightarrow> query_vars" where
  "request_attr tab t s =
     (let v = ippFindAttribute tab (text_of t); s1 = s\<lparr>qv_val := v\<rparr>
      in if v \<ge> 0 then s1\<lparr>RequestAttr := RequestAttr s OR push_bit (nat v) 1\<rparr> else s1\<lparr>ippReqUnsupport := True\<rparr>)"

definition query_default :: "u8 \<Rightarrow> ipp_attrib \<Rightarrow> query_vars \<Rightarrow> ipp_t \<Rightarrow> world \<Rightarrow> (query_vars \<times> ipp_t) res" where
  "query_default tag t s ob w =
     res_bind (add_unsupported (malloc_ok w) (qv_unsupport s) tag t ob) (\<lambda>ob. Inr (s\<lparr>qv_unsupport := True\<rparr>, ob))"

definition job_attr_step :: "query_vars attr_step" where
  "job_attr_step tag t s0 r ob w =
     (let k = next_id t (AttribID s0); s = s0\<lparr>AttribID := k\<rparr>
      in if k = 0 then res_bind (check_uri tag t ob) (\<lambda>(ok, ob). Inr (if ok then s\<lparr>qv_PrnURI := True\<rparr> else s, ob))
         else if k = 4
         then (if tag \<noteq> IPP_TAG_INTEGER \<or> \<not> qv_PrnURI s then Inr (s, bad ob)
               else let p = job_by_id (int_of t) w
                    in Inr (s\<lparr>qv_job := p\<rparr>, if p = None then no_such_job ob else ob))
         else if k = 5
         then (if tag \<noteq> IPP_TAG_URI then Inr (s, bad ob)
               else res_bind (or_fault NullRead (ippValidDestJob (text_of t) (DocType ob) w)) (\<lambda>p.
                 Inr (s\<lparr>qv_job := p\<rparr>, if p = None then no_such_job ob else ob)))
         else if k = 1 then (if \<not> is_name tag then Inr (s, bad ob) else Inr (s, ob))
         else if k = 9
         then (if tag \<noteq> IPP_TAG_KEYWORD \<or> qv_job s = None then Inr (s, bad ob)
               else Inr (request_attr JobTempAttribTAG t s, ob))
         else query_default tag t s ob w)"

definition done_or_fault :: "ireq \<Rightarrow> ipp_t res \<Rightarrow> sched \<Rightarrow> world \<Rightarrow> (ireq \<times> ipp_t) run" where
  "done_or_fault r x fs w = (case x of Inl e \<Rightarrow> Fault e | Inr ob \<Rightarrow> Done (r, ob) fs w)"

text \<open>The status of an answer that leaves something out.\<close>

definition subst_status :: "query_vars \<Rightarrow> ipp_t \<Rightarrow> ipp_t" where
  "subst_status s ob = (if qv_unsupport s \<or> ippReqUnsupport s then ob\<lparr>RetCode := IPP_OK_SUBST\<rparr> else ob)"

definition ippGetJobAttribute :: "u8 list \<Rightarrow> ireq \<Rightarrow> ipp_t \<Rightarrow> sched \<Rightarrow> world \<Rightarrow> (ireq \<times> ipp_t) run" where
  "ippGetJobAttribute junk r ob fs w =
     run_bind (attr_loop junk job_attr_step fresh_attrib query_start r ob fs w) (\<lambda>p fs w. case p of (tag, s, r, ob) \<Rightarrow>
       if RetCode ob \<noteq> IPP_OK then Done (r, ob) fs w
       else if tag \<noteq> IPP_TAG_END \<or> qv_job s = None then Done (r, bad ob) fs w
       else done_or_fault r
         (res_bind (resp_tag (malloc_ok w) IPP_TAG_JOB (subst_status s ob)) (\<lambda>ob.
          res_bind (deref (qv_job s) w) (\<lambda>prn.
            set_requested (\<lambda>v. ippSetJobAttribute (malloc_ok w) v prn) 10 (qv_val s) (RequestAttr s) ob))) fs w)"

section \<open>Get-Jobs\<close>

definition jobs_step :: "query_vars attr_step" where
  "jobs_step tag t s0 r ob w =
     (let k = next_id t (AttribID s0); s = s0\<lparr>AttribID := k\<rparr>
      in if k = 0 then res_bind (check_uri tag t ob) (\<lambda>(_, ob). Inr (s, ob))
         else if k = 1
         then (if \<not> is_name tag \<or> ReqUserName s \<noteq> None then Inr (s, bad ob)
               else Inr (if malloc_ok w then s\<lparr>ReqUserName := Some (text_of t)\<rparr> else s, ob))
         else if k = 9
         then (if tag \<noteq> IPP_TAG_KEYWORD then Inr (s, bad ob) else Inr (request_attr JobTempAttribTAG t s, ob))
         else if k = 6
         then (if tag \<noteq> IPP_TAG_INTEGER then Inr (s, bad ob)
               else Inr (if int_of t < limit s then s\<lparr>limit := int_of t\<rparr> else s, ob))
         else if k = 7
         then (if tag \<noteq> IPP_TAG_KEYWORD then Inr (s, bad ob)
               else if text_of t = cstr ''completed'' then Inr (s\<lparr>JobState := IPP_JOB_COMPLETE\<rparr>, ob)
               else if text_of t = cstr ''not-completed'' then Inr (s\<lparr>JobState := IPP_JOB_NOT_COMPLETE\<rparr>, ob)
               else res_bind (query_default tag (t\<lparr>attrib_name := AttribTAG ! 9\<rparr>) s ob w) (\<lambda>(s, ob).
                 Inr (s, ob\<lparr>RetCode := IPP_CLIENT_ATTRIBUTES\<rparr>)))
         else if k = 8
         then (if tag \<noteq> IPP_TAG_BOOLEAN then Inr (s, bad ob)
               else Inr (if bool_of t \<noteq> 0 then s\<lparr>MyJobOnly := True\<rparr> else s, ob))
         else query_default tag t s ob w)"

text \<open>The job's group in the answer; without \<open>requested-attributes\<close> only its address and number.\<close>

definition job_group :: "bool \<Rightarrow> query_vars \<Rightarrow> ipp_t \<Rightarrow> ipp_t \<Rightarrow> ipp_t res" where
  "job_group mok s prn ob =
     res_bind (resp_tag mok IPP_TAG_JOB ob) (\<lambda>ob.
       if qv_val s = IPP_FIND_NO_VALUE then set_all (\<lambda>v. ippSetJobAttribute mok v prn) [1, 2] ob
       else set_requested (\<lambda>v. ippSetJobAttribute mok v prn) 10 (qv_val s) (RequestAttr s) ob)"

fun list_jobs :: "bool \<Rightarrow> query_vars \<Rightarrow> ipp_t list \<Rightarrow> ipp_t \<Rightarrow> ipp_t res" where
  "list_jobs mok s [] ob = Inr ob"
| "list_jobs mok s (j # js) ob =
     (if limit s = 0 then list_jobs mok s js ob
      else if \<not> MyJobOnly s then res_bind (job_group mok s j ob) (list_jobs mok (s\<lparr>limit := limit s - 1\<rparr>) js)
      else case (user_name j, ReqUserName s) of
             (Some u, Some n) \<Rightarrow>
               (if str_of u = n then res_bind (job_group mok s j ob) (list_jobs mok (s\<lparr>limit := limit s - 1\<rparr>) js)
                else list_jobs mok s js ob)
           | _ \<Rightarrow> Inl NullRead)"

definition ippGetJobs :: "u8 list \<Rightarrow> ireq \<Rightarrow> ipp_t \<Rightarrow> sched \<Rightarrow> world \<Rightarrow> (ireq \<times> ipp_t) run" where
  "ippGetJobs junk r ob fs w =
     run_bind (attr_loop junk jobs_step fresh_attrib query_start r ob fs w) (\<lambda>p fs w. case p of (tag, s, r, ob) \<Rightarrow>
       if RetCode ob \<noteq> IPP_OK then Done (r, ob) fs w
       else if tag \<noteq> IPP_TAG_END then Done (r, bad ob) fs w
       else let ob = subst_status s ob
            in if JobState s = IPP_JOB_NOT_COMPLETE
               then done_or_fault r (list_jobs (malloc_ok w) s (ippObjList (ipp w)) ob) fs w
               else Done (r, ob) fs w)"

section \<open>Get-Printer-Attributes\<close>

definition printer_step :: "query_vars attr_step" where
  "printer_step tag t s0 r ob w =
     (let k = next_id t (AttribID s0); s = s0\<lparr>AttribID := k\<rparr>
      in if k = 0 then res_bind (check_uri tag t ob) (\<lambda>(_, ob). Inr (s, ob))
         else if k = 1 then (if \<not> is_name tag then Inr (s, bad ob) else Inr (s, ob))
         else if k = 9
         then (if tag \<noteq> IPP_TAG_KEYWORD then Inr (s, bad ob) else Inr (request_attr PrinterDescriptionTAG t s, ob))
         else if k = 10
         then (if tag \<noteq> IPP_TAG_MIMETYPE then Inr (s, bad ob)
               else if text_of t \<notin> {IPP_DEFAULT_DOC_FORMAT, IPP_SECOND_DOC_FORMAT}
               then Inr (s, ob\<lparr>RetCode := IPP_CLIENT_DOCUMENT_FORMAT\<rparr>) else Inr (s, ob))
         else query_default tag t s ob w)"

definition ippGetPrinterAttr :: "u8 list \<Rightarrow> ireq \<Rightarrow> ipp_t \<Rightarrow> sched \<Rightarrow> world \<Rightarrow> (ireq \<times> ipp_t) run" where
  "ippGetPrinterAttr junk r ob fs w =
     run_bind (attr_loop junk printer_step fresh_attrib query_start r ob fs w) (\<lambda>p fs w. case p of (tag, s, r, ob) \<Rightarrow>
       if RetCode ob \<noteq> IPP_OK then Done (r, ob) fs w
       else if tag \<noteq> IPP_TAG_END then Done (r, bad ob) fs w
       else done_or_fault r
         (res_bind (resp_tag (malloc_ok w) IPP_TAG_PRINTER (subst_status s ob)) (\<lambda>ob.
            set_requested (\<lambda>v. ippSetPrinterAttribute v w) 20 (qv_val s) (RequestAttr s) ob)) fs w)"

section \<open>\<open>ippd\<close>\<close>

text \<open>What becomes of the object: it was answered, or put into the list, where the thread that prints
  the jobs is started unless it is running.\<close>

datatype ipp_out = Answered | Queued bool

definition run_op :: "u8 list \<Rightarrow> u8 list \<Rightarrow> ireq \<Rightarrow> ipp_t \<Rightarrow> sched \<Rightarrow> world \<Rightarrow> (ireq \<times> ipp_t) run" where
  "run_op op junk r ob fs w =
     (if op ! 0 \<noteq> 0 then Done (r, ob\<lparr>RetCode := IPP_SERVER_OPERATION_NOT_SUPPORTED\<rparr>) fs w
      else if op ! 1 = IPP_PRINT_JOB \<or> op ! 1 = IPP_VALIDATE_JOB then ippPrintValidateJob junk r ob fs w
      else if op ! 1 = IPP_CANCEL_JOB then ippCancelJob junk r ob fs w
      else if op ! 1 = IPP_GET_JOB_ATTRIBUTES then ippGetJobAttribute junk r ob fs w
      else if op ! 1 = IPP_GET_JOBS then ippGetJobs junk r ob fs w
      else if op ! 1 = IPP_GET_PRINTER_ATTRIBUTES then ippGetPrinterAttr junk r ob fs w
      else Done (r, ob\<lparr>RetCode := IPP_SERVER_OPERATION_NOT_SUPPORTED\<rparr>) fs w)"

text \<open>
  The attributes every request begins with: the operation group, the character set, the language.
  \<open>ippreq\<close> becomes the operation's low byte.
\<close>

definition ipp_operation :: "u8 list \<Rightarrow> ireq \<Rightarrow> ipp_t \<Rightarrow> sched \<Rightarrow> world \<Rightarrow> (ireq \<times> ipp_t) run" where
  "ipp_operation junk r ob fs w =
     run_bind (ippRead junk 8 r fs w) (\<lambda>p fs w. case p of (h8, r) \<Rightarrow>
     if length h8 < 8 then Done (r, bad ob) fs w
     else if h8 ! 0 \<noteq> 1 then Done (r, ob\<lparr>RetCode := IPP_SERVER_VERSION_NOT_SUPPORTED\<rparr>) fs w
     else let ob = ob\<lparr>ID := take 4 (drop 4 h8)\<rparr> in
     run_bind (ippGetAttribute junk fresh_attrib r fs w) (\<lambda>p fs w. case p of (tag, t, r) \<Rightarrow>
     if tag \<noteq> IPP_TAG_OPERATION then run_bind (ippFreeAttribute tag fs w) (\<lambda>_ fs w. Done (r, bad ob) fs w)
     else run_bind (ippGetAttribute junk t r fs w) (\<lambda>p fs w. case p of (tag, t, r) \<Rightarrow>
     if tag \<noteq> IPP_TAG_CHARSET then run_bind (ippFreeAttribute tag fs w) (\<lambda>_ fs w. Done (r, bad ob) fs w)
     else if text_of t \<notin> {IPP_DEFAULT_CHARSET, IPP_SECOND_CHARSET}
     then Done (r, ob\<lparr>RetCode := IPP_CLIENT_CHARSET\<rparr>) fs w
     else let ob = ob\<lparr>Charset := Some (text_of t)\<rparr> in
     run_bind (ippGetAttribute junk t r fs w) (\<lambda>p fs w. case p of (tag, t, r) \<Rightarrow>
     if tag \<noteq> IPP_TAG_LANGUAGE then run_bind (ippFreeAttribute tag fs w) (\<lambda>_ fs w. Done (r, bad ob) fs w)
     else run_op (take 2 (drop 2 h8)) junk (r\<lparr>ippreq := h8 ! 3\<rparr>) (ob\<lparr>Language := Some (text_of t)\<rparr>) fs w))))"

definition ippd :: "u8 list \<Rightarrow> ireq \<Rightarrow> ipp_t \<Rightarrow> sched \<Rightarrow> world \<Rightarrow> (ipp_out \<times> ireq \<times> ipp_t) run" where
  "ippd junk r ob0 fs w =
     run_bind (ipp_operation junk r (ob0\<lparr>RetCode := IPP_OK, ID := [0, 0, 0, 0]\<rparr>) fs w) (\<lambda>p fs w. case p of (r, ob) \<Rightarrow>
       if ippreq r = IPP_PRINT_JOB \<and> RetCode ob < IPP_CLIENT_BAD_REQUEST
       then (if \<not> ippProcessOn (ipp w)
             then Done (Queued True, r, ob) fs (w\<lparr>ipp := (ipp w)\<lparr>ippProcessOn := True\<rparr>\<rparr>)
             else Done (Queued False, r, ob) fs (sendack w))
       else let r = (if ippreq r = IPP_PRINT_JOB then r\<lparr>ippreq := IPP_PRINT_JOB_ERROR\<rparr> else r)
            in case ippSendResp ob w of Inl e \<Rightarrow> Fault e | Inr w \<Rightarrow> Done (Answered, r, ob) fs w)"

end
