(* ===== verification/Ipp_Stream.thy ===== *)
theory Ipp_Stream
  imports Ipp_Cmd Net_Job
begin

text \<open>
  What the printing server reads of its connection: the bytes left in the input buffer, then the
  connection's stream. For a body whose length the request gives (not in chunks), \<open>httpRead\<close> and
  \<open>ippRead\<close> hand out exactly the bytes of this stream, however it arrives.
\<close>

definition unread :: "ireq \<Rightarrow> u8 list" where
  "unread r = take (nat (icnt r)) (drop (ipos r) (ibuf r))"

definition istream :: "ireq \<Rightarrow> world \<Rightarrow> u8 list" where
  "istream r w = unread r @ stream w"

text \<open>The buffer's counters are within the buffer.\<close>

definition ireq_ok :: "ireq \<Rightarrow> bool" where
  "ireq_ok r \<longleftrightarrow> 0 \<le> icnt r \<and> ipos r + nat (icnt r) \<le> length (ibuf r)"

lemma ireq_simps [simp]:
  "unread (r\<lparr>qsize := q\<rparr>) = unread r" "ireq_ok (r\<lparr>qsize := q\<rparr>) = ireq_ok r" "istream (r\<lparr>qsize := q\<rparr>) w = istream r w"
  "istream (r\<lparr>chunked := c\<rparr>) w = istream r w" "istream (r\<lparr>ippreq := i\<rparr>) w = istream r w"
  by (simp_all add: unread_def ireq_ok_def istream_def)

text \<open>The part of the object that reading does not change.\<close>

definition same_req :: "ireq \<Rightarrow> ireq \<Rightarrow> bool" where
  "same_req r r' \<longleftrightarrow> chunked r' = chunked r \<and> ippreq r' = ippreq r"

text \<open>What may hold where the server waits for data.\<close>

definition may_starve :: "nat set \<Rightarrow> u8 list \<Rightarrow> (world \<Rightarrow> bool) \<Rightarrow> bool" where
  "may_starve H sub B \<longleftrightarrow> (\<forall>w. pp_inv (psy w) H sub \<and> mbox w = [] \<and> lastdata w = [] \<and> \<not> rxdead w \<longrightarrow> B w)"

lemma may_starve_waits: "may_starve H sub (waits busy sub T)"
  by (auto simp: may_starve_def intro: waitsI)

lemma fill_job:
  assumes b: "may_starve H sub B" and inv: "job_inv H sub fs w" and ok: "ireq_ok r"
  shows "holds (fill_if_empty r fs w) B
    (\<lambda>(go, r') fs' w'. job_inv H sub fs' w' \<and> same_job H w w' \<and> same_req r r' \<and> qsize r' = qsize r \<and>
       (go \<and> ireq_ok r' \<and> 0 < icnt r' \<and> istream r' w' = istream r w \<or> \<not> go \<and> istream r w = []))"
proof (cases "icnt r = 0")
  case True
  have "holds (lwip_recv IBUF_SIZE fs w) B
    (\<lambda>(n, bs) fs' w'. job_inv H sub fs' w' \<and> same_job H w w' \<and> recv_ok IBUF_SIZE w n bs w')"
    using b by (intro holds_mono [OF recv_job [OF inv]]) (simp_all add: IBUF_SIZE_def may_starve_def)
  then show ?thesis
    unfolding fill_if_empty_def refill_def if_P [OF True] using True
    by (cases "lwip_recv IBUF_SIZE fs w")
      (auto simp: recv_ok_def ireq_ok_def same_req_def istream_def unread_def)
next
  case False
  with inv ok show ?thesis by (auto simp: fill_if_empty_def ireq_ok_def same_req_def)
qed

text \<open>\<open>recv\<close> on the file: some bytes, at most \<open>len\<close>, or -1 when all was read and the peer closed.\<close>

lemma zot_recv_job:
  assumes b: "may_starve H sub B" and inv: "job_inv H sub fs w" and ok: "ireq_ok r" and len: "0 < len"
  shows "holds (zot_recv len r fs w) B
    (\<lambda>(n, bs, r') fs' w'. job_inv H sub fs' w' \<and> same_job H w w' \<and> same_req r r' \<and> qsize r' = qsize r \<and>
       (0 < n \<and> n \<le> len \<and> n = int (length bs) \<and> ireq_ok r' \<and> istream r w = bs @ istream r' w' \<or>
        n = -1 \<and> bs = [] \<and> istream r w = []))"
  unfolding zot_recv_def
proof (rule holds_bind [OF fill_job [OF b inv ok]], goal_cases)
  case (1 p fs1 w1)
  obtain go r1 where p: "p = (go, r1)" by fastforce
  show ?case
  proof (cases go)
    case True
    define n where "n = min len (icnt r1)"
    with 1 True len have f: "0 < n" "n \<le> icnt r1" "ireq_ok r1" "istream r1 w1 = istream r w" by (auto simp: p)
    define bs where "bs = take (nat n) (drop (ipos r1) (ibuf r1))"
    define r2 where "r2 = r1\<lparr>ipos := ipos r1 + nat n, icnt := icnt r1 - n\<rparr>"
    have l: "ipos r1 + nat n \<le> length (ibuf r1)" using f by (auto simp: ireq_ok_def nat_le_iff)
    have "nat (icnt r1) = nat n + nat (icnt r1 - n)" using f by simp
    then have "unread r1 = bs @ unread r2" by (simp add: unread_def bs_def r2_def take_add add.commute)
    moreover have "ireq_ok r2" using f by (auto simp: ireq_ok_def r2_def)
    moreover have "same_req r r2" "qsize r2 = qsize r" using 1 by (simp_all add: p r2_def same_req_def)
    ultimately show ?thesis
      using f l 1 True by (simp add: p Let_def istream_def r2_def bs_def flip: n_def) (simp add: n_def)
  qed (use 1 in \<open>simp add: p\<close>)
qed

text \<open>The body of a request with a length.\<close>

lemma httpRead_plain:
  assumes b: "may_starve H sub B" and inv: "job_inv H sub fs w" and ok: "ireq_ok r" "\<not> chunked r" and len: "0 < len"
  shows "holds (httpRead junk len r fs w) B
    (\<lambda>(n, bs, r') fs' w'. job_inv H sub fs' w' \<and> same_job H w w' \<and> \<not> chunked r' \<and> n = int (length bs) \<and>
       (if qsize r \<le> 0 then n = 0 \<and> r' = r \<and> istream r' w' = istream r w
        else 0 < n \<and> n \<le> min len (qsize r) \<and> ireq_ok r' \<and> istream r w = bs @ istream r' w' \<and>
             qsize r' = qsize r - n \<and> ippreq r' = ippreq r
          \<or> n = 0 \<and> istream r w = [] \<and> qsize r' = 0 \<and> ippreq r' = IPP_PRINT_JOB_TIME_OUT))"
proof (cases "qsize r \<le> 0")
  case True
  with inv ok show ?thesis by (simp add: httpRead_def)
next
  case False
  define m where "m = (if len > qsize r then qsize r else len)"
  have m: "0 < m" "m = min len (qsize r)" using False len by (simp_all add: m_def)
  show ?thesis
    unfolding httpRead_def
    by (simp add: ok False flip: m_def, rule holds_bind [OF zot_recv_job [OF b inv ok(1) m(1)]])
      (use ok m(2) in \<open>auto simp: same_req_def Let_def\<close>)
qed

text \<open>
  After reading: \<open>n\<close> bytes were taken from the stream, of which \<open>rest\<close> is left.
\<close>

definition took :: "nat set \<Rightarrow> u8 list \<Rightarrow> world \<Rightarrow> ireq \<Rightarrow> int \<Rightarrow> u8 list \<Rightarrow> ireq \<Rightarrow> sched \<Rightarrow> world \<Rightarrow> bool" where
  "took H sub w r n rest r' fs' w' \<longleftrightarrow> job_inv H sub fs' w' \<and> same_job H w w' \<and> ireq_ok r' \<and> \<not> chunked r' \<and>
     istream r' w' = rest \<and> qsize r' = qsize r - n \<and> ippreq r' = ippreq r"

lemma took_refl: "job_inv H sub fs w \<Longrightarrow> ireq_ok r \<Longrightarrow> \<not> chunked r \<Longrightarrow> took H sub w r 0 (istream r w) r fs w"
  by (simp add: took_def)

lemma took_trans: "took H sub w1 r1 m rest r2 fs2 w2 \<Longrightarrow> took H sub w r n s r1 fs1 w1 \<Longrightarrow> took H sub w r (n + m) rest r2 fs2 w2"
  by (auto simp: took_def intro: same_job_trans)

lemma ippRead_plain:
  assumes b: "may_starve H sub B" and "job_inv H sub fs w" "ireq_ok r" "\<not> chunked r"
    and "istream r w = bs @ rest" "int (length bs) = len" "len \<le> qsize r"
  shows "holds (ippRead junk len r fs w) B (\<lambda>(xs, r') fs' w'. xs = bs \<and> took H sub w r len rest r' fs' w')"
  using assms(2-)
proof (induction junk len r fs w arbitrary: bs rule: ippRead.induct)
  case (1 junk len r fs w)
  show ?case
  proof (cases "len = 0")
    case True
    with 1(2-) show ?thesis by (subst ippRead.simps) (auto simp: took_def)
  next
    case False
    with 1(6,7) have len: "0 < len" "\<not> qsize r \<le> 0" by auto
    have ne: "istream r w \<noteq> []" using 1(5,6) False by auto
    show ?thesis
    proof (subst ippRead.simps, unfold if_not_P [OF False], rule holds_bind_eq [OF httpRead_plain [OF b 1(2-4) len(1)]], goal_cases)
      case (1 x fs1 w1)
      obtain n ys r1 where x: "x = (n, ys, r1)" by (cases x) auto
      from 1(2) len ne have r1: "0 < n" "n \<le> len" "n = int (length ys)" "took H sub w r n (istream r1 w1) r1 fs1 w1"
        "istream r w = ys @ istream r1 w1" "istream r1 w1 = istream r1 w1"
        by (auto simp: x took_def)
      obtain zs where zs: "bs = ys @ zs" "istream r1 w1 = zs @ rest"
        using r1(2,3,5) \<open>istream r w = bs @ rest\<close> \<open>int (length bs) = len\<close>
        by (auto simp: append_eq_append_conv2)
      have "holds (ippRead junk (len - n) r1 fs1 w1) B
        (\<lambda>(xs, r') fs' w'. xs = zs \<and> took H sub w1 r1 (len - n) rest r' fs' w')"
        using r1 zs \<open>int (length bs) = len\<close> \<open>len \<le> qsize r\<close>
        by (intro "1.IH" [OF False 1(1) x [symmetric] refl]) (auto simp: took_def)
      then show ?case
        using r1(1) zs(1) took_trans [OF _ r1(4), of "len - n" rest]
        by (auto simp: x elim!: holds_bind)
    qed
  qed
qed

section \<open>Appending\<close>

lemma len16_small: "length (str_of s) < 2 ^ 15 \<Longrightarrow> len16 s = int (length (str_of s))"
  by (simp add: len16_def signed_of_nat signed_take_bit_int_eq_self)

lemma str_of_id: "0 \<notin> set s \<Longrightarrow> str_of s = s"
  by (auto simp: str_of_def takeWhile_eq_all_conv)

lemma ippAppend_ok: "0 \<le> n \<Longrightarrow> \<exists>b'. ippAppend mok b bs n = Some b'"
  by (simp add: ippAppend_def)

lemma append_all_ok: "\<forall>(bs, n)\<in>set ps. 0 \<le> n \<Longrightarrow> \<exists>b'. append_all mok ps b = Some b'"
  by (induction ps arbitrary: b) (auto simp: ippAppend_def)

end
