(* ===== verification/Ipp_Attr_Props.thy ===== *)
theory Ipp_Attr_Props
  imports Ipp_Stream Net_Start
begin

text \<open>
  The attributes of the Internet printing server: what \<open>ippGetAttribute\<close> returns is well-typed, and what
  \<open>ippAddAttribute\<close> writes is read back, however the connection cuts it into segments.
\<close>

unbundle bit_operations_syntax

section \<open>Types\<close>

text \<open>The member of the union that goes with a tag, and the range of its lengths.\<close>

definition value_typed :: "u8 \<Rightarrow> ipp_value \<Rightarrow> bool" where
  "value_typed tag v \<longleftrightarrow> (case v of
     Int_v x \<Rightarrow> tag = IPP_TAG_INTEGER \<or> tag = IPP_TAG_ENUM
   | Bool_v x \<Rightarrow> tag = IPP_TAG_BOOLEAN
   | Date_v d \<Rightarrow> tag = IPP_TAG_DATE \<and> length d = 11
   | Res_v x y u \<Rightarrow> tag = IPP_TAG_RESOLUTION
   | Range_v l u \<Rightarrow> tag = IPP_TAG_RANGE
   | Str_v c s \<Rightarrow> length s < 2 ^ 15 \<and> (case c of None \<Rightarrow> is_text tag
       | Some c \<Rightarrow> (tag = IPP_TAG_TEXTLANG \<or> tag = IPP_TAG_NAMELANG) \<and> length c < 2 ^ 15)
   | Unk_v n d \<Rightarrow> value_parts tag v \<noteq> None \<and> - (2 ^ 15) \<le> n \<and> length d = nat n
   | Unset_v \<Rightarrow> False)"

definition attr_typed :: "u8 \<Rightarrow> ipp_attrib \<Rightarrow> bool" where
  "attr_typed tag t \<longleftrightarrow> length (attrib_name t) \<le> 80 \<and> value_typed tag (val t)"

lemma be16_range: "- (2 ^ 15) \<le> be16 b" "be16 b < 2 ^ 15"
proof -
  obtain x y where "uint (b ! 0) = x" "uint (b ! 1) = y" "0 \<le> x" "0 \<le> y" "x < 256" "y < 256"
    using uint_lt2p [of "b ! 0"] uint_lt2p [of "b ! 1"] by simp
  then show "- (2 ^ 15) \<le> be16 b" "be16 b < 2 ^ 15" by (simp_all add: be16_def Let_def)
qed

lemma value_typed_parts: "value_typed tag v \<Longrightarrow> value_parts tag v \<noteq> None"
  by (cases v) (auto simp: value_typed_def value_parts_def is_text_def ipp_tags split: option.splits)

lemma ends_with_if: "(c \<Longrightarrow> ends_with P m) \<Longrightarrow> (\<not> c \<Longrightarrow> ends_with P m') \<Longrightarrow> ends_with P (if c then m else m')"
  by simp

text \<open>Reading keeps a property of the result that holds for \<^const>\<open>IPP_TAG_ZERO\<close>.\<close>

lemma get_n_typed:
  assumes "\<And>t o2. P (IPP_TAG_ZERO, t, o2)"
    "\<And>bs o2 fs2 w2. int (length bs) = max 0 n \<Longrightarrow> ends_with (\<lambda>x _ _. P x) (k bs o2 fs2 w2)"
  shows "ends_with (\<lambda>x _ _. P x) (get_n junk t n k o1 fs w)"
  unfolding get_n_def
proof (rule ends_with_bind [OF ippRead_ends], goal_cases)
  case (1 p fs1 w1)
  then show ?case using assms by (cases p) auto
qed

lemma get_text_typed:
  assumes "\<And>t o2. P (IPP_TAG_ZERO, t, o2)"
    "\<And>bs o2 fs2 w2. int (length bs) = n \<Longrightarrow> ends_with (\<lambda>x _ _. P x) (k bs o2 fs2 w2)"
  shows "ends_with (\<lambda>x _ _. P x) (get_text junk t n k o1 fs w)"
  unfolding get_text_def using assms by (auto intro!: get_n_typed)

definition got_typed :: "got \<Rightarrow> bool" where
  "got_typed x \<longleftrightarrow> (case x of (tag, t, r) \<Rightarrow> tag < IPP_TAG_UNSUPPORTED_VALUE \<or> attr_typed tag t)"

lemma got_typed_zero [simp]: "got_typed (IPP_TAG_ZERO, t, r)"
  by (simp add: got_typed_def ipp_tags)

lemma ippGetValue_typed:
  assumes "length (attrib_name t) \<le> 80" "n16 < 2 ^ 15" "- (2 ^ 15) \<le> n16"
  shows "ends_with (\<lambda>x _ _. got_typed x) (ippGetValue junk tag n16 t o1 fs w)"
proof -
  have v: "got_typed (tag, t\<lparr>val := v\<rparr>, r)" if "value_typed tag v" for tag v r
    using that assms(1) by (simp add: got_typed_def attr_typed_def)
  note get = get_n_typed [where P = got_typed, OF got_typed_zero]
  note gtext = get_text_typed [where P = got_typed, OF got_typed_zero]
  have lang: "ends_with (\<lambda>x _ _. got_typed x) (get_n junk t 2 (\<lambda>b. let n = be16 b; n32 = n16 - n in
                get_text junk t n (\<lambda>charset. get_n junk t 2 (\<lambda>b. let n = be16 b in
                  if n32 \<noteq> n then (\<lambda>o2 fs w. Done (IPP_TAG_ZERO, t, o2) fs w)
                  else get_text junk t n (\<lambda>s o2 fs w. Done (tag, t\<lparr>val := Str_v (Some charset) s\<rparr>, o2) fs w)))) o1 fs w)"
    if "tag = IPP_TAG_TEXTLANG \<or> tag = IPP_TAG_NAMELANG" for o1 fs w
  proof -
    have l: "length s < 2 ^ 15" if "int (length s) = be16 b" for s :: "u8 list" and b using that be16_range(2) [of b] by simp
    have vs: "got_typed (tag, t\<lparr>val := Str_v (Some charset) s\<rparr>, r)" if "length charset < 2 ^ 15" "length s < 2 ^ 15"
      for charset s r using v that \<open>tag = IPP_TAG_TEXTLANG \<or> tag = IPP_TAG_NAMELANG\<close> by (simp add: value_typed_def)
    have s2: "ends_with (\<lambda>x _ _. got_typed x) (get_text junk t (be16 b) (\<lambda>s o2 fs w.
         Done (tag, t\<lparr>val := Str_v (Some charset) s\<rparr>, o2) fs w) o2 fs2 w2)"
      if "length charset < 2 ^ 15" for b charset o2 fs2 w2
      using vs [OF that l] by (intro gtext) simp
    have s: "ends_with (\<lambda>x _ _. got_typed x)
      (get_n junk t 2 (\<lambda>b. let n = be16 b in
         if n32 \<noteq> n then (\<lambda>o2 fs w. Done (IPP_TAG_ZERO, t, o2) fs w)
         else get_text junk t n (\<lambda>s o2 fs w. Done (tag, t\<lparr>val := Str_v (Some charset) s\<rparr>, o2) fs w)) o2 fs2 w2)"
      if "length charset < 2 ^ 15" for n32 charset o2 fs2 w2
      using s2 [OF that] by (intro get) (simp add: Let_def)
    have "ends_with (\<lambda>x _ _. got_typed x) (get_text junk t n (\<lambda>charset. get_n junk t 2 (\<lambda>b. let n = be16 b in
         if n32 \<noteq> n then (\<lambda>o2 fs w. Done (IPP_TAG_ZERO, t, o2) fs w)
         else get_text junk t n (\<lambda>s o2 fs w. Done (tag, t\<lparr>val := Str_v (Some charset) s\<rparr>, o2) fs w))) o2 fs2 w2)"
      if "n < 2 ^ 15" for n n32 o2 fs2 w2
    proof (rule gtext, goal_cases)
      case (1 bs o2 fs2 w2)
      with that show ?case by (intro s) simp
    qed
    from this [OF be16_range(2)] show ?thesis by (intro get) (simp only: Let_def)
  qed
  show ?thesis
    unfolding ippGetValue_def Let_def
    using assms(2,3) by (intro ends_with_if; (rule lang [unfolded Let_def], assumption |
        auto simp: value_typed_def value_parts_def intro!: get gtext v))
qed

text \<open>C36: An attribute the server reads is well-typed, whatever the peer sends and however it arrives: the
  member of the union that was written is the one that goes with its tag, a name has at most 80 bytes
  (the array has room for them and a NUL), and texts are shorter than 32768 bytes. In particular \<open>ippAddAttribute\<close>,
  which copies attributes it does not know into the answer, never reads another member than was written.\<close>

theorem ipp_attribute_typed:
  "ends_with (\<lambda>(tag, t', r') fs' w'. tag < IPP_TAG_UNSUPPORTED_VALUE \<or>
       attr_typed tag t' \<and> value_parts tag (val t') \<noteq> None)
     (ippGetAttribute junk t r fs w)"
proof -
  have b: "int (length bs) = max 0 1 \<Longrightarrow> bs \<noteq> []" for bs :: "u8 list" by auto
  have v: "ends_with (\<lambda>x _ _. got_typed x) (get_n junk (t\<lparr>attrib_name := name\<rparr>) 2
      (\<lambda>b. ippGetValue junk tag (be16 b) (t\<lparr>attrib_name := name\<rparr>)) o2 fs2 w2)"
    if "int (length name) \<le> IPP_MAX_ATTRIB_NAME" for name tag o2 fs2 w2
    using that be16_range
    by (intro get_n_typed) (auto simp: IPP_MAX_ATTRIB_NAME_def intro!: ippGetValue_typed)
  have n: "ends_with (\<lambda>x _ _. got_typed x) (get_n junk t n16 (if n16 < 0 then (\<lambda>_ _ _ _. Fault Overflow) else (\<lambda>name.
           let t1 = t\<lparr>attrib_name := name\<rparr> in
           get_n junk t1 2 (\<lambda>b. ippGetValue junk tag (be16 b) t1))) o2 fs2 w2)"
    if "n16 \<le> IPP_MAX_ATTRIB_NAME" for n16 tag o2 fs2 w2
    using that by (intro get_n_typed) (auto simp: Let_def intro!: v)
  have l: "ends_with (\<lambda>x _ _. got_typed x) (get_n junk t 2 (\<lambda>b. let n16 = be16 b in
         if n16 > IPP_MAX_ATTRIB_NAME then (\<lambda>o1 fs w. Done (IPP_TAG_ZERO, t, o1) fs w)
         else get_n junk t n16 (if n16 < 0 then (\<lambda>_ _ _ _. Fault Overflow) else (\<lambda>name.
           let t1 = t\<lparr>attrib_name := name\<rparr> in
           get_n junk t1 2 (\<lambda>b. ippGetValue junk tag (be16 b) t1)))) o2 fs2 w2)" for tag o2 fs2 w2
  proof (intro get_n_typed, goal_cases)
    case (2 b o3 fs3 w3)
    show ?case
    proof (cases "be16 b > IPP_MAX_ATTRIB_NAME")
      case False
      show ?thesis unfolding Let_def if_not_P [OF False] by (rule n [unfolded Let_def]) (use False in simp)
    qed simp
  qed simp
  have "ends_with (\<lambda>x _ _. got_typed x) (ippGetAttribute junk t r fs w)"
    unfolding ippGetAttribute_def
  proof (intro get_n_typed, goal_cases)
    case (2 bs o2 fs2 w2)
    show ?case unfolding Let_def [of "hd bs"] by (cases "hd bs < IPP_TAG_UNSUPPORTED_VALUE") (simp_all only: if_True if_False l, simp add: got_typed_def)
  qed simp
  then show ?thesis
    by (cases "ippGetAttribute junk t r fs w") (use value_typed_parts in \<open>auto simp: got_typed_def attr_typed_def\<close>)
qed

section \<open>Writing and reading\<close>

lemma be16_out16: "- (2 ^ 15) \<le> n \<Longrightarrow> n < 2 ^ 15 \<Longrightarrow> be16 (out16 n) = n"
proof -
  assume n: "- (2 ^ 15) \<le> n" "n < 2 ^ 15"
  have u: "uint (word_of_int k :: u8) = k mod 256" for k by (simp add: uint_word_of_int)
  have "256 * (n div 256 mod 256) + n mod 256 = n mod (256 * 256)" using zmod_zmult2_eq [of 256 n 256] by simp
  also have "\<dots> = (if n < 0 then n + 65536 else n)" using n mod_pos_pos_trivial [of "n + 65536" 65536] by auto
  finally show ?thesis using n by (auto simp: be16_def out16_def u Let_def)
qed

lemma be32_out32: "be32 (out32 x) = x"
proof -
  define v where "v = uint x"
  have v: "0 \<le> v" "v < 2 ^ 32" using uint_bounded [of x] by (simp_all add: v_def)
  have u: "uint (ucast (drop_bit n x) :: u8) = v div 2 ^ n mod 256" for n
  proof -
    have "uint (drop_bit n x) = v div 2 ^ n"
      unfolding unsigned_drop_bit_eq v_def using v [unfolded v_def] by (simp add: drop_bit_eq_div take_bit_int_eq_self)
    then show ?thesis by (simp only: unsigned_ucast_eq) (simp add: take_bit_eq_mod)
  qed
  have d: "v div 65536 = v div 256 div 256" "v div 16777216 = v div 256 div 256 div 256"
    using v(1) by (simp_all flip: zdiv_zmult2_eq)
  have "v div 256 div 256 div 256 mod 256 = v div 256 div 256 div 256" using v by simp
  then have s: "((v div 2 ^ 24 mod 256 * 256 + v div 2 ^ 16 mod 256) * 256 + v div 2 ^ 8 mod 256) * 256 + v div 2 ^ 0 mod 256 = v"
    using d by simp
  have nth: "out32 x ! 0 = ucast (drop_bit 24 x)" "out32 x ! 1 = ucast (drop_bit 16 x)"
    "out32 x ! 2 = ucast (drop_bit 8 x)" "out32 x ! 3 = ucast (drop_bit 0 x)"
    by (simp_all add: out32_def)
  show ?thesis unfolding be32_def nth u s unfolding v_def by (rule word_of_int_uint)
qed

lemma append_all_data:
  "append_all True ps b = Some b' \<Longrightarrow> pf_data b' = pf_data b @ concat (map (\<lambda>(bs, n). take (nat n) bs) ps)"
  by (induction ps arbitrary: b) (auto simp: ippAppend_def morespace_def Let_def bind_eq_Some_conv split: if_splits)

text \<open>The bytes of some parts, and reading one part of the stream.\<close>

abbreviation parts_bytes :: "(u8 list \<times> int) list \<Rightarrow> u8 list" where
  "parts_bytes ps \<equiv> concat (map (\<lambda>(bs, n). take (nat n) bs) ps)"

lemma out_length [simp]: "length (out16 n) = 2" "length (out32 x) = 4"
  by (simp_all add: out16_def out32_def)

lemma get_n_took:
  assumes starve: "may_starve H sub B" and "took H sub w0 r0 m (bs @ rest) r fs w" "int (length bs) = n" "m + n \<le> qsize r0"
    and "\<And>r' fs' w'. took H sub w0 r0 (m + n) rest r' fs' w' \<Longrightarrow> holds (k bs r' fs' w') B Q"
  shows "holds (get_n junk t n k r fs w) B Q"
proof -
  have "holds (ippRead junk n r fs w) B (\<lambda>(xs, r') fs' w'. xs = bs \<and> took H sub w r n rest r' fs' w')"
    using assms(2-4) by (intro ippRead_plain [OF starve]) (auto simp: took_def)
  then show ?thesis
    unfolding get_n_def
  proof (rule holds_bind, goal_cases)
    case (1 p fs1 w1)
    obtain xs r1 where p: "p = (xs, r1)" by fastforce
    with 1 have "took H sub w0 r0 (m + n) rest r1 fs1 w1" using took_trans [OF _ assms(2)] by auto
    with 1 assms(3,5) show ?case by (simp add: p)
  qed
qed

lemma get_text_took:
  assumes starve: "may_starve H sub B" and "took H sub w0 r0 m (bs @ rest) r fs w" "int (length bs) = n" "m + n \<le> qsize r0"
    and "\<And>r' fs' w'. took H sub w0 r0 (m + n) rest r' fs' w' \<Longrightarrow> holds (k bs r' fs' w') B Q"
    and mok: "malloc_ok w0"
  shows "holds (get_text junk t n k r fs w) B Q"
proof -
  have "malloc_ok w" using assms(2) mok by (auto simp: took_def same_job_def frame_def)
  with assms show ?thesis by (auto simp: get_text_def alloc_ok_def intro!: get_n_took)
qed

text \<open>Attributes without NUL bytes inside texts, whose lengths fit the format.\<close>

definition value_ok :: "ipp_value \<Rightarrow> bool" where
  "value_ok v \<longleftrightarrow> (case v of
     Str_v c s \<Rightarrow> 0 \<notin> set s \<and> (case c of None \<Rightarrow> True | Some c \<Rightarrow> 0 \<notin> set c \<and> length c + length s < 2 ^ 15)
   | Unk_v n d \<Rightarrow> 0 \<le> n \<and> n < 2 ^ 15
   | _ \<Rightarrow> True)"

definition attr_ok :: "u8 \<Rightarrow> ipp_attrib \<Rightarrow> bool" where
  "attr_ok tag a \<longleftrightarrow> IPP_TAG_UNSUPPORTED_VALUE \<le> tag \<and> attr_typed tag a \<and> 0 \<notin> set (attrib_name a) \<and> value_ok (val a)"

text \<open>Reading the value that was written.\<close>

definition reads_back :: "nat set \<Rightarrow> u8 list \<Rightarrow> (world \<Rightarrow> bool) \<Rightarrow> world \<Rightarrow> ireq \<Rightarrow> int \<Rightarrow> u8 list \<Rightarrow> u8 \<Rightarrow> ipp_attrib \<Rightarrow> got run \<Rightarrow> bool" where
  "reads_back H sub B w0 r0 k rest tag a m \<longleftrightarrow>
     holds m B (\<lambda>(tag', a', r') fs' w'. tag' = tag \<and> a' = a \<and> took H sub w0 r0 k rest r' fs' w')"

lemma lang_tags:
  "\<not> is_text IPP_TAG_TEXTLANG" "\<not> is_text IPP_TAG_NAMELANG"
  "IPP_TAG_TEXTLANG \<noteq> IPP_TAG_INTEGER" "IPP_TAG_NAMELANG \<noteq> IPP_TAG_INTEGER"
  "IPP_TAG_TEXTLANG \<noteq> IPP_TAG_ENUM" "IPP_TAG_NAMELANG \<noteq> IPP_TAG_ENUM"
  "IPP_TAG_TEXTLANG \<noteq> IPP_TAG_BOOLEAN" "IPP_TAG_NAMELANG \<noteq> IPP_TAG_BOOLEAN"
  "IPP_TAG_TEXTLANG \<noteq> IPP_TAG_DATE" "IPP_TAG_NAMELANG \<noteq> IPP_TAG_DATE"
  "IPP_TAG_TEXTLANG \<noteq> IPP_TAG_RESOLUTION" "IPP_TAG_NAMELANG \<noteq> IPP_TAG_RESOLUTION"
  "IPP_TAG_TEXTLANG \<noteq> IPP_TAG_RANGE" "IPP_TAG_NAMELANG \<noteq> IPP_TAG_RANGE"
  by (simp_all add: is_text_def ipp_tags)

lemma ippGetValue_back:
  assumes B: "may_starve H sub B" "malloc_ok w0"
    and v: "value_typed tag v" "value_ok v" "value_parts tag v = Some (q # ps)"
    and r: "took H sub w0 r0 m (parts_bytes ps @ rest) r fs w" "m + int (length (parts_bytes ps)) \<le> qsize r0"
  shows "reads_back H sub B w0 r0 (m + int (length (parts_bytes ps))) rest tag (t\<lparr>val := v\<rparr>)
    (ippGetValue junk tag (be16 (fst q)) t r fs w)"
proof -
  note got = get_n_took [OF B(1)] get_text_took [OF B(1) _ _ _ _ B(2)]
  note val = reads_back_def value_parts_def ippGetValue_def put16_def put32_def be16_out16 be32_out32 ipp_tags is_text_def
  show ?thesis
  proof (cases v)
    case (Int_v x)
    with v(1) have "tag = IPP_TAG_INTEGER \<or> tag = IPP_TAG_ENUM" by (simp add: value_typed_def)
    with v(3) Int_v r show ?thesis by (auto simp: val intro!: got [where bs = "out32 x"])
  next
    case (Bool_v x)
    with v(1) have "tag = IPP_TAG_BOOLEAN" by (simp add: value_typed_def)
    with v(3) Bool_v r show ?thesis by (auto simp: val intro!: got [where bs = "[x]"])
  next
    case (Date_v d)
    with v(1) have "tag = IPP_TAG_DATE" "length d = 11" by (simp_all add: value_typed_def)
    with v(3) Date_v r show ?thesis by (auto simp: val intro!: got [where bs = d])
  next
    case (Res_v x y u)
    with v(1) have "tag = IPP_TAG_RESOLUTION" by (simp add: value_typed_def)
    then have ps: "q = (out16 9, 2)" "ps = [(out32 x, 4), (out32 y, 4), ([u], 1)]" using v(3) Res_v by (auto simp: val)
    then have t: "took H sub w0 r0 m (out32 x @ out32 y @ [u] @ rest) r fs w" "m + 9 \<le> qsize r0" using r by simp_all
    have "holds (get_n junk t 4 (\<lambda>x. get_n junk t 4 (\<lambda>y. get_n junk t 1 (\<lambda>u o2 fs w.
        Done (tag, t\<lparr>val := Res_v (be32 x) (be32 y) (hd u)\<rparr>, o2) fs w))) r fs w) B
      (\<lambda>(tag', a', r') fs' w'. tag' = tag \<and> a' = t\<lparr>val := v\<rparr> \<and> took H sub w0 r0 (m + 9) rest r' fs' w')"
      by (insert t, (erule got(1), (simp; fail), (simp; fail))+) (simp add: be32_out32 Res_v add.commute)
    with \<open>tag = IPP_TAG_RESOLUTION\<close> show ?thesis by (simp add: val Let_def ps)
  next
    case (Range_v l u)
    with v(1) have "tag = IPP_TAG_RANGE" by (simp add: value_typed_def)
    then have ps: "q = (out16 8, 2)" "ps = [(out32 l, 4), (out32 u, 4)]" using v(3) Range_v by (auto simp: val)
    then have t: "took H sub w0 r0 m (out32 l @ out32 u @ rest) r fs w" "m + 8 \<le> qsize r0" using r by simp_all
    have "holds (get_n junk t 4 (\<lambda>l. get_n junk t 4 (\<lambda>u o2 fs w.
        Done (tag, t\<lparr>val := Range_v (be32 l) (be32 u)\<rparr>, o2) fs w)) r fs w) B
      (\<lambda>(tag', a', r') fs' w'. tag' = tag \<and> a' = t\<lparr>val := v\<rparr> \<and> took H sub w0 r0 (m + 8) rest r' fs' w')"
      by (insert t, (erule got(1), (simp; fail), (simp; fail))+) (simp add: be32_out32 Range_v add.commute)
    with \<open>tag = IPP_TAG_RANGE\<close> show ?thesis by (simp add: val Let_def ps)
  next
    case (Str_v c s)
    show ?thesis
    proof (cases c)
      case None
      with v(1,2) Str_v have "is_text tag" "length s < 2 ^ 15" "0 \<notin> set s" by (simp_all add: value_typed_def value_ok_def)
      then have "len16 s = int (length s)" "str_of s = s" by (simp_all add: len16_small str_of_id)
      with \<open>is_text tag\<close> v(3) Str_v None r \<open>length s < 2 ^ 15\<close> show ?thesis
        by (auto simp: val put_text_def intro!: got [where bs = s])
    next
      case (Some l)
      with v(1,2) Str_v have tag: "tag = IPP_TAG_TEXTLANG \<or> tag = IPP_TAG_NAMELANG" and l: "length l + length s < 2 ^ 15" "0 \<notin> set s" "0 \<notin> set l"
        by (simp_all add: value_typed_def value_ok_def)
      then have "len16 s = int (length s)" "str_of s = s" "len16 l = int (length l)" "str_of l = l"
        by (simp_all add: len16_small str_of_id)
      note len = this
      define n where "n = int (length l) + int (length s)"
      have ps: "q = (out16 n, 2)"
        "ps = [(out16 (int (length l)), 2), (l, int (length l)), (out16 (int (length s)), 2), (s, int (length s))]"
        using tag v(3) Str_v Some len by (auto simp: val put_text_def n_def)
      have be: "be16 (out16 (int (length l))) = int (length l)" "be16 (out16 (int (length s))) = int (length s)"
        "be16 (out16 n) = n" using l(1) by (simp_all add: be16_out16 n_def)
      have t: "took H sub w0 r0 m (out16 (int (length l)) @ l @ out16 (int (length s)) @ s @ rest) r fs w"
        "m + 4 + n \<le> qsize r0" using r by (simp_all add: ps n_def)
      have "holds (get_n junk t 2 (\<lambda>b. get_text junk t (be16 b) (\<lambda>charset. get_n junk t 2 (\<lambda>b'.
           if n - be16 b \<noteq> be16 b' then (\<lambda>o2 fs w. Done (IPP_TAG_ZERO, t, o2) fs w)
           else get_text junk t (be16 b') (\<lambda>s o2 fs w. Done (tag, t\<lparr>val := Str_v (Some charset) s\<rparr>, o2) fs w)))) r fs w) B
        (\<lambda>(tag', a', r') fs' w'. tag' = tag \<and> a' = t\<lparr>val := v\<rparr> \<and> took H sub w0 r0 (m + 4 + n) rest r' fs' w')"
        by (insert t, erule got(1), simp, simp add: n_def, unfold be, erule got(2), simp, simp add: n_def,
            erule got(1), simp, simp add: n_def, unfold be, simp add: n_def, erule got(2), simp, simp add: n_def)
          (simp add: Str_v Some add.commute add.left_commute)
      moreover have "m + int (length (parts_bytes ps)) = m + 4 + n" by (simp add: ps n_def)
      moreover have "be16 (fst q) = n" by (simp add: ps be)
      ultimately show ?thesis
        using tag by (auto simp only: reads_back_def ippGetValue_def Let_def lang_tags if_True if_False simp_thms)
    qed
  next
    case (Unk_v k d)
    with v(1,2) have u: "value_parts tag v \<noteq> None" "0 \<le> k" "k < 2 ^ 15" "length d = nat k"
      by (simp_all add: value_typed_def value_ok_def)
    moreover from u(1) Unk_v have "tag \<noteq> IPP_TAG_INTEGER" "tag \<noteq> IPP_TAG_ENUM" "tag \<noteq> IPP_TAG_BOOLEAN" "\<not> is_text tag"
      "tag \<noteq> IPP_TAG_DATE" "tag \<noteq> IPP_TAG_RESOLUTION" "tag \<noteq> IPP_TAG_RANGE" "tag \<noteq> IPP_TAG_TEXTLANG" "tag \<noteq> IPP_TAG_NAMELANG"
      by (auto simp: value_parts_def split: if_splits)
    moreover have "malloc_ok w" using r(1) B(2) by (auto simp: took_def same_job_def frame_def)
    ultimately show ?thesis
      using v(3) Unk_v r by (auto simp: reads_back_def value_parts_def ippGetValue_def put16_def be16_out16 intro!: got [where bs = d])
  qed (use v(1) in \<open>simp add: value_typed_def\<close>)
qed

lemma value_parts_ok:
  assumes "value_typed tag v" "value_ok v"
  obtains n ps where "value_parts tag v = Some (put16 n # ps)" "\<forall>(bs, k)\<in>set ps. k = int (length bs)"
proof (cases v)
  case (Str_v c s)
  with assms have "len16 s = int (length s)" "str_of s = s" "\<And>l. c = Some l \<Longrightarrow> len16 l = int (length l) \<and> str_of l = l"
    by (auto simp: value_typed_def value_ok_def len16_small str_of_id)
  with assms Str_v that show ?thesis
    by (cases c) (auto simp: value_typed_def value_parts_def put16_def put_text_def is_text_def ipp_tags)
next
  case (Unk_v n d)
  with assms have "value_parts tag v = Some [put16 n, (d, n)]" "length d = nat n" "0 \<le> n"
    by (auto simp: value_typed_def value_ok_def value_parts_def split: if_splits)
  with that show ?thesis by auto
qed (use assms that in \<open>auto simp: value_typed_def value_parts_def put16_def put32_def is_text_def ipp_tags\<close>)

text \<open>C33: What \<open>ippAddAttribute\<close> appends to a group, \<open>ippGetAttribute\<close> reads back: for a well-typed attribute
  the writer succeeds and appends some bytes; wherever these bytes come next in the body of a request, in whatever segments
  they arrive, the reader returns the same tag, name and value and stops exactly behind them. It may be
  left waiting only for bytes that have not arrived. The language and the text of a text with language are included: both sides count only
  their own lengths into the total.\<close>

theorem ipp_attribute_roundtrip:
  assumes "attr_ok tag a"
  shows "\<exists>b' bs. ippAddAttribute True b tag a = Some b' \<and> pf_data b' = pf_data b @ bs \<and>
    (\<forall>H sub r fs w rest t junk. job_inv H sub fs w \<and> malloc_ok w \<and> ireq_ok r \<and> \<not> chunked r \<and>
        int (length bs) \<le> qsize r \<and> istream r w = bs @ rest \<longrightarrow>
      holds (ippGetAttribute junk t r fs w) (\<lambda>w'. mbox w' = [] \<and> lastdata w' = [])
        (\<lambda>(tag', a', r') fs' w'. tag' = tag \<and> a' = a \<and> istream r' w' = rest))"
proof -
  define name where "name = attrib_name a"
  have a: "IPP_TAG_UNSUPPORTED_VALUE \<le> tag" "length name \<le> 80" "0 \<notin> set name" "value_typed tag (val a)" "value_ok (val a)"
    using assms by (simp_all add: attr_ok_def attr_typed_def name_def)
  then have nm: "len16 name = int (length name)" "str_of name = name" by (simp_all add: len16_small str_of_id)
  obtain n ps where ps: "value_parts tag (val a) = Some (put16 n # ps)" "\<forall>(bs, k)\<in>set ps. k = int (length bs)"
    by (rule value_parts_ok [OF a(4,5)])
  define qs where "qs = ([tag], 1) # put16 (int (length name)) # (name, int (length name)) # put16 n # ps"
  define bs where "bs = [tag] @ out16 (int (length name)) @ name @ out16 n @ parts_bytes ps"
  have "\<exists>b'. append_all True qs b = Some b'"
    using ps(2) by (intro append_all_ok) (auto simp: qs_def put16_def)
  then obtain b' where b': "append_all True qs b = Some b'" ..
  have add: "ippAddAttribute True b tag a = Some b'"
    using b' ps(1) nm by (simp add: ippAddAttribute_def put_text_def qs_def name_def del: append_all.simps)
  have data: "pf_data b' = pf_data b @ bs"
    using append_all_data [OF b'] by (simp add: qs_def bs_def put16_def)
  have "holds (ippGetAttribute junk t r fs w) (\<lambda>w'. mbox w' = [] \<and> lastdata w' = [])
        (\<lambda>(tag', a', r') fs' w'. tag' = tag \<and> a' = a \<and> istream r' w' = rest)"
    if w: "job_inv H sub fs w" "malloc_ok w" "ireq_ok r" "\<not> chunked r" "int (length bs) \<le> qsize r" "istream r w = bs @ rest"
    for H sub r fs w rest t junk
  proof -
    have B: "may_starve H sub (\<lambda>w'. mbox w' = [] \<and> lastdata w' = [])" by (simp add: may_starve_def)
    note got = get_n_took [OF B]
    have be: "be16 (out16 (int (length name))) = int (length name)" using a(2) by (simp add: be16_out16)
    have no: "\<not> tag < IPP_TAG_UNSUPPORTED_VALUE" "\<not> IPP_MAX_ATTRIB_NAME < int (length name)" "\<not> int (length name) < 0"
      using a(1,2) by (auto simp: IPP_MAX_ATTRIB_NAME_def)
    have t: "took H sub w r 0 ([tag] @ out16 (int (length name)) @ name @ out16 n @ (parts_bytes ps @ rest)) r fs w"
      using took_refl [OF w(1,3,4)] w(6) by (simp add: bs_def)
    have q: "5 + int (length name) + int (length (parts_bytes ps)) \<le> qsize r" using w(5) by (simp add: bs_def)
    have v: "holds (ippGetValue junk tag (be16 (out16 n)) (t\<lparr>attrib_name := name\<rparr>) r' fs' w') (\<lambda>w'. mbox w' = [] \<and> lastdata w' = [])
        (\<lambda>(tag', a', r') fs' w'. tag' = tag \<and> a' = a \<and> istream r' w' = rest)"
      if "took H sub w r (5 + int (length name)) (parts_bytes ps @ rest) r' fs' w'" for r' fs' w'
    proof (rule holds_mono [OF ippGetValue_back [OF B w(2) a(4,5) ps(1) that, unfolded reads_back_def put16_def fst_conv]])
    qed (use q in \<open>auto simp: name_def took_def\<close>)
    show ?thesis
      unfolding ippGetAttribute_def
      by (insert t q, erule got, simp, simp, simp only: Let_def list.sel no if_False, erule got, simp, simp,
          simp only: be no if_False, erule got, simp, simp, erule got, simp, simp, rule v) (simp add: add.commute)
  qed
  with add data show ?thesis by blast
qed

text \<open>\<open>job-id\<close> 7, arriving in two segments.\<close>

definition some_attr :: ipp_attrib where
  "some_attr = \<lparr>attrib_name = cstr ''job-id'', val = Int_v 7\<rparr>"

definition start_req :: "int \<Rightarrow> ireq" where
  "start_req n = \<lparr>ibuf = [], ipos = 0, icnt = 0, ippreq = 0, chunked = False, qsize = n\<rparr>"

theorem ipp_attribute_roundtrip_witness:
  "\<exists>b' bs y. ippAddAttribute True \<lparr>pf_data = [], pf_len = 1024\<rparr> IPP_TAG_INTEGER some_attr = Some b' \<and> pf_data b' = bs \<and>
     length bs = 15 \<and>
     holds (ippGetAttribute [] fresh_attrib (start_req 15) [] (conn_world y [Netbuf (take 4 bs), Netbuf (drop 4 bs)] []))
       (\<lambda>w'. mbox w' = [] \<and> lastdata w' = [])
       (\<lambda>(tag', a', r') fs' w'. tag' = IPP_TAG_INTEGER \<and> a' = some_attr \<and> istream r' w' = [])"
proof -
  obtain y :: psys where y: "pp_inv y {} []" using attach_ready by metis
  have ok: "attr_ok IPP_TAG_INTEGER some_attr"
    by (simp add: attr_ok_def attr_typed_def value_typed_def value_ok_def some_attr_def cstr_def ipp_tags)
  from ipp_attribute_roundtrip [OF this, of "\<lparr>pf_data = [], pf_len = 1024\<rparr>"] obtain b' bs
    where b: "ippAddAttribute True \<lparr>pf_data = [], pf_len = 1024\<rparr> IPP_TAG_INTEGER some_attr = Some b'" "pf_data b' = bs"
    and rd: "\<And>H sub r fs w rest t junk. job_inv H sub fs w \<and> malloc_ok w \<and> ireq_ok r \<and> \<not> chunked r \<and>
        int (length bs) \<le> qsize r \<and> istream r w = bs @ rest \<Longrightarrow>
      holds (ippGetAttribute junk t r fs w) (\<lambda>w'. mbox w' = [] \<and> lastdata w' = [])
        (\<lambda>(tag', a', r') fs' w'. tag' = IPP_TAG_INTEGER \<and> a' = some_attr \<and> istream r' w' = rest)"
    by (auto; blast)
  have l: "length bs = 15"
    using b(1) unfolding b(2) [symmetric]
    by (auto simp: ippAddAttribute_def value_parts_def some_attr_def cstr_def ipp_tags put16_def put32_def put_text_def
        len16_def str_of_def ippAppend_def Let_def)
  let ?w = "conn_world y [Netbuf (take 4 bs), Netbuf (drop 4 bs)] []"
  have ne: "take 4 bs \<noteq> []" "drop 4 bs \<noteq> []" using l by auto
  then have "job_inv {} [] [] ?w" using y by (simp add: job_inv_def)
  then have "holds (ippGetAttribute [] fresh_attrib (start_req 15) [] ?w) (\<lambda>w'. mbox w' = [] \<and> lastdata w' = [])
    (\<lambda>(tag', a', r') fs' w'. tag' = IPP_TAG_INTEGER \<and> a' = some_attr \<and> istream r' w' = [])"
    by (intro rd [where H = "{}" and sub = "[]"]) (simp add: start_req_def ireq_ok_def istream_def unread_def l)
  with b l show ?thesis by blast
qed

end
