(* ===== verification/Ipp_Job.thy ===== *)
theory Ipp_Job
  imports Ipp_Cmd Lpd_Job
begin

text \<open>
  The thread that prints the jobs of the Internet printing server, \<open>ippProcessJob\<close> with \<open>ippProcessBINJob\<close>
  and \<open>ippProcessTXTJob\<close> of \<open>src/apps/ps/ippd/src/ippd.c\<close>. The pointer \<open>ippObj\<close> is the number \<open>i\<close> of the job;
  the fields of its reader are threaded as \<open>r\<close>. The connection in the state is that of this job.

  Other threads, which run while this one waits, append jobs and cancel them.
\<close>

unbundle bit_operations_syntax

definition IppUsed :: u8 where "IppUsed = 6"

section \<open>The object\<close>

definition upd_job :: "u16 \<Rightarrow> (ipp_t \<Rightarrow> ipp_t) \<Rightarrow> world \<Rightarrow> world" where
  "upd_job i f w =
     w\<lparr>ipp := (ipp w)\<lparr>ippObjList := map (\<lambda>j. if job_id j = i then f j else j) (ippObjList (ipp w))\<rparr>\<rparr>"

definition set_job_state :: "u16 \<Rightarrow> u8 \<Rightarrow> world \<Rightarrow> world" where
  "set_job_state i st = upd_job i (\<lambda>j. j\<lparr>job_state := st\<rparr>)"

definition with_job :: "u16 \<Rightarrow> (ipp_t \<Rightarrow> sched \<Rightarrow> world \<Rightarrow> 'a run) \<Rightarrow> sched \<Rightarrow> world \<Rightarrow> 'a run" where
  "with_job i k fs w = (case deref (Some i) w of Inl e \<Rightarrow> Fault e | Inr j \<Rightarrow> k j fs w)"

section \<open>Keeping the connections alive\<close>

text \<open>
  All waiting jobs' connections are acknowledged by following \<open>next\<close> for \<open>ippJobsNo - 1\<close> steps: a list
  that is shorter than \<open>ippJobsNo\<close> says is a null pointer's access. Of the acknowledgements the
  state keeps those of its own connection.
\<close>

definition list_covers :: "world \<Rightarrow> bool" where
  "list_covers w \<longleftrightarrow> max 1 (unat (ippJobsNo (ipp w))) \<le> length (ippObjList (ipp w))"

definition IPP_WAIT :: u32 where "IPP_WAIT = TICKS_PER_SECOND * 5"

fun ipp_wait_buf :: "u32 \<Rightarrow> sched \<Rightarrow> world \<Rightarrow> nat run" where
  "ipp_wait_buf startime fs w =
     (case PrnGetInQueueBuf 0 (spl w) of
        (Some b, s) \<Rightarrow> Done b fs (set_sp s w)
      | (None, _) \<Rightarrow>
          if clk w - startime > IPP_WAIT \<and> \<not> list_covers w then Fault NullRead
          else (let (st, w1) = keep_alive IPP_WAIT True startime w
                in case fs of [] \<Rightarrow> Blocked w1 | f # fs' \<Rightarrow> ipp_wait_buf st fs' (f w1)))"

declare ipp_wait_buf.simps [simp del]

lemma ipp_wait_buf_le: "ends_le fs w (ipp_wait_buf st fs w)"
proof (induction fs arbitrary: st w)
  case Nil
  obtain ob s where "PrnGetInQueueBuf 0 (spl w) = (ob, s)" by fastforce
  then show ?case by (subst ipp_wait_buf.simps) (simp add: pot_le_def split: option.split prod.split)
next
  case (Cons f fs)
  obtain ob s where "PrnGetInQueueBuf 0 (spl w) = (ob, s)" by fastforce
  moreover obtain st1 w1 where "keep_alive IPP_WAIT True st w = (st1, w1)" by fastforce
  moreover have "ends_le (f # fs) w (ipp_wait_buf st1 fs (f w1))"
    by (rule ends_le_trans [OF Cons.IH]) (simp add: pot_le_def)
  ultimately show ?case by (subst ipp_wait_buf.simps) (simp add: pot_le_def split: option.split)
qed

section \<open>Documents\<close>

lemma ileft_rx: "rx_left w' = rx_left w \<Longrightarrow> ileft r w' = ileft r w"
  by (simp add: ileft_def)

lemma ipot_wait: "pot_le fs' w' fs w \<Longrightarrow> ipot_le r fs' w' r fs w"
  by (auto simp: pot_le_def ipot_le_def ileft_def)

lemma read_after_wait:
  assumes "ends_le fs w m" "m = Done a fs1 w1" "rx_left w2 = rx_left w1"
    "httpRead junk len r fs1 w2 = Done (n, bs, r') fs' w'" "0 < n" "rx_left w3 = rx_left w'"
  shows "length fs' < length fs \<or> length fs' = length fs \<and> ileft r' w3 < ileft r w"
proof -
  have "pot_le fs1 w2 fs w" using ends_leD [OF assms(1,2)] assms(3) by (simp add: pot_le_def)
  from ipot_trans(2) [OF _ ipot_wait [OF this]] ends_withD [OF httpRead_ends assms(4)] assms(5)
  have "ipot_less r' fs' w' r fs w" by (simp add: read_post_def)
  then show ?thesis using ileft_rx [OF assms(6)] by (simp add: ipot_less_def)
qed

text \<open>The end of a binary job; \<open>b\<close> is the last buffer.\<close>

definition bin_job_end :: "u16 \<Rightarrow> nat \<Rightarrow> ireq \<Rightarrow> sched \<Rightarrow> world \<Rightarrow> ireq run" where
  "bin_job_end i b r =
     with_job i (\<lambda>j fs w.
       if job_state j = IPP_JOB_CANCEL
       then run_bind (abort_spooler (Some b) fs w) (\<lambda>_ fs w.
              Done r fs (upd_job i (\<lambda>j. j\<lparr>RetCode := IPP_SERVER_ERROR_JOB_CANCELLED\<rparr>) w))
       else Done r fs (put_out b PRN_Q_EOF w))"

function ippProcessBINJob :: "u8 list \<Rightarrow> u16 \<Rightarrow> ireq \<Rightarrow> sched \<Rightarrow> world \<Rightarrow> ireq run" where
  "ippProcessBINJob junk i r fs w =
     run_bind (ipp_wait_buf 0 fs w) (\<lambda>b fs w.
     run_bind (httpRead junk (int BLOCKSIZE) r fs w) (\<lambda>p fs w. case p of (n, bs, r) \<Rightarrow>
       let w1 = set_size b n (put_data b 0 bs w)
       in if n \<le> 0
          then bin_job_end i b r fs (if ippreq r = IPP_PRINT_JOB_TIME_OUT then set_job_state i IPP_JOB_CANCEL w1 else w1)
          else case deref (Some i) w1 of
                 Inl e \<Rightarrow> Fault e
               | Inr j \<Rightarrow>
                   if job_state j = IPP_JOB_ABORTING
                   then bin_job_end i b r fs (set_job_state i IPP_JOB_CANCEL (set_size b 0 w1))
                   else ippProcessBINJob junk i r fs (put_out b PRN_Q_NORMAL (log_add n w1))))"
  by pat_completeness auto
termination
proof (relation "inv_image (measures [\<lambda>(r, fs, w). length fs, \<lambda>(r, fs, w). ileft r w]) (\<lambda>(j, i, r, fs, w). (r, fs, w))", goal_cases)
  case (2 junk i r fs w b fs1 w1 p fs2 w2 n y bs r2 w3 j)
  then show ?case using read_after_wait [OF ipp_wait_buf_le 2(1) refl, of junk "int BLOCKSIZE" r n bs r2 fs2 w2]
    by simp
qed simp

declare ippProcessBINJob.simps [simp del]

definition txt_job_end :: "u16 \<Rightarrow> nat \<Rightarrow> nat \<Rightarrow> nat \<Rightarrow> ireq \<Rightarrow> sched \<Rightarrow> world \<Rightarrow> ireq run" where
  "txt_job_end i b0 b1 b2 r fs w =
     run_bind (bin_job_end i b2 r fs (set_size b2 0 w)) (\<lambda>r fs w. Done r fs (put_in b1 (put_in b0 w)))"

function txt_job_loop :: "u8 list \<Rightarrow> u16 \<Rightarrow> u8 \<Rightarrow> nat \<Rightarrow> ireq \<Rightarrow> sched \<Rightarrow> world \<Rightarrow> ireq run" where
  "txt_job_loop junk i KeepCR b2 r fs w =
     run_bind (wait_in_buf IPP_WAIT True 0 fs w) (\<lambda>p fs w. case p of (b0, startime) \<Rightarrow>
     run_bind (wait_in_buf IPP_WAIT True startime fs (set_size b0 0 w)) (\<lambda>q fs w. case q of (b1, _) \<Rightarrow>
     run_bind (httpRead junk (int BLOCKSIZE) r fs (set_size b1 0 w)) (\<lambda>x fs w. case x of (n, bs, r) \<Rightarrow>
       let w1 = set_size b2 n (put_data b2 0 bs w)
       in if n \<le> 0
          then txt_job_end i b0 b1 b2 r fs (if ippreq r = IPP_PRINT_JOB_TIME_OUT then set_job_state i IPP_JOB_CANCEL w1 else w1)
          else case deref (Some i) w1 of
                 Inl e \<Rightarrow> Fault e
               | Inr j \<Rightarrow>
                   if job_state j = IPP_JOB_ABORTING
                   then txt_job_end i b0 b1 b2 r fs (set_job_state i IPP_JOB_CANCEL w1)
                   else (let kw = txt_convert KeepCR b0 b1 b2 (nat n) (log_add n w1)
                         in txt_job_loop junk i (fst kw) b2 r fs (snd kw)))))"
  by pat_completeness auto
termination
proof (relation "inv_image (measures [\<lambda>(r, fs, w). length fs, \<lambda>(r, fs, w). ileft r w]) (\<lambda>(j, i, c, b, r, fs, w). (r, fs, w))", goal_cases)
  case (2 junk i KeepCR b2 r fs w p fs1 w1 b0 st q fs2 w2 b1 st2 x fs3 w3 n y bs r3 w4 j kw)
  have "pot_le fs1 w1 fs w" by (rule wait_in_buf_pot [OF 2(1)])
  moreover have "pot_le fs2 w2 fs1 (set_size b0 0 w1)" by (rule wait_in_buf_pot [OF 2(3)])
  ultimately have "pot_le fs2 w2 fs w" by (auto simp: pot_le_def)
  then have "ends_le fs w (Done () fs2 w2)" by simp
  from read_after_wait [OF this refl, of "set_size b1 0 w2" junk "int BLOCKSIZE" r n bs r3 fs3 w3 "snd kw"] 2
  show ?case by simp
qed simp

declare txt_job_loop.simps [simp del]

text \<open>
  Each time round, \<open>startime\<close> is set to 0 before the first of the two buffers; while it is 0 no
  acknowledgement is sent for the third.
\<close>

definition ippProcessTXTJob :: "u8 list \<Rightarrow> u16 \<Rightarrow> ireq \<Rightarrow> sched \<Rightarrow> world \<Rightarrow> ireq run" where
  "ippProcessTXTJob junk i r fs w =
     run_bind (wait_in_buf IPP_WAIT False 0 fs w) (\<lambda>p fs w. case p of (b2, _) \<Rightarrow>
       txt_job_loop junk i 0 b2 r fs (set_size b2 0 w))"

section \<open>The thread\<close>

text \<open>Waiting for the port, until there are no jobs (\<^const>\<open>False\<close>) or the port is taken.\<close>

fun ipp_wait_port :: "u32 \<Rightarrow> sched \<Rightarrow> world \<Rightarrow> (bool \<times> u32) run" where
  "ipp_wait_port startime fs w =
     (if ippJobsNo (ipp w) = 0 then Done (False, startime) fs w
      else if port_status w \<noteq> PORT_READY \<or> status w \<noteq> PrnNoUsed
      then (if clk w - startime > IPP_WAIT \<and> \<not> list_covers w then Fault NullRead
            else (let (st, w1) = keep_alive IPP_WAIT True startime w
                  in case fs of [] \<Rightarrow> Blocked w1 | f # fs' \<Rightarrow> ipp_wait_port st fs' (f w1)))
      else Done (True, startime) fs (set_in_use IppUsed w))"

declare ipp_wait_port.simps [simp del]

text \<open>
  The 32 bytes logged as the job's user are read from the user's name and the memory behind it,
  \<open>heap\<close>.
\<close>

definition log_user :: "u8 list \<Rightarrow> ipp_t \<Rightarrow> sched \<Rightarrow> world \<Rightarrow> unit run" where
  "log_user heap j fs w =
     (case user_name j of None \<Rightarrow> Fault NullRead | Some u \<Rightarrow> log_put 5 (take 32 (str_of u @ 0 # heap)) 32 fs w)"

definition process_doc :: "u8 list \<Rightarrow> ipp_t \<Rightarrow> sched \<Rightarrow> world \<Rightarrow> ireq run" where
  "process_doc junk j fs w =
     (if DocType j = IPP_BINARY_DOC then ippProcessBINJob junk (job_id j) (rd j) fs w
      else if DocType j = IPP_TEXT_DOC then ippProcessTXTJob junk (job_id j) (rd j) fs w
      else Done (rd j) fs w)"

text \<open>The end of a job: the answer, the log, and the head of the list.\<close>

definition finish_job :: "u8 list \<Rightarrow> u16 \<Rightarrow> sched \<Rightarrow> world \<Rightarrow> unit run" where
  "finish_job at_null i fs w0 =
     (let w = set_in_use PrnNoUsed w0
      in with_job i (\<lambda>j fs w.
           let j1 = (if job_state j = IPP_JOB_PROCESS then j\<lparr>job_state := IPP_JOB_COMPLETE\<rparr> else j)
           in case ippPrintJobClose j1 (set_job_state i (job_state j1) w) of
                Inl e \<Rightarrow> Fault e
              | Inr w \<Rightarrow>
                  run_bind (if job_state j1 = IPP_JOB_CANCEL then SendEOF at_null fs (log_end 3 w)
                            else Done () fs (log_end 0 w)) (\<lambda>_ fs w.
                    case ippObjList (ipp w) of
                      [] \<Rightarrow> Fault NullRead
                    | _ # js \<Rightarrow> yield fs (w\<lparr>ipp := (ipp w)\<lparr>ippObjList := js, ippJobsNo := ippJobsNo (ipp w) - 1\<rparr>\<rparr>))) fs w)"

text \<open>One pass of the loop of \<open>ippProcessJob\<close>: \<^const>\<open>None\<close> when the thread ends.\<close>

definition ippProcessJob_pass :: "u8 list \<Rightarrow> u8 list \<Rightarrow> u8 list \<Rightarrow> u32 \<Rightarrow> sched \<Rightarrow> world \<Rightarrow> u32 option run" where
  "ippProcessJob_pass junk heap at_null startime fs w =
     run_bind (ipp_wait_port startime fs w) (\<lambda>p fs w. case p of (go, st) \<Rightarrow>
       if \<not> go then Done None fs (w\<lparr>ipp := (ipp w)\<lparr>ippProcessOn := False\<rparr>\<rparr>)
       else case ippObjList (ipp w) of
              [] \<Rightarrow> Fault NullRead
            | j # _ \<Rightarrow>
                run_bind (log_user heap j fs w) (\<lambda>_ fs w.
                run_bind (process_doc junk j fs (set_job_state (job_id j) IPP_JOB_PROCESS w)) (\<lambda>r fs w.
                run_bind (finish_job at_null (job_id j) fs w) (\<lambda>_ fs w. Done (Some st) fs w))))"

end
