(* ===== verification/Ipp_Bin_Props.thy ===== *)
theory Ipp_Bin_Props
  imports Ipp_Job Ipp_Stream Lpd_File_Props
begin

text \<open>
  A binary job of the Internet printing server reaches the print queue exactly: the body of the
  request, as long as the request said, or what there was of it when the peer closed early, and then the job is cancelled.
\<close>

section \<open>The list of jobs while others run\<close>

text \<open>A property of the printing server's globals that the other threads keep.\<close>

definition keeps :: "(ippq \<Rightarrow> bool) \<Rightarrow> sched \<Rightarrow> bool" where
  "keeps P fs \<longleftrightarrow> (\<forall>f\<in>set fs. \<forall>w. P (ipp w) \<longrightarrow> P (ipp (f w)))"

definition kept :: "(ippq \<Rightarrow> bool) \<Rightarrow> 'a run \<Rightarrow> bool" where
  "kept P = ends_with (\<lambda>_ fs w. keeps P fs \<and> P (ipp w))"

lemma kept_Done [simp]: "kept P (Done a fs w) = (keeps P fs \<and> P (ipp w))" "kept P (Blocked w)" "kept P (Fault e)"
  by (simp_all add: kept_def)

lemma keeps_Cons: "keeps P (f # fs) \<Longrightarrow> P (ipp w) \<Longrightarrow> keeps P fs \<and> P (ipp (f w))"
  by (simp add: keeps_def)

lemma kept_bind: "kept P m \<Longrightarrow> (\<And>a fs w. keeps P fs \<Longrightarrow> P (ipp w) \<Longrightarrow> kept P (k a fs w)) \<Longrightarrow> kept P (run_bind m k)"
  unfolding kept_def by (cases m) auto

lemma holds_kept: "holds m B Q \<Longrightarrow> kept P m \<Longrightarrow> holds m B (\<lambda>a fs w. Q a fs w \<and> keeps P fs \<and> P (ipp w))"
  by (cases m) auto

lemma fetch_kept: "keeps P fs \<Longrightarrow> P (ipp w) \<Longrightarrow> kept P (fetch fs w)"
proof (induction fs w rule: fetch.induct)
  case (1 fs w)
  show ?case
  proof (cases "mbox w")
    case Nil
    show ?thesis
    proof (cases fs)
      case (Cons f gs)
      with 1(1) [OF Nil Cons] keeps_Cons [of P f gs] 1(2,3) Nil show ?thesis by (subst fetch.simps) simp
    qed (use Nil in \<open>subst fetch.simps, simp\<close>)
  qed (use 1(2,3) in \<open>subst fetch.simps, simp\<close>)
qed

lemma recv_kept: "keeps P fs \<Longrightarrow> P (ipp w) \<Longrightarrow> kept P (lwip_recv n fs w)"
  unfolding lwip_recv_def netconn_recv_def take_data_def
  by (auto intro!: kept_bind fetch_kept split: arrival.splits)

lemma fill_kept: "keeps P fs \<Longrightarrow> P (ipp w) \<Longrightarrow> kept P (fill_if_empty r fs w)"
  unfolding fill_if_empty_def refill_def by (auto intro!: kept_bind recv_kept)

lemma zot_recv_kept: "keeps P fs \<Longrightarrow> P (ipp w) \<Longrightarrow> kept P (zot_recv n r fs w)"
  unfolding zot_recv_def by (auto simp: Let_def intro!: kept_bind fill_kept)

lemma zot_fgets_kept: "keeps P fs \<Longrightarrow> P (ipp w) \<Longrightarrow> kept P (zot_fgets m n r fs w)"
  unfolding zot_fgets_def by (auto split: option.splits intro!: kept_bind fill_kept)

lemma httpRead_kept: "keeps P fs \<Longrightarrow> P (ipp w) \<Longrightarrow> kept P (httpRead junk n r fs w)"
  unfolding httpRead_def
  by (auto simp: Let_def split: option.splits intro!: kept_bind zot_recv_kept zot_fgets_kept)

lemma wait_in_buf_kept: "keeps P fs \<Longrightarrow> P (ipp w) \<Longrightarrow> kept P (wait_in_buf lim always st fs w)"
proof (induction fs arbitrary: st w)
  case Nil
  then show ?case by (subst wait_in_buf.simps) (auto simp: keep_alive_def sendack_def split: option.split prod.split)
next
  case (Cons f fs)
  have "kept P (wait_in_buf lim always st' fs (f w'))" if "ipp w' = ipp w" for st' w'
    using that keeps_Cons [OF Cons.prems(1), of w'] Cons.prems(2) by (intro Cons.IH) auto
  with Cons.prems show ?case
    by (subst wait_in_buf.simps) (auto simp: keep_alive_def sendack_def split: option.split prod.split dest: keeps_Cons)
qed

text \<open>
  A job that is being printed: the list has it, in a state of \<open>S\<close>, and as many jobs as \<open>ippJobsNo\<close> says. A client may
  ask for the job's end, which makes its state \<open>ABORTING\<close>.
\<close>

definition served :: "u8 set \<Rightarrow> u16 \<Rightarrow> ippq \<Rightarrow> bool" where
  "served S i q \<longleftrightarrow> max 1 (unat (ippJobsNo q)) \<le> length (ippObjList q) \<and>
     (\<exists>j. find (\<lambda>j. job_id j = i) (ippObjList q) = Some j \<and> job_state j \<in> S)"

text \<open>A client's Cancel-Job is such a step of another thread.\<close>

lemma abort_served:
  assumes "served S i q" "IPP_JOB_ABORTING \<in> S"
  shows "served S i (set_state k IPP_JOB_ABORTING q)"
proof -
  let ?f = "\<lambda>j :: ipp_t. if job_id j = k then j\<lparr>job_state := IPP_JOB_ABORTING\<rparr> else j"
  have "find (\<lambda>j. job_id j = i) (map ?f js) = map_option ?f (find (\<lambda>j. job_id j = i) js)" for js
    by (induction js) auto
  moreover obtain j where "find (\<lambda>j. job_id j = i) (ippObjList q) = Some j" "job_state j \<in> S"
    using assms(1) by (auto simp: served_def)
  ultimately have "find (\<lambda>j. job_id j = i) (map ?f (ippObjList q)) = Some (?f j)" "job_state (?f j) \<in> S"
    using assms(2) by simp_all
  then have "\<exists>j. find (\<lambda>j. job_id j = i) (map ?f (ippObjList q)) = Some j \<and> job_state j \<in> S" by blast
  with assms(1) show ?thesis by (simp add: served_def set_state_def)
qed

lemma ipp_wait_buf_served:
  assumes "keeps (served S i) fs" "served S i (ipp w)"
  shows "ipp_wait_buf st fs w = run_bind (wait_in_buf IPP_WAIT True st fs w) (\<lambda>p fs w. Done (fst p) fs w)"
  using assms
proof (induction fs arbitrary: st w)
  case Nil
  then show ?case
    by (subst ipp_wait_buf.simps, subst wait_in_buf.simps)
      (auto simp: served_def list_covers_def split: option.split prod.split)
next
  case (Cons f fs)
  have "ipp_wait_buf st' fs (f w') = run_bind (wait_in_buf IPP_WAIT True st' fs (f w')) (\<lambda>p fs w. Done (fst p) fs w)"
    if "keep_alive IPP_WAIT True st w = (st', w')" for st' w'
    using that keeps_Cons [OF Cons.prems(1), of w'] Cons.prems(2)
    by (intro Cons.IH) (auto simp: keep_alive_def sendack_def split: if_splits)
  moreover have "list_covers w" using Cons.prems(2) by (simp add: served_def list_covers_def)
  ultimately show ?case
    by (subst ipp_wait_buf.simps, subst wait_in_buf.simps) (auto split: option.split prod.split)
qed

lemma ipp_wait_buf_job:
  assumes "job_inv H sub fs w" "keeps (served S i) fs" "served S i (ipp w)"
  shows "holds (ipp_wait_buf st fs w) (waits busy sub T)
    (\<lambda>b fs' w'. job_inv (insert b H) sub fs' w' \<and> same_job H w w' \<and> stream w' = stream w \<and> b \<notin> H \<and>
       keeps (served S i) fs' \<and> served S i (ipp w'))"
  unfolding ipp_wait_buf_served [OF assms(2,3)]
  by (rule holds_bind [OF holds_kept [OF wait_in_buf_waits [OF assms(1)] wait_in_buf_kept [OF assms(2,3)]]]) auto

lemma ipp_upd_simps [simp]:
  "ipp (set_size b n w) = ipp w" "ipp (put_data b off bs w) = ipp w" "ipp (put_out b f w) = ipp w"
  "ipp (log_add n w) = ipp w"
  by (simp_all add: set_size_def put_data_def put_out_def log_add_def)

section \<open>The job\<close>

lemma find_upd:
  "(\<And>j. job_id (f j) = job_id j) \<Longrightarrow>
   find (\<lambda>j. job_id j = i) (map (\<lambda>j. if job_id j = i then f j else j) js) = map_option f (find (\<lambda>j. job_id j = i) js)"
  by (induction js) auto

lemma upd_job_simps [simp]:
  "psy (upd_job i f w) = psy w" "stream (upd_job i f w) = stream w" "status (upd_job i f w) = status w"
  "jlog (upd_job i f w) = jlog w" "frame w (upd_job i f w)" "size_of b (upd_job i f w) = size_of b w"
  "buf_area b (upd_job i f w) = buf_area b w" "job_inv H sub fs (upd_job i f w) = job_inv H sub fs w"
  by (simp_all add: upd_job_def stream_def status_def frame_def size_of_def buf_area_def get_data_def job_inv_def tidy_def)

text \<open>
  The end of the job, of which \<open>n\<close> bytes were asked for and \<open>T\<close> was there to read; \<open>c\<close>: it was cancelled, by the end of
  the connection or, when the others may set \<open>ABORTING\<close>, by a client.
\<close>

definition bin_result :: "u8 set \<Rightarrow> u16 \<Rightarrow> bool \<Rightarrow> ippq \<Rightarrow> bool" where
  "bin_result S i c q \<longleftrightarrow> (\<exists>j. find (\<lambda>j. job_id j = i) (ippObjList q) = Some j \<and>
     (if c then job_state j = IPP_JOB_CANCEL \<and> RetCode j = IPP_SERVER_ERROR_JOB_CANCELLED else job_state j \<in> S))"

definition bin_done :: "nat set \<Rightarrow> u8 list \<Rightarrow> u8 set \<Rightarrow> u16 \<Rightarrow> int \<Rightarrow> u8 list \<Rightarrow> world \<Rightarrow> world \<Rightarrow> bool" where
  "bin_done H sub S i n T w w' \<longleftrightarrow> (\<exists>d rest c. T = d @ rest \<and> pp_inv (psy w') H (sub @ d) \<and> status w' = status w \<and> frame w w' \<and>
     jlog w' = JL_AddSize 0 (of_nat (length d)) (jlog w) \<and> bin_result S i c (ipp w') \<and>
     (rest = [] \<and> c = (int (length T) \<noteq> n) \<or> c \<and> IPP_JOB_ABORTING \<in> S))"

lemma bin_job_end_job:
  assumes i: "job_inv (insert b H) sub fs w" "b \<notin> H" "size_of b w = 0" and st: "status w \<noteq> PrnNoUsed" and sv: "served S i (ipp w)"
    and S: "S \<subseteq> {IPP_JOB_PROCESS, IPP_JOB_ABORTING}"
  shows "holds (bin_job_end i b r fs (if c then set_job_state i IPP_JOB_CANCEL w else w)) B
    (\<lambda>_ fs' w'. pp_inv (psy w') H sub \<and> status w' = status w \<and> frame w w' \<and> jlog w' = jlog w \<and> bin_result S i c (ipp w'))"
proof -
  obtain j where j: "find (\<lambda>j. job_id j = i) (ippObjList (ipp w)) = Some j" "job_state j \<in> S"
    using sv by (auto simp: served_def)
  have nc: "job_state j \<noteq> IPP_JOB_CANCEL" using j(2) S by (auto simp: ipp_states)
  have Hb: "insert b H - {b} = H" using i(2) by auto
  show ?thesis
  proof (cases c)
    case False
    from put_out_job [OF i(1), of b PRN_Q_EOF] i(3) Hb j nc False show ?thesis
      by (auto simp: bin_job_end_def with_job_def deref_def or_fault_def job_inv_def same_job_def bin_result_def)
  next
    case True
    define w1 where "w1 = set_job_state i IPP_JOB_CANCEL w"
    have i1: "job_inv (insert b H) sub fs w1" "status w1 = status w" using i(1) by (simp_all add: w1_def set_job_state_def)
    have j1: "find (\<lambda>j. job_id j = i) (ippObjList (ipp w1)) = Some (j\<lparr>job_state := IPP_JOB_CANCEL\<rparr>)"
      unfolding w1_def set_job_state_def upd_job_def using j by (simp add: find_upd)
    note d = submit_job [OF i1(1) insertI1, of 0 PRN_Q_ABORT, unfolded Hb, simplified]
    have "abort_spooler (Some b) fs w1 = Done () fs (put_out b PRN_Q_ABORT (set_size b 0 w1))"
      using st i1(2) by (intro abort_spooler_held) simp
    moreover have "find (\<lambda>j. job_id j = i) (ippObjList (ipp (upd_job i (\<lambda>j. j\<lparr>RetCode := r\<rparr>) v))) =
        Some (j\<lparr>job_state := IPP_JOB_CANCEL, RetCode := r\<rparr>)" if "ipp v = ipp w1" for r v
      unfolding upd_job_def using j1 that by (simp add: find_upd)
    moreover have "frame w w1" "jlog w1 = jlog w" by (simp_all add: w1_def set_job_state_def)
    ultimately show ?thesis
      using True j1 d i1(2)
      by (auto simp: bin_job_end_def with_job_def deref_def or_fault_def job_inv_def same_job_def bin_result_def simp flip: w1_def
          intro: frame_trans)
  qed
qed

text \<open>Filling a buffer with what was read.\<close>

lemma stored_job:
  assumes "job_inv H sub fs w" "b \<in> H" "length bs \<le> BLOCKSIZE"
  shows "job_inv H sub fs (set_size b (int (length bs)) (put_data b 0 bs w))"
    "same_job (H - {b}) w (set_size b (int (length bs)) (put_data b 0 bs w))"
    "size_of b (set_size b (int (length bs)) (put_data b 0 bs w)) = int (length bs)"
    "take (length bs) (buf_area b (set_size b (int (length bs)) (put_data b 0 bs w))) = bs"
    "stream (set_size b (int (length bs)) (put_data b 0 bs w)) = stream w"
proof -
  have l: "0 + length bs \<le> BLOCKSIZE + 20" "0 \<le> int (length bs)" "int (length bs) \<le> int (BLOCKSIZE + 20)" using assms(3) by simp_all
  note d = put_data_job [OF assms(1,2) l(1)]
  note s = set_size_job [OF d(1) assms(2) l(2,3)]
  show "job_inv H sub fs (set_size b (int (length bs)) (put_data b 0 bs w))"
    "size_of b (set_size b (int (length bs)) (put_data b 0 bs w)) = int (length bs)"
    "take (length bs) (buf_area b (set_size b (int (length bs)) (put_data b 0 bs w))) = bs"
    "stream (set_size b (int (length bs)) (put_data b 0 bs w)) = stream w"
    using s d(3) by simp_all
  show "same_job (H - {b}) w (set_size b (int (length bs)) (put_data b 0 bs w))"
    by (rule same_job_trans [OF d(2) s(2)])
qed

text \<open>The loop over buffers.\<close>

lemma bin_done_more:
  assumes "bin_done H (sub @ d) S i (n - int (length d)) T w2 w'" "status w2 = status w" "frame w w2"
    "jlog w2 = JL_AddSize 0 (of_nat (length d)) (jlog w)" "length (JOBLIST (jlog w)) = MAX_JOB_LIST"
  shows "bin_done H sub S i n (d @ T) w w'"
proof -
  obtain e rest c where e: "T = e @ rest" "pp_inv (psy w') H ((sub @ d) @ e)" "status w' = status w2" "frame w2 w'"
    "jlog w' = JL_AddSize 0 (of_nat (length e)) (jlog w2)" "bin_result S i c (ipp w')"
    "rest = [] \<and> c = (int (length T) \<noteq> n - int (length d)) \<or> c \<and> IPP_JOB_ABORTING \<in> S"
    using assms(1) unfolding bin_done_def by blast
  have "int (length T) = n - int (length d) \<longleftrightarrow> int (length (d @ T)) = n" by auto
  then have "rest = [] \<and> c = (int (length (d @ T)) \<noteq> n) \<or> c \<and> IPP_JOB_ABORTING \<in> S" using e(7) by auto
  moreover have "jlog w' = JL_AddSize 0 (of_nat (length (d @ e))) (jlog w)"
    using e(5) assms(4,5) by (simp add: JL_AddSize_twice add.commute)
  ultimately show ?thesis
    unfolding bin_done_def using e assms(2) frame_trans [OF assms(3) e(4)]
    by (intro exI [of _ "d @ e"] exI [of _ rest] exI [of _ c]) simp
qed

lemma bin_doc_loop:
  assumes "job_inv H sub fs w" "ireq_ok r" "\<not> chunked r" "ippreq r \<noteq> IPP_PRINT_JOB_TIME_OUT" "0 \<le> qsize r"
    and "keeps (served S i) fs" "served S i (ipp w)" "status w \<noteq> PrnNoUsed" "length (JOBLIST (jlog w)) = MAX_JOB_LIST"
    and "S \<subseteq> {IPP_JOB_PROCESS, IPP_JOB_ABORTING}"
  shows "holds (ippProcessBINJob junk i r fs w) (waits busy sub (take (nat (qsize r)) (istream r w)))
    (\<lambda>_ fs' w'. bin_done H sub S i (qsize r) (take (nat (qsize r)) (istream r w)) w w')"
  using assms
proof (induction junk i r fs w arbitrary: sub rule: ippProcessBINJob.induct)
  case (1 junk i r fs w)
  note IH = 1(1) and pre = 1(2-)
  let ?T = "take (nat (qsize r)) (istream r w)"
  let ?B = "waits busy sub ?T"
  show ?case
  proof (subst ippProcessBINJob.simps, rule holds_bind_eq [OF ipp_wait_buf_job [OF pre(1,6,7)]], goal_cases)
    case got: (1 b fs1 w1)
    then have i1: "job_inv (insert b H) sub fs1 w1" "b \<notin> H" and s1: "status w1 = status w" "jlog w1 = jlog w" "frame w w1"
      and k1: "keeps (served S i) fs1" "served S i (ipp w1)" and st: "istream r w1 = istream r w"
      by (auto simp: istream_def same_job_def)
    have Hb: "insert b H - {b} = H" using i1(2) by auto
    note rd = holds_kept [OF httpRead_plain [OF may_starve_waits i1(1) pre(2,3)] httpRead_kept [where P = "served S i", OF k1]]
    show ?case
    proof (rule holds_bind_eq [OF rd], goal_cases)
      case (2 p fs2 w2)
      obtain n bs r2 where p: "p = (n, bs, r2)" by (cases p) auto
      define w3 where "w3 = set_size b n (put_data b 0 bs w2)"
      from 2 have f: "job_inv (insert b H) sub fs2 w2" "same_job (insert b H) w1 w2" "\<not> chunked r2" "n = int (length bs)"
        "keeps (served S i) fs2" "served S i (ipp w2)" by (simp_all add: p)
      have nl: "length bs \<le> BLOCKSIZE" using 2 by (auto simp: p split: if_splits)
      note i3 = stored_job [OF f(1) insertI1 nl, folded f(4), folded w3_def, unfolded Hb]
      have same: "status w3 = status w" "jlog w3 = jlog w" "served S i (ipp w3)"
        using f(2,6) i3(2) s1 by (simp_all add: same_job_def) (simp add: w3_def)
      have fr: "frame w w3"
        using f(2) i3(2) frame_trans [OF s1(3) frame_trans [of w1 w2 w3]] by (simp add: same_job_def)
      show ?case
      proof (cases "n \<le> 0")
        case True
        with f(4) have n: "n = 0" "bs = []" by simp_all
        define c where "c = (ippreq r2 = IPP_PRINT_JOB_TIME_OUT)"
        have T: "?T = []" "int (length ?T) = qsize r \<longleftrightarrow> \<not> c"
          using 2 n pre(4,5) st by (auto simp: p c_def split: if_splits)
        show ?thesis
          unfolding p prod.case Let_def w3_def [symmetric] if_P [OF True] c_def [symmetric]
          by (rule holds_mono [OF bin_job_end_job [OF i3(1) i1(2) _ _ same(3) pre(10)]])
            (use pre(8) same T i3(3) n frame_trans [OF fr] in \<open>auto simp: bin_done_def\<close>)
      next
        case False
        with 2 have n: "0 < n" "n \<le> qsize r" "ireq_ok r2" "qsize r2 = qsize r - n" "ippreq r2 = ippreq r"
          "istream r w = bs @ istream r2 w2" using st pre(5) by (auto simp: p split: if_splits)
        obtain j where j: "deref (Some i) w3 = Inr j" "job_state j \<in> S"
          using same(3) by (auto simp: served_def deref_def or_fault_def)
        show ?thesis
        proof (cases "job_state j = IPP_JOB_ABORTING")
          case True
          define w4 where "w4 = set_size b 0 w3"
          note i4 = set_size_job [OF i3(1) insertI1, of 0, simplified, folded w4_def]
          have s4: "status w4 = status w" "jlog w4 = jlog w" "served S i (ipp w4)" "frame w w4"
            using i4(2,6) same frame_trans [OF fr] by (simp_all add: same_job_def Hb w4_def)
          note e = bin_job_end_job [OF i4(1) i1(2) i4(3) _ s4(3) pre(10), where c = True, unfolded if_True]
          have "holds (bin_job_end i b r2 fs2 (set_job_state i IPP_JOB_CANCEL w4)) ?B (\<lambda>_ fs' w'. bin_done H sub S i (qsize r) ?T w w')"
          proof (rule holds_mono [OF e])
            fix a fs' w' assume "pp_inv (psy w') H sub \<and> status w' = status w4 \<and> frame w4 w' \<and> jlog w' = jlog w4 \<and>
              bin_result S i True (ipp w')"
            then show "bin_done H sub S i (qsize r) ?T w w'"
              unfolding bin_done_def using s4 True j(2) frame_trans [OF s4(4)]
              by (intro exI [of _ "[]"] exI [of _ ?T] exI [of _ True]) simp
          qed (use pre(8) s4 in simp_all)
          with j(1) True show ?thesis
            unfolding p prod.case Let_def w3_def [symmetric] if_not_P [OF False] by (simp add: w4_def)
        next
          case running: False
        define w4 where "w4 = put_out b PRN_Q_NORMAL (log_add n w3)"
        have i4: "job_inv H (sub @ bs) fs2 w4" "same_job H (log_add n w3) w4" "stream w4 = stream w2"
          using put_out_job [of "insert b H" sub fs2 "log_add n w3" b PRN_Q_NORMAL] i3 f(4) Hb by (simp_all add: w4_def)
        have s4: "status w4 = status w" "jlog w4 = JL_AddSize 0 (of_nat (length bs)) (jlog w)" "frame w w4" "served S i (ipp w4)"
          using i4(2) same f(4) frame_trans [OF fr frame_trans [of w3 "log_add n w3" w4]] by (simp_all add: same_job_def w4_def)
        have T: "?T = bs @ take (nat (qsize r2)) (istream r2 w4)"
          using n f(4) i4(3) by (simp add: istream_def nat_diff_distrib)
        have "holds (ippProcessBINJob junk i r2 fs2 w4) (waits busy (sub @ bs) (take (nat (qsize r2)) (istream r2 w4)))
          (\<lambda>_ fs' w'. bin_done H (sub @ bs) S i (qsize r2) (take (nat (qsize r2)) (istream r2 w4)) w4 w')"
          by (rule IH [OF got(1) 2(1) p [symmetric] refl w3_def False j(1) running, folded w4_def])
            (use i4 f n s4 pre in \<open>simp_all flip: w4_def\<close>)
        then have "holds (ippProcessBINJob junk i r2 fs2 w4) ?B (\<lambda>_ fs' w'. bin_done H sub S i (qsize r) ?T w w')"
          by (rule holds_mono) (use waits_shift T bin_done_more s4 pre(9) n f(4) in \<open>auto\<close>)
        with j(1) running show ?thesis
          unfolding p prod.case Let_def w3_def [symmetric] if_not_P [OF False] by (simp add: w4_def)
        qed
      qed
    qed (simp add: BLOCKSIZE_def)
  qed
qed

section \<open>Properties\<close>

text \<open>C32: Binary Internet printing is exact. For a job whose request gives the length \<open>qsize\<close> of a document that is not sent in chunks,
  whatever segments the data arrives in and whatever the other threads do meanwhile (they keep the job listed, the count of
  jobs right and the state of the job in \<open>S\<close>; the connection does not fail and the peer is not slower than the
  receive timeout), what the thread submits to the printer is the first \<open>qsize\<close> bytes of the connection, in order and
  nothing else, and the log entry counts them. If the connection ends earlier, what came is submitted and the job is cancelled;
  otherwise its state stays in \<open>S\<close>. When others may cancel the job, \<open>ABORTING \<in> S\<close>, it may end cancelled with a
  beginning of the document submitted; a job that does not end cancelled is submitted whole in any case.
  Until then the thread waits only for a free buffer or for the peer.\<close>

theorem ipp_binary_job_exact:
  fixes r w
  defines "T \<equiv> take (nat (qsize r)) (istream r w)"
  assumes "job_inv H sub fs w" "length (JOBLIST (jlog w)) = MAX_JOB_LIST" "status w \<noteq> PrnNoUsed"
    and "ireq_ok r" "\<not> chunked r" "0 \<le> qsize r" "ippreq r \<noteq> IPP_PRINT_JOB_TIME_OUT"
    and "S \<subseteq> {IPP_JOB_PROCESS, IPP_JOB_ABORTING}" "served S i (ipp w)" "keeps (served S i) fs"
  shows "holds (ippProcessBINJob junk i r fs w) (waits (\<lambda>_. False) sub T) (\<lambda>_ _ w'.
    \<exists>d rest j. T = d @ rest \<and> pp_inv (psy w') H (sub @ d) \<and> status w' = status w \<and>
      jlog w' = JL_AddSize 0 (of_nat (length d)) (jlog w) \<and> find (\<lambda>j. job_id j = i) (ippObjList (ipp w')) = Some j \<and>
      (if job_state j = IPP_JOB_CANCEL
       then RetCode j = IPP_SERVER_ERROR_JOB_CANCELLED \<and> (rest = [] \<and> int (length T) \<noteq> qsize r \<or> IPP_JOB_ABORTING \<in> S)
       else job_state j \<in> S \<and> rest = [] \<and> int (length T) = qsize r))"
  unfolding T_def
proof (rule holds_mono [OF bin_doc_loop])
  fix a fs' w' assume "bin_done H sub S i (qsize r) (take (nat (qsize r)) (istream r w)) w w'"
  then obtain d rest c j where "take (nat (qsize r)) (istream r w) = d @ rest" "pp_inv (psy w') H (sub @ d)"
    "status w' = status w" "jlog w' = JL_AddSize 0 (of_nat (length d)) (jlog w)"
    "find (\<lambda>j. job_id j = i) (ippObjList (ipp w')) = Some j"
    "if c then job_state j = IPP_JOB_CANCEL \<and> RetCode j = IPP_SERVER_ERROR_JOB_CANCELLED else job_state j \<in> S"
    "rest = [] \<and> c = (int (length (take (nat (qsize r)) (istream r w))) \<noteq> qsize r) \<or> c \<and> IPP_JOB_ABORTING \<in> S"
    unfolding bin_done_def bin_result_def by blast
  moreover have "IPP_JOB_CANCEL \<notin> S" using assms(9) by (auto simp: ipp_states)
  ultimately show "\<exists>d rest j. take (nat (qsize r)) (istream r w) = d @ rest \<and> pp_inv (psy w') H (sub @ d) \<and> status w' = status w \<and>
      jlog w' = JL_AddSize 0 (of_nat (length d)) (jlog w) \<and> find (\<lambda>j. job_id j = i) (ippObjList (ipp w')) = Some j \<and>
      (if job_state j = IPP_JOB_CANCEL
       then RetCode j = IPP_SERVER_ERROR_JOB_CANCELLED \<and>
         (rest = [] \<and> int (length (take (nat (qsize r)) (istream r w))) \<noteq> qsize r \<or> IPP_JOB_ABORTING \<in> S)
       else job_state j \<in> S \<and> rest = [] \<and> int (length (take (nat (qsize r)) (istream r w))) = qsize r)"
    by (intro exI [of _ d] exI [of _ rest] exI [of _ j]) (cases c; force)
qed (use assms in simp_all)

text \<open>A document that is in the input buffer already is taken without waiting.\<close>

lemma put_out_frees:
  "job_inv H sub fs w \<Longrightarrow> b \<in> H \<Longrightarrow> frees_of 0 (spl (put_out b f w)) = frees_of 0 (spl w)"
proof -
  assume i: "job_inv H sub fs w" and b: "b \<in> H"
  then have "pp_inv (psy w) H sub" by (simp add: job_inv_def)
  note d = pp_invD [OF this]
  have "b < PRNQUEUELEN" "b \<notin> set (frees_of 0 (spl w) @ outs_of 0 (spl w))" using d(6,7) b by auto
  from pq.put_out_spec [OF d(1) this] show ?thesis by (simp add: put_out_def)
qed

lemma stored_frees:
  "job_inv H sub fs w \<Longrightarrow> frees_of 0 (spl (set_size b (int (length bs)) (put_data b 0 bs w))) = frees_of 0 (spl w)"
  using client_fill_queue(2) [of "spl w" b bs] pp_invD(1) [of "psy w" H sub]
  by (simp add: job_inv_def client_fill_def set_size_def put_data_def)

lemma httpRead_buffered:
  assumes "unread r = bs" "ireq_ok r" "icnt r = int (length bs)" "qsize r = int (length bs)" "\<not> chunked r"
    "bs \<noteq> []" "length bs \<le> BLOCKSIZE"
  obtains r' where "httpRead junk (int BLOCKSIZE) r fs w = Done (int (length bs), bs, r') fs w"
    "qsize r' = 0" "\<not> chunked r'" "ippreq r' = ippreq r"
proof -
  have "httpRead junk (int BLOCKSIZE) r fs w =
      Done (int (length bs), bs, r\<lparr>ipos := ipos r + length bs, icnt := 0, qsize := 0\<rparr>) fs w"
    using assms by (auto simp: httpRead_def zot_recv_def fill_if_empty_def ireq_ok_def unread_def Let_def min_def)
  then show ?thesis by (rule that) (simp_all add: assms)
qed

lemma bin_short_job:
  assumes i: "job_inv H sub [] w" and sv: "served {IPP_JOB_PROCESS} i (ipp w)" and st: "status w \<noteq> PrnNoUsed"
    and fr: "frees_of 0 (spl w) = b # c # rest" and jl: "length (JOBLIST (jlog w)) = MAX_JOB_LIST"
    and r: "unread r = bs" "ireq_ok r" "icnt r = int (length bs)" "qsize r = int (length bs)" "\<not> chunked r"
      "bs \<noteq> []" "length bs \<le> BLOCKSIZE" "ippreq r \<noteq> IPP_PRINT_JOB_TIME_OUT"
  shows "\<exists>r' w'. ippProcessBINJob junk i r [] w = Done r' [] w'"
proof -
  have k: "keeps (served {IPP_JOB_PROCESS} i) []" by (simp add: keeps_def)
  obtain s where s: "wait_in_buf IPP_WAIT True 0 [] w = Done (b, 0) [] (set_sp s w)" "job_inv (insert b H) sub [] (set_sp s w)"
    "same_job H w (set_sp s w)" "b \<notin> H" "frees_of 0 s = c # rest" by (rule wait_in_buf_free [OF i fr])
  let ?w1 = "set_sp s w"
  obtain r' where rd: "httpRead junk (int BLOCKSIZE) r [] ?w1 = Done (int (length bs), bs, r') [] ?w1"
    "qsize r' = 0" "\<not> chunked r'" "ippreq r' = ippreq r" by (rule httpRead_buffered [OF r(1-7)])
  define w3 where "w3 = set_size b (int (length bs)) (put_data b 0 bs ?w1)"
  note i3 = stored_job [OF s(2) insertI1 r(7), folded w3_def]
  have sv3: "served {IPP_JOB_PROCESS} i (ipp w3)" using sv by (simp add: w3_def)
  then obtain j where j: "deref (Some i) w3 = Inr j" "job_state j \<noteq> IPP_JOB_ABORTING"
    by (auto simp: served_def deref_def or_fault_def ipp_states)
  define w4 where "w4 = put_out b PRN_Q_NORMAL (log_add (int (length bs)) w3)"
  have Hb: "insert b H - {b} = H" using s(4) by auto
  have i4: "job_inv H (sub @ bs) [] w4"
    using put_out_job [of "insert b H" sub "[]" "log_add (int (length bs)) w3" b PRN_Q_NORMAL] i3 Hb by (simp add: w4_def)
  have "frees_of 0 (spl w4) = frees_of 0 (spl (log_add (int (length bs)) w3))"
    unfolding w4_def by (rule put_out_frees [of "insert b H" sub "[]"]) (simp_all add: i3(1))
  then have f4: "frees_of 0 (spl w4) = c # rest" using stored_frees [OF s(2), of b bs] s(5) by (simp add: w3_def)
  have sv4: "served {IPP_JOB_PROCESS} i (ipp w4)" using sv3 by (simp add: w4_def)
  obtain s5 where s5: "wait_in_buf IPP_WAIT True 0 [] w4 = Done (c, 0) [] (set_sp s5 w4)"
    by (rule wait_in_buf_free [OF i4 f4])
  have "httpRead junk (int BLOCKSIZE) r' [] (set_sp s5 w4) = Done (0, [], r') [] (set_sp s5 w4)"
    using rd(2,3) by (simp add: httpRead_def)
  then have "\<exists>r5 w5. ippProcessBINJob junk i r' [] w4 = Done r5 [] w5"
    using s5 sv4 rd(4) r(8) ipp_wait_buf_served [OF k sv4]
    by (subst ippProcessBINJob.simps) (auto simp: served_def bin_job_end_def with_job_def deref_def or_fault_def ipp_states)
  moreover have "ippProcessBINJob junk i r [] w = ippProcessBINJob junk i r' [] w4"
    using s(1) rd(1) j r(6) ipp_wait_buf_served [OF k sv]
    by (subst ippProcessBINJob.simps) (simp add: Let_def w4_def flip: w3_def)
  ultimately show ?thesis by simp
qed

text \<open>A job that a client has cancelled submits nothing more.\<close>

lemma bin_aborted_job:
  assumes i: "job_inv H sub [] w" and sv: "served {IPP_JOB_ABORTING} i (ipp w)" and st: "status w \<noteq> PrnNoUsed"
    and fr: "frees_of 0 (spl w) = b # rest"
    and r: "unread r = bs" "ireq_ok r" "icnt r = int (length bs)" "qsize r = int (length bs)" "\<not> chunked r"
      "bs \<noteq> []" "length bs \<le> BLOCKSIZE"
  shows "\<exists>r' w'. ippProcessBINJob junk i r [] w = Done r' [] w' \<and> pp_inv (psy w') H sub"
proof -
  have k: "keeps (served {IPP_JOB_ABORTING} i) []" by (simp add: keeps_def)
  obtain s where s: "wait_in_buf IPP_WAIT True 0 [] w = Done (b, 0) [] (set_sp s w)" "job_inv (insert b H) sub [] (set_sp s w)"
    "same_job H w (set_sp s w)" "b \<notin> H" by (rule wait_in_buf_free [OF i fr])
  let ?w1 = "set_sp s w"
  obtain r' where rd: "httpRead junk (int BLOCKSIZE) r [] ?w1 = Done (int (length bs), bs, r') [] ?w1" by (rule httpRead_buffered [OF r])
  define w3 where "w3 = set_size b (int (length bs)) (put_data b 0 bs ?w1)"
  note i3 = stored_job [OF s(2) insertI1 r(7), folded w3_def]
  have sv3: "served {IPP_JOB_ABORTING} i (ipp w3)" using sv by (simp add: w3_def)
  then obtain j where j: "deref (Some i) w3 = Inr j" "job_state j = IPP_JOB_ABORTING"
    by (auto simp: served_def deref_def or_fault_def)
  define w4 where "w4 = set_size b 0 w3"
  note i4 = set_size_job [OF i3(1) insertI1, of 0, simplified, folded w4_def]
  have st4: "status w4 \<noteq> PrnNoUsed" using st i4(6) i3(2) s(3) by (simp add: same_job_def)
  have sv4: "served {IPP_JOB_ABORTING} i (ipp w4)" using sv3 by (simp add: w4_def)
  note e = bin_job_end_job [OF i4(1) s(4) i4(3) st4 sv4, where c = True, unfolded if_True, of r' "\<lambda>_. False"]
  have run: "ippProcessBINJob junk i r [] w = bin_job_end i b r' [] (set_job_state i IPP_JOB_CANCEL w4)"
    using s(1) rd j r(6) ipp_wait_buf_served [OF k sv]
    by (subst ippProcessBINJob.simps) (simp add: Let_def w4_def flip: w3_def)
  obtain r5 f5 w5 where d: "bin_job_end i b r' [] (set_job_state i IPP_JOB_CANCEL w4) = Done r5 f5 w5" "pp_inv (psy w5) H sub"
    using e by (cases "bin_job_end i b r' [] (set_job_state i IPP_JOB_CANCEL w4)") auto
  moreover have "f5 = []"
    using d(1) by (auto simp: bin_job_end_def with_job_def abort_spooler_def split: sum.splits if_splits option.splits)
  ultimately show ?thesis using run by simp
qed

lemma pp_inv_unique: "pp_inv y H sub \<Longrightarrow> pp_inv y H sub' \<Longrightarrow> sub = sub'"
  by (simp add: pp_inv_def)

text \<open>Job 7, two bytes, in state \<open>st\<close>.\<close>

definition doc_reader :: ireq where
  "doc_reader = \<lparr>ibuf = [65, 66], ipos = 0, icnt = 2, ippreq = IPP_PRINT_JOB, chunked = False, qsize = 2\<rparr>"

definition printing_world :: "u8 \<Rightarrow> psys \<Rightarrow> world" where
  "printing_world st y = set_in_use IppUsed ((conn_world y [] [])\<lparr>ipp := ippq_static\<lparr>ippJobsNo := 1, ippObjList :=
     [\<lparr>rd = doc_reader, DocType = IPP_BINARY_DOC, RetCode = IPP_OK, ID = [0, 0, 0, 0], Language = None, Charset = None,
       UnSupportGroup = \<lparr>pf_data = [], pf_len = 0\<rparr>, RespGroup = \<lparr>pf_data = [], pf_len = 0\<rparr>, job_name = None,
       user_name = None, job_state = st, job_id = 7\<rparr>]\<rparr>\<rparr>)"

lemma printing_world_job:
  obtains y where "job_inv {} [] [] (printing_world st y)" "frees_of 0 (spl (printing_world st y)) = 0 # 1 # [2..<PRNQUEUELEN]"
    "served {st} 7 (ipp (printing_world st y))" "status (printing_world st y) \<noteq> PrnNoUsed"
    "length (JOBLIST (jlog (printing_world st y))) = MAX_JOB_LIST" "istream doc_reader (printing_world st y) = [65, 66]"
proof -
  obtain y :: psys where y: "pp_inv y {} []" "frees_of 0 (sp y) = [0..<PRNQUEUELEN]" using attach_ready by metis
  let ?w = "printing_world st y"
  define q where "q = ipp ?w"
  let ?v = "(conn_world y [] [])\<lparr>ipp := q\<rparr>"
  have w: "?w = set_in_use IppUsed ?v" by (simp add: q_def printing_world_def set_in_use_def)
  have iv: "job_inv {} [] [] ?v" using y(1) by (simp add: job_inv_def tidy_def conn_world_def)
  note j = set_in_use_job [OF iv, where v = IppUsed, folded w]
  have f: "frees_of 0 (spl ?w) = 0 # 1 # [2..<PRNQUEUELEN]"
    using frees_set_in_use [of ?v "{}" "[]" IppUsed] y unfolding w by (simp add: PRNQUEUELEN_def upt_rec)
  have sv: "served {st} 7 (ipp ?w)" by (simp add: printing_world_def set_in_use_def served_def)
  have st: "status ?w \<noteq> PrnNoUsed" "length (JOBLIST (jlog ?w)) = MAX_JOB_LIST"
    using j(2,7) by (simp_all add: IppUsed_def PrnNoUsed_def)
  have "istream doc_reader ?w = [65, 66]" using j(5) by (simp add: istream_def stream_def conn_world_def doc_reader_def unread_def)
  from that [OF j(1) f sv st this] show ?thesis .
qed

lemma doc_reader_ok: "unread doc_reader = [65, 66]" "ireq_ok doc_reader" "\<not> chunked doc_reader" "qsize doc_reader = 2"
  "icnt doc_reader = 2" "ippreq doc_reader \<noteq> IPP_PRINT_JOB_TIME_OUT"
  by (simp_all add: doc_reader_def unread_def ireq_ok_def ipp_ops)

theorem ipp_binary_job_exact_witness:
  "(\<exists>y r' w'. ippProcessBINJob [] 7 doc_reader [] (printing_world IPP_JOB_PROCESS y) = Done r' [] w' \<and>
     pp_inv (psy w') {} [65, 66]) \<and>
   (\<exists>y r' w' j. ippProcessBINJob [] 7 doc_reader [] (printing_world IPP_JOB_ABORTING y) = Done r' [] w' \<and>
     pp_inv (psy w') {} [] \<and> find (\<lambda>j. job_id j = 7) (ippObjList (ipp w')) = Some j \<and> job_state j = IPP_JOB_CANCEL)"
proof
  note r = doc_reader_ok
  have q: "0 \<le> qsize doc_reader" using r(4) by simp
  have k: "keeps P []" for P by (simp add: keeps_def)
  obtain y where y: "job_inv {} [] [] (printing_world IPP_JOB_PROCESS y)"
    "frees_of 0 (spl (printing_world IPP_JOB_PROCESS y)) = 0 # 1 # [2..<PRNQUEUELEN]"
    "served {IPP_JOB_PROCESS} 7 (ipp (printing_world IPP_JOB_PROCESS y))" "status (printing_world IPP_JOB_PROCESS y) \<noteq> PrnNoUsed"
    "length (JOBLIST (jlog (printing_world IPP_JOB_PROCESS y))) = MAX_JOB_LIST"
    "istream doc_reader (printing_world IPP_JOB_PROCESS y) = [65, 66]" by (rule printing_world_job)
  obtain r' w' where d: "ippProcessBINJob [] 7 doc_reader [] (printing_world IPP_JOB_PROCESS y) = Done r' [] w'"
    using bin_short_job [OF y(1,3,4,2,5) r(1,2), of "[]"] r by (auto simp: BLOCKSIZE_def)
  have S: "{IPP_JOB_PROCESS} \<subseteq> {IPP_JOB_PROCESS, IPP_JOB_ABORTING}" by simp
  have ns: "IPP_JOB_ABORTING \<notin> {IPP_JOB_PROCESS}" by (simp add: ipp_states)
  have "pp_inv (psy w') {} [65, 66]"
    using ipp_binary_job_exact [OF y(1,5,4) r(2,3) q r(6) S y(3) k, of "[]", unfolded d holds.simps y(6) r(4)] ns
    by (auto split: if_splits)
  with d show "\<exists>y r' w'. ippProcessBINJob [] 7 doc_reader [] (printing_world IPP_JOB_PROCESS y) = Done r' [] w' \<and>
     pp_inv (psy w') {} [65, 66]" by blast
  obtain z where z: "job_inv {} [] [] (printing_world IPP_JOB_ABORTING z)"
    "frees_of 0 (spl (printing_world IPP_JOB_ABORTING z)) = 0 # 1 # [2..<PRNQUEUELEN]"
    "served {IPP_JOB_ABORTING} 7 (ipp (printing_world IPP_JOB_ABORTING z))" "status (printing_world IPP_JOB_ABORTING z) \<noteq> PrnNoUsed"
    "length (JOBLIST (jlog (printing_world IPP_JOB_ABORTING z))) = MAX_JOB_LIST"
    "istream doc_reader (printing_world IPP_JOB_ABORTING z) = [65, 66]" by (rule printing_world_job)
  obtain r2 w2 where e: "ippProcessBINJob [] 7 doc_reader [] (printing_world IPP_JOB_ABORTING z) = Done r2 [] w2" "pp_inv (psy w2) {} []"
    using bin_aborted_job [OF z(1,3,4,2) r(1,2), of "[]"] r by (auto simp: BLOCKSIZE_def)
  have S: "{IPP_JOB_ABORTING} \<subseteq> {IPP_JOB_PROCESS, IPP_JOB_ABORTING}" by simp
  have u: "d = []" if "pp_inv (psy w2) {} d" for d using pp_inv_unique [OF that e(2)] .
  have "\<exists>j. find (\<lambda>j. job_id j = 7) (ippObjList (ipp w2)) = Some j \<and> job_state j = IPP_JOB_CANCEL"
    using ipp_binary_job_exact [OF z(1,5,4) r(2,3) q r(6) S z(3) k, of "[]", unfolded e(1) holds.simps z(6) r(4)]
    by (auto dest: u split: if_splits)
  with e show "\<exists>y r' w' j. ippProcessBINJob [] 7 doc_reader [] (printing_world IPP_JOB_ABORTING y) = Done r' [] w' \<and>
     pp_inv (psy w') {} [] \<and> find (\<lambda>j. job_id j = 7) (ippObjList (ipp w')) = Some j \<and> job_state j = IPP_JOB_CANCEL" by blast
qed

end
