(* ===== verification/Ipp_Job_Props.thy ===== *)
theory Ipp_Job_Props
  imports Ipp_Job Ipp_Stream Net_Start
begin

text \<open>
  The list of jobs of the Internet printing server: what keeps it well-formed, and that cancelling the job at its head
  loses the jobs behind it.
\<close>

section \<open>Cancelling the first of several jobs\<close>

lemma close_other_ipp:
  assumes "close_other ob w = Inr w'"
  shows "\<exists>c. w' = w\<lparr>ipp := (ipp w)\<lparr>closed_jobs := c\<rparr>\<rparr>"
  using assms by (auto simp: close_other_def res_bind_def split: sum.splits)

text \<open>C35: When a client cancels the first job of the list while another waits behind it, the list is lost: its head is null, but
  the number of jobs still counts the others. The next time the printing thread finds the port free it
  follows the null pointer.\<close>

theorem ipp_cancel_head_strands_jobs:
  assumes "ippObjList (ipp w) = j # k # js" "unat (ippJobsNo (ipp w)) = length (ippObjList (ipp w))"
    and "cancel_pending j w = Inr w'" "port_status w = PORT_READY" "status w = PrnNoUsed"
  shows "ippObjList (ipp w') = [] \<and> ippJobsNo (ipp w') \<noteq> 0 \<and>
    ippProcessJob_pass junk heap at_null startime fs w' = Fault NullRead"
proof -
  let ?q = "(ipp w)\<lparr>ippObjList := unlink_job (job_id j) (ippObjList (ipp w)), ippJobsNo := ippJobsNo (ipp w) - 1\<rparr>"
  from assms(3) obtain c where w': "w' = w\<lparr>ipp := ?q\<lparr>closed_jobs := c\<rparr>\<rparr>"
    unfolding cancel_pending_def Let_def by (auto dest: close_other_ipp)
  have e: "ippObjList (ipp w') = []" using assms(1) by (simp add: w' unlink_job_def)
  have "ippJobsNo (ipp w) \<noteq> 1" using assms(1,2) by auto
  then have n: "ippJobsNo (ipp w') \<noteq> 0" by (simp add: w')
  have "ipp_wait_port startime fs w' = Done (True, startime) fs (set_in_use IppUsed w')"
    using n assms(4,5) by (subst ipp_wait_port.simps) (simp add: w' port_status_def status_def)
  with e n show ?thesis by (simp add: ippProcessJob_pass_def set_in_use_def)
qed

text \<open>Two waiting jobs, the first is cancelled.\<close>

definition some_job :: "u16 \<Rightarrow> ipp_t" where
  "some_job i = \<lparr>rd = \<lparr>ibuf = [], ipos = 0, icnt = 0, ippreq = IPP_PRINT_JOB, chunked = False, qsize = 0\<rparr>,
     DocType = IPP_BINARY_DOC, RetCode = IPP_OK, ID = [0, 0, 0, 0], Language = None, Charset = None,
     UnSupportGroup = \<lparr>pf_data = [], pf_len = 0\<rparr>, RespGroup = \<lparr>pf_data = [], pf_len = 0\<rparr>,
     job_name = Some IPP_DEFAULT_JOB_NAME, user_name = Some IPP_DEFAULT_USER_NAME,
     job_state = IPP_JOB_PENDING, job_id = i\<rparr>"

definition two_jobs :: "psys \<Rightarrow> world" where
  "two_jobs y = (conn_world y [] [])\<lparr>ipp := ippq_static\<lparr>ippObjList := [some_job 1, some_job 2], ippJobsNo := 2,
     ippProcessOn := True\<rparr>\<rparr>"

lemma upd_resp_ok: "f (RespGroup ob) = Some b' \<Longrightarrow> \<exists>b. upd_resp f ob = Inr (ob\<lparr>RespGroup := b\<rparr>)"
  by (rule exI [of _ b']) (simp add: upd_resp_def)

lemma resp_attr_ok:
  assumes "value_parts tag v = Some ps" "\<forall>(bs, n)\<in>set ps. 0 \<le> n" "length (str_of name) < 2 ^ 15"
  shows "\<exists>b. resp_attr mok tag name v ob = Inr (ob\<lparr>RespGroup := b\<rparr>)"
proof -
  have "\<exists>b'. append_all mok (([tag], 1) # put16 (len16 name) # put_text name # ps) (RespGroup ob) = Some b'"
    using assms by (intro append_all_ok) (auto simp: put16_def put_text_def len16_small)
  then show ?thesis
    unfolding resp_attr_def using assms(1) upd_resp_ok by (auto simp: ippAddAttribute_def)
qed

lemma dec_digits_length: "n < 10 ^ Suc k \<Longrightarrow> length (dec_digits n) \<le> Suc k"
proof (induction k arbitrary: n)
  case (Suc k)
  then show ?case by (subst dec_digits.simps) (use Suc.IH [of "n div 10"] Suc.prems in \<open>simp add: div_less_iff_less_mult\<close>)
qed (simp add: dec_digits.simps)

lemma job_name_length: "length (job_name_of x i) \<le> 20"
proof -
  have "unat i < 2 ^ 16" using unsigned_less [of i] by simp
  then have "length (dec_digits (unat i)) \<le> Suc 4" by (intro dec_digits_length) simp
  then show ?thesis
    by (cases x) (simp_all add: job_name_of_def prn_name_def bin_uri_def txt_ext_def job_uri_def show03_def Let_def cstr_def)
qed

text \<open>The answer to a print job never fails: its lengths are known.\<close>

lemma ippSetPrintJobResp_ok: "\<exists>b. ippSetPrintJobResp mok ob = Inr (ob\<lparr>RespGroup := b\<rparr>)"
proof -
  have tag: "\<exists>b. resp_tag mok IPP_TAG_JOB ob = Inr (ob\<lparr>RespGroup := b\<rparr>)" for ob
    using ippAppend_ok [of 1 mok "RespGroup ob" "[IPP_TAG_JOB]"] upd_resp_ok [of "\<lambda>b. ippAppend mok b [IPP_TAG_JOB] 1"]
    by (auto simp: resp_tag_def)
  have uri: "\<exists>b. resp_str mok IPP_TAG_URI (JobTempAttribTAG ! 1) (SLASH # job_name_of x i) ob = Inr (ob\<lparr>RespGroup := b\<rparr>)" for x i ob
  proof -
    have "length (str_of (SLASH # job_name_of x i)) \<le> 21"
      using job_name_length [of x i] length_takeWhile_le le_trans unfolding str_of_def by fastforce
    then show ?thesis
      unfolding resp_str_def
      by (intro resp_attr_ok) (auto simp: value_parts_def is_text_def ipp_tags put16_def put_text_def len16_small str_of_def JobTempAttribTAG_def cstr_def)
  qed
  have int: "\<exists>b. resp_attr mok IPP_TAG_INTEGER (JobTempAttribTAG ! 2) (Int_v x) ob = Inr (ob\<lparr>RespGroup := b\<rparr>)" for x ob
    by (rule resp_attr_ok) (auto simp: value_parts_def is_text_def ipp_tags put16_def put32_def JobTempAttribTAG_def str_of_def cstr_def)
  have st: "\<exists>b. resp_attr mok IPP_TAG_ENUM (JobTempAttribTAG ! 6) (Int_v x) ob = Inr (ob\<lparr>RespGroup := b\<rparr>)" for x ob
    by (rule resp_attr_ok) (auto simp: value_parts_def is_text_def ipp_tags put16_def put32_def JobTempAttribTAG_def str_of_def cstr_def)
  have bind: "\<exists>b. res_bind m k = Inr (ob\<lparr>RespGroup := b\<rparr>)"
    if "\<exists>b. m = Inr (ob\<lparr>RespGroup := b\<rparr>)" "\<And>b. \<exists>b'. k (ob\<lparr>RespGroup := b\<rparr>) = Inr (ob\<lparr>RespGroup := b'\<rparr>)" for m k and ob :: ipp_t
    using that by (auto simp: res_bind_def)
  have re: "\<exists>b'. m = Inr (ob\<lparr>RespGroup := b'\<rparr>)" if "\<exists>b'. m = Inr (ob\<lparr>RespGroup := b, RespGroup := b'\<rparr>)" for m and ob :: ipp_t and b
    using that by simp
  show ?thesis
    unfolding ippSetPrintJobResp_def by (intro bind tag re [OF uri] re [OF int] re [OF st])
qed
    

lemma cancel_first_succeeds:
  assumes "malloc_ok w" "Charset j = None" "Language j = None" "pf_data (UnSupportGroup j) = []" "length (ID j) = 4"
  shows "\<exists>w'. cancel_pending j w = Inr w'"
proof -
  let ?j = "j\<lparr>job_state := IPP_JOB_CANCEL, RetCode := IPP_SERVER_ERROR_JOB_CANCELLED\<rparr>"
  obtain b where b: "ippSetPrintJobResp True ?j = Inr (?j\<lparr>RespGroup := b\<rparr>)" using ippSetPrintJobResp_ok by blast
  have "length (ippSetRespBuf (?j\<lparr>RespGroup := b\<rparr>)) \<le> 200"
    using assms(2-) by (simp add: ippSetRespBuf_def Let_def out16_def cstr_def IPP_DEFAULT_CHARSET_def IPP_DEFAULT_LANGUAGE_def)
  then have s: "\<exists>v'. ippSendResp (?j\<lparr>RespGroup := b\<rparr>) v = Inr v'" for v
    by (simp add: ippSendResp_def Let_def)
  have "\<exists>v'. ippPrintJobClose ?j (w\<lparr>ipp := q, sent := [], obuf := []\<rparr>) = Inr v'" for q
    using s [of "w\<lparr>ipp := q, sent := [], obuf := []\<rparr>"] b assms(1) by (auto simp: ippPrintJobClose_def res_bind_def)
  then obtain v' where "ippPrintJobClose ?j (w\<lparr>ipp := (ipp w)\<lparr>ippObjList := unlink_job (job_id j) (ippObjList (ipp w)),
      ippJobsNo := ippJobsNo (ipp w) - 1\<rparr>, sent := [], obuf := []\<rparr>) = Inr v'" by blast
  then show ?thesis by (simp add: cancel_pending_def Let_def close_other_def res_bind_def)
qed

theorem ipp_cancel_head_strands_jobs_witness:
  "\<exists>w w'. map job_id (ippObjList (ipp w)) = [1, 2] \<and> cancel_pending (some_job 1) w = Inr w' \<and> ippObjList (ipp w') = [] \<and>
     ippProcessJob_pass [] [] [] 0 [] w' = Fault NullRead"
proof -
  obtain y :: psys where y: "fst (ReadPortStatus 0 (sp y)) = PORT_READY" "PrnGetPrinterStatus 0 (sp y) = PrnNoUsed"
    using attach_ready by metis
  have l: "ippObjList (ipp (two_jobs y)) = [some_job 1, some_job 2]" "ippJobsNo (ipp (two_jobs y)) = 2"
    by (simp_all add: two_jobs_def)
  obtain w' where c: "cancel_pending (some_job 1) (two_jobs y) = Inr w'"
    using cancel_first_succeeds [of "two_jobs y" "some_job 1"] by (auto simp: two_jobs_def some_job_def)
  have "port_status (two_jobs y) = PORT_READY" "status (two_jobs y) = PrnNoUsed"
    using y by (simp_all add: two_jobs_def port_status_def status_def)
  from ipp_cancel_head_strands_jobs [OF l(1) _ c this, of "[]" "[]" "[]" 0 "[]"] l
  have "ippObjList (ipp w') = []" "ippProcessJob_pass [] [] [] 0 [] w' = Fault NullRead" by simp_all
  moreover have "map job_id (ippObjList (ipp (two_jobs y))) = [1, 2]" by (simp add: l some_job_def)
  ultimately show ?thesis using c by (intro exI [of _ "two_jobs y"] exI [of _ w'] conjI)
qed

section \<open>The list of jobs\<close>

text \<open>
  What happens to the list from the boot on, with the operations of the model. A Print-Job request is checked for room
  (\<open>check\<close>) before its attributes are read, which may wait, and queued later (\<open>admit\<close>) or refused, with no second look
  at the room or at the numbers in use; \<open>k\<close> requests are in between, one at most for each of the web server's \<open>HTTP_MAX_USER\<close>
  threads. \<open>n\<close> jobs have been queued. Any job of the list may be cancelled that is neither being printed
  nor marked already; \<open>h\<close> says that this was the first job although others waited behind it, or it was just ending. The job
  being printed is marked for cancelling; the printing thread takes up the first job, changes its state when it ends, and
  removes it. In between, anything but the list may change.
\<close>

definition HTTP_MAX_USER :: nat where "HTTP_MAX_USER = 24"

definition loses_list :: "ipp_t \<Rightarrow> ippq \<Rightarrow> bool" where
  "loses_list j q \<longleftrightarrow> (case ippObjList q of [] \<Rightarrow> False
     | i # js \<Rightarrow> job_id i = job_id j \<and> (js \<noteq> [] \<or> job_state i \<noteq> IPP_JOB_PENDING))"

inductive jobs_reach :: "nat \<Rightarrow> nat \<Rightarrow> bool \<Rightarrow> world \<Rightarrow> bool" where
  boot: "ippObjList (ipp w) = [] \<Longrightarrow> ippJobsNo (ipp w) = 0 \<Longrightarrow> ippJobID (ipp w) = 0 \<Longrightarrow> jobs_reach 0 0 False w"
| other: "jobs_reach k n h w \<Longrightarrow> ippObjList (ipp w') = ippObjList (ipp w) \<Longrightarrow> ippJobsNo (ipp w') = ippJobsNo (ipp w) \<Longrightarrow>
    ippJobID (ipp w') = ippJobID (ipp w) \<Longrightarrow> jobs_reach k n h w'"
| check: "jobs_reach k n h w \<Longrightarrow> k < HTTP_MAX_USER \<Longrightarrow> ippJobsNo (ipp w) < IPP_MAX_USER \<Longrightarrow> jobs_reach (Suc k) n h w"
| refuse: "jobs_reach (Suc k) n h w \<Longrightarrow> jobs_reach k n h w"
| admit: "jobs_reach (Suc k) n h w \<Longrightarrow> queue_job s r ob w = (ob', w') \<Longrightarrow> jobs_reach k (Suc n) h w'"
| cancel: "jobs_reach k n h w \<Longrightarrow> j \<in> set (ippObjList (ipp w)) \<Longrightarrow> job_state j \<notin> {IPP_JOB_PROCESS, IPP_JOB_ABORTING} \<Longrightarrow>
    cancel_pending j w = Inr w' \<Longrightarrow> jobs_reach k n (h \<or> loses_list j (ipp w)) w'"
| abort: "jobs_reach k n h w \<Longrightarrow> deref (Some i) w = Inr j \<Longrightarrow> job_state j = IPP_JOB_PROCESS \<Longrightarrow>
    jobs_reach k n h (w\<lparr>ipp := set_state (job_id j) IPP_JOB_ABORTING (ipp w)\<rparr>)"
| print: "jobs_reach k n h w \<Longrightarrow> ippObjList (ipp w) = j # js \<Longrightarrow> st \<noteq> IPP_JOB_PENDING \<Longrightarrow>
    jobs_reach k n h (set_job_state (job_id j) st w)"
| remove: "jobs_reach k n h w \<Longrightarrow> ippObjList (ipp w) = j # js \<Longrightarrow> job_state j \<noteq> IPP_JOB_PENDING \<Longrightarrow>
    jobs_reach k n h (w\<lparr>ipp := (ipp w)\<lparr>ippObjList := js, ippJobsNo := ippJobsNo (ipp w) - 1\<rparr>\<rparr>)"

definition jobs_inv :: "nat \<Rightarrow> nat \<Rightarrow> ippq \<Rightarrow> bool" where
  "jobs_inv k n q \<longleftrightarrow> unat (ippJobsNo q) = length (ippObjList q) \<and> length (ippObjList q) + k \<le> 2 + HTTP_MAX_USER \<and>
     distinct (map job_id (ippObjList q)) \<and> (\<forall>j\<in>set (tl (ippObjList q)). job_state j = IPP_JOB_PENDING) \<and>
     (\<forall>j\<in>set (ippObjList q). job_id j \<le> ippJobID q) \<and> unat (ippJobID q) \<le> n"

lemma jobs_inv_cong:
  "jobs_inv k n q \<Longrightarrow> ippObjList q' = ippObjList q \<Longrightarrow> ippJobsNo q' = ippJobsNo q \<Longrightarrow> ippJobID q' = ippJobID q \<Longrightarrow> jobs_inv k n q'"
  by (simp add: jobs_inv_def)

lemma next_job_id_small:
  assumes "unat i < 999"
  shows "unat (next_job_id i) = Suc (unat i)" "i < next_job_id i"
proof -
  have u: "unat (i + 1) = Suc (unat i)" using assms by (simp add: unat_word_ariths)
  then have "\<not> i + 1 \<ge> 1000" using assms by (simp add: word_le_nat_alt)
  with u show "unat (next_job_id i) = Suc (unat i)" "i < next_job_id i" by (simp_all add: next_job_id_def word_less_nat_alt)
qed

lemma queue_job_inv:
  assumes "jobs_inv (Suc k) n (ipp w)" "n < 999" "queue_job s r ob w = (ob', w')"
  shows "jobs_inv k (Suc n) (ipp w')"
proof -
  let ?q = "ipp w"
  have l: "length (ippObjList ?q) \<le> 25" "unat (ippJobsNo ?q) = length (ippObjList ?q)" "unat (ippJobID ?q) < 999"
    using assms(1,2) by (auto simp: jobs_inv_def HTTP_MAX_USER_def)
  then have c: "unat (ippJobsNo ?q + 1) = Suc (unat (ippJobsNo ?q))" by (simp add: unat_word_ariths)
  note nx = next_job_id_small [OF l(3)]
  have fresh: "job_id j < next_job_id (ippJobID ?q)" if "j \<in> set (ippObjList ?q)" for j
    using assms(1) that nx(2) by (auto simp: jobs_inv_def intro: le_less_trans)
  then have "next_job_id (ippJobID ?q) \<notin> job_id ` set (ippObjList ?q)" by (force dest: fresh)
  moreover have "job_id j \<le> next_job_id (ippJobID ?q)" if "j \<in> set (ippObjList ?q)" for j
    using fresh [OF that] by (rule less_imp_le)
  ultimately show ?thesis
    using assms(1,3) c nx(1) by (cases "ippObjList ?q") (auto simp: queue_job_def jobs_inv_def Let_def split: if_splits)
qed

lemma set_state_inv:
  assumes "jobs_inv k n q" "ippObjList q = j # js"
  shows "jobs_inv k n (q\<lparr>ippObjList := map (\<lambda>k. if job_id k = job_id j then k\<lparr>job_state := st\<rparr> else k) (ippObjList q)\<rparr>)"
proof -
  have "map (\<lambda>k. if job_id k = job_id j then k\<lparr>job_state := st\<rparr> else k) js = js"
    using assms by (intro map_idI) (auto simp: jobs_inv_def, metis imageI)
  with assms show ?thesis by (simp add: jobs_inv_def)
qed

lemma unlink_tail:
  assumes "distinct (map job_id (k # js))" "j \<in> set js"
  shows "\<exists>as bs. js = as @ j # bs \<and> unlink_job (job_id j) (k # js) = k # as @ bs"
proof -
  obtain as bs where js: "js = as @ j # bs" using split_list [OF assms(2)] by blast
  have "\<forall>x\<in>set (k # as). job_id x \<noteq> job_id j" using assms(1) by (auto simp: js) (metis imageI)
  then have "takeWhile (\<lambda>x. job_id x \<noteq> job_id j) ((k # as) @ j # bs) = k # as"
    "dropWhile (\<lambda>x. job_id x \<noteq> job_id j) ((k # as) @ j # bs) = j # bs"
    by (auto simp: takeWhile_append dropWhile_append)
  with \<open>\<forall>x\<in>set (k # as). _\<close> show ?thesis unfolding js by (intro exI [of _ as] exI [of _ bs]) (auto simp: unlink_job_def)
qed

lemma dec_no: "unat (n :: u8) = Suc k \<Longrightarrow> unat (n - 1) = k"
  by (metis One_nat_def diff_Suc_1 unat_minus_one unat_0 nat.distinct(1))

lemma cancel_inv:
  assumes "jobs_inv k n (ipp w)" "j \<in> set (ippObjList (ipp w))" "\<not> loses_list j (ipp w)" "cancel_pending j w = Inr w'"
  shows "jobs_inv k n (ipp w')"
proof -
  let ?q = "(ipp w)\<lparr>ippObjList := unlink_job (job_id j) (ippObjList (ipp w)), ippJobsNo := ippJobsNo (ipp w) - 1\<rparr>"
  from assms(4) obtain c where w': "w' = w\<lparr>ipp := ?q\<lparr>closed_jobs := c\<rparr>\<rparr>"
    unfolding cancel_pending_def Let_def by (auto dest: close_other_ipp)
  obtain i js where l: "ippObjList (ipp w) = i # js" using assms(2) by (cases "ippObjList (ipp w)") auto
  show ?thesis
  proof (cases "job_id i = job_id j")
    case True
    then have "js = []" using assms(3) l by (auto simp: loses_list_def)
    with assms(1) l True show ?thesis by (auto simp: jobs_inv_def w' unlink_job_def dec_no)
  next
    case False
    then have t: "j \<in> set js" using assms(2) l by auto
    from assms(1) l have "distinct (map job_id (i # js))" by (simp add: jobs_inv_def)
    from unlink_tail [OF this t] obtain as bs where "js = as @ j # bs" "unlink_job (job_id j) (i # js) = i # as @ bs" by blast
    with assms(1) l show ?thesis by (auto simp: jobs_inv_def w' dec_no)
  qed
qed

lemma jobs_reach_inv: "jobs_reach k n h w \<Longrightarrow> \<not> h \<Longrightarrow> n \<le> 999 \<Longrightarrow> jobs_inv k n (ipp w)"
proof (induction rule: jobs_reach.induct)
  case (boot w)
  then show ?case by (simp add: jobs_inv_def)
next
  case (check k n h w)
  then show ?case by (simp add: jobs_inv_def IPP_MAX_USER_def word_less_nat_alt HTTP_MAX_USER_def)
next
  case (refuse k n h w)
  then show ?case by (simp add: jobs_inv_def)
next
  case (admit k n h w s r ob ob' w')
  then show ?case by (intro queue_job_inv [OF _ _ admit.hyps(2)]) simp_all
next
  case (cancel k n h w j w')
  then show ?case by (intro cancel_inv [OF _ cancel.hyps(2) _ cancel.hyps(4)]) simp_all
next
  case (abort k n h w i j)
  then have i: "jobs_inv k n (ipp w)" by simp
  have f: "find (\<lambda>j. job_id j = i) (ippObjList (ipp w)) = Some j" "j \<in> set (ippObjList (ipp w))"
    using abort.hyps(2) by (auto simp: deref_def or_fault_def find_Some_iff split: option.splits)
  have "j \<notin> set (tl (ippObjList (ipp w)))" using i abort.hyps(3) by (auto simp: jobs_inv_def ipp_states)
  with f(2) have "ippObjList (ipp w) = j # tl (ippObjList (ipp w))" by (cases "ippObjList (ipp w)") auto
  from set_state_inv [OF i this] show ?case by (simp add: set_state_def)
next
  case (print k n h w j js st)
  then show ?case using set_state_inv [OF _ print.hyps(2)] by (simp add: set_job_state_def upd_job_def)
next
  case (remove k n h w j js)
  then have "jobs_inv k n (ipp w)" by simp
  with remove.hyps(2) show ?case by (cases js) (auto simp: jobs_inv_def dec_no)
qed (auto elim: jobs_inv_cong)

text \<open>C34: The printing server's list of jobs stays well-formed, for the first 999 jobs after the boot, as long as nobody cancels its first job
  while others wait behind it or as it ends: \<open>ippJobsNo\<close> counts the jobs, their numbers differ, and all but the first are pending. So the
  loops that follow \<open>next\<close> for \<open>ippJobsNo - 1\<close> steps stay in the list, and a job that is being printed is the first. There may be
  more than the three jobs of \<open>IPP_MAX_USER\<close>, as requests look for room before they wait for their attributes, but never
  more than two besides those the web server's threads can bring in at once.\<close>

theorem ipp_job_list_inv:
  assumes "jobs_reach k n False w" "n \<le> 999"
  shows "unat (ippJobsNo (ipp w)) = length (ippObjList (ipp w)) \<and> length (ippObjList (ipp w)) + k \<le> 2 + HTTP_MAX_USER \<and>
    distinct (map job_id (ippObjList (ipp w))) \<and> (\<forall>j\<in>set (tl (ippObjList (ipp w))). job_state j = IPP_JOB_PENDING) \<and>
    (ippJobsNo (ipp w) \<noteq> 0 \<longrightarrow> list_covers w)"
proof -
  have i: "jobs_inv k n (ipp w)" using jobs_reach_inv [OF assms(1) _ assms(2)] by simp
  then have "list_covers w" if "ippJobsNo (ipp w) \<noteq> 0"
    using that by (auto simp: jobs_inv_def list_covers_def unat_eq_zero max_def) (metis unat_0 unat_gt_0 Suc_leI)
  with i show ?thesis by (simp add: jobs_inv_def)
qed

text \<open>Four requests find room in the empty list, and four jobs are queued.\<close>

lemma admit_next:
  assumes "jobs_reach (Suc k) n h w" "malloc_ok w"
  obtains w' where "jobs_reach k (Suc n) h w'" "malloc_ok w'" "ippJobsNo (ipp w') = ippJobsNo (ipp w) + 1"
    "ippJobID (ipp w') = next_job_id (ippJobID (ipp w))"
    "map job_id (ippObjList (ipp w')) = map job_id (ippObjList (ipp w)) @ [next_job_id (ippJobID (ipp w))]"
proof -
  define s where "s = \<lparr>fidelity = 0, pv_unsupport = False, HaveJobName = True, HaveUserName = True\<rparr>"
  obtain ob' w' where q: "queue_job s (rd (some_job 0)) (some_job 0) w = (ob', w')" by fastforce
  show ?thesis
    by (rule that [OF jobs_reach.admit [OF assms(1) q]])
      (use q assms(2) in \<open>auto simp: queue_job_def s_def Let_def\<close>)
qed

theorem ipp_job_list_inv_witness:
  "\<exists>w. jobs_reach 0 4 False w \<and> map job_id (ippObjList (ipp w)) = [1, 2, 3, 4] \<and> ippJobsNo (ipp w) = 4 \<and> list_covers w"
proof -
  let ?w = "conn_world psys_static [] []"
  have "jobs_reach 0 0 False ?w" by (rule jobs_reach.boot) (simp_all add: ippq_static_def)
  moreover have c: "jobs_reach (Suc k) n h ?w" if "jobs_reach k n h ?w" "k < 4" for k n h
    by (rule jobs_reach.check [OF that(1)]) (use that(2) in \<open>simp_all add: HTTP_MAX_USER_def ippq_static_def IPP_MAX_USER_def\<close>)
  ultimately have "jobs_reach (Suc (Suc (Suc (Suc 0)))) 0 False ?w" by simp
  then obtain a where a: "jobs_reach (Suc (Suc (Suc 0))) (Suc 0) False a" "malloc_ok a" "ippJobsNo (ipp a) = 1" "ippJobID (ipp a) = 1"
    "map job_id (ippObjList (ipp a)) = [1]"
    by (rule admit_next) (auto simp: ippq_static_def next_job_id_def)
  obtain b where b: "jobs_reach (Suc (Suc 0)) (Suc (Suc 0)) False b" "malloc_ok b" "ippJobsNo (ipp b) = 2" "ippJobID (ipp b) = 2"
    "map job_id (ippObjList (ipp b)) = [1, 2]"
    by (rule admit_next [OF a(1,2)]) (simp add: a(3-5) next_job_id_def)
  obtain c where c: "jobs_reach (Suc 0) (Suc (Suc (Suc 0))) False c" "malloc_ok c" "ippJobsNo (ipp c) = 3" "ippJobID (ipp c) = 3"
    "map job_id (ippObjList (ipp c)) = [1, 2, 3]"
    by (rule admit_next [OF b(1,2)]) (simp add: b(3-5) next_job_id_def)
  obtain d where d: "jobs_reach 0 (Suc (Suc (Suc (Suc 0)))) False d" "ippJobsNo (ipp d) = 4"
    "map job_id (ippObjList (ipp d)) = [1, 2, 3, 4]"
    by (rule admit_next [OF c(1,2)]) (simp add: c(3-5) next_job_id_def)
  have "list_covers d" using ipp_job_list_inv [OF d(1)] d(2) by simp
  moreover have "jobs_reach 0 4 False d" using d(1) by (simp add: eval_nat_numeral)
  ultimately show ?thesis using d(2,3) by (intro exI [of _ d] conjI)
qed

end
