(* ===== verification/Spec2Isabelle.thy ===== *)
theory Spec2Isabelle
  imports Print_Props Prnport_Props Asn1_Props Mib_Props Snmp_Props Snmp_Answer
    Crc32 Rawtcpd_Props Lpd_Text_Props Lpd_Props Ipp_Attr_Props Ipp_Bin_Props Ipp_Job_Props
begin

text \<open>
  Verification of the print server firmware under \<open>src/apps\<close>: the print path from the network
  daemons over the print queue to the USB printer, and the SNMP agent that manages the box.

  \<^bold>\<open>The program.\<close> The firmware runs on eCos on a 32-bit ARM. Network daemons (raw TCP, line printer
  daemon, Internet printing, and others) take print data from TCP connections, ask the print queue for free buffers,
  fill and submit them. The spooler thread takes submitted buffers in order and hands each to the
  port writer, which writes it to the USB printer; a third thread watches the printer and reports
  alerts. Every job is entered in a job log. The SNMP agent answers queries about the box and its
  printer, changes its configuration and sends traps.

  \<^bold>\<open>Theories and sources.\<close> Each theory opens with the files and functions it models; the definitions
  have the source's names.

    \<^item> \<open>PS_Prelude\<close>: types of the C code, memory as a function from addresses to bytes, shared lemmas.
      \<open>Cstring\<close>: string helpers of \<open>ps/common/src/psmain.c\<close>.
    \<^item> \<open>Spool_State\<close>, \<open>Prnqueue\<close>: \<open>spooler/src/prnqueue.c\<close>, ten buffers of each port on two intrusive
      lists (free, output). \<open>Buffer_Pool\<close> is its interface to clients, a locale that \<open>Prnqueue\<close>
      interprets as \<open>pq\<close>. \<open>Prnqueue_Props\<close>: the invariant \<open>pq_inv\<close>, order and conservation of buffers.
    \<^item> \<open>Prnport\<close>: \<open>spooler/src/prnport.c\<close> and the attach hooks of \<open>usb_host/src/printer.c\<close>.
      \<open>Prnport_Props\<close>: status, device identification, watching, plugging.
    \<^item> \<open>Print_System\<close>: clients, spooler, writer and watcher as a step relation \<open>pp_reach\<close>.
      \<open>Print_Path\<close>, \<open>Print_Props\<close>: the invariant \<open>pp_inv\<close>: what was printed or lost, in its order, followed by what is
      queued is what was submitted. A block is lost when the writer leaves its loop on the clock with the block
      outstanding, or writes it while no printer is attached; \<open>lost\<close> records these blocks. A writer that is not timed out drains the queue.
    \<^item> \<open>Joblog\<close>: \<open>ps/psutility/joblog.c\<close>, refined to an unbounded history. \<open>Crc32\<close>: \<open>ps/common/src/crc32.c\<close>
      against the bit-serial division. \<open>Crlf\<close>: \<open>ProcessCRLF\<close> of \<open>ps/ippd/src/ippd.c\<close>.
      \<open>Eof_Page\<close>: \<open>SendEOF\<close> of \<open>ps/novell/src/nps3.c\<close>.
    \<^item> \<open>Net_Conn\<close>: what a daemon sees of a connection (\<open>tcpip/src/sockets.c\<close>, \<open>api_lib.c\<close>) and of other
      threads. \<open>Net_Job\<close>: the contract \<open>other_thread\<close>, a locale, and the rules of a daemon's run under
      it. \<open>Net_Threads\<close>: the interpretations of the contract on the spooler, the writer, plugging, the clock
      and the arrival of data. \<open>Net_Start\<close>: an initial state for witnesses.
    \<^item> \<open>Rawtcpd\<close>, \<open>Rawtcpd_Props\<close>: \<open>ps/rawtcpd/rawtcpd.c\<close>.
    \<^item> \<open>Lpd_Parse\<close>, \<open>Lpd_Data\<close>, \<open>Lpd\<close>, \<open>Lpd_Job\<close>: \<open>ps/lpd/src/lpd.c\<close>, from parsing over the files of a
      job to the job's thread and the handling of an accepted connection. \<open>Lpd_File_Props\<close>,
      \<open>Lpd_Text_Props\<close>, \<open>Lpd_Props\<close>: binary and text files, the hold on the port, control files.
    \<^item> \<open>Ipp_State\<close>, \<open>Ipp_Read\<close>, \<open>Ipp_Attr\<close>, \<open>Ipp_Req\<close>, \<open>Ipp_Cmd\<close>, \<open>Ipp_Job\<close>: \<open>ps/ippd/src/ippd.c\<close> with the parts of
      \<open>http_zot/src/httpd.c\<close> under it: the data; buffered input and the body of a request, plain or in
      chunks; attributes; names, list of jobs and the answer; the operations and \<open>ippd\<close>, which handles one
      request; the printing thread (\<open>ippProcessJob\<close> by one pass of its loop). A pointer to a job is its
      number, and following one that is no longer listed is the fault \<open>Dangling\<close>. \<open>Ipp_Stream\<close> relates the
      input to the bytes of the connection; \<open>Ipp_Attr_Props\<close>: types and round trip of attributes;
      \<open>Ipp_Bin_Props\<close>: binary documents; \<open>Ipp_Job_Props\<close>: the list of jobs, reached by the steps \<open>jobs_reach\<close>.
    \<^item> \<open>Asn1\<close>, \<open>Asn1_Props\<close>: \<open>snmp/src/asn1.c\<close> over an explicit byte buffer.
    \<^item> \<open>Mib\<close>, \<open>Mib_Vars\<close>, \<open>Mib_Handlers\<close>, \<open>Mib_Write\<close>: \<open>snmp/src/snmpvars.c\<close>. The search is verified
      against the locale \<open>mib_view\<close> (\<open>Mib_Search\<close>), which the tables that \<open>snmp_vars_init\<close> registers
      satisfy (\<open>Mib_Tree\<close>, \<open>Mib_Contract\<close>); \<open>Mib_Frame\<close> says what a search changes; \<open>Mib_Props\<close>.
    \<^item> \<open>Snmp_State\<close>, \<open>Snmp_Msg\<close>, \<open>Snmp_Agent\<close>, \<open>Snmp_Trap\<close>: \<open>snmp/src\<close> \<open>snmp.c\<close>, \<open>snmp_api.c\<close>, \<open>snmpaget.c\<close>,
      \<open>snmptrap.c\<close>, \<open>snmpd.c\<close>. \<open>Snmp_Codec\<close>, \<open>Snmp_Get\<close>, \<open>Snmp_Frame\<close> are the lemmas on messages,
      answers and effects; \<open>Snmp_Answer\<close>, \<open>Snmp_Props\<close>, \<open>Snmp_Trap_Props\<close> the properties.

  \<^bold>\<open>State and effects.\<close> The globals of each component are a record; an operation takes and returns it.
  Buffer contents and protocol data are bytes (\<open>8 word\<close>), counters have the width of their C type
  and wrap around. A memory error of the C code is a value (\<^const>\<open>Fault\<close>, or \<^const>\<open>None\<close>), never undefined.
  Memory that is read before it is written is a parameter (\<open>junk_time\<close>, \<open>junk_status\<close>, \<open>junk_text\<close>,
  \<open>at_null\<close>, \<open>mem\<close>, \<open>junk\<close>, \<open>heap\<close>), so the theorems hold whatever it contains.

  \<^bold>\<open>Scheduling.\<close> The threads have one priority and do not share time slices, so they change only
  where one yields or waits. In \<open>Print_System\<close> a step is one pass of a thread's loop. For a daemon the
  rest of the system is a schedule: the list of what happens at its successive waiting points, any
  functions that satisfy \<open>other_thread\<close> (they keep the invariant of the print path, do not touch the
  daemon's buffers and do not lose or invent received bytes: the connection does not fail, no receive
  timeout passes and there is memory to receive). A schedule is finite; a run that
  exhausts it waits (\<^const>\<open>Blocked\<close>), and \<open>waits\<close> says that it has then submitted a prefix. For an
  Internet printing job the schedule also keeps the job listed and counted, and its state among those given
  (\<open>keeps (served S i)\<close>).

  \<^bold>\<open>Termination and bounds.\<close> Every loop is structural, or a \<open>function\<close> with a measure: the schedule and
  the received data (\<open>pot\<close>), the remaining bytes, the tables. Only the agent's loop over the bindings of a request (\<open>var_op_loop\<close>,
  and with it \<open>parse_var_op_list\<close>, \<open>snmp_agent_parse\<close> and \<open>snmp_read\<close>) takes fuel and gives \<^const>\<open>None\<close> without it: a
  binding is not known to move the parser forward when its length overflows. For the requests of
  \<open>get_response\<close> and \<open>get_missing\<close> as much fuel as there are bindings is proved enough. The threads' endless
  loops are modelled by their bodies. There are ten buffers of 10220 bytes, one port and
  twenty log entries, as in the configuration built.

  \<^bold>\<open>Not modelled.\<close> Drivers and protocol stacks of others (wireless, USB host, lwIP, AppleTalk, SMB, mDNS),
  the NetWare and Windows print servers, the web server (its pages, and the accepting
  of connections and parsing of request lines and headers that precede \<open>ippd\<close>), telnet and TFTP
  configuration, start-up code and hardware access. Of the printer driver, the exchange with a Sharp AR-M207
  (\<open>usbprn_open\<close>, \<open>usbprn_close\<close> and the release of its read requests) is left out, and the print path is about
  other printers; it is also without \<open>PrnPrintPattern\<close>, after which the port prints nothing (\<open>Prnport_Props\<close>).
\<close>

end
